(* ===== verification/Prelude.thy ===== *)
theory Prelude
  imports Main
begin

text \<open>
  Shared foundations of the development.

  \<^item> \<open>result\<close>: what a Go call returns.  \<open>Ok\<close> is a normal return, \<open>Err\<close> a non-nil
    \<open>error\<close>, \<open>Panic\<close> a run-time panic (nil dereference, index out of range).
  \<^item> \<open>go\<close>: a Go function that mutates objects reachable through pointers and talks to the API
    server.  It maps a state to a result and the state it leaves behind; the state is kept on
    the error paths too, because Go code that returns an error does not undo its writes.
  \<^item> The combinators \<open>ret\<close>, \<open>throw\<close>, \<open>bind\<close>, \<open>attempt\<close>, \<open>foldE\<close>, \<open>loopE\<close>
    are the control flow of the source: return, \<open>return err\<close>, sequencing with
    \<open>if err != nil { return err }\<close>, binding \<open>err\<close> to inspect it, and \<open>for ... range\<close>
    without and with an early \<open>return\<close> or \<open>break\<close>.
  \<^item> \<open>wp\<close> (weakest precondition) and \<open>frame\<close> (a reflexive and transitive relation between
    the states before and after) are the two calculi the component proofs use; their rules are
    collected in \<open>wp\<close> and \<open>frame\<close>.
  \<^item> Generic facts about lists and maps.
\<close>

section \<open>Results and errors\<close>

text \<open>
  The errors the controllers tell apart: \<open>k8serrors.IsNotFound\<close>,
  \<open>k8serrors.IsAlreadyExists\<close>, \<open>meta.IsNoMatchError\<close>, the sentinel
  \<open>errConflictingMigration\<close>, every other API error, and errors made by
  \<open>fmt.Errorf\<close> without and with a wrapped cause.
\<close>

datatype goerr =
    NotFoundErr string
  | AlreadyExistsErr string
  | NoMatchErr string
  | ApiErr string
  | PlainErr string
  | WrapErr string goerr
  | ConflictingMigrationErr

fun IsNotFound :: "goerr \<Rightarrow> bool" where
  "IsNotFound (NotFoundErr _) = True"
| "IsNotFound (WrapErr _ e) = IsNotFound e"
| "IsNotFound _ = False"

fun IsAlreadyExists :: "goerr \<Rightarrow> bool" where
  "IsAlreadyExists (AlreadyExistsErr _) = True"
| "IsAlreadyExists (WrapErr _ e) = IsAlreadyExists e"
| "IsAlreadyExists _ = False"

fun IsNoMatchError :: "goerr \<Rightarrow> bool" where
  "IsNoMatchError (NoMatchErr _) = True"
| "IsNoMatchError (WrapErr _ e) = IsNoMatchError e"
| "IsNoMatchError _ = False"

text \<open>\<open>err.Error()\<close>; a wrapped error prints its prefix and its cause.\<close>

fun errText :: "goerr \<Rightarrow> string" where
  "errText (NotFoundErr m) = m"
| "errText (AlreadyExistsErr m) = m"
| "errText (NoMatchErr m) = m"
| "errText (ApiErr m) = m"
| "errText (PlainErr m) = m"
| "errText (WrapErr p e) = p @ errText e"
| "errText ConflictingMigrationErr = ''conflicting unowned migration''"

datatype 'a result = Ok 'a | Err goerr | Panic string

type_synonym ('s, 'a) go = "'s \<Rightarrow> 'a result \<times> 's"

section \<open>Control flow\<close>

definition ret :: "'a \<Rightarrow> ('s, 'a) go" where
  "ret x = (\<lambda>s. (Ok x, s))"

definition throw :: "goerr \<Rightarrow> ('s, 'a) go" where
  "throw e = (\<lambda>s. (Err e, s))"

definition panic :: "string \<Rightarrow> ('s, 'a) go" where
  "panic p = (\<lambda>s. (Panic p, s))"

definition bind :: "('s, 'a) go \<Rightarrow> ('a \<Rightarrow> ('s, 'b) go) \<Rightarrow> ('s, 'b) go" where
  "bind m f = (\<lambda>s. case m s of
      (Ok x, s') \<Rightarrow> f x s'
    | (Err e, s') \<Rightarrow> (Err e, s')
    | (Panic p, s') \<Rightarrow> (Panic p, s'))"

definition andThen :: "('s, 'a) go \<Rightarrow> ('s, 'b) go \<Rightarrow> ('s, 'b) go" where
  "andThen m k = bind m (\<lambda>_. k)"

text \<open>\<open>attempt m\<close> is \<open>v, err := m\<close>: the error becomes a value, a panic still propagates.\<close>

definition attempt :: "('s, 'a) go \<Rightarrow> ('s, goerr + 'a) go" where
  "attempt m = (\<lambda>s. case m s of
      (Ok x, s') \<Rightarrow> (Ok (Inr x), s')
    | (Err e, s') \<Rightarrow> (Ok (Inl e), s')
    | (Panic p, s') \<Rightarrow> (Panic p, s'))"

definition gets :: "('s \<Rightarrow> 'a) \<Rightarrow> ('s, 'a) go" where
  "gets f = (\<lambda>s. (Ok (f s), s))"

definition modify :: "('s \<Rightarrow> 's) \<Rightarrow> ('s, unit) go" where
  "modify f = (\<lambda>s. (Ok (), f s))"

text \<open>A pure computation that may fail, run inside \<open>go\<close>.\<close>

definition liftR :: "'a result \<Rightarrow> ('s, 'a) go" where
  "liftR r = (\<lambda>s. (r, s))"

text \<open>Dereferencing a pointer: nil panics.\<close>

definition deref :: "'a option \<Rightarrow> 'a result" where
  "deref p = (case p of None \<Rightarrow> Panic ''nil pointer dereference'' | Some x \<Rightarrow> Ok x)"

text \<open>Slice indexing: an index out of range panics.\<close>

definition index :: "'a list \<Rightarrow> nat \<Rightarrow> 'a result" where
  "index xs i = (if i < length xs then Ok (xs ! i) else Panic ''index out of range'')"

text \<open>A loop that carries its local variables in an accumulator.\<close>

primrec foldE :: "('x \<Rightarrow> 'a \<Rightarrow> ('s, 'a) go) \<Rightarrow> 'x list \<Rightarrow> 'a \<Rightarrow> ('s, 'a) go" where
  "foldE f [] a = ret a"
| "foldE f (x # xs) a = bind (f x a) (foldE f xs)"

text \<open>A loop whose body may leave it: \<open>Next\<close> goes on, \<open>Leave\<close> is a \<open>return\<close> or \<open>break\<close>.\<close>

datatype ('a, 'r) flow = Next 'a | Leave 'r

primrec loopE :: "('x \<Rightarrow> 'a \<Rightarrow> ('s, ('a, 'r) flow) go) \<Rightarrow> 'x list \<Rightarrow> 'a \<Rightarrow> ('s, ('a, 'r) flow) go"
where
  "loopE f [] a = ret (Next a)"
| "loopE f (x # xs) a = bind (f x a) (\<lambda>v. case v of Next a' \<Rightarrow> loopE f xs a' | Leave r \<Rightarrow> ret (Leave r))"

text \<open>The same two loops over the pure part of the code, on \<open>result\<close> alone.\<close>

primrec bindR :: "'a result \<Rightarrow> ('a \<Rightarrow> 'b result) \<Rightarrow> 'b result" where
  "bindR (Ok x) f = f x"
| "bindR (Err e) f = Err e"
| "bindR (Panic p) f = Panic p"

primrec mapR :: "('x \<Rightarrow> 'y result) \<Rightarrow> 'x list \<Rightarrow> 'y list result" where
  "mapR f [] = Ok []"
| "mapR f (x # xs) = bindR (f x) (\<lambda>y. bindR (mapR f xs) (\<lambda>ys. Ok (y # ys)))"

section \<open>Weakest preconditions\<close>

named_theorems wp "weakest precondition of each combinator, as rewrite rules"
named_theorems run "what each combinator computes on a given state"

definition wp :: "('s, 'a) go \<Rightarrow> ('a result \<Rightarrow> 's \<Rightarrow> bool) \<Rightarrow> 's \<Rightarrow> bool" where
  "wp m Q s = (case m s of (r, s') \<Rightarrow> Q r s')"

lemma run_ret [run]: "ret x s = (Ok x, s)"
  by (simp add: ret_def)

lemma run_throw [run]: "throw e s = (Err e, s)"
  by (simp add: throw_def)

lemma run_panic [run]: "panic p s = (Panic p, s)"
  by (simp add: panic_def)

lemma run_gets [run]: "gets f s = (Ok (f s), s)"
  by (simp add: gets_def)

lemma run_modify [run]: "modify f s = (Ok (), f s)"
  by (simp add: modify_def)

lemma run_liftR [run]: "liftR r s = (r, s)"
  by (simp add: liftR_def)

lemma run_bind [run]:
  "bind m f s = (case m s of
      (Ok x, s') \<Rightarrow> f x s'
    | (Err e, s') \<Rightarrow> (Err e, s')
    | (Panic p, s') \<Rightarrow> (Panic p, s'))"
  by (simp add: bind_def)

lemma run_attempt [run]:
  "attempt m s = (case m s of
      (Ok x, s') \<Rightarrow> (Ok (Inr x), s')
    | (Err e, s') \<Rightarrow> (Ok (Inl e), s')
    | (Panic p, s') \<Rightarrow> (Panic p, s'))"
  by (simp add: attempt_def)

lemma bind_ret [simp]: "bind (ret x) f = f x"
  by (rule ext) (simp add: run)

lemma bind_throw [simp]: "bind (throw e) f = throw e"
  by (rule ext) (simp add: run)

lemma bind_panic [simp]: "bind (panic p) f = panic p"
  by (rule ext) (simp add: run)

lemma bind_assoc: "bind (bind m f) g = bind m (\<lambda>x. bind (f x) g)"
  by (rule ext) (simp add: run_bind split: prod.splits result.splits)

lemma attempt_ret [simp]: "attempt (ret x) = ret (Inr x)"
  by (rule ext) (simp add: run)

lemma attempt_throw [simp]: "attempt (throw e) = ret (Inl e)"
  by (rule ext) (simp add: run)

lemma wp_ret [wp]: "wp (ret x) Q s = Q (Ok x) s"
  by (simp add: wp_def run)

lemma wp_throw [wp]: "wp (throw e) Q s = Q (Err e) s"
  by (simp add: wp_def run)

lemma wp_panic [wp]: "wp (panic p) Q s = Q (Panic p) s"
  by (simp add: wp_def run)

lemma wp_gets [wp]: "wp (gets f) Q s = Q (Ok (f s)) s"
  by (simp add: wp_def run)

lemma wp_modify [wp]: "wp (modify f) Q s = Q (Ok ()) (f s)"
  by (simp add: wp_def run)

lemma wp_liftR [wp]: "wp (liftR r) Q s = Q r s"
  by (simp add: wp_def run)

text \<open>How a result continues in a sequence: the failures skip the continuation.\<close>

fun next_wp :: "('a \<Rightarrow> 's \<Rightarrow> bool) \<Rightarrow> ('b result \<Rightarrow> 's \<Rightarrow> bool) \<Rightarrow> 'a result \<Rightarrow> 's \<Rightarrow> bool" where
  "next_wp k Q (Ok x) s = k x s"
| "next_wp k Q (Err e) s = Q (Err e) s"
| "next_wp k Q (Panic p) s = Q (Panic p) s"

fun reify :: "'a result \<Rightarrow> (goerr + 'a) result" where
  "reify (Ok x) = Ok (Inr x)"
| "reify (Err e) = Ok (Inl e)"
| "reify (Panic p) = Panic p"

lemma wp_bind [wp]: "wp (bind m f) Q s = wp m (next_wp (\<lambda>x. wp (f x) Q) Q) s"
  by (simp add: wp_def run_bind split: prod.splits result.splits)

lemma wp_andThen [wp]: "wp (andThen m k) Q s = wp m (next_wp (\<lambda>_. wp k Q) Q) s"
  by (simp add: andThen_def wp_bind)

lemma wp_attempt [wp]: "wp (attempt m) Q s = wp m (\<lambda>r. Q (reify r)) s"
  by (simp add: wp_def run_attempt split: prod.splits result.splits)

lemma wp_if [wp]: "wp (if b then m else n) Q s = (if b then wp m Q s else wp n Q s)"
  by simp

lemma wp_case_option [wp]:
  "wp (case v of None \<Rightarrow> m | Some x \<Rightarrow> f x) Q s = (case v of None \<Rightarrow> wp m Q s | Some x \<Rightarrow> wp (f x) Q s)"
  by (simp split: option.splits)

lemma wp_case_sum [wp]:
  "wp (case v of Inl e \<Rightarrow> m e | Inr x \<Rightarrow> f x) Q s = (case v of Inl e \<Rightarrow> wp (m e) Q s | Inr x \<Rightarrow> wp (f x) Q s)"
  by (simp split: sum.splits)

lemma wp_mono: "wp m Q s \<Longrightarrow> (\<And>r s'. Q r s' \<Longrightarrow> Q' r s') \<Longrightarrow> wp m Q' s"
  by (auto simp: wp_def split: prod.splits)

lemma wp_conj: "wp m (\<lambda>r s. P r s \<and> Q r s) s \<longleftrightarrow> wp m P s \<and> wp m Q s"
  by (auto simp: wp_def split: prod.splits)

lemma wp_run: "wp m Q s \<Longrightarrow> m s = (r, s') \<Longrightarrow> Q r s'"
  by (simp add: wp_def)

lemma wpI: "(\<And>r s'. m s = (r, s') \<Longrightarrow> Q r s') \<Longrightarrow> wp m Q s"
  by (simp add: wp_def split: prod.splits)

lemma wp_snd: "wp m (\<lambda>_. Q) s \<longleftrightarrow> Q (snd (m s))"
  by (simp add: wp_def split: prod.splits)

text \<open>
  The loop rule: an invariant \<open>I\<close> over the elements still to come, the accumulator and the
  state, and the postcondition \<open>Q\<close> for the failures of the body.
\<close>

lemma wp_foldE:
  assumes "I xs a s"
    and "\<And>x ys b t. I (x # ys) b t \<Longrightarrow> wp (f x b) (next_wp (\<lambda>c u. I ys c u) Q) t"
    and "\<And>b t. I [] b t \<Longrightarrow> Q (Ok b) t"
  shows "wp (foldE f xs a) Q s"
  using assms(1)
proof (induction xs arbitrary: a s)
  case Nil
  then show ?case by (simp add: wp_ret assms(3))
next
  case (Cons x xs)
  from assms(2)[OF Cons.prems] show ?case
    unfolding foldE.simps wp_bind
  proof (rule wp_mono)
    fix r s'
    assume "next_wp (\<lambda>c u. I xs c u) Q r s'"
    then show "next_wp (\<lambda>x. wp (foldE f xs x) Q) Q r s'"
      by (cases r) (simp_all add: Cons.IH)
  qed
qed

lemma wp_loopE:
  assumes "I xs a s"
    and "\<And>x ys b t. I (x # ys) b t \<Longrightarrow>
      wp (f x b) (next_wp (\<lambda>v u. case v of Next c \<Rightarrow> I ys c u | Leave r \<Rightarrow> Q (Ok (Leave r)) u) Q) t"
    and "\<And>b t. I [] b t \<Longrightarrow> Q (Ok (Next b)) t"
  shows "wp (loopE f xs a) Q s"
  using assms(1)
proof (induction xs arbitrary: a s)
  case Nil
  then show ?case by (simp add: wp_ret assms(3))
next
  case (Cons x xs)
  from assms(2)[OF Cons.prems] show ?case
    unfolding loopE.simps wp_bind
  proof (rule wp_mono)
    fix r s'
    assume "next_wp (\<lambda>v u. case v of Next c \<Rightarrow> I xs c u | Leave r \<Rightarrow> Q (Ok (Leave r)) u) Q r s'"
    then show "next_wp (\<lambda>v. wp (case v of Next a' \<Rightarrow> loopE f xs a' | Leave r \<Rightarrow> ret (Leave r)) Q) Q r s'"
      by (cases r) (auto simp: Cons.IH wp_ret split: flow.splits)
  qed
qed

section \<open>Frames\<close>

text \<open>
  \<open>frame R m\<close>: whatever \<open>m\<close> returns, the state it leaves is related to the state it started
  from by \<open>R\<close>.  For a reflexive and transitive \<open>R\<close> the property is compositional, so a whole
  handler has it as soon as its atomic steps have it.
\<close>

named_theorems frame "introduction rules for frame"

definition frame :: "('s \<Rightarrow> 's \<Rightarrow> bool) \<Rightarrow> ('s, 'a) go \<Rightarrow> bool" where
  "frame R m \<longleftrightarrow> (\<forall>s. R s (snd (m s)))"

definition preorder_rel :: "('s \<Rightarrow> 's \<Rightarrow> bool) \<Rightarrow> bool" where
  "preorder_rel R \<longleftrightarrow> reflp R \<and> transp R"

lemma frameD: "frame R m \<Longrightarrow> m s = (r, s') \<Longrightarrow> R s s'"
  by (metis frame_def snd_conv)

lemma frameD2: "frame R m \<Longrightarrow> R s (snd (m s))"
  by (simp add: frame_def)

lemma frameI: "(\<And>s r s'. m s = (r, s') \<Longrightarrow> R s s') \<Longrightarrow> frame R m"
  by (simp add: frame_def prod_eq_iff)

lemma preorder_refl: "preorder_rel R \<Longrightarrow> R s s"
  by (simp add: preorder_rel_def reflpD)

lemma preorder_trans: "preorder_rel R \<Longrightarrow> R s t \<Longrightarrow> R t u \<Longrightarrow> R s u"
  by (auto simp: preorder_rel_def dest: transpD)

lemma frame_wp: "frame R m \<Longrightarrow> wp m (\<lambda>r s'. R s s') s"
  by (simp add: wp_snd frame_def)

lemma frame_weaken: "frame R m \<Longrightarrow> (\<And>s t. R s t \<Longrightarrow> R' s t) \<Longrightarrow> frame R' m"
  by (simp add: frame_def)

lemma frame_ret [frame]: "preorder_rel R \<Longrightarrow> frame R (ret x)"
  by (simp add: frame_def preorder_refl run)

lemma frame_throw [frame]: "preorder_rel R \<Longrightarrow> frame R (throw e)"
  by (simp add: frame_def preorder_refl run)

lemma frame_panic [frame]: "preorder_rel R \<Longrightarrow> frame R (panic p)"
  by (simp add: frame_def preorder_refl run)

lemma frame_gets [frame]: "preorder_rel R \<Longrightarrow> frame R (gets f)"
  by (simp add: frame_def preorder_refl run)

lemma frame_liftR [frame]: "preorder_rel R \<Longrightarrow> frame R (liftR r)"
  by (simp add: frame_def preorder_refl run)

lemma frame_modify: "(\<And>s. R s (f s)) \<Longrightarrow> frame R (modify f)"
  by (simp add: frame_def run)

text \<open>The continuation may rely on what the first part can return.\<close>

lemma frame_bind_result:
  assumes "preorder_rel R" "frame R m" "\<And>s x t. m s = (Ok x, t) \<Longrightarrow> frame R (f x)"
  shows "frame R (bind m f)"
proof (rule frameI)
  fix s r s'
  assume run: "bind m f s = (r, s')"
  obtain q t where m: "m s = (q, t)" by fastforce
  with assms(2) have st: "R s t" by (rule frameD)
  show "R s s'"
  proof (cases q)
    case (Ok x)
    with run m have "f x t = (r, s')" by (simp add: run_bind)
    then have "R t s'" using assms(3)[of s x t] m Ok by (auto dest: frameD)
    with st show ?thesis by (rule preorder_trans[OF assms(1)])
  qed (use run m st in \<open>simp_all add: run_bind\<close>)
qed

lemma frame_bind [frame]:
  assumes "preorder_rel R" "frame R m" "\<And>x. frame R (f x)"
  shows "frame R (bind m f)"
  using assms by (rule frame_bind_result)

lemma frame_andThen [frame]:
  "preorder_rel R \<Longrightarrow> frame R m \<Longrightarrow> frame R k \<Longrightarrow> frame R (andThen m k)"
  by (simp add: andThen_def frame_bind)

lemma frame_attempt [frame]: "frame R m \<Longrightarrow> frame R (attempt m)"
  by (auto simp: run_attempt intro!: frameI dest: frameD split: prod.splits result.splits)

lemma frame_if [frame]: "(b \<Longrightarrow> frame R m) \<Longrightarrow> (\<not> b \<Longrightarrow> frame R n) \<Longrightarrow> frame R (if b then m else n)"
  by simp

lemma frame_case_option [frame]:
  "(v = None \<Longrightarrow> frame R m) \<Longrightarrow> (\<And>x. v = Some x \<Longrightarrow> frame R (f x)) \<Longrightarrow>
   frame R (case v of None \<Rightarrow> m | Some x \<Rightarrow> f x)"
  by (simp split: option.splits)

lemma frame_case_sum [frame]:
  "(\<And>e. v = Inl e \<Longrightarrow> frame R (m e)) \<Longrightarrow> (\<And>x. v = Inr x \<Longrightarrow> frame R (f x)) \<Longrightarrow>
   frame R (case v of Inl e \<Rightarrow> m e | Inr x \<Rightarrow> f x)"
  by (simp split: sum.splits)

lemma frame_case_prod [frame]:
  "(\<And>x y. v = (x, y) \<Longrightarrow> frame R (f x y)) \<Longrightarrow> frame R (case v of (x, y) \<Rightarrow> f x y)"
  by (simp split: prod.splits)

lemma frame_case_flow [frame]:
  "(\<And>a. v = Next a \<Longrightarrow> frame R (m a)) \<Longrightarrow> (\<And>x. v = Leave x \<Longrightarrow> frame R (f x)) \<Longrightarrow>
   frame R (case v of Next a \<Rightarrow> m a | Leave x \<Rightarrow> f x)"
  by (simp split: flow.splits)

lemma frame_Let [frame]: "frame R (f v) \<Longrightarrow> frame R (let x = v in f x)"
  by simp

lemma frame_foldE [frame]:
  assumes "preorder_rel R" "\<And>x a. x \<in> set xs \<Longrightarrow> frame R (f x a)"
  shows "frame R (foldE f xs a)"
  using assms(2)
  by (induction xs arbitrary: a) (auto intro!: frame_ret frame_bind assms(1))

lemma frame_loopE [frame]:
  assumes "preorder_rel R" "\<And>x a. x \<in> set xs \<Longrightarrow> frame R (f x a)"
  shows "frame R (loopE f xs a)"
  using assms(2)
  by (induction xs arbitrary: a) (auto intro!: frame_ret frame_bind frame_case_flow assms(1))

lemma preorder_relI:
  "(\<And>s. R s s) \<Longrightarrow> (\<And>s t u. R s t \<Longrightarrow> R t u \<Longrightarrow> R s u) \<Longrightarrow> preorder_rel R"
  by (auto simp: preorder_rel_def intro: reflpI transpI)

lemma preorder_inv [frame]: "preorder_rel (\<lambda>s t. I s \<longrightarrow> I t)"
  by (rule preorder_relI) auto

lemma preorder_eq [frame]: "preorder_rel (\<lambda>s t. g t = g s)"
  by (rule preorder_relI) auto

section \<open>Returned values\<close>

text \<open>\<open>gives m Q\<close>: every value \<open>m\<close> can return satisfies \<open>Q\<close>, whatever the state.\<close>

definition gives :: "('s, 'a) go \<Rightarrow> ('a \<Rightarrow> bool) \<Rightarrow> bool" where
  "gives m Q \<longleftrightarrow> (\<forall>s x t. m s = (Ok x, t) \<longrightarrow> Q x)"

lemma givesD: "gives m Q \<Longrightarrow> m s = (Ok x, t) \<Longrightarrow> Q x"
  unfolding gives_def by blast

lemma gives_any: "gives m (\<lambda>_. True)"
  by (simp add: gives_def)

lemma gives_ret: "Q x \<Longrightarrow> gives (ret x) Q"
  by (simp add: gives_def run)

lemma gives_throw: "gives (throw e) Q"
  by (simp add: gives_def run)

lemma gives_bind: "gives m P \<Longrightarrow> (\<And>x. P x \<Longrightarrow> gives (f x) Q) \<Longrightarrow> gives (bind m f) Q"
  unfolding gives_def run_bind by (auto split: prod.splits result.splits) blast

lemma gives_loopE:
  assumes "I xs a"
    and "\<And>x ys b. I (x # ys) b \<Longrightarrow> gives (f x b) (\<lambda>v. case v of Next c \<Rightarrow> I ys c | Leave r \<Rightarrow> L r)"
  shows "gives (loopE f xs a) (\<lambda>v. case v of Next c \<Rightarrow> I [] c | Leave r \<Rightarrow> L r)"
  using assms(1)
proof (induction xs arbitrary: a)
  case (Cons x xs)
  show ?case
    unfolding loopE.simps
  proof (rule gives_bind[OF assms(2)[OF Cons.prems]])
    fix v
    assume "case v of Next c \<Rightarrow> I xs c | Leave r \<Rightarrow> L r"
    then show "gives (case v of Next a' \<Rightarrow> loopE f xs a' | Leave r \<Rightarrow> ret (Leave r)) (\<lambda>v. case v of Next c \<Rightarrow> I [] c | Leave r \<Rightarrow> L r)"
      by (cases v) (simp_all add: Cons.IH gives_ret)
  qed
qed (simp add: gives_ret)

section \<open>Pure results\<close>

lemma mapR_length: "mapR f xs = Ok ys \<Longrightarrow> length ys = length xs"
proof (induction xs arbitrary: ys)
  case (Cons x xs)
  then show ?case
    by (cases "f x"; cases "mapR f xs") auto
qed simp

lemma mapR_nth: "mapR f xs = Ok ys \<Longrightarrow> i < length xs \<Longrightarrow> f (xs ! i) = Ok (ys ! i)"
proof (induction xs arbitrary: ys i)
  case (Cons x xs)
  then show ?case
    by (cases "f x"; cases "mapR f xs"; cases i) auto
qed simp

lemma mapR_Ok: "(\<And>x. x \<in> set xs \<Longrightarrow> f x = Ok (g x)) \<Longrightarrow> mapR f xs = Ok (map g xs)"
  by (induction xs) auto

lemma bindR_eq_Ok: "bindR r f = Ok y \<longleftrightarrow> (\<exists>x. r = Ok x \<and> f x = Ok y)"
  by (cases r) auto

lemma deref_eq_Ok: "deref p = Ok x \<longleftrightarrow> p = Some x"
  by (auto simp: deref_def split: option.splits)

lemma index_eq_Ok: "index xs i = Ok x \<longleftrightarrow> i < length xs \<and> x = xs ! i"
  by (auto simp: index_def)

section \<open>Lists\<close>

text \<open>The key-to-value view of a list searched from the front.\<close>

definition keyed :: "('a \<Rightarrow> 'k) \<Rightarrow> 'a list \<Rightarrow> 'k \<rightharpoonup> 'a" where
  "keyed key xs k = find (\<lambda>x. key x = k) xs"

lemma keyed_Nil [simp]: "keyed key [] = Map.empty"
  by (rule ext) (simp add: keyed_def)

lemma keyed_Cons [simp]: "keyed key (x # xs) = (keyed key xs)(key x \<mapsto> x)"
  by (rule ext) (auto simp: keyed_def)

lemma keyed_SomeD: "keyed key xs k = Some x \<Longrightarrow> x \<in> set xs \<and> key x = k"
  by (auto simp: keyed_def find_Some_iff)

lemma keyed_None: "keyed key xs k = None \<longleftrightarrow> k \<notin> key ` set xs"
  by (auto simp: keyed_def find_None_iff)

lemma keyed_append_new:
  "keyed key xs (key x) = None \<Longrightarrow> keyed key (xs @ [x]) = (keyed key xs)(key x \<mapsto> x)"
  by (induction xs) (auto simp: fun_eq_iff split: if_splits)

lemma keyed_filter: "keyed key (filter (\<lambda>x. P (key x)) xs) = keyed key xs |` {k. P k}"
  by (induction xs) (auto simp: fun_eq_iff restrict_map_def)

lemma keyed_distinct:
  "distinct (map key xs) \<Longrightarrow> x \<in> set xs \<Longrightarrow> keyed key xs (key x) = Some x"
  by (induction xs) (auto simp: image_iff)

text \<open>Filling a Go map in a loop: later entries override earlier ones.\<close>

lemma foldl_upd: "foldl (\<lambda>m p. m(k p \<mapsto> v p)) m ps = m ++ map_of (rev (map (\<lambda>p. (k p, v p)) ps))"
  by (induction ps arbitrary: m) simp_all

lemma foldl_upd_dom: "dom (foldl (\<lambda>m p. m(k p \<mapsto> v p)) Map.empty ps) = k ` set ps"
  by (simp add: foldl_upd dom_map_of_conv_image_fst image_image)

lemma foldl_upd_SomeD:
  "foldl (\<lambda>m p. m(k p \<mapsto> v p)) Map.empty ps x = Some y \<Longrightarrow> \<exists>p \<in> set ps. k p = x \<and> v p = y"
  by (auto simp: foldl_upd dest!: map_of_SomeD)

lemma foldl_upd_distinct:
  assumes "distinct (map k ps)" "p \<in> set ps"
  shows "foldl (\<lambda>m p. m(k p \<mapsto> v p)) Map.empty ps (k p) = Some (v p)"
proof -
  have "(k p, v p) \<in> set (rev (map (\<lambda>p. (k p, v p)) ps))" using assms(2) by auto
  moreover have "distinct (map fst (rev (map (\<lambda>p. (k p, v p)) ps)))"
    using assms(1) by (simp add: rev_map[symmetric] comp_def)
  ultimately show ?thesis by (simp add: foldl_upd)
qed

lemma list_all2_upd:
  assumes "list_all2 P xs ys" "j < length xs \<Longrightarrow> P (xs ! j) y"
  shows "list_all2 P xs (ys[j := y])"
proof (cases "j < length xs")
  case True
  with list_all2_update_cong[OF assms(1), of "xs ! j" y j] assms(2) show ?thesis by simp
next
  case False
  with assms(1) show ?thesis by (simp add: list_all2_lengthD[symmetric] list_update_beyond)
qed

lemma list_all_filter_id: "list_all P xs \<Longrightarrow> filter P xs = xs"
  by (induction xs) auto

end
