(* ===== verification/GoLib.thy ===== *)
theory GoLib
  imports Prelude "HOL-Library.Word" "HOL-Library.Char_ord" "HOL-Library.List_Lexorder"
    "HOL-Library.Multiset" "HOL-Library.Sublist"
begin

unbundle bit_operations_syntax

text \<open>
  The parts of the Go standard library and of the vendored naming helper that the controllers
  compute with: \<open>strings\<close>, \<open>strconv.Atoi\<close>, \<open>path.Join\<close>, \<open>slices.SortFunc\<close>,
  the \<open>%d\<close> and \<open>%q\<close> verbs, and \<open>naming.GetName\<close> of
  \<open>src/vendor/github.com/openshift/library-go/pkg/build/naming/namer.go\<close> with its 32-bit
  FNV-1a hash on machine words.  Go strings are byte strings, as \<open>string\<close> is here.
\<close>

section \<open>strings\<close>

definition HasPrefix :: "string \<Rightarrow> string \<Rightarrow> bool" where
  "HasPrefix s p = prefix p s"

definition HasSuffix :: "string \<Rightarrow> string \<Rightarrow> bool" where
  "HasSuffix s p = suffix p s"

definition TrimSuffix :: "string \<Rightarrow> string \<Rightarrow> string" where
  "TrimSuffix s p = (if HasSuffix s p then take (length s - length p) s else s)"

fun Contains :: "string \<Rightarrow> string \<Rightarrow> bool" where
  "Contains [] sub = (sub = [])"
| "Contains (c # cs) sub = (prefix sub (c # cs) \<or> Contains cs sub)"

text \<open>\<open>strings.Split\<close> with a one-byte separator: always at least one part.\<close>

fun Split :: "string \<Rightarrow> char \<Rightarrow> string list" where
  "Split [] sep = [[]]"
| "Split (c # cs) sep =
     (if c = sep then [] # Split cs sep
      else (case Split cs sep of [] \<Rightarrow> [[c]] | w # ws \<Rightarrow> (c # w) # ws))"

fun Join :: "string list \<Rightarrow> string \<Rightarrow> string" where
  "Join [] sep = []"
| "Join [x] sep = x"
| "Join (x # y # ys) sep = x @ sep @ Join (y # ys) sep"

text \<open>\<open>strings.Compare\<close>: lexicographic on bytes.\<close>

definition Compare :: "string \<Rightarrow> string \<Rightarrow> int" where
  "Compare a b = (if a < b then -1 else if a = b then 0 else 1)"

lemma TrimSuffix_append [simp]: "TrimSuffix (s @ p) p = s"
  by (auto simp: TrimSuffix_def HasSuffix_def suffix_def)

lemma TrimSuffix_id: "\<not> HasSuffix s p \<Longrightarrow> TrimSuffix s p = s"
  by (simp add: TrimSuffix_def)

lemma TrimSuffix_length: "length (TrimSuffix s p) \<le> length s"
  by (simp add: TrimSuffix_def)

lemma Split_not_Nil: "Split s sep \<noteq> []"
  by (cases s) (auto split: list.splits)

section \<open>strconv\<close>

definition isDigit :: "char \<Rightarrow> bool" where
  "isDigit c \<longleftrightarrow> CHR ''0'' \<le> c \<and> c \<le> CHR ''9''"

definition digitVal :: "char \<Rightarrow> int" where
  "digitVal c = of_char c - 48"

definition digitsVal :: "string \<Rightarrow> int" where
  "digitsVal cs = foldl (\<lambda>n c. 10 * n + digitVal c) 0 cs"

text \<open>
  \<open>strconv.Atoi\<close>: an optional sign and at least one decimal digit, in the range of a 64-bit
  \<open>int\<close>.
\<close>

definition Atoi :: "string \<Rightarrow> int option" where
  "Atoi s =
     (let (neg, ds) = (case s of
           [] \<Rightarrow> (False, [])
         | c # cs \<Rightarrow> if c = CHR ''-'' then (True, cs) else if c = CHR ''+'' then (False, cs) else (False, s));
        n = (if neg then - digitsVal ds else digitsVal ds)
      in if ds \<noteq> [] \<and> list_all isDigit ds \<and> - (2 ^ 63) \<le> n \<and> n < 2 ^ 63 then Some n else None)"

text \<open>The \<open>%d\<close> verb on a length.\<close>

fun showNat :: "nat \<Rightarrow> string" where
  "showNat n = (if n < 10 then [char_of (n + 48)] else showNat (n div 10) @ [char_of (n mod 10 + 48)])"

declare showNat.simps [simp del]

text \<open>The \<open>%q\<close> verb on printable ASCII text: quotes and backslashes are escaped.\<close>

definition quoteGo :: "string \<Rightarrow> string" where
  "quoteGo s = [CHR 0x22] @
     concat (map (\<lambda>c. if c = CHR 0x22 \<or> c = CHR 0x5C then [CHR 0x5C, c] else [c]) s) @ [CHR 0x22]"

section \<open>path.Join\<close>

text \<open>
  \<open>path.Clean\<close> drops empty and \<open>.\<close> elements and lets \<open>..\<close> eat the element before it; the
  kept elements are in reverse order in the accumulator.
\<close>

fun cleanElems :: "bool \<Rightarrow> string list \<Rightarrow> string list \<Rightarrow> string list" where
  "cleanElems rooted acc [] = rev acc"
| "cleanElems rooted acc (e # es) =
     (if e = [] \<or> e = ''.'' then cleanElems rooted acc es
      else if e = ''..'' then
        (case acc of
           [] \<Rightarrow> if rooted then cleanElems rooted [] es else cleanElems rooted [e] es
         | a # as \<Rightarrow> if a = ''..'' then cleanElems rooted (e # acc) es else cleanElems rooted as es)
      else cleanElems rooted (e # acc) es)"

definition pathClean :: "string \<Rightarrow> string" where
  "pathClean p =
     (let rooted = HasPrefix p ''/'';
          body = Join (cleanElems rooted [] (Split p CHR ''/'')) ''/''
      in if rooted then ''/'' @ body else if body = [] then ''.'' else body)"

definition pathJoin :: "string list \<Rightarrow> string" where
  "pathJoin es =
     (let ne = filter (\<lambda>e. e \<noteq> []) es in if ne = [] then [] else pathClean (Join ne ''/''))"

section \<open>slices.SortFunc\<close>

text \<open>
  Insertion from the right end, as \<open>slices.insertionSortCmpFunc\<close> does it: the element moves
  left while it compares less than its neighbour.  This is the routine \<open>slices.SortFunc\<close> runs
  on up to twelve elements; for longer slices the library promises the same sorted permutation
  but no order among elements that compare equal, and the lemmas below use nothing else.
\<close>

fun insertLeft :: "('a \<Rightarrow> 'a \<Rightarrow> int) \<Rightarrow> 'a \<Rightarrow> 'a list \<Rightarrow> 'a list" where
  "insertLeft cmp x [] = [x]"
| "insertLeft cmp x (y # ys) = (if cmp x y < 0 then y # insertLeft cmp x ys else x # y # ys)"

definition SortFunc :: "('a \<Rightarrow> 'a \<Rightarrow> int) \<Rightarrow> 'a list \<Rightarrow> 'a list" where
  "SortFunc cmp xs = rev (foldl (\<lambda>r x. insertLeft cmp x r) [] xs)"

lemma mset_insertLeft: "mset (insertLeft cmp x ys) = add_mset x (mset ys)"
  by (induction ys) auto

lemma mset_foldl_insertLeft:
  "mset (foldl (\<lambda>r x. insertLeft cmp x r) r xs) = mset r + mset xs"
  by (induction xs arbitrary: r) (simp_all add: mset_insertLeft)

lemma mset_SortFunc [simp]: "mset (SortFunc cmp xs) = mset xs"
  by (simp add: SortFunc_def mset_foldl_insertLeft)

lemma set_SortFunc [simp]: "set (SortFunc cmp xs) = set xs"
  by (metis mset_SortFunc set_mset_mset)

lemma length_SortFunc [simp]: "length (SortFunc cmp xs) = length xs"
  by (metis mset_SortFunc size_mset)

lemma distinct_map_SortFunc [simp]:
  "distinct (map f (SortFunc cmp xs)) = distinct (map f xs)"
proof -
  have "mset (map f (SortFunc cmp xs)) = mset (map f xs)" by simp
  then show ?thesis by (rule mset_eq_imp_distinct_iff)
qed

lemma sorted_insertLeft:
  fixes key :: "'a \<Rightarrow> 'k::linorder"
  assumes "\<And>a b. cmp a b < 0 \<longleftrightarrow> key a < key b" "sorted_wrt (\<ge>) (map key ys)"
  shows "sorted_wrt (\<ge>) (map key (insertLeft cmp x ys))"
  using assms(2)
proof (induction ys)
  case (Cons y ys)
  have keys: "set (map key (insertLeft cmp x ys)) = insert (key x) (key ` set ys)"
    by (metis list.set_map mset_insertLeft set_mset_add_mset_insert set_mset_mset image_insert)
  from Cons show ?case
    by (auto simp: assms(1) keys[simplified] not_less)
qed simp

lemma sorted_foldl_insertLeft:
  fixes key :: "'a \<Rightarrow> 'k::linorder"
  assumes "\<And>a b. cmp a b < 0 \<longleftrightarrow> key a < key b" "sorted_wrt (\<ge>) (map key r)"
  shows "sorted_wrt (\<ge>) (map key (foldl (\<lambda>r x. insertLeft cmp x r) r xs))"
  using assms(2) by (induction xs arbitrary: r) (simp_all add: sorted_insertLeft[OF assms(1)])

lemma sorted_SortFunc:
  fixes key :: "'a \<Rightarrow> 'k::linorder"
  assumes "\<And>a b. cmp a b < 0 \<longleftrightarrow> key a < key b"
  shows "sorted (map key (SortFunc cmp xs))"
  using sorted_foldl_insertLeft[where cmp = cmp and key = key and r = "[]" and xs = xs, OF assms]
  by (simp add: SortFunc_def rev_map[symmetric] sorted_wrt_rev)

lemma sorted_last_max:
  fixes key :: "'a \<Rightarrow> 'k::linorder"
  assumes "sorted (map key xs)" "x \<in> set xs"
  shows "key x \<le> key (last xs)"
  using assms by (induction xs) (auto split: if_splits)

lemma last_SortFunc_max:
  fixes key :: "'a \<Rightarrow> 'k::linorder"
  assumes "\<And>a b. cmp a b < 0 \<longleftrightarrow> key a < key b" "x \<in> set xs"
  shows "key x \<le> key (last (SortFunc cmp xs))"
  by (rule sorted_last_max[OF sorted_SortFunc[where cmp = cmp, OF assms(1)]]) (simp add: assms(2))

lemma SortFunc_eq_Nil [simp]: "SortFunc cmp xs = [] \<longleftrightarrow> xs = []"
  by (metis length_0_conv length_SortFunc)

lemma last_SortFunc_in: "xs \<noteq> [] \<Longrightarrow> last (SortFunc cmp xs) \<in> set xs"
  by (metis SortFunc_eq_Nil last_in_set set_SortFunc)

section \<open>naming.GetName\<close>

text \<open>\<open>fnv.New32a\<close>: exclusive or with the byte, then multiply, on 32-bit words.\<close>

definition fnv32a :: "string \<Rightarrow> 32 word" where
  "fnv32a s = foldl (\<lambda>h c. (h XOR word_of_nat (of_char c)) * 16777619) 2166136261 s"

definition hexDigit :: "nat \<Rightarrow> char" where
  "hexDigit d = (if d < 10 then char_of (d + 48) else char_of (d + 87))"

text \<open>The \<open>%08x\<close> verb on a 32-bit word.\<close>

definition hex08 :: "32 word \<Rightarrow> string" where
  "hex08 w = map (\<lambda>i. hexDigit (unat (drop_bit (4 * i) w AND 15))) [7, 6, 5, 4, 3, 2, 1, 0]"

definition nameHash :: "string \<Rightarrow> string" where
  "nameHash s = hex08 (fnv32a s)"

text \<open>Go's \<open>int\<close> arithmetic on the lengths can be negative, so it is written over \<open>int\<close>.\<close>

definition GetName :: "string \<Rightarrow> string \<Rightarrow> int \<Rightarrow> string" where
  "GetName base sfx maxLength =
     (if maxLength \<le> 0 then []
      else let name = base @ ''-'' @ sfx in
        if int (length name) \<le> maxLength then name
        else let baseLength = maxLength - 10 - int (length sfx) in
          if baseLength \<le> 0 then
            let pre = take (nat (min (int (length base)) (max 0 (maxLength - 9)))) base;
                shortName = pre @ ''-'' @ nameHash name
            in take (nat (min maxLength (int (length shortName)))) shortName
          else take (nat baseLength) base @ ''-'' @ nameHash base @ ''-'' @ sfx)"

definition DNS1035LabelMaxLength :: int where
  "DNS1035LabelMaxLength = 63"

definition DNS1123SubdomainMaxLength :: int where
  "DNS1123SubdomainMaxLength = 253"

lemma length_nameHash [simp]: "length (nameHash s) = 8"
  by (simp add: nameHash_def hex08_def)

lemma GetName_short:
  "0 < m \<Longrightarrow> int (length base + length sfx) + 1 \<le> m \<Longrightarrow> GetName base sfx m = base @ ''-'' @ sfx"
  by (simp add: GetName_def Let_def)

lemma GetName_length: "int (length (GetName base sfx m)) \<le> max 0 m"
proof (cases "0 < m \<and> m < int (length (base @ ''-'' @ sfx))")
  case True
  then show ?thesis
    by (cases "m - 10 - int (length sfx) \<le> 0") (simp_all add: GetName_def Let_def)
next
  case False
  then show ?thesis by (auto simp: GetName_def Let_def)
qed

lemma GetName_keeps_suffix:
  assumes "int (length sfx) + 10 < m"
  shows "\<exists>b. GetName base sfx m = b @ ''-'' @ sfx"
  using assms by (auto simp: GetName_def Let_def)

end
