(* ===== verification/Conditions.thy ===== *)
theory Conditions
  imports GoLib
begin

text \<open>
  The managed condition list of every resource status
  (\<open>src/api/migrationcontroller/v1alpha1/conditions.go\<close>): the record, the operations in the
  order of the file, the invariant that a type occurs at most once, and the refinement of the
  list to a map from condition types to conditions.  \<open>time.Now()\<close> is the argument \<open>now\<close>;
  a nil list and an empty one behave alike in every operation, so both are \<open>[]\<close>.
\<close>

section \<open>Constants\<close>

datatype ConditionStatus = ConditionTrue | ConditionFalse | ConditionUnknown

abbreviation ReconcileFailed :: string where "ReconcileFailed \<equiv> ''ReconcileFailed''"
abbreviation Ready :: string where "Ready \<equiv> ''Ready''"
abbreviation Progressing :: string where "Progressing \<equiv> ''Progressing''"
abbreviation DeletionBlocked :: string where "DeletionBlocked \<equiv> ''DeletionBlocked''"
abbreviation InvalidPlanRef :: string where "InvalidPlanRef \<equiv> ''InvalidPlanRef''"
abbreviation PlanNotReady :: string where "PlanNotReady \<equiv> ''PlanNotReady''"
abbreviation ConflictingMigration :: string where "ConflictingMigration \<equiv> ''ConflictingMigration''"
abbreviation NotFound :: string where "NotFound \<equiv> ''NotFound''"
abbreviation NotReady :: string where "NotReady \<equiv> ''NotReady''"
abbreviation Conflict :: string where "Conflict \<equiv> ''Conflict''"
abbreviation Critical :: string where "Critical \<equiv> ''Critical''"
abbreviation Error :: string where "Error \<equiv> ''Error''"
abbreviation Warn :: string where "Warn \<equiv> ''Warn''"
abbreviation Required :: string where "Required \<equiv> ''Required''"
abbreviation Advisory :: string where "Advisory \<equiv> ''Advisory''"

section \<open>Condition\<close>

record Condition =
  cnd_Type :: string
  cnd_Status :: ConditionStatus
  cnd_Reason :: string
  cnd_Category :: string
  cnd_Message :: string
  cnd_LastTransitionTime :: int

definition Condition_Equal :: "Condition \<Rightarrow> Condition \<Rightarrow> bool" where
  "Condition_Equal r other \<longleftrightarrow>
     cnd_Type r = cnd_Type other \<and>
     cnd_Status r = cnd_Status other \<and>
     cnd_Category r = cnd_Category other \<and>
     cnd_Reason r = cnd_Reason other \<and>
     cnd_Message r = cnd_Message other"

definition Condition_Update :: "int \<Rightarrow> Condition \<Rightarrow> Condition \<Rightarrow> Condition" where
  "Condition_Update now r other =
     (if Condition_Equal r other then r
      else r\<lparr>cnd_Type := cnd_Type other, cnd_Status := cnd_Status other,
             cnd_Reason := cnd_Reason other, cnd_Category := cnd_Category other,
             cnd_Message := cnd_Message other, cnd_LastTransitionTime := now\<rparr>)"

section \<open>Conditions\<close>

primrec find_cond :: "string \<Rightarrow> Condition list \<Rightarrow> Condition option" where
  "find_cond t [] = None"
| "find_cond t (c # cs) = (if cnd_Type c = t then Some c else find_cond t cs)"

definition FindCondition :: "string \<Rightarrow> Condition list \<Rightarrow> Condition option" where
  "FindCondition t l = find_cond t l"

definition FindConditionByCategory :: "string \<Rightarrow> Condition list \<Rightarrow> Condition list" where
  "FindConditionByCategory cat l = filter (\<lambda>c. cnd_Category c = cat) l"

definition CopyConditionTimestampsFrom :: "Condition list \<Rightarrow> Condition list \<Rightarrow> Condition list" where
  "CopyConditionTimestampsFrom l other =
     map (\<lambda>c. case FindCondition (cnd_Type c) other of
            None \<Rightarrow> c
          | Some o' \<Rightarrow> c\<lparr>cnd_LastTransitionTime := cnd_LastTransitionTime o'\<rparr>) l"

text \<open>\<open>found.Update(condition)\<close> writes through the pointer \<open>find\<close> returned: the first match.\<close>

primrec update_first :: "(Condition \<Rightarrow> Condition) \<Rightarrow> string \<Rightarrow> Condition list \<Rightarrow> Condition list" where
  "update_first f t [] = []"
| "update_first f t (c # cs) = (if cnd_Type c = t then f c # cs else c # update_first f t cs)"

definition SetCondition :: "int \<Rightarrow> Condition \<Rightarrow> Condition list \<Rightarrow> Condition list" where
  "SetCondition now condition l =
     (case find_cond (cnd_Type condition) l of
        None \<Rightarrow> l @ [condition\<lparr>cnd_LastTransitionTime := now\<rparr>]
      | Some found \<Rightarrow> update_first (\<lambda>c. Condition_Update now c condition) (cnd_Type condition) l)"

definition DeleteCondition :: "string list \<Rightarrow> Condition list \<Rightarrow> Condition list" where
  "DeleteCondition types l = filter (\<lambda>c. cnd_Type c \<notin> set types) l"

definition isTrue :: "Condition option \<Rightarrow> bool" where
  "isTrue c = (case c of None \<Rightarrow> False | Some c \<Rightarrow> cnd_Status c = ConditionTrue)"

definition HasCondition :: "string list \<Rightarrow> Condition list \<Rightarrow> bool" where
  "HasCondition types l \<longleftrightarrow> list_all (\<lambda>t. isTrue (FindCondition t l)) types \<and> types \<noteq> []"

definition HasAnyCondition :: "string list \<Rightarrow> Condition list \<Rightarrow> bool" where
  "HasAnyCondition types l \<longleftrightarrow> list_ex (\<lambda>t. isTrue (FindCondition t l)) types"

definition HasConditionCategory :: "string list \<Rightarrow> Condition list \<Rightarrow> bool" where
  "HasConditionCategory names l \<longleftrightarrow>
     list_ex (\<lambda>c. cnd_Category c \<in> set names \<and> cnd_Status c = ConditionTrue) l"

definition HasCriticalCondition :: "Condition list \<Rightarrow> bool" where
  "HasCriticalCondition l = HasConditionCategory [Critical] l"

definition HasErrorCondition :: "Condition list \<Rightarrow> bool" where
  "HasErrorCondition l = HasConditionCategory [Error] l"

definition HasWarnCondition :: "Condition list \<Rightarrow> bool" where
  "HasWarnCondition l = HasConditionCategory [Warn] l"

definition HasBlockerCondition :: "Condition list \<Rightarrow> bool" where
  "HasBlockerCondition l = HasConditionCategory [Critical, Error] l"

text \<open>A \<open>migrations.Condition\{...\}\<close> literal; the transition time is the zero time.\<close>

definition mkCondition :: "string \<Rightarrow> ConditionStatus \<Rightarrow> string \<Rightarrow> string \<Rightarrow> string \<Rightarrow> Condition" where
  "mkCondition t st reason cat msg =
     \<lparr>cnd_Type = t, cnd_Status = st, cnd_Reason = reason, cnd_Category = cat,
      cnd_Message = msg, cnd_LastTransitionTime = 0\<rparr>"

definition SetReady :: "int \<Rightarrow> bool \<Rightarrow> string \<Rightarrow> Condition list \<Rightarrow> Condition list" where
  "SetReady now ready message l =
     (if ready then SetCondition now (mkCondition Ready ConditionTrue [] Required message) l
      else DeleteCondition [Ready] l)"

definition IsReady :: "Condition list \<Rightarrow> bool" where
  "IsReady l = isTrue (FindCondition Ready l)"

definition SetReconcileFailed :: "int \<Rightarrow> goerr \<Rightarrow> Condition list \<Rightarrow> Condition list" where
  "SetReconcileFailed now err l =
     SetCondition now (mkCondition ReconcileFailed ConditionTrue [] Critical (''reconcile failed: '' @ errText err))
       (DeleteCondition [Ready] l)"

text \<open>\<open>RecordEvents\<close>: the events it emits, as (event type, reason, message).\<close>

definition RecordEvents :: "Condition list \<Rightarrow> (string \<times> string \<times> string) list" where
  "RecordEvents l =
     map (\<lambda>c. (if cnd_Category c \<in> {Critical, Warn, Error} then ''Warning'' else ''Normal'',
               cnd_Type c, cnd_Message c)) l"

section \<open>Invariant: every type at most once\<close>

definition cond_inv :: "Condition list \<Rightarrow> bool" where
  "cond_inv l \<longleftrightarrow> distinct (map cnd_Type l)"

abbreviation cond_map :: "Condition list \<Rightarrow> string \<rightharpoonup> Condition" where
  "cond_map \<equiv> keyed cnd_Type"

lemma mkCondition_sel [simp]:
  "cnd_Type (mkCondition t st r c m) = t"
  "cnd_Status (mkCondition t st r c m) = st"
  "cnd_Category (mkCondition t st r c m) = c"
  "cnd_Reason (mkCondition t st r c m) = r"
  "cnd_Message (mkCondition t st r c m) = m"
  by (simp_all add: mkCondition_def)

lemma find_cond_map: "find_cond t l = cond_map l t"
  by (induction l) auto

lemma Condition_Update_Equal: "Condition_Equal (Condition_Update now c d) d"
  by (auto simp: Condition_Update_def Condition_Equal_def)

lemma update_first_map:
  assumes "cond_map l t = Some c" "cnd_Type (f c) = t"
  shows "cond_map (update_first f t l) = (cond_map l)(t \<mapsto> f c)"
  using assms by (induction l) (auto simp: fun_eq_iff split: if_splits)

lemma update_first_types:
  assumes "\<And>c. cnd_Type c = t \<Longrightarrow> cnd_Type (f c) = t"
  shows "map cnd_Type (update_first f t l) = map cnd_Type l"
  using assms by (induction l) auto

lemma update_first_id:
  "cond_map l t = Some c \<Longrightarrow> f c = c \<Longrightarrow> update_first f t l = l"
  by (induction l) (auto split: if_splits)

lemma Condition_Update_same_Type:
  "cnd_Type c = cnd_Type d \<Longrightarrow> cnd_Type (Condition_Update now c d) = cnd_Type d"
  by (auto simp: Condition_Update_def Condition_Equal_def)

text \<open>What \<open>SetCondition\<close> stores: the condition found, updated, or the new one, stamped.\<close>

definition stored :: "int \<Rightarrow> Condition \<Rightarrow> Condition option \<Rightarrow> Condition" where
  "stored now c old = (case old of None \<Rightarrow> c\<lparr>cnd_LastTransitionTime := now\<rparr> | Some d \<Rightarrow> Condition_Update now d c)"

lemma SetCondition_map:
  "cond_map (SetCondition now c l) = (cond_map l)(cnd_Type c \<mapsto> stored now c (cond_map l (cnd_Type c)))"
proof (cases "cond_map l (cnd_Type c)")
  case None
  let ?c = "c\<lparr>cnd_LastTransitionTime := now\<rparr>"
  have "cond_map (l @ [?c]) = (cond_map l)(cnd_Type ?c \<mapsto> ?c)"
    by (rule keyed_append_new) (simp add: None)
  with None show ?thesis
    by (simp add: SetCondition_def find_cond_map stored_def)
next
  case (Some d)
  then have "cnd_Type d = cnd_Type c" by (auto dest: keyed_SomeD)
  with Some show ?thesis
    by (simp add: SetCondition_def find_cond_map stored_def update_first_map Condition_Update_same_Type)
qed

lemma DeleteCondition_map: "cond_map (DeleteCondition ts l) = cond_map l |` (- set ts)"
  by (simp add: DeleteCondition_def keyed_filter[of cnd_Type "\<lambda>t. t \<notin> set ts"] Compl_eq)

lemma SetCondition_inv:
  assumes "cond_inv l"
  shows "cond_inv (SetCondition now c l)"
proof (cases "cond_map l (cnd_Type c)")
  case None
  then have "cnd_Type c \<notin> cnd_Type ` set l" by (simp add: keyed_None)
  with None assms show ?thesis
    by (simp add: cond_inv_def SetCondition_def find_cond_map)
next
  case (Some d)
  with assms show ?thesis
    by (simp add: cond_inv_def SetCondition_def find_cond_map update_first_types Condition_Update_same_Type)
qed

lemma DeleteCondition_inv: "cond_inv l \<Longrightarrow> cond_inv (DeleteCondition ts l)"
  by (simp add: cond_inv_def DeleteCondition_def distinct_map_filter)

lemma CopyTimestamps_types:
  "map cnd_Type (CopyConditionTimestampsFrom l other) = map cnd_Type l"
  by (simp add: CopyConditionTimestampsFrom_def split: option.splits)

lemma stored_Equal: "Condition_Equal (stored now c old) c"
  by (cases old) (simp_all add: stored_def Condition_Update_Equal, simp add: Condition_Equal_def)

section \<open>The interface the controllers use\<close>

text \<open>
  A condition store as its clients see it: a lookup, a store and a removal by type.  The laws
  are what the reconcilers rely on; the lemmas below hold for every store that keeps them.
\<close>

locale condition_store =
  fixes lookup :: "'l \<Rightarrow> string \<Rightarrow> Condition option"
    and put :: "int \<Rightarrow> Condition \<Rightarrow> 'l \<Rightarrow> 'l"
    and drop_types :: "string list \<Rightarrow> 'l \<Rightarrow> 'l"
  assumes lookup_put_other: "t \<noteq> cnd_Type c \<Longrightarrow> lookup (put now c l) t = lookup l t"
    and lookup_put_same: "\<exists>d. lookup (put now c l) (cnd_Type c) = Some d \<and> Condition_Equal d c"
    and put_unchanged: "lookup l (cnd_Type c) = Some d \<Longrightarrow> Condition_Equal d c \<Longrightarrow> put now c l = l"
    and lookup_drop: "lookup (drop_types ts l) t = (if t \<in> set ts then None else lookup l t)"
begin

lemma put_status: "isTrue (lookup (put now c l) (cnd_Type c)) \<longleftrightarrow> cnd_Status c = ConditionTrue"
  using lookup_put_same[of now c l] by (auto simp: isTrue_def Condition_Equal_def)

lemma put_idem: "put now' c (put now c l) = put now c l"
  using lookup_put_same[of now c l] by (auto intro: put_unchanged)

lemma drop_put: "cnd_Type c \<in> set ts \<Longrightarrow> lookup (drop_types ts (put now c l)) = lookup (drop_types ts l)"
  by (rule ext) (metis lookup_drop lookup_put_other)

lemma put_after_drop_other:
  "cnd_Type c \<notin> set ts \<Longrightarrow> t \<in> set ts \<Longrightarrow> lookup (put now c (drop_types ts l)) t = None"
  by (subst lookup_put_other) (auto simp: lookup_drop)

end

interpretation conds: condition_store cond_map SetCondition DeleteCondition
proof
  show "t \<noteq> cnd_Type c \<Longrightarrow> cond_map (SetCondition now c l) t = cond_map l t" for t c now l
    by (simp add: SetCondition_map)
next
  show "\<exists>d. cond_map (SetCondition now c l) (cnd_Type c) = Some d \<and> Condition_Equal d c" for now c l
    by (simp add: SetCondition_map stored_Equal)
next
  show "cond_map l (cnd_Type c) = Some d \<Longrightarrow> Condition_Equal d c \<Longrightarrow> SetCondition now c l = l" for l c d now
    by (simp add: SetCondition_def find_cond_map update_first_id Condition_Update_def)
next
  show "cond_map (DeleteCondition ts l) t = (if t \<in> set ts then None else cond_map l t)" for ts l t
    by (simp add: DeleteCondition_map restrict_map_def)
qed

lemma FindCondition_map: "FindCondition t l = cond_map l t"
  by (simp add: FindCondition_def find_cond_map)

lemma HasCondition_single: "HasCondition [t] l = isTrue (cond_map l t)"
  by (simp add: HasCondition_def FindCondition_map)

lemma HasAnyCondition_single: "HasAnyCondition [t] l = isTrue (cond_map l t)"
  by (simp add: HasAnyCondition_def FindCondition_map)

lemma HasConditionCategory_map:
  assumes "cond_inv l"
  shows "HasConditionCategory cats l \<longleftrightarrow>
    (\<exists>c \<in> ran (cond_map l). cnd_Category c \<in> set cats \<and> cnd_Status c = ConditionTrue)"
proof -
  have "ran (cond_map l) = set l"
  proof
    show "ran (cond_map l) \<subseteq> set l" by (auto simp: ran_def dest: keyed_SomeD)
    show "set l \<subseteq> ran (cond_map l)"
      using assms by (auto simp: cond_inv_def intro: ranI keyed_distinct)
  qed
  then show ?thesis by (simp add: HasConditionCategory_def list_ex_iff)
qed

lemma HasConditionCategory_Delete:
  "HasConditionCategory cats (DeleteCondition ts l) \<Longrightarrow> HasConditionCategory cats l"
  by (auto simp: HasConditionCategory_def DeleteCondition_def list_ex_iff)

lemma SetCondition_blocks:
  assumes "cnd_Category c \<in> set cats" "cnd_Status c = ConditionTrue"
  shows "HasConditionCategory cats (SetCondition now c l)"
proof -
  obtain d where "cond_map (SetCondition now c l) (cnd_Type c) = Some d" "Condition_Equal d c"
    using conds.lookup_put_same by blast
  then have "d \<in> set (SetCondition now c l)" "cnd_Category d = cnd_Category c" "cnd_Status d = cnd_Status c"
    by (auto simp: Condition_Equal_def dest: keyed_SomeD)
  with assms show ?thesis
    unfolding HasConditionCategory_def list_ex_iff by metis
qed

section \<open>Properties\<close>

text \<open>
  C39. The condition list refines a map from types to conditions: setting a condition overrides
  exactly its type, with the fields of the condition set, and deleting types removes exactly
  them; both keep the invariant that every type occurs at most once.
\<close>

theorem conditions_refine_map:
  assumes "cond_inv l"
  shows "cond_inv (SetCondition now c l) \<and> cond_inv (DeleteCondition ts l)
    \<and> cond_map (SetCondition now c l) = (cond_map l)(cnd_Type c \<mapsto> stored now c (cond_map l (cnd_Type c)))
    \<and> Condition_Equal (stored now c (cond_map l (cnd_Type c))) c
    \<and> cond_map (DeleteCondition ts l) = cond_map l |` (- set ts)"
  using assms by (simp add: SetCondition_inv DeleteCondition_inv SetCondition_map DeleteCondition_map stored_Equal)

theorem conditions_refine_map_witness:
  "cond_inv [mkCondition Ready ConditionTrue [] Required ''plan is ready'']
   \<and> cond_inv (SetCondition 7 (mkCondition Ready ConditionFalse [] Required ''no'')
        [mkCondition Ready ConditionTrue [] Required ''plan is ready''])"
proof -
  have h: "cond_inv [mkCondition Ready ConditionTrue [] Required ''plan is ready'']"
    by (simp add: cond_inv_def)
  show ?thesis
    using h conditions_refine_map[OF h, of 7 "mkCondition Ready ConditionFalse [] Required ''no''" "[]"]
    by simp
qed

text \<open>
  Setting a condition whose fields are already recorded leaves the list as it is, time stamp
  included, whatever the clock says: a reconcile that reaches the same verdict writes nothing.
\<close>

theorem SetCondition_idempotent:
  "SetCondition now' c (SetCondition now c l) = SetCondition now c l"
  by (rule conds.put_idem)

text \<open>
  \<open>SetReconcileFailed\<close> makes the list critical and blocking and takes \<open>Ready\<close> away;
  deleting the failure afterwards gives back the list without \<open>Ready\<close>, type by type.
\<close>

theorem SetReconcileFailed_blocks:
  "HasCriticalCondition (SetReconcileFailed now err l)
   \<and> HasBlockerCondition (SetReconcileFailed now err l)
   \<and> \<not> IsReady (SetReconcileFailed now err l)
   \<and> cond_map (DeleteCondition [ReconcileFailed] (SetReconcileFailed now err l))
       = cond_map (DeleteCondition [ReconcileFailed, Ready] l)"
proof -
  have "cond_map (SetReconcileFailed now err l) Ready = None"
    unfolding SetReconcileFailed_def by (rule conds.put_after_drop_other) simp_all
  moreover have "HasConditionCategory cats (SetReconcileFailed now err l)" if "Critical \<in> set cats" for cats
    unfolding SetReconcileFailed_def by (rule SetCondition_blocks) (simp_all add: that)
  moreover have "cond_map (DeleteCondition [ReconcileFailed] (SetReconcileFailed now err l))
      = cond_map (DeleteCondition [ReconcileFailed, Ready] l)"
    unfolding SetReconcileFailed_def
    by (subst conds.drop_put) (auto simp: DeleteCondition_map restrict_map_def fun_eq_iff)
  ultimately show ?thesis
    by (simp add: HasCriticalCondition_def HasBlockerCondition_def IsReady_def FindCondition_map isTrue_def)
qed

end
