(* ===== verification/Types.thy ===== *)
theory Types
  imports Conditions
begin

text \<open>
  The API objects.  First the fields of the Kubernetes, KubeVirt and CDI objects the controllers
  read or write, then the four custom resources of
  \<open>src/api/migrationcontroller/v1alpha1\<close> with their methods: finalizers, owner references,
  completion tests, child names.

  A pointer is an \<open>option\<close>, a slice a list (nil and empty slices are equal under
  \<open>apiequality.Semantic.DeepEqual\<close> and in every use), a \<open>map[string]string\<close> a partial
  function (again nil and empty agree), a \<open>metav1.Time\<close> an \<open>int\<close>, a
  \<open>resource.Quantity\<close> an \<open>int\<close>.  \<open>DeepEqual\<close> on an object is then HOL equality, and
  \<open>DeepCopy\<close> is the identity on values; where the source shares a backing array between two
  objects and a later read depends on it, the model says so at that place.
\<close>

section \<open>Metadata\<close>

type_synonym strmap = "string \<rightharpoonup> string"
type_synonym quantity = int

record OwnerReference =
  or_APIVersion :: string
  or_Kind :: string
  or_Name :: string
  or_UID :: string
  or_Controller :: bool

record ObjectMeta =
  om_Name :: string
  om_Namespace :: string
  om_UID :: string
  om_ResourceVersion :: string
  om_Labels :: strmap
  om_Annotations :: strmap
  om_Finalizers :: "string list"
  om_OwnerReferences :: "OwnerReference list"
  om_CreationTimestamp :: int
  om_DeletionTimestamp :: "int option"

record ObjectReference =
  ref_Namespace :: string
  ref_Name :: string
  ref_UID :: string

text \<open>Reading a missing key of a Go map gives the zero value.\<close>

definition mget :: "(string \<rightharpoonup> 'v) \<Rightarrow> 'v \<Rightarrow> string \<Rightarrow> 'v" where
  "mget m z k = (case m k of None \<Rightarrow> z | Some v \<Rightarrow> v)"

section \<open>KubeVirt, CDI and core objects\<close>

text \<open>
  A volume of a VM names its claim through a PVC source or a DataVolume source; a DataVolume
  template of the VM has a name and a storage class in its \<open>storage\<close> or its \<open>pvc\<close> section.
\<close>

record Volume =
  vol_Name :: string
  vol_PersistentVolumeClaim :: "string option"
  vol_DataVolume :: "string option"

record DataVolumeTemplate =
  dvt_Name :: string
  dvt_Storage :: "string option option"
  dvt_PVC :: "string option option"

record StorageMigratedVolumeInfo =
  mv_SourcePVCInfo :: "string option"
  mv_DestinationPVCInfo :: "string option"

record VMCondition =
  vc_Type :: string
  vc_Status :: ConditionStatus
  vc_Reason :: string
  vc_Message :: string

text \<open>
  \<open>vm_VolumeUpdateState\<close> is \<open>Status.VolumeUpdateState\<close>, whose \<open>VolumeMigrationState\<close> is
  the inner option.
\<close>

record VirtualMachine =
  vm_Name :: string
  vm_Namespace :: string
  vm_Volumes :: "Volume list"
  vm_DataVolumeTemplates :: "DataVolumeTemplate list"
  vm_UpdateVolumesStrategy :: "string option"
  vm_Ready :: bool
  vm_Conditions :: "VMCondition list"
  vm_VolumeUpdateState :: "StorageMigratedVolumeInfo list option option"

record VirtualMachineInstance =
  vmi_Name :: string
  vmi_Phase :: string
  vmi_NodeName :: string
  vmi_ActivePods :: nat

record VMIM =
  vmim_Name :: string
  vmim_Namespace :: string
  vmim_VMIName :: string
  vmim_CreationTimestamp :: int
  vmim_Phase :: string
  vmim_MigrationState :: "(bool \<times> bool) option"

record Pod =
  pod_Name :: string
  pod_Namespace :: string
  pod_Phase :: string
  pod_NodeName :: string
  pod_IP :: string

record PersistentVolumeClaim =
  pvc_Meta :: ObjectMeta
  pvc_VolumeMode :: "string option"
  pvc_Requests :: "string \<rightharpoonup> quantity"
  pvc_Capacity :: "string \<rightharpoonup> quantity"

datatype DataVolumeSource = SourceBlank | SourcePVC string string

record StorageSpec =
  ss_Requests :: "string \<rightharpoonup> quantity"
  ss_StorageClassName :: "string option"
  ss_VolumeMode :: "string option"
  ss_AccessModes :: "string list"

record DataVolume =
  dv_Name :: string
  dv_Namespace :: string
  dv_Labels :: strmap
  dv_Annotations :: strmap
  dv_Source :: "DataVolumeSource option"
  dv_PVC :: "(string \<rightharpoonup> quantity) option"
  dv_Storage :: "StorageSpec option"
  dv_Phase :: string

record StorageClass =
  sc_Name :: string
  sc_Annotations :: strmap

record KubeVirt =
  kv_OperatorVersion :: string
  kv_VMRolloutStrategy :: "string option"
  kv_FeatureGates :: "string list option"

record KNamespace =
  kns_Name :: string
  kns_DeletionTimestamp :: "int option"

definition VMI_IsRunning :: "VirtualMachineInstance \<Rightarrow> bool" where
  "VMI_IsRunning vmi \<longleftrightarrow> vmi_Phase vmi = ''Running''"

abbreviation ResourceStorage :: string where "ResourceStorage \<equiv> ''storage''"
abbreviation MigrationSucceeded :: string where "MigrationSucceeded \<equiv> ''Succeeded''"
abbreviation MigrationFailed :: string where "MigrationFailed \<equiv> ''Failed''"
abbreviation PersistentVolumeBlock :: string where "PersistentVolumeBlock \<equiv> ''Block''"
abbreviation PersistentVolumeFilesystem :: string where "PersistentVolumeFilesystem \<equiv> ''Filesystem''"

section \<open>VirtualMachineStorageMigrationPlan\<close>

datatype RetentionPolicy = RetentionPolicyKeepSource | RetentionPolicyDeleteSource

record DestinationPVC =
  dp_Name :: "string option"
  dp_StorageClassName :: "string option"
  dp_AccessModes :: "string list"
  dp_VolumeMode :: "string option"

record TargetMigrationPVC =
  tp_VolumeName :: string
  tp_DestinationPVC :: DestinationPVC

record PlanVM =
  pv_Name :: string
  pv_TargetMigrationPVCs :: "TargetMigrationPVC list"

record SourcePVC =
  sp_VolumeName :: string
  sp_Name :: string
  sp_Namespace :: string
  sp_SourcePVC :: PersistentVolumeClaim

text \<open>The status entry embeds the spec entry: a record extension.\<close>

record StatusVM = PlanVM +
  sv_SourcePVCs :: "SourcePVC list"

record PlanSpec =
  spec_VirtualMachines :: "PlanVM list"
  spec_RetentionPolicy :: "RetentionPolicy option"

record PlanStatus =
  st_CompletedOutOf :: string
  st_ReadyMigrations :: "StatusVM list"
  st_InvalidMigrations :: "StatusVM list"
  st_InProgressMigrations :: "StatusVM list"
  st_CompletedMigrations :: "StatusVM list"
  st_FailedMigrations :: "StatusVM list"
  st_Suffix :: "string option"
  st_Conditions :: "Condition list"

record Plan =
  pl_Kind :: string
  pl_APIVersion :: string
  pl_Meta :: ObjectMeta
  pl_Spec :: PlanSpec
  pl_Status :: PlanStatus

abbreviation PlanKind :: string where "PlanKind \<equiv> ''VirtualMachineStorageMigrationPlan''"
abbreviation PlanFinalizer :: string where
  "PlanFinalizer \<equiv> ''virtualmachinestoragemigrationplan.kubevirt.io/finalizer''"
abbreviation GroupVersion :: string where "GroupVersion \<equiv> ''migrations.kubevirt.io/v1alpha1''"

text \<open>
  \<open>AllSpecVMsCompleted\<close>: the first loop fills the set of completed names and gives up on an
  empty or a repeated name, the second looks every spec name up.
\<close>

fun completedByName :: "string set \<Rightarrow> StatusVM list \<Rightarrow> string set option" where
  "completedByName seen [] = Some seen"
| "completedByName seen (vm # vms) =
     (if pv_Name vm = [] then None
      else if pv_Name vm \<in> seen then None
      else completedByName (insert (pv_Name vm) seen) vms)"

definition AllSpecVMsCompleted :: "PlanVM list \<Rightarrow> StatusVM list \<Rightarrow> bool" where
  "AllSpecVMsCompleted spec completed =
     (if length spec = 0 then False
      else if length completed \<noteq> length spec then False
      else (case completedByName {} completed of
          None \<Rightarrow> False
        | Some names \<Rightarrow> list_all (\<lambda>vm. pv_Name vm \<in> names) spec))"

definition PlanStatusShowsCompleted :: "PlanVM list \<Rightarrow> PlanStatus option \<Rightarrow> bool" where
  "PlanStatusShowsCompleted spec status =
     (case status of
        None \<Rightarrow> False
      | Some st \<Rightarrow>
          if \<not> AllSpecVMsCompleted spec (st_CompletedMigrations st) then False
          else if length (st_ReadyMigrations st) > 0 \<or> length (st_InProgressMigrations st) > 0 \<or>
                  length (st_FailedMigrations st) > 0 \<or> length (st_InvalidMigrations st) > 0 then False
          else True)"

definition GetSuffix :: "Plan \<Rightarrow> string" where
  "GetSuffix r = (case st_Suffix (pl_Status r) of Some s \<Rightarrow> s | None \<Rightarrow> [])"

section \<open>VirtualMachineStorageMigration\<close>

text \<open>
  \<open>Phase\<close> is a string type; the eleven constants, the empty string of a fresh object, and any
  other string, which the phase switch sends to its default branch.
\<close>

datatype Phase =
    PhaseUnset
  | Started
  | RefreshStorageMigrationPlan
  | WaitForStorageMigrationPlanRefreshCompletion
  | BeginLiveMigration
  | WaitForLiveMigrationToComplete
  | LiveMigrationFailed
  | Canceling
  | Canceled
  | CleanupCancelledMigrations
  | Completed
  | CleanupMigrationResources
  | PhaseOther string

fun phaseString :: "Phase \<Rightarrow> string" where
  "phaseString PhaseUnset = ''''"
| "phaseString Started = ''Started''"
| "phaseString RefreshStorageMigrationPlan = ''RefreshStorageMigrationPlan''"
| "phaseString WaitForStorageMigrationPlanRefreshCompletion = ''WaitForStorageMigrationPlanRefreshCompletion''"
| "phaseString BeginLiveMigration = ''BeginLiveMigration''"
| "phaseString WaitForLiveMigrationToComplete = ''WaitForLiveMigrationToComplete''"
| "phaseString LiveMigrationFailed = ''LiveMigrationFailed''"
| "phaseString Canceling = ''Canceling''"
| "phaseString Canceled = ''Canceled''"
| "phaseString CleanupCancelledMigrations = ''CleanupCancelledMigrations''"
| "phaseString Completed = ''Completed''"
| "phaseString CleanupMigrationResources = ''CleanupMigrationResources''"
| "phaseString (PhaseOther s) = s"

record RunningVM =
  rm_Name :: string
  rm_Progress :: string

record MigStatus =
  ms_Conditions :: "Condition list"
  ms_Phase :: Phase
  ms_Errors :: "string list"
  ms_RunningMigrations :: "RunningVM list"
  ms_CompletedMigrations :: "string list"
  ms_CancelledMigrations :: "string list"

record Migration =
  mg_Meta :: ObjectMeta
  mg_PlanRef :: "ObjectReference option"
  mg_Status :: MigStatus

abbreviation MigrationFinalizer :: string where
  "MigrationFinalizer \<equiv> ''virtualmachinestoragemigration.kubevirt.io/finalizer''"

text \<open>\<open>AddErrors\<close>: the set of known errors is built once, before the loop that appends.\<close>

definition AddErrors :: "string list \<Rightarrow> Migration \<Rightarrow> Migration" where
  "AddErrors errors r =
     r\<lparr>mg_Status := (mg_Status r)\<lparr>ms_Errors :=
        ms_Errors (mg_Status r) @ filter (\<lambda>e. e \<notin> set (ms_Errors (mg_Status r))) errors\<rparr>\<rparr>"

definition HasErrors :: "Migration \<Rightarrow> bool" where
  "HasErrors r \<longleftrightarrow> length (ms_Errors (mg_Status r)) > 0"

definition FindOwnerReference :: "Migration \<Rightarrow> OwnerReference option" where
  "FindOwnerReference r =
     find (\<lambda>o'. or_Kind o' = PlanKind \<and> or_APIVersion o' = GroupVersion) (om_OwnerReferences (mg_Meta r))"

section \<open>Finalizers\<close>

definition HasFinalizer :: "ObjectMeta \<Rightarrow> string \<Rightarrow> bool" where
  "HasFinalizer m value = list_ex (\<lambda>f. f = value) (om_Finalizers m)"

definition addFinalizer :: "string \<Rightarrow> ObjectMeta \<Rightarrow> ObjectMeta" where
  "addFinalizer f m = (if HasFinalizer m f then m else m\<lparr>om_Finalizers := om_Finalizers m @ [f]\<rparr>)"

text \<open>The removal loop breaks at the first match.\<close>

fun dropFirst :: "string \<Rightarrow> string list \<Rightarrow> string list" where
  "dropFirst f [] = []"
| "dropFirst f (g # gs) = (if g = f then gs else g # dropFirst f gs)"

definition removeFinalizer :: "string \<Rightarrow> ObjectMeta \<Rightarrow> ObjectMeta" where
  "removeFinalizer f m = m\<lparr>om_Finalizers := dropFirst f (om_Finalizers m)\<rparr>"

definition Mig_AddFinalizer :: "string \<Rightarrow> Migration \<Rightarrow> Migration" where
  "Mig_AddFinalizer f r = r\<lparr>mg_Meta := addFinalizer f (mg_Meta r)\<rparr>"

definition Mig_RemoveFinalizer :: "string \<Rightarrow> Migration \<Rightarrow> Migration" where
  "Mig_RemoveFinalizer f r = r\<lparr>mg_Meta := removeFinalizer f (mg_Meta r)\<rparr>"

definition Plan_AddFinalizer :: "string \<Rightarrow> Plan \<Rightarrow> Plan" where
  "Plan_AddFinalizer f r = r\<lparr>pl_Meta := addFinalizer f (pl_Meta r)\<rparr>"

definition Plan_RemoveFinalizer :: "string \<Rightarrow> Plan \<Rightarrow> Plan" where
  "Plan_RemoveFinalizer f r = r\<lparr>pl_Meta := removeFinalizer f (pl_Meta r)\<rparr>"

section \<open>The multi-namespace resources\<close>

record NamespaceSpec =
  nsp_Name :: string
  nsp_Spec :: "PlanSpec option"

record NamespaceStatus =
  nst_Name :: string
  nst_Status :: "PlanStatus option"

record MultiPlanStatus =
  mps_Namespaces :: "NamespaceStatus list"
  mps_Conditions :: "Condition list"

record MultiPlan =
  mp_Kind :: string
  mp_APIVersion :: string
  mp_Meta :: ObjectMeta
  mp_Namespaces :: "NamespaceSpec list"
  mp_RetentionPolicy :: "RetentionPolicy option"
  mp_Status :: MultiPlanStatus

record MultiMigNamespaceStatus =
  mmn_Name :: string
  mmn_Status :: "MigStatus option"

record MultiMigStatus =
  mms_Conditions :: "Condition list"
  mms_Namespaces :: "MultiMigNamespaceStatus list"

record MultiMig =
  mm_Meta :: ObjectMeta
  mm_PlanRef :: "ObjectReference option"
  mm_Status :: MultiMigStatus

abbreviation MultiPlanKind :: string where
  "MultiPlanKind \<equiv> ''MultiNamespaceVirtualMachineStorageMigrationPlan''"

definition GetNamespacedPlanName :: "string \<Rightarrow> string \<Rightarrow> string" where
  "GetNamespacedPlanName planName ns = GetName planName ns DNS1123SubdomainMaxLength"

definition PlanStatus_CopyTimestamps :: "PlanStatus \<Rightarrow> PlanStatus option \<Rightarrow> PlanStatus" where
  "PlanStatus_CopyTimestamps r other =
     (case other of
        None \<Rightarrow> r
      | Some o' \<Rightarrow> r\<lparr>st_Conditions := CopyConditionTimestampsFrom (st_Conditions r) (st_Conditions o')\<rparr>)"

text \<open>
  The map \<open>otherByName\<close> is filled front to back, so the last entry of a name wins; a missing
  name reads as nil.
\<close>

definition otherByName :: "NamespaceStatus list \<Rightarrow> string \<Rightarrow> PlanStatus option" where
  "otherByName nss n = (case find (\<lambda>x. nst_Name x = n) (rev nss) of None \<Rightarrow> None | Some x \<Rightarrow> nst_Status x)"

definition MultiPlanStatus_CopyTimestamps :: "MultiPlanStatus \<Rightarrow> MultiPlanStatus option \<Rightarrow> MultiPlanStatus" where
  "MultiPlanStatus_CopyTimestamps r other =
     (case other of
        None \<Rightarrow> r
      | Some o' \<Rightarrow>
          r\<lparr>mps_Conditions := CopyConditionTimestampsFrom (mps_Conditions r) (mps_Conditions o'),
            mps_Namespaces := map (\<lambda>x.
              (case (nst_Status x, otherByName (mps_Namespaces o') (nst_Name x)) of
                 (Some st, Some ost) \<Rightarrow> x\<lparr>nst_Status := Some (PlanStatus_CopyTimestamps st (Some ost))\<rparr>
               | _ \<Rightarrow> x)) (mps_Namespaces r)\<rparr>)"

section \<open>Lemmas\<close>

lemma HasFinalizer_iff: "HasFinalizer m f \<longleftrightarrow> f \<in> set (om_Finalizers m)"
  by (auto simp: HasFinalizer_def list_ex_iff)

lemma dropFirst_remove1: "dropFirst f gs = remove1 f gs"
  by (induction gs) auto

text \<open>
  The finalizer interface of an object: the two methods are promised to act on the list of
  finalizers only as below, and an object whose finalizers start distinct keeps them distinct.
\<close>

locale finalizer_object =
  fixes finalizers :: "'o \<Rightarrow> string list"
    and add :: "string \<Rightarrow> 'o \<Rightarrow> 'o"
    and remove :: "string \<Rightarrow> 'o \<Rightarrow> 'o"
  assumes finalizers_add: "finalizers (add f r) = (if f \<in> set (finalizers r) then finalizers r else finalizers r @ [f])"
    and finalizers_remove: "finalizers (remove f r) = remove1 f (finalizers r)"
    and add_present: "f \<in> set (finalizers r) \<Longrightarrow> add f r = r"
begin

lemma add_mem: "f \<in> set (finalizers (add f r))"
  by (simp add: finalizers_add)

lemma add_idem: "add f (add f r) = add f r"
  by (rule add_present) (rule add_mem)

lemma distinct_add: "distinct (finalizers r) \<Longrightarrow> distinct (finalizers (add f r))"
  by (simp add: finalizers_add)

lemma distinct_remove: "distinct (finalizers r) \<Longrightarrow> distinct (finalizers (remove f r))"
  by (simp add: finalizers_remove)

lemma remove_absent: "distinct (finalizers r) \<Longrightarrow> f \<notin> set (finalizers (remove f r))"
  by (simp add: finalizers_remove)

lemma remove_keeps_others: "g \<noteq> f \<Longrightarrow> g \<in> set (finalizers (remove f r)) \<longleftrightarrow> g \<in> set (finalizers r)"
  by (simp add: finalizers_remove)

lemma remove_add: "f \<notin> set (finalizers r) \<Longrightarrow> finalizers (remove f (add f r)) = finalizers r"
  by (simp add: finalizers_add finalizers_remove remove1_append)

end

interpretation mig_fin: finalizer_object "\<lambda>r. om_Finalizers (mg_Meta r)" Mig_AddFinalizer Mig_RemoveFinalizer
  by unfold_locales
    (simp_all add: Mig_AddFinalizer_def Mig_RemoveFinalizer_def addFinalizer_def removeFinalizer_def
      HasFinalizer_iff dropFirst_remove1)

interpretation plan_fin: finalizer_object "\<lambda>r. om_Finalizers (pl_Meta r)" Plan_AddFinalizer Plan_RemoveFinalizer
  by unfold_locales
    (simp_all add: Plan_AddFinalizer_def Plan_RemoveFinalizer_def addFinalizer_def removeFinalizer_def
      HasFinalizer_iff dropFirst_remove1)

lemma completedByName_Some:
  "completedByName seen vms = Some names \<longleftrightarrow>
     [] \<notin> pv_Name ` set vms \<and> distinct (map pv_Name vms) \<and> pv_Name ` set vms \<inter> seen = {}
     \<and> names = seen \<union> pv_Name ` set vms"
  by (induction vms arbitrary: seen) auto

lemma AllSpecVMsCompleted_iff:
  "AllSpecVMsCompleted spec completed \<longleftrightarrow>
     spec \<noteq> [] \<and> length completed = length spec \<and> [] \<notin> pv_Name ` set completed
     \<and> distinct (map pv_Name completed) \<and> pv_Name ` set spec \<subseteq> pv_Name ` set completed"
proof (cases "completedByName {} completed")
  case None
  then have "\<not> ([] \<notin> pv_Name ` set completed \<and> distinct (map pv_Name completed))"
    by (metis Int_empty_right completedByName_Some option.distinct(1))
  with None show ?thesis by (auto simp: AllSpecVMsCompleted_def)
next
  case (Some names)
  then have "[] \<notin> pv_Name ` set completed" "distinct (map pv_Name completed)" "names = pv_Name ` set completed"
    by (simp_all add: completedByName_Some)
  with Some show ?thesis
    by (auto simp: AllSpecVMsCompleted_def list_all_iff)
qed

lemma GetNamespacedPlanName_length: "length (GetNamespacedPlanName p ns) \<le> 253"
  using GetName_length[of p ns DNS1123SubdomainMaxLength]
  by (simp add: GetNamespacedPlanName_def DNS1123SubdomainMaxLength_def)

section \<open>Properties\<close>

text \<open>
  C38. \<open>AllSpecVMsCompleted\<close> says what its comment promises: for a spec whose names are distinct
  and non-empty (the CRD keys the list by name and requires a name), it holds exactly when the
  spec is not empty and the completed names are the spec names, each exactly once.
\<close>

theorem AllSpecVMsCompleted_correct:
  assumes "distinct (map pv_Name spec)" "[] \<notin> pv_Name ` set spec"
  shows "AllSpecVMsCompleted spec completed \<longleftrightarrow>
    spec \<noteq> [] \<and> mset (map pv_Name completed) = mset (map pv_Name spec)"
proof
  let ?s = "map pv_Name spec" and ?c = "map pv_Name completed"
  assume a: "AllSpecVMsCompleted spec completed"
  then have len: "length ?c = length ?s" and d: "distinct ?c" and sub: "set ?s \<subseteq> set ?c"
    by (auto simp: AllSpecVMsCompleted_iff)
  have "card (set ?c) = card (set ?s)"
    using len d assms(1) by (metis distinct_card)
  with sub have "set ?c = set ?s" by (metis List.finite_set card_subset_eq)
  with d assms(1) have "mset ?c = mset ?s" by (metis set_eq_iff_mset_eq_distinct)
  with a show "spec \<noteq> [] \<and> mset ?c = mset ?s" by (simp add: AllSpecVMsCompleted_iff)
next
  assume h: "spec \<noteq> [] \<and> mset (map pv_Name completed) = mset (map pv_Name spec)"
  then have "set (map pv_Name completed) = set (map pv_Name spec)"
    by (metis set_mset_mset)
  moreover from h have "length completed = length spec" by (metis size_mset length_map)
  moreover from h assms(1) have "distinct (map pv_Name completed)"
    by (metis mset_eq_imp_distinct_iff)
  ultimately show "AllSpecVMsCompleted spec completed"
    using h assms(2) by (auto simp: AllSpecVMsCompleted_iff)
qed

theorem AllSpecVMsCompleted_correct_witness:
  "distinct (map pv_Name [\<lparr>pv_Name = ''vm1'', pv_TargetMigrationPVCs = []\<rparr>])
   \<and> AllSpecVMsCompleted [\<lparr>pv_Name = ''vm1'', pv_TargetMigrationPVCs = []\<rparr>]
       [\<lparr>pv_Name = ''vm1'', pv_TargetMigrationPVCs = [], sv_SourcePVCs = []\<rparr>]"
  using AllSpecVMsCompleted_correct[of "[\<lparr>pv_Name = ''vm1'', pv_TargetMigrationPVCs = []\<rparr>]"
      "[\<lparr>pv_Name = ''vm1'', pv_TargetMigrationPVCs = [], sv_SourcePVCs = []\<rparr>]"]
  by simp

text \<open>
  A migration or plan object with distinct finalizers: after adding a finalizer it is there
  once and adding it again changes nothing; after removing it, it is gone, every other finalizer
  is where it was, and removing a freshly added one restores the list.
\<close>

theorem finalizer_methods_correct:
  assumes "distinct (om_Finalizers (mg_Meta m))" "distinct (om_Finalizers (pl_Meta p))" "g \<noteq> f"
  shows "HasFinalizer (mg_Meta (Mig_AddFinalizer f m)) f
    \<and> Mig_AddFinalizer f (Mig_AddFinalizer f m) = Mig_AddFinalizer f m
    \<and> \<not> HasFinalizer (mg_Meta (Mig_RemoveFinalizer f m)) f
    \<and> (HasFinalizer (mg_Meta (Mig_RemoveFinalizer f m)) g \<longleftrightarrow> HasFinalizer (mg_Meta m) g)
    \<and> HasFinalizer (pl_Meta (Plan_AddFinalizer f p)) f
    \<and> \<not> HasFinalizer (pl_Meta (Plan_RemoveFinalizer f p)) f
    \<and> (HasFinalizer (pl_Meta (Plan_RemoveFinalizer f p)) g \<longleftrightarrow> HasFinalizer (pl_Meta p) g)
    \<and> (\<not> HasFinalizer (pl_Meta p) f \<longrightarrow>
        om_Finalizers (pl_Meta (Plan_RemoveFinalizer f (Plan_AddFinalizer f p))) = om_Finalizers (pl_Meta p))"
  using assms
  by (simp add: HasFinalizer_iff mig_fin.add_mem mig_fin.add_idem mig_fin.remove_absent
      mig_fin.remove_keeps_others plan_fin.add_mem plan_fin.remove_absent
      plan_fin.remove_keeps_others plan_fin.remove_add)

text \<open>Empty objects, to build concrete ones from.\<close>

definition emptyMeta :: "ObjectMeta" where
  "emptyMeta = \<lparr>om_Name = [], om_Namespace = [], om_UID = [], om_ResourceVersion = [],
     om_Labels = Map.empty, om_Annotations = Map.empty, om_Finalizers = [], om_OwnerReferences = [],
     om_CreationTimestamp = 0, om_DeletionTimestamp = None\<rparr>"

definition emptyPlanStatus :: PlanStatus where
  "emptyPlanStatus = \<lparr>st_CompletedOutOf = [], st_ReadyMigrations = [], st_InvalidMigrations = [],
     st_InProgressMigrations = [], st_CompletedMigrations = [], st_FailedMigrations = [],
     st_Suffix = None, st_Conditions = []\<rparr>"

definition emptyPlan :: Plan where
  "emptyPlan = \<lparr>pl_Kind = PlanKind, pl_APIVersion = GroupVersion, pl_Meta = emptyMeta,
     pl_Spec = \<lparr>spec_VirtualMachines = [], spec_RetentionPolicy = None\<rparr>, pl_Status = emptyPlanStatus\<rparr>"

definition emptyMigStatus :: MigStatus where
  "emptyMigStatus = \<lparr>ms_Conditions = [], ms_Phase = PhaseUnset, ms_Errors = [],
     ms_RunningMigrations = [], ms_CompletedMigrations = [], ms_CancelledMigrations = []\<rparr>"

definition emptyMigration :: Migration where
  "emptyMigration = \<lparr>mg_Meta = emptyMeta, mg_PlanRef = None, mg_Status = emptyMigStatus\<rparr>"

lemmas empty_defs = emptyMeta_def emptyPlanStatus_def emptyPlan_def emptyMigStatus_def emptyMigration_def

theorem finalizer_methods_correct_witness:
  "distinct (om_Finalizers (mg_Meta emptyMigration)) \<and> distinct (om_Finalizers (pl_Meta emptyPlan))
   \<and> HasFinalizer (mg_Meta (Mig_AddFinalizer MigrationFinalizer emptyMigration)) MigrationFinalizer"
  using finalizer_methods_correct[of emptyMigration emptyPlan PlanFinalizer MigrationFinalizer]
  by (simp add: empty_defs)

end
