(* ===== verification/VolumeSwap.thy ===== *)
theory VolumeSwap
  imports Types
begin

text \<open>
  The pure core of a storage migration and of its cancellation: rewriting a VM to its target
  volumes (\<open>prepareVMForStorageMigration\<close> in \<open>src/internal/controller/storagemig/vm.go\<close>),
  recognising which volumes a VM is on, repairing and reverting a plan entry
  (\<open>src/internal/controller/storagemig/cancel.go\<close>).  The theorems say that the revert undoes
  the swap.
\<close>

section \<open>Rewriting the VM\<close>

text \<open>\<open>planTargetPVCMap\<close> and \<open>planPVCNameMap\<close>: built front to back, the last entry of a key wins.\<close>

definition planTargetPVCMap :: "TargetMigrationPVC list \<Rightarrow> string \<rightharpoonup> TargetMigrationPVC" where
  "planTargetPVCMap ts = foldl (\<lambda>m p. m(tp_VolumeName p \<mapsto> p)) Map.empty ts"

definition planPVCNameMap :: "SourcePVC list \<Rightarrow> string \<rightharpoonup> string" where
  "planPVCNameMap ss = foldl (\<lambda>m p. m(sp_Name p \<mapsto> sp_VolumeName p)) Map.empty ss"

definition prepareVolume :: "(string \<rightharpoonup> TargetMigrationPVC) \<Rightarrow> Volume \<Rightarrow> Volume result" where
  "prepareVolume m v = (case m (vol_Name v) of
       None \<Rightarrow> Ok v
     | Some planPVC \<Rightarrow>
         bindR (if vol_PersistentVolumeClaim v \<noteq> None
                then bindR (deref (dp_Name (tp_DestinationPVC planPVC)))
                       (\<lambda>n. Ok (v\<lparr>vol_PersistentVolumeClaim := Some n\<rparr>))
                else Ok v) (\<lambda>v1.
         if vol_DataVolume v \<noteq> None
         then bindR (deref (dp_Name (tp_DestinationPVC planPVC))) (\<lambda>n. Ok (v1\<lparr>vol_DataVolume := Some n\<rparr>))
         else Ok v1))"

definition prepareTemplate ::
  "(string \<rightharpoonup> string) \<Rightarrow> (string \<rightharpoonup> TargetMigrationPVC) \<Rightarrow> string set \<Rightarrow> DataVolumeTemplate \<Rightarrow> DataVolumeTemplate result"
where
  "prepareTemplate names targets migrated d = (case names (dvt_Name d) of
       None \<Rightarrow> Ok d
     | Some volumeName \<Rightarrow>
         (case targets volumeName of
            None \<Rightarrow> Ok d
          | Some t \<Rightarrow>
              if volumeName \<notin> migrated then Ok d
              else bindR (deref (dp_Name (tp_DestinationPVC t))) (\<lambda>n.
                let d1 = d\<lparr>dvt_Name := n\<rparr>; sc = dp_StorageClassName (tp_DestinationPVC t)
                in Ok (if dvt_Storage d1 \<noteq> None then d1\<lparr>dvt_Storage := Some sc\<rparr>
                       else if dvt_PVC d1 \<noteq> None then d1\<lparr>dvt_PVC := Some sc\<rparr>
                       else d1))))"

definition prepareVMForStorageMigration :: "VirtualMachine \<Rightarrow> StatusVM \<Rightarrow> VirtualMachine result" where
  "prepareVMForStorageMigration vm planVM =
     (if vm_Name vm = [] then Err (PlainErr ''vm is nil or empty'')
      else let targets = planTargetPVCMap (pv_TargetMigrationPVCs planVM);
               volumesBeingMigrated = vol_Name ` set (vm_Volumes vm) \<inter> dom targets;
               names = planPVCNameMap (sv_SourcePVCs planVM)
           in bindR (mapR (prepareVolume targets) (vm_Volumes vm)) (\<lambda>vols.
              bindR (mapR (prepareTemplate names targets volumesBeingMigrated) (vm_DataVolumeTemplates vm)) (\<lambda>dvts.
              Ok (vm\<lparr>vm_Volumes := vols, vm_DataVolumeTemplates := dvts\<rparr>))))"

section \<open>Which volumes is a VM on\<close>

definition volumeClaimName :: "Volume \<Rightarrow> string" where
  "volumeClaimName v = (case vol_DataVolume v of
       Some n \<Rightarrow> n
     | None \<Rightarrow> (case vol_PersistentVolumeClaim v of Some n \<Rightarrow> n | None \<Rightarrow> []))"

definition targetNames :: "StatusVM \<Rightarrow> string list" where
  "targetNames planVM =
     concat (map (\<lambda>t. case dp_Name (tp_DestinationPVC t) of None \<Rightarrow> [] | Some n \<Rightarrow> [n]) (pv_TargetMigrationPVCs planVM))"

definition vmReferencesTargetVolumes :: "VirtualMachine \<Rightarrow> StatusVM \<Rightarrow> bool" where
  "vmReferencesTargetVolumes vm planVM =
     (let targets = targetNames planVM in
      if targets = [] then False
      else list_ex (\<lambda>v. volumeClaimName v \<in> set targets) (vm_Volumes vm)
         \<or> list_ex (\<lambda>d. dvt_Name d \<in> set targets) (vm_DataVolumeTemplates vm))"

text \<open>The inner loop of \<open>isVMOnSourceVolumes\<close>: does some volume carry the recorded source?\<close>

fun sourceMatched :: "SourcePVC \<Rightarrow> Volume list \<Rightarrow> bool" where
  "sourceMatched src [] = False"
| "sourceMatched src (v # vs) =
     (if sp_VolumeName src \<noteq> [] \<and> vol_Name v \<noteq> sp_VolumeName src then sourceMatched src vs
      else if volumeClaimName v = [] then sourceMatched src vs
      else if volumeClaimName v = sp_Name src then True
      else if sp_VolumeName src \<noteq> [] then False
      else sourceMatched src vs)"

definition onSourceVolumes :: "VirtualMachine \<Rightarrow> StatusVM list \<Rightarrow> string \<Rightarrow> bool" where
  "onSourceVolumes vm cancelMigrations vmName =
     (case find (\<lambda>p. pv_Name p = vmName) cancelMigrations of
        None \<Rightarrow> False
      | Some planVM \<Rightarrow>
          if sv_SourcePVCs planVM = [] then False
          else if vmReferencesTargetVolumes vm planVM then False
          else list_all (\<lambda>src. sourceMatched src (vm_Volumes vm)) (sv_SourcePVCs planVM))"

section \<open>Repairing and reverting a plan entry\<close>

definition sourceClaimFromVolumeUpdateState :: "VirtualMachine \<Rightarrow> string \<Rightarrow> string" where
  "sourceClaimFromVolumeUpdateState vm targetClaim = (case vm_VolumeUpdateState vm of
       Some (Some migrated) \<Rightarrow>
         (case find (\<lambda>m. mv_SourcePVCInfo m \<noteq> None \<and> mv_DestinationPVCInfo m = Some targetClaim) migrated of
            Some m \<Rightarrow> (case mv_SourcePVCInfo m of Some n \<Rightarrow> n | None \<Rightarrow> [])
          | None \<Rightarrow> [])
     | _ \<Rightarrow> [])"

definition setSourceName :: "string \<Rightarrow> SourcePVC \<Rightarrow> SourcePVC" where
  "setSourceName n s =
     s\<lparr>sp_Name := n, sp_SourcePVC := (sp_SourcePVC s)\<lparr>pvc_Meta := (pvc_Meta (sp_SourcePVC s))\<lparr>om_Name := n\<rparr>\<rparr>\<rparr>"

definition lengthMismatch :: "StatusVM \<Rightarrow> goerr" where
  "lengthMismatch planVM = PlainErr (''source PVCs ('' @ showNat (length (sv_SourcePVCs planVM)) @
     '') and target PVCs ('' @ showNat (length (pv_TargetMigrationPVCs planVM)) @
     '') length mismatch for vm '' @ pv_Name planVM)"

fun recoverPairs :: "VirtualMachine \<Rightarrow> string \<Rightarrow> SourcePVC list \<Rightarrow> TargetMigrationPVC list \<Rightarrow> SourcePVC list result" where
  "recoverPairs vm name (s # ss) (t # ts) =
     (case dp_Name (tp_DestinationPVC t) of
        None \<Rightarrow> bindR (recoverPairs vm name ss ts) (\<lambda>rest. Ok (s # rest))
      | Some targetName \<Rightarrow>
          if sp_Name s \<noteq> targetName then bindR (recoverPairs vm name ss ts) (\<lambda>rest. Ok (s # rest))
          else let recovered = sourceClaimFromVolumeUpdateState vm targetName in
            if recovered = [] then
              Err (PlainErr (''plan source PVC for vm '' @ name @ '' volume '' @ sp_VolumeName s @
                '' matches target '' @ targetName @ '' and VolumeUpdateState has no original source''))
            else bindR (recoverPairs vm name ss ts) (\<lambda>rest. Ok (setSourceName recovered s # rest)))"
| "recoverPairs vm name ss ts = Ok ss"

text \<open>
  \<open>recoverCorruptedSourcePVCs\<close> writes through its pointer argument; the result is the repaired
  plan entry.
\<close>

definition recoverCorruptedSourcePVCs :: "VirtualMachine \<Rightarrow> StatusVM \<Rightarrow> StatusVM result" where
  "recoverCorruptedSourcePVCs vm planVM =
     (if length (sv_SourcePVCs planVM) \<noteq> length (pv_TargetMigrationPVCs planVM)
      then Err (lengthMismatch planVM)
      else bindR (recoverPairs vm (pv_Name planVM) (sv_SourcePVCs planVM) (pv_TargetMigrationPVCs planVM))
             (\<lambda>ss. Ok (planVM\<lparr>sv_SourcePVCs := ss\<rparr>)))"

fun revertPairs :: "string \<Rightarrow> SourcePVC list \<Rightarrow> TargetMigrationPVC list \<Rightarrow> (SourcePVC list \<times> TargetMigrationPVC list) result" where
  "revertPairs name (s # ss) (t # ts) =
     (case dp_Name (tp_DestinationPVC t) of
        None \<Rightarrow> bindR (revertPairs name ss ts) (\<lambda>(ss', ts'). Ok (s # ss', t # ts'))
      | Some targetName \<Rightarrow>
          if sp_Name s = targetName then
            Err (PlainErr (''cannot revert volumes for vm '' @ name @ '': source and target both '' @ sp_Name s))
          else bindR (revertPairs name ss ts) (\<lambda>(ss', ts').
            Ok (setSourceName targetName s # ss',
                t\<lparr>tp_DestinationPVC := (tp_DestinationPVC t)\<lparr>dp_Name := Some (sp_Name s)\<rparr>\<rparr> # ts')))"
| "revertPairs name ss ts = Ok (ss, ts)"

definition revertPlanVolumes :: "StatusVM \<Rightarrow> StatusVM result" where
  "revertPlanVolumes planVM =
     (if length (sv_SourcePVCs planVM) \<noteq> length (pv_TargetMigrationPVCs planVM)
      then Err (lengthMismatch planVM)
      else bindR (revertPairs (pv_Name planVM) (sv_SourcePVCs planVM) (pv_TargetMigrationPVCs planVM))
             (\<lambda>(ss, ts). Ok (planVM\<lparr>sv_SourcePVCs := ss, pv_TargetMigrationPVCs := ts\<rparr>)))"

section \<open>Closed forms\<close>

definition targetOf :: "TargetMigrationPVC \<Rightarrow> string" where
  "targetOf t = (case dp_Name (tp_DestinationPVC t) of None \<Rightarrow> [] | Some n \<Rightarrow> n)"

definition retarget :: "(string \<rightharpoonup> TargetMigrationPVC) \<Rightarrow> Volume \<Rightarrow> Volume" where
  "retarget m v = (case m (vol_Name v) of
       None \<Rightarrow> v
     | Some t \<Rightarrow> v\<lparr>vol_PersistentVolumeClaim := map_option (\<lambda>_. targetOf t) (vol_PersistentVolumeClaim v),
                   vol_DataVolume := map_option (\<lambda>_. targetOf t) (vol_DataVolume v)\<rparr>)"

definition retemplate ::
  "(string \<rightharpoonup> string) \<Rightarrow> (string \<rightharpoonup> TargetMigrationPVC) \<Rightarrow> string set \<Rightarrow> DataVolumeTemplate \<Rightarrow> DataVolumeTemplate"
where
  "retemplate names targets migrated d = (case names (dvt_Name d) of
       None \<Rightarrow> d
     | Some vn \<Rightarrow> (case targets vn of
           None \<Rightarrow> d
         | Some t \<Rightarrow> if vn \<notin> migrated then d else
             d\<lparr>dvt_Name := targetOf t,
               dvt_Storage := map_option (\<lambda>_. dp_StorageClassName (tp_DestinationPVC t)) (dvt_Storage d),
               dvt_PVC := (if dvt_Storage d = None
                  then map_option (\<lambda>_. dp_StorageClassName (tp_DestinationPVC t)) (dvt_PVC d) else dvt_PVC d)\<rparr>))"

definition named :: "TargetMigrationPVC \<Rightarrow> bool" where
  "named t \<longleftrightarrow> dp_Name (tp_DestinationPVC t) \<noteq> None"

lemma deref_named: "named t \<Longrightarrow> deref (dp_Name (tp_DestinationPVC t)) = Ok (targetOf t)"
  by (auto simp: named_def deref_def targetOf_def)

lemma prepareVolume_named:
  "(\<And>t. m (vol_Name v) = Some t \<Longrightarrow> named t) \<Longrightarrow> prepareVolume m v = Ok (retarget m v)"
  by (cases "vol_PersistentVolumeClaim v"; cases "vol_DataVolume v")
    (auto simp: prepareVolume_def retarget_def deref_named split: option.splits)

lemma prepareTemplate_named:
  "(\<And>vn t. targets vn = Some t \<Longrightarrow> named t) \<Longrightarrow>
   prepareTemplate names targets mg d = Ok (retemplate names targets mg d)"
  by (auto simp: prepareTemplate_def retemplate_def deref_named Let_def split: option.splits)

definition migratedVolumes :: "VirtualMachine \<Rightarrow> StatusVM \<Rightarrow> string set" where
  "migratedVolumes vm p = vol_Name ` set (vm_Volumes vm) \<inter> dom (planTargetPVCMap (pv_TargetMigrationPVCs p))"

definition swapped :: "VirtualMachine \<Rightarrow> StatusVM \<Rightarrow> VirtualMachine" where
  "swapped vm p = vm\<lparr>
     vm_Volumes := map (retarget (planTargetPVCMap (pv_TargetMigrationPVCs p))) (vm_Volumes vm),
     vm_DataVolumeTemplates := map (retemplate (planPVCNameMap (sv_SourcePVCs p))
        (planTargetPVCMap (pv_TargetMigrationPVCs p)) (migratedVolumes vm p)) (vm_DataVolumeTemplates vm)\<rparr>"

lemma planTargetPVCMap_SomeD:
  "planTargetPVCMap ts vn = Some t \<Longrightarrow> t \<in> set ts \<and> tp_VolumeName t = vn"
  by (auto simp: planTargetPVCMap_def dest: foldl_upd_SomeD)

lemma prepare_named:
  assumes "vm_Name vm \<noteq> []" "list_all named (pv_TargetMigrationPVCs p)"
  shows "prepareVMForStorageMigration vm p = Ok (swapped vm p)"
proof -
  let ?m = "planTargetPVCMap (pv_TargetMigrationPVCs p)"
  have n: "named t" if "?m vn = Some t" for vn t
    using planTargetPVCMap_SomeD[OF that] assms(2) by (auto simp: list_all_iff)
  have "mapR (prepareVolume ?m) vs = Ok (map (retarget ?m) vs)" for vs
    by (rule mapR_Ok) (auto intro: prepareVolume_named n)
  moreover have "mapR (prepareTemplate names ?m mg) ds = Ok (map (retemplate names ?m mg) ds)" for names mg ds
    by (rule mapR_Ok) (auto intro: prepareTemplate_named n)
  ultimately show ?thesis
    using assms(1) by (simp add: prepareVMForStorageMigration_def swapped_def migratedVolumes_def Let_def)
qed

section \<open>The revert of a plan entry\<close>

definition swapSource :: "SourcePVC \<Rightarrow> TargetMigrationPVC \<Rightarrow> SourcePVC" where
  "swapSource s t = setSourceName (targetOf t) s"

definition swapTarget :: "SourcePVC \<Rightarrow> TargetMigrationPVC \<Rightarrow> TargetMigrationPVC" where
  "swapTarget s t = t\<lparr>tp_DestinationPVC := (tp_DestinationPVC t)\<lparr>dp_Name := Some (sp_Name s)\<rparr>\<rparr>"

text \<open>A source and a target of the same volume, with different claim names.\<close>

definition paired :: "SourcePVC \<Rightarrow> TargetMigrationPVC \<Rightarrow> bool" where
  "paired s t \<longleftrightarrow> sp_VolumeName s = tp_VolumeName t \<and> named t \<and> sp_Name s \<noteq> targetOf t"

lemma swap_sel [simp]:
  "sp_Name (swapSource s t) = targetOf t" "sp_VolumeName (swapSource s t) = sp_VolumeName s"
  "targetOf (swapTarget s t) = sp_Name s" "tp_VolumeName (swapTarget s t) = tp_VolumeName t"
  "named (swapTarget s t)"
  by (simp_all add: swapSource_def swapTarget_def setSourceName_def targetOf_def named_def)

lemma revertPairs_paired:
  "list_all2 paired ss ts \<Longrightarrow> revertPairs n ss ts = Ok (map2 swapSource ss ts, map2 swapTarget ss ts)"
proof (induction rule: list_all2_induct)
  case (Cons s ss t ts)
  then obtain tn where "dp_Name (tp_DestinationPVC t) = Some tn" by (auto simp: paired_def named_def)
  with Cons show ?case
    by (simp add: paired_def targetOf_def swapSource_def swapTarget_def)
qed simp

definition reverted :: "StatusVM \<Rightarrow> StatusVM" where
  "reverted p = p\<lparr>sv_SourcePVCs := map2 swapSource (sv_SourcePVCs p) (pv_TargetMigrationPVCs p),
     pv_TargetMigrationPVCs := map2 swapTarget (sv_SourcePVCs p) (pv_TargetMigrationPVCs p)\<rparr>"

definition entry_paired :: "StatusVM \<Rightarrow> bool" where
  "entry_paired p \<longleftrightarrow> list_all2 paired (sv_SourcePVCs p) (pv_TargetMigrationPVCs p)"

lemma revert_paired: "entry_paired p \<Longrightarrow> revertPlanVolumes p = Ok (reverted p)"
  by (auto simp: entry_paired_def revertPlanVolumes_def reverted_def revertPairs_paired dest: list_all2_lengthD)

lemma paired_named: "entry_paired p \<Longrightarrow> list_all named (pv_TargetMigrationPVCs p)"
  by (auto simp: entry_paired_def list_all_iff list_all2_conv_all_nth in_set_conv_nth paired_def)

lemma reverted_named: "entry_paired p \<Longrightarrow> list_all named (pv_TargetMigrationPVCs (reverted p))"
  by (auto simp: reverted_def list_all_iff in_set_conv_nth)


text \<open>
  A plan entry that fits a VM still on its sources: sources and targets are paired volume by
  volume, no volume, source or target is listed twice, every planned volume the VM has claims
  its recorded source, and no template of the VM is already named as a target.
\<close>

definition swap_wf :: "VirtualMachine \<Rightarrow> StatusVM \<Rightarrow> bool" where
  "swap_wf vm p \<longleftrightarrow> vm_Name vm \<noteq> [] \<and> entry_paired p
     \<and> distinct (map tp_VolumeName (pv_TargetMigrationPVCs p))
     \<and> distinct (map sp_Name (sv_SourcePVCs p))
     \<and> distinct (map targetOf (pv_TargetMigrationPVCs p))
     \<and> list_all (\<lambda>s. list_all (\<lambda>v. vol_Name v = sp_VolumeName s \<longrightarrow>
          vol_PersistentVolumeClaim v \<in> {None, Some (sp_Name s)} \<and> vol_DataVolume v \<in> {None, Some (sp_Name s)})
          (vm_Volumes vm)) (sv_SourcePVCs p)
     \<and> list_all (\<lambda>d. dvt_Name d \<notin> targetOf ` set (pv_TargetMigrationPVCs p)) (vm_DataVolumeTemplates vm)"

lemma entry_length: "entry_paired p \<Longrightarrow> length (sv_SourcePVCs p) = length (pv_TargetMigrationPVCs p)"
  by (auto simp: entry_paired_def dest: list_all2_lengthD)

lemma entry_nth:
  "entry_paired p \<Longrightarrow> i < length (pv_TargetMigrationPVCs p) \<Longrightarrow>
   paired (sv_SourcePVCs p ! i) (pv_TargetMigrationPVCs p ! i)"
  by (auto simp: entry_paired_def list_all2_conv_all_nth)

lemma planTargetPVCMap_None: "planTargetPVCMap ts vn = None \<longleftrightarrow> vn \<notin> tp_VolumeName ` set ts"
  by (simp add: planTargetPVCMap_def foldl_upd map_of_eq_None_iff image_image)

lemma planTargetPVCMap_nth:
  "distinct (map tp_VolumeName ts) \<Longrightarrow> i < length ts \<Longrightarrow>
   planTargetPVCMap ts (tp_VolumeName (ts ! i)) = Some (ts ! i)"
  unfolding planTargetPVCMap_def by (rule foldl_upd_distinct[where v = "\<lambda>p. p"]) simp_all

lemma planPVCNameMap_nth:
  "distinct (map sp_Name ss) \<Longrightarrow> i < length ss \<Longrightarrow>
   planPVCNameMap ss (sp_Name (ss ! i)) = Some (sp_VolumeName (ss ! i))"
  unfolding planPVCNameMap_def by (rule foldl_upd_distinct) simp_all

lemma planPVCNameMap_None: "planPVCNameMap ss n = None \<longleftrightarrow> n \<notin> sp_Name ` set ss"
  by (simp add: planPVCNameMap_def foldl_upd map_of_eq_None_iff image_image)

text \<open>What the reverted entry looks like, index by index.\<close>

lemma reverted_nth:
  assumes "entry_paired p"
  shows "length (sv_SourcePVCs (reverted p)) = length (pv_TargetMigrationPVCs p)"
    and "length (pv_TargetMigrationPVCs (reverted p)) = length (pv_TargetMigrationPVCs p)"
    and "i < length (pv_TargetMigrationPVCs p) \<Longrightarrow> sv_SourcePVCs (reverted p) ! i
           = swapSource (sv_SourcePVCs p ! i) (pv_TargetMigrationPVCs p ! i)"
    and "i < length (pv_TargetMigrationPVCs p) \<Longrightarrow> pv_TargetMigrationPVCs (reverted p) ! i
           = swapTarget (sv_SourcePVCs p ! i) (pv_TargetMigrationPVCs p ! i)"
  using entry_length[OF assms] by (simp_all add: reverted_def)

lemma reverted_names:
  assumes "entry_paired p"
  shows "map tp_VolumeName (pv_TargetMigrationPVCs (reverted p)) = map tp_VolumeName (pv_TargetMigrationPVCs p)"
    and "map sp_Name (sv_SourcePVCs (reverted p)) = map targetOf (pv_TargetMigrationPVCs p)"
  by (rule nth_equalityI; simp add: reverted_nth[OF assms])+

lemma retarget_back:
  assumes wf: "swap_wf vm p" and v: "v \<in> set (vm_Volumes vm)"
  shows "retarget (planTargetPVCMap (pv_TargetMigrationPVCs (reverted p)))
           (retarget (planTargetPVCMap (pv_TargetMigrationPVCs p)) v) = v"
proof -
  let ?ts = "pv_TargetMigrationPVCs p" and ?ss = "sv_SourcePVCs p"
  have ep: "entry_paired p" using wf by (simp add: swap_wf_def)
  note names = reverted_names[OF ep] and nth = reverted_nth[OF ep]
  have same: "tp_VolumeName ` set (pv_TargetMigrationPVCs (reverted p)) = tp_VolumeName ` set ?ts"
    by (metis names(1) set_map)
  show ?thesis
  proof (cases "vol_Name v \<in> tp_VolumeName ` set ?ts")
    case False
    then show ?thesis using same by (simp add: retarget_def planTargetPVCMap_None[THEN iffD2])
  next
    case True
    then obtain i where i: "i < length ?ts" "vol_Name v = tp_VolumeName (?ts ! i)"
      by (auto simp: in_set_conv_nth)
    have d: "distinct (map tp_VolumeName ?ts)" using wf by (simp add: swap_wf_def)
    have t1: "planTargetPVCMap ?ts (vol_Name v) = Some (?ts ! i)"
      using planTargetPVCMap_nth[OF d i(1)] i(2) by simp
    have t2: "planTargetPVCMap (pv_TargetMigrationPVCs (reverted p)) (vol_Name v) = Some (swapTarget (?ss ! i) (?ts ! i))"
      using planTargetPVCMap_nth[of "pv_TargetMigrationPVCs (reverted p)" i] d i names(1) nth by simp
    have "sp_VolumeName (?ss ! i) = vol_Name v" using entry_nth[OF ep i(1)] i(2) by (simp add: paired_def)
    moreover have "?ss ! i \<in> set ?ss" using i(1) entry_length[OF ep] by simp
    ultimately have "vol_PersistentVolumeClaim v \<in> {None, Some (sp_Name (?ss ! i))}"
      "vol_DataVolume v \<in> {None, Some (sp_Name (?ss ! i))}"
      using wf v by (auto simp: swap_wf_def list_all_iff)
    then show ?thesis using t1 t2 by (cases v) (auto simp: retarget_def)
  qed
qed

lemma vol_Name_retarget [simp]: "vol_Name (retarget m v) = vol_Name v"
  by (simp add: retarget_def split: option.splits)

lemma migratedVolumes_reverted:
  assumes "entry_paired p"
  shows "migratedVolumes (swapped vm p) (reverted p) = migratedVolumes vm p"
proof -
  have "vn \<in> dom (planTargetPVCMap (pv_TargetMigrationPVCs (reverted p)))
      \<longleftrightarrow> vn \<in> dom (planTargetPVCMap (pv_TargetMigrationPVCs p))" for vn
    by (metis domIff planTargetPVCMap_None reverted_names(1)[OF assms] set_map)
  then show ?thesis by (auto simp: migratedVolumes_def swapped_def image_image)
qed

text \<open>The storage class a template has after being renamed for a target: the target's.\<close>

definition withClass :: "string option \<Rightarrow> DataVolumeTemplate \<Rightarrow> DataVolumeTemplate" where
  "withClass sc d = d\<lparr>dvt_Storage := map_option (\<lambda>_. sc) (dvt_Storage d),
     dvt_PVC := (if dvt_Storage d = None then map_option (\<lambda>_. sc) (dvt_PVC d) else dvt_PVC d)\<rparr>"

definition migratedTemplate :: "VirtualMachine \<Rightarrow> StatusVM \<Rightarrow> DataVolumeTemplate \<Rightarrow> TargetMigrationPVC option" where
  "migratedTemplate vm p d = (case planPVCNameMap (sv_SourcePVCs p) (dvt_Name d) of
       None \<Rightarrow> None
     | Some vn \<Rightarrow> if vn \<in> migratedVolumes vm p then planTargetPVCMap (pv_TargetMigrationPVCs p) vn else None)"

lemma retemplate_back:
  assumes wf: "swap_wf vm p" and d: "d \<in> set (vm_DataVolumeTemplates vm)"
  shows "retemplate (planPVCNameMap (sv_SourcePVCs (reverted p)))
       (planTargetPVCMap (pv_TargetMigrationPVCs (reverted p))) (migratedVolumes vm p)
       (retemplate (planPVCNameMap (sv_SourcePVCs p)) (planTargetPVCMap (pv_TargetMigrationPVCs p))
          (migratedVolumes vm p) d)
     = (case migratedTemplate vm p d of None \<Rightarrow> d | Some t \<Rightarrow> withClass (dp_StorageClassName (tp_DestinationPVC t)) d)"
proof -
  let ?ts = "pv_TargetMigrationPVCs p" and ?ss = "sv_SourcePVCs p"
  have ep: "entry_paired p" using wf by (simp add: swap_wf_def)
  note names = reverted_names[OF ep] and nth = reverted_nth[OF ep]
  have dist: "distinct (map tp_VolumeName ?ts)" "distinct (map sp_Name ?ss)" "distinct (map targetOf ?ts)"
    using wf by (simp_all add: swap_wf_def)
  have fresh: "planPVCNameMap (sv_SourcePVCs (reverted p)) (dvt_Name d) = None"
  proof -
    have "dvt_Name d \<notin> set (map targetOf ?ts)" using wf d by (auto simp: swap_wf_def list_all_iff)
    then show ?thesis by (simp add: planPVCNameMap_None names(2)[symmetric])
  qed
  show ?thesis
  proof (cases "migratedTemplate vm p d")
    case None
    then have "retemplate (planPVCNameMap ?ss) (planTargetPVCMap ?ts) (migratedVolumes vm p) d = d"
      by (auto simp: migratedTemplate_def retemplate_def split: option.splits if_splits)
    with None fresh show ?thesis by (simp add: retemplate_def)
  next
    case (Some t)
    then obtain i where i: "i < length ?ts" "dvt_Name d = sp_Name (?ss ! i)"
      using planPVCNameMap_None[of ?ss "dvt_Name d"] entry_length[OF ep]
      by (auto simp: migratedTemplate_def in_set_conv_nth split: option.splits)
    let ?vn = "tp_VolumeName (?ts ! i)"
    have pr: "paired (?ss ! i) (?ts ! i)" by (rule entry_nth[OF ep i(1)])
    have n1: "planPVCNameMap ?ss (dvt_Name d) = Some ?vn"
      using planPVCNameMap_nth[OF dist(2), of i] i entry_length[OF ep] pr by (simp add: paired_def)
    have t1: "planTargetPVCMap ?ts ?vn = Some (?ts ! i)" by (rule planTargetPVCMap_nth[OF dist(1) i(1)])
    with Some n1 have t: "t = ?ts ! i" and m: "?vn \<in> migratedVolumes vm p"
      by (auto simp: migratedTemplate_def split: if_splits)
    have n2: "planPVCNameMap (sv_SourcePVCs (reverted p)) (targetOf (?ts ! i)) = Some ?vn"
      using planPVCNameMap_nth[of "sv_SourcePVCs (reverted p)" i] dist(3) names(2) nth i(1) pr
      by (simp add: paired_def)
    have t2: "planTargetPVCMap (pv_TargetMigrationPVCs (reverted p)) ?vn = Some (swapTarget (?ss ! i) (?ts ! i))"
      using planTargetPVCMap_nth[of "pv_TargetMigrationPVCs (reverted p)" i] dist(1) i names(1) nth by simp
    show ?thesis
      using Some n1 t1 n2 t2 m i(2) t
      by (cases d) (auto simp: retemplate_def withClass_def swapTarget_def targetOf_def comp_def option.map_comp
          split: option.splits)
  qed
qed


text \<open>The VM after a cancelled migration, as a function of the VM before it.\<close>

definition cancelledVM :: "VirtualMachine \<Rightarrow> StatusVM \<Rightarrow> VirtualMachine" where
  "cancelledVM vm p = vm\<lparr>vm_DataVolumeTemplates := map (\<lambda>d. case migratedTemplate vm p d of
       None \<Rightarrow> d
     | Some t \<Rightarrow> withClass (dp_StorageClassName (tp_DestinationPVC t)) d) (vm_DataVolumeTemplates vm)\<rparr>"

lemma swapped_back:
  assumes "swap_wf vm p"
  shows "swapped (swapped vm p) (reverted p) = cancelledVM vm p"
proof -
  have "migratedVolumes (swapped vm p) (reverted p) = migratedVolumes vm p"
    using assms by (simp add: swap_wf_def migratedVolumes_reverted)
  moreover have "map (retarget (planTargetPVCMap (pv_TargetMigrationPVCs (reverted p)))
      \<circ> retarget (planTargetPVCMap (pv_TargetMigrationPVCs p))) (vm_Volumes vm) = vm_Volumes vm"
    by (rule map_idI) (simp add: retarget_back[OF assms])
  ultimately show ?thesis
    using retemplate_back[OF assms]
    by (simp add: swapped_def cancelledVM_def cong: map_cong)
qed

lemma revertPairs_back:
  "revertPairs n ss ts = Ok (ss', ts') \<Longrightarrow> length ss = length ts \<Longrightarrow>
   \<exists>ss''. revertPairs n ss' ts' = Ok (ss'', ts) \<and> map sp_Name ss'' = map sp_Name ss
     \<and> map sp_VolumeName ss'' = map sp_VolumeName ss \<and> length ss' = length ts'"
proof (induction n ss ts arbitrary: ss' ts' rule: revertPairs.induct)
  case (1 name s ss t ts)
  show ?case
  proof (cases "dp_Name (tp_DestinationPVC t)")
    case None
    with 1(3) obtain us vs where r: "revertPairs name ss ts = Ok (us, vs)" "ss' = s # us" "ts' = t # vs"
      by (auto simp: bindR_eq_Ok)
    from 1(1)[OF None r(1)] 1(4) None r(2,3) show ?thesis by fastforce
  next
    case (Some tn)
    with 1(3) have ne: "sp_Name s \<noteq> tn" by auto
    with 1(3) Some obtain us vs where r: "revertPairs name ss ts = Ok (us, vs)"
      "ss' = setSourceName tn s # us"
      "ts' = t\<lparr>tp_DestinationPVC := (tp_DestinationPVC t)\<lparr>dp_Name := Some (sp_Name s)\<rparr>\<rparr> # vs"
      by (auto simp: bindR_eq_Ok)
    from 1(2)[OF Some ne r(1)] 1(4) obtain ws where "revertPairs name us vs = Ok (ws, ts)"
      "map sp_Name ws = map sp_Name ss" "map sp_VolumeName ws = map sp_VolumeName ss" "length us = length vs"
      by auto
    with r Some ne show ?thesis
      by (intro exI[of _ "setSourceName (sp_Name s) (setSourceName tn s) # ws"])
        (auto simp: setSourceName_def)
  qed
qed simp_all

text \<open>Every planned volume is on the VM with a claim, and no claim of the VM is a target.\<close>

definition covered :: "VirtualMachine \<Rightarrow> StatusVM \<Rightarrow> bool" where
  "covered vm p \<longleftrightarrow> sv_SourcePVCs p \<noteq> []
     \<and> list_all (\<lambda>s. list_ex (\<lambda>v. vol_Name v = sp_VolumeName s \<and> volumeClaimName v \<noteq> []) (vm_Volumes vm)) (sv_SourcePVCs p)
     \<and> list_all (\<lambda>v. volumeClaimName v \<notin> targetOf ` set (pv_TargetMigrationPVCs p)) (vm_Volumes vm)"

lemma targetNames_named: "list_all named ts \<Longrightarrow>
  concat (map (\<lambda>t. case dp_Name (tp_DestinationPVC t) of None \<Rightarrow> [] | Some n \<Rightarrow> [n]) ts) = map targetOf ts"
  by (induction ts) (auto simp: named_def targetOf_def)

lemma references_iff:
  "entry_paired p \<Longrightarrow> vmReferencesTargetVolumes vm p \<longleftrightarrow>
     (\<exists>v \<in> set (vm_Volumes vm). volumeClaimName v \<in> targetOf ` set (pv_TargetMigrationPVCs p)) \<or>
     (\<exists>d \<in> set (vm_DataVolumeTemplates vm). dvt_Name d \<in> targetOf ` set (pv_TargetMigrationPVCs p))"
  by (auto simp: vmReferencesTargetVolumes_def targetNames_def targetNames_named paired_named list_ex_iff)

lemma claim_of_planned:
  assumes "swap_wf vm p" "s \<in> set (sv_SourcePVCs p)" "v \<in> set (vm_Volumes vm)"
    "vol_Name v = sp_VolumeName s" "volumeClaimName v \<noteq> []"
  shows "volumeClaimName v = sp_Name s"
  using assms by (fastforce simp: swap_wf_def list_all_iff volumeClaimName_def split: option.splits)

lemma sourceMatchedI:
  "v \<in> set vs \<Longrightarrow> vol_Name v = sp_VolumeName s \<Longrightarrow> volumeClaimName v \<noteq> [] \<Longrightarrow>
   (\<And>u. u \<in> set vs \<Longrightarrow> vol_Name u = sp_VolumeName s \<Longrightarrow> volumeClaimName u \<noteq> [] \<Longrightarrow> volumeClaimName u = sp_Name s) \<Longrightarrow>
   sourceMatched s vs"
proof (induction vs)
  case (Cons a vs)
  show ?case
  proof (cases "vol_Name a = sp_VolumeName s \<and> volumeClaimName a \<noteq> []")
    case True
    then have "volumeClaimName a = sp_Name s" using Cons.prems(4)[of a] by simp
    with True show ?thesis by simp
  next
    case False
    then show ?thesis using Cons by auto
  qed
qed simp

lemma sourceMatchedD:
  "sourceMatched s vs \<Longrightarrow> \<exists>v \<in> set vs. volumeClaimName v = sp_Name s \<and> (sp_VolumeName s = [] \<or> vol_Name v = sp_VolumeName s)"
  by (induction vs) (auto split: if_splits)

lemma on_source_before:
  assumes wf: "swap_wf vm p" and c: "covered vm p"
  shows "onSourceVolumes vm [p] (pv_Name p)"
proof -
  have ep: "entry_paired p" using wf by (simp add: swap_wf_def)
  have "sourceMatched s (vm_Volumes vm)" if s: "s \<in> set (sv_SourcePVCs p)" for s
  proof -
    obtain v where "v \<in> set (vm_Volumes vm)" "vol_Name v = sp_VolumeName s" "volumeClaimName v \<noteq> []"
      using c s by (auto simp: covered_def list_all_iff list_ex_iff)
    then show ?thesis by (rule sourceMatchedI) (rule claim_of_planned[OF wf s])
  qed
  moreover have "\<not> vmReferencesTargetVolumes vm p"
    using wf c by (auto simp: references_iff[OF ep] swap_wf_def covered_def list_all_iff)
  ultimately show ?thesis using c by (simp add: onSourceVolumes_def list_all_iff covered_def)
qed

lemma volumeClaimName_retarget:
  "m (vol_Name v) = Some t \<Longrightarrow> volumeClaimName v \<noteq> [] \<Longrightarrow> volumeClaimName (retarget m v) = targetOf t"
  by (auto simp: volumeClaimName_def retarget_def split: option.splits)

lemma on_target_after:
  assumes wf: "swap_wf vm p" and c: "covered vm p"
  shows "vmReferencesTargetVolumes (swapped vm p) p"
proof -
  have ep: "entry_paired p" using wf by (simp add: swap_wf_def)
  let ?m = "planTargetPVCMap (pv_TargetMigrationPVCs p)"
  have "hd (sv_SourcePVCs p) \<in> set (sv_SourcePVCs p)" using c by (simp add: covered_def)
  then obtain s where s: "s \<in> set (sv_SourcePVCs p)" by blast
  obtain v where v: "v \<in> set (vm_Volumes vm)" "vol_Name v = sp_VolumeName s" "volumeClaimName v \<noteq> []"
    using c s by (auto simp: covered_def list_all_iff list_ex_iff)
  obtain i where "i < length (pv_TargetMigrationPVCs p)" "s = sv_SourcePVCs p ! i"
    using s entry_length[OF ep] by (auto simp: in_set_conv_nth)
  then have "vol_Name v \<in> tp_VolumeName ` set (pv_TargetMigrationPVCs p)"
    using v(2) entry_nth[OF ep] by (auto simp: paired_def)
  then obtain t where t: "?m (vol_Name v) = Some t"
    by (metis planTargetPVCMap_None not_None_eq)
  then have "volumeClaimName (retarget ?m v) \<in> targetOf ` set (pv_TargetMigrationPVCs p)"
    using v(3) planTargetPVCMap_SomeD[OF t] by (auto simp: volumeClaimName_retarget)
  with v(1) show ?thesis unfolding references_iff[OF ep] by (auto simp: swapped_def)
qed

text \<open>
  A status race of the plan controller may overwrite a recorded source name with the target's;
  \<open>corrupted p q\<close> says that \<open>q\<close> is \<open>p\<close> with that damage on some of its volumes.
\<close>

definition corrupted :: "StatusVM \<Rightarrow> StatusVM \<Rightarrow> bool" where
  "corrupted p q \<longleftrightarrow> pv_Name q = pv_Name p \<and> pv_TargetMigrationPVCs q = pv_TargetMigrationPVCs p
     \<and> length (sv_SourcePVCs q) = length (sv_SourcePVCs p)
     \<and> list_all (\<lambda>(s', s, t). s' = s \<or> s' = setSourceName (targetOf t) s)
         (zip (sv_SourcePVCs q) (zip (sv_SourcePVCs p) (pv_TargetMigrationPVCs p)))"

text \<open>KubeVirt's record of the volume update knows the source of every target of the entry.\<close>

definition recorded :: "VirtualMachine \<Rightarrow> StatusVM \<Rightarrow> bool" where
  "recorded vm p \<longleftrightarrow> list_all (\<lambda>(s, t). sp_Name s \<noteq> []
     \<and> sourceClaimFromVolumeUpdateState vm (targetOf t) = sp_Name s)
     (zip (sv_SourcePVCs p) (pv_TargetMigrationPVCs p))"

lemma recoverPairs_corrupted:
  assumes "list_all2 paired ss ts" "length us = length ss"
    "list_all (\<lambda>(s', s, t). s' = s \<or> s' = setSourceName (targetOf t) s) (zip us (zip ss ts))"
    "list_all (\<lambda>(s, t). sp_Name s \<noteq> [] \<and> sourceClaimFromVolumeUpdateState vm (targetOf t) = sp_Name s) (zip ss ts)"
  shows "\<exists>ws. recoverPairs vm n us ts = Ok ws \<and> map sp_Name ws = map sp_Name ss
    \<and> map sp_VolumeName ws = map sp_VolumeName ss"
  using assms
proof (induction ss ts arbitrary: us rule: list_all2_induct)
  case (Cons s ss t ts)
  then obtain u us' where us: "us = u # us'" by (cases us) auto
  with Cons obtain ws where ws: "recoverPairs vm n us' ts = Ok ws" "map sp_Name ws = map sp_Name ss"
    "map sp_VolumeName ws = map sp_VolumeName ss" by auto
  from Cons(1) have t: "dp_Name (tp_DestinationPVC t) = Some (targetOf t)" "sp_Name s \<noteq> targetOf t"
    by (auto simp: paired_def named_def targetOf_def)
  from Cons(5,6) us have "u = s \<or> u = setSourceName (targetOf t) s" "sp_Name s \<noteq> []"
    "sourceClaimFromVolumeUpdateState vm (targetOf t) = sp_Name s" by auto
  with us ws t show ?case
    by (auto simp: setSourceName_def Let_def)
qed auto

lemma recoverPairs_lost:
  assumes "list_all2 paired ss ts" "length us = length ss"
    "list_all (\<lambda>(s', s, t). s' = s \<or> s' = setSourceName (targetOf t) s) (zip us (zip ss ts))"
    "vm_VolumeUpdateState vm = None" "recoverPairs vm n us ts = Ok ws"
  shows "map sp_Name us = map sp_Name ss"
  using assms
proof (induction ss ts arbitrary: us ws rule: list_all2_induct)
  case (Cons s ss t ts)
  then obtain u us' where us: "us = u # us'" by (cases us) auto
  from Cons(1) have t: "dp_Name (tp_DestinationPVC t) = Some (targetOf t)" "sp_Name s \<noteq> targetOf t"
    by (auto simp: paired_def named_def targetOf_def)
  have lost: "sourceClaimFromVolumeUpdateState vm (targetOf t) = []"
    using Cons(6) by (simp add: sourceClaimFromVolumeUpdateState_def)
  from Cons(7) us t lost obtain ws' where "sp_Name u \<noteq> targetOf t" "recoverPairs vm n us' ts = Ok ws'"
    by (auto simp: bindR_eq_Ok split: if_splits)
  with Cons us show ?case by (auto simp: setSourceName_def)
qed auto

lemma unrecoverable:
  assumes "entry_paired p" "corrupted p q" "vm_VolumeUpdateState vm = None"
    "recoverPairs vm n (sv_SourcePVCs q) (pv_TargetMigrationPVCs q) = Ok ws"
  shows "map sp_Name (sv_SourcePVCs q) = map sp_Name (sv_SourcePVCs p)"
  using recoverPairs_lost[of "sv_SourcePVCs p" "pv_TargetMigrationPVCs p" "sv_SourcePVCs q" vm n ws] assms
  by (simp add: entry_paired_def corrupted_def)

section \<open>Properties\<close>

text \<open>
  C3. Cancelling a migration undoes it.  For a plan entry that fits the VM, moving the VM to its
  targets, reverting the entry and applying the reverted entry all succeed; the volumes of the
  VM are then exactly the original ones and so is everything else, the names of the DataVolume
  templates included.  The one trace left is the storage class of each template that was
  renamed, which stays the target's class.
\<close>

theorem cancel_roundtrip:
  assumes "swap_wf vm p"
  shows "\<exists>vm1 q vm2. prepareVMForStorageMigration vm p = Ok vm1 \<and> revertPlanVolumes p = Ok q
    \<and> prepareVMForStorageMigration vm1 q = Ok vm2
    \<and> vm_Volumes vm2 = vm_Volumes vm
    \<and> map dvt_Name (vm_DataVolumeTemplates vm2) = map dvt_Name (vm_DataVolumeTemplates vm)
    \<and> vm2 = cancelledVM vm p"
proof -
  have ep: "entry_paired p" and n: "vm_Name vm \<noteq> []" using assms by (simp_all add: swap_wf_def)
  have "prepareVMForStorageMigration vm p = Ok (swapped vm p)"
    by (rule prepare_named[OF n paired_named[OF ep]])
  moreover have "prepareVMForStorageMigration (swapped vm p) (reverted p) = Ok (cancelledVM vm p)"
    using prepare_named[of "swapped vm p" "reverted p"] n reverted_named[OF ep] swapped_back[OF assms]
    by (simp add: swapped_def)
  moreover have "map dvt_Name (vm_DataVolumeTemplates (cancelledVM vm p)) = map dvt_Name (vm_DataVolumeTemplates vm)"
    by (auto simp: cancelledVM_def withClass_def split: option.splits)
  ultimately show ?thesis using revert_paired[OF ep] by (auto simp: cancelledVM_def)
qed

definition sampleSource :: SourcePVC where
  "sampleSource = \<lparr>sp_VolumeName = ''disk0'', sp_Name = ''root'', sp_Namespace = ''ns'',
     sp_SourcePVC = \<lparr>pvc_Meta = emptyMeta, pvc_VolumeMode = None, pvc_Requests = Map.empty,
       pvc_Capacity = Map.empty\<rparr>\<rparr>"

definition sampleTarget :: TargetMigrationPVC where
  "sampleTarget = \<lparr>tp_VolumeName = ''disk0'', tp_DestinationPVC = \<lparr>dp_Name = Some ''root-mig'',
     dp_StorageClassName = Some ''fast'', dp_AccessModes = [], dp_VolumeMode = None\<rparr>\<rparr>"

definition sampleEntry :: StatusVM where
  "sampleEntry = \<lparr>pv_Name = ''vm'', pv_TargetMigrationPVCs = [sampleTarget], sv_SourcePVCs = [sampleSource]\<rparr>"

definition sampleVM :: VirtualMachine where
  "sampleVM = \<lparr>vm_Name = ''vm'', vm_Namespace = ''ns'',
     vm_Volumes = [\<lparr>vol_Name = ''disk0'', vol_PersistentVolumeClaim = None, vol_DataVolume = Some ''root''\<rparr>],
     vm_DataVolumeTemplates = [\<lparr>dvt_Name = ''root'', dvt_Storage = Some (Some ''slow''), dvt_PVC = None\<rparr>],
     vm_UpdateVolumesStrategy = None, vm_Ready = True, vm_Conditions = [],
     vm_VolumeUpdateState = Some (Some [\<lparr>mv_SourcePVCInfo = Some ''root'', mv_DestinationPVCInfo = Some ''root-mig''\<rparr>])\<rparr>"

lemmas sample_defs = sampleSource_def sampleTarget_def sampleEntry_def sampleVM_def

lemma sample_wf: "swap_wf sampleVM sampleEntry"
  by (simp add: swap_wf_def sample_defs entry_paired_def paired_def named_def targetOf_def)

lemma sample_facts: "vm_Name sampleVM \<noteq> []" "entry_paired sampleEntry"
  using sample_wf by (simp_all add: swap_wf_def)

theorem cancel_roundtrip_witness:
  "swap_wf sampleVM sampleEntry \<and> (\<exists>vm1 q vm2. prepareVMForStorageMigration sampleVM sampleEntry = Ok vm1
     \<and> revertPlanVolumes sampleEntry = Ok q \<and> prepareVMForStorageMigration vm1 q = Ok vm2
     \<and> vm_Volumes vm2 = vm_Volumes sampleVM
     \<and> map dvt_Storage (vm_DataVolumeTemplates vm2) = [Some (Some ''fast'')]
     \<and> map dvt_Storage (vm_DataVolumeTemplates sampleVM) = [Some (Some ''slow'')])"
proof -
  have "map dvt_Storage (vm_DataVolumeTemplates (cancelledVM sampleVM sampleEntry)) = [Some (Some ''fast'')]"
    by (simp add: cancelledVM_def migratedTemplate_def sample_defs planPVCNameMap_def planTargetPVCMap_def
        migratedVolumes_def withClass_def)
  then show ?thesis
    using cancel_roundtrip[OF sample_wf] sample_wf by (auto simp: sampleVM_def)
qed

text \<open>
  Reverting an entry is its own inverse on everything the migration reads: if the revert
  succeeds, reverting the result succeeds as well and gives back the targets, the source names
  and the volume names of the entry.
\<close>

theorem revertPlanVolumes_involutive:
  assumes "revertPlanVolumes p = Ok q"
  shows "\<exists>r. revertPlanVolumes q = Ok r \<and> pv_Name r = pv_Name p
    \<and> pv_TargetMigrationPVCs r = pv_TargetMigrationPVCs p
    \<and> map sp_Name (sv_SourcePVCs r) = map sp_Name (sv_SourcePVCs p)
    \<and> map sp_VolumeName (sv_SourcePVCs r) = map sp_VolumeName (sv_SourcePVCs p)"
proof -
  from assms have len: "length (sv_SourcePVCs p) = length (pv_TargetMigrationPVCs p)"
    by (simp add: revertPlanVolumes_def split: if_splits)
  from assms obtain ss ts where r: "revertPairs (pv_Name p) (sv_SourcePVCs p) (pv_TargetMigrationPVCs p) = Ok (ss, ts)"
    and q: "q = p\<lparr>sv_SourcePVCs := ss, pv_TargetMigrationPVCs := ts\<rparr>"
    by (auto simp: revertPlanVolumes_def bindR_eq_Ok split: if_splits)
  from revertPairs_back[OF r len] q show ?thesis by (auto simp: revertPlanVolumes_def)
qed

theorem revertPlanVolumes_involutive_witness:
  "\<exists>q r. revertPlanVolumes sampleEntry = Ok q \<and> revertPlanVolumes q = Ok r
     \<and> pv_TargetMigrationPVCs r = [sampleTarget]"
proof -
  have "revertPlanVolumes sampleEntry = Ok (reverted sampleEntry)"
    using sample_wf by (simp add: swap_wf_def revert_paired)
  with revertPlanVolumes_involutive[OF this] show ?thesis by (auto simp: sampleEntry_def)
qed


text \<open>
  The cancel path can tell which volumes a VM is on.  For a VM on its recorded sources, the
  test answers yes before the migration and no after the VM has been moved to its targets; it
  is enough that one volume or template still names a target for it to answer no.
\<close>

theorem swap_detected:
  assumes "swap_wf vm p" "covered vm p"
  shows "onSourceVolumes vm [p] (pv_Name p)
    \<and> (\<exists>vm1. prepareVMForStorageMigration vm p = Ok vm1 \<and> \<not> onSourceVolumes vm1 [p] (pv_Name p))"
proof -
  have "prepareVMForStorageMigration vm p = Ok (swapped vm p)"
    using assms(1) by (simp add: swap_wf_def prepare_named paired_named)
  then show ?thesis
    using on_source_before[OF assms] on_target_after[OF assms]
    by (intro conjI exI[of _ "swapped vm p"]) (simp_all add: onSourceVolumes_def)
qed

lemma sample_covered: "covered sampleVM sampleEntry"
  by (simp add: covered_def sample_defs volumeClaimName_def targetOf_def)

theorem swap_detected_witness:
  "swap_wf sampleVM sampleEntry \<and> covered sampleVM sampleEntry
   \<and> onSourceVolumes sampleVM [sampleEntry] (pv_Name sampleEntry)"
  using swap_detected[OF sample_wf sample_covered] sample_wf sample_covered by simp

text \<open>
  C35. A plan entry whose source names were overwritten with target names is repaired: when the
  VM's volume update state records the original claims, the recovery succeeds and gives back
  every source name, and leaves the targets alone; when it records none for a damaged volume,
  the recovery fails instead of reverting the VM to a wrong claim.
\<close>

theorem recoverCorruptedSourcePVCs_correct:
  assumes "entry_paired p" "corrupted p q" "recorded vm p"
  shows "(\<exists>r. recoverCorruptedSourcePVCs vm q = Ok r
      \<and> map sp_Name (sv_SourcePVCs r) = map sp_Name (sv_SourcePVCs p)
      \<and> map sp_VolumeName (sv_SourcePVCs r) = map sp_VolumeName (sv_SourcePVCs p)
      \<and> pv_TargetMigrationPVCs r = pv_TargetMigrationPVCs p)
    \<and> (map sp_Name (sv_SourcePVCs q) \<noteq> map sp_Name (sv_SourcePVCs p) \<longrightarrow>
        (\<forall>r. recoverCorruptedSourcePVCs (vm\<lparr>vm_VolumeUpdateState := None\<rparr>) q \<noteq> Ok r))"
proof
  have len: "length (sv_SourcePVCs q) = length (pv_TargetMigrationPVCs q)"
    using assms(2) entry_length[OF assms(1)] by (simp add: corrupted_def)
  obtain ws where "recoverPairs vm (pv_Name q) (sv_SourcePVCs q) (pv_TargetMigrationPVCs q) = Ok ws"
    "map sp_Name ws = map sp_Name (sv_SourcePVCs p)" "map sp_VolumeName ws = map sp_VolumeName (sv_SourcePVCs p)"
    using recoverPairs_corrupted[of "sv_SourcePVCs p" "pv_TargetMigrationPVCs p" "sv_SourcePVCs q" vm "pv_Name q"] assms
    by (auto simp: entry_paired_def corrupted_def recorded_def)
  then show "\<exists>r. recoverCorruptedSourcePVCs vm q = Ok r
      \<and> map sp_Name (sv_SourcePVCs r) = map sp_Name (sv_SourcePVCs p)
      \<and> map sp_VolumeName (sv_SourcePVCs r) = map sp_VolumeName (sv_SourcePVCs p)
      \<and> pv_TargetMigrationPVCs r = pv_TargetMigrationPVCs p"
    using len assms(2) by (auto simp: recoverCorruptedSourcePVCs_def corrupted_def)
  show "map sp_Name (sv_SourcePVCs q) \<noteq> map sp_Name (sv_SourcePVCs p) \<longrightarrow>
      (\<forall>r. recoverCorruptedSourcePVCs (vm\<lparr>vm_VolumeUpdateState := None\<rparr>) q \<noteq> Ok r)"
    using unrecoverable[of p q "vm\<lparr>vm_VolumeUpdateState := None\<rparr>"] assms(1,2) len
    by (auto simp: recoverCorruptedSourcePVCs_def bindR_eq_Ok)
qed

definition damagedEntry :: StatusVM where
  "damagedEntry = sampleEntry\<lparr>sv_SourcePVCs := [setSourceName ''root-mig'' sampleSource]\<rparr>"

theorem recoverCorruptedSourcePVCs_correct_witness:
  "entry_paired sampleEntry \<and> corrupted sampleEntry damagedEntry \<and> recorded sampleVM sampleEntry
   \<and> map sp_Name (sv_SourcePVCs damagedEntry) = [''root-mig'']
   \<and> (\<exists>r. recoverCorruptedSourcePVCs sampleVM damagedEntry = Ok r
        \<and> map sp_Name (sv_SourcePVCs r) = [''root''])"
proof -
  have h: "entry_paired sampleEntry" "corrupted sampleEntry damagedEntry" "recorded sampleVM sampleEntry"
    using sample_wf
    by (simp_all add: swap_wf_def corrupted_def recorded_def damagedEntry_def sample_defs targetOf_def
        sourceClaimFromVolumeUpdateState_def)
  from recoverCorruptedSourcePVCs_correct[OF h] h show ?thesis
    by (auto simp: damagedEntry_def setSourceName_def sampleEntry_def sampleSource_def)
qed

end
