(* ===== verification/Client.thy ===== *)
theory Client
  imports Types
begin

text \<open>
  The boundary of the program.  The API server, the clock, the random source, the metrics
  endpoint and the floating-point and time formatting routines are not in the repository: they
  are the fields of the record \<open>client\<close>, an argument of every definition that uses them.  The
  server's state is the type variable \<open>'w\<close>; every call may change it, so other controllers may
  act between any two calls.  The order in which Go ranges over a map is not fixed by the
  language; \<open>c_RangeOrder\<close> chooses it for the one map whose order shows.  Nothing is assumed about the fields; a theorem that needs a
  promise of theirs states it as a hypothesis.

  The state of a running reconciler is at least the server state and the list of write requests
  it has sent, each with the error it got back; safety properties speak about that list.
\<close>

type_synonym ('w, 'r) api = "'w \<Rightarrow> (goerr + 'r) \<times> 'w"
type_synonym float64 = "64 word"

text \<open>
  What the metrics reader needs from \<open>rest.Config\<close> and \<open>net/http\<close>.  A base transport is an
  opaque \<open>*http.Transport\<close> that can be cloned, or something else.  A response carries its
  status code, the lines the scanner finds in the body, and what \<open>scanner.Err()\<close> answers
  after a given number of calls of \<open>Scan\<close>.
\<close>

record RestConfig =
  rc_BearerToken :: string
  rc_BearerTokenFile :: string

datatype RoundTripper = HTTPTransport string | OtherTransport

record Transport =
  tr_Base :: "string option"
  tr_ServerName :: string
  tr_RootCAs :: "string option"
  tr_BearerToken :: "string option"

record HttpResponse =
  rsp_StatusCode :: nat
  rsp_Lines :: "string list"
  rsp_ScanErr :: "nat \<Rightarrow> goerr option"

record 'w client =
  c_Now :: "'w \<Rightarrow> int \<times> 'w"
  c_RandString :: "nat \<Rightarrow> 'w \<Rightarrow> string \<times> 'w"
  c_RangeOrder :: "(string \<times> string) list \<Rightarrow> 'w \<Rightarrow> (string \<times> string) list \<times> 'w"
  c_FormatTime :: "int \<Rightarrow> string"
  c_ParseTime :: "string \<Rightarrow> goerr + int"
  c_ParseFloat :: "string \<Rightarrow> goerr + float64"
  c_Percent :: "float64 \<Rightarrow> float64 \<Rightarrow> string"
  c_RestConfig :: RestConfig
  c_HTTPClientFor :: "RestConfig \<Rightarrow> ('w, RoundTripper) api"
  c_Getenv :: "string \<Rightarrow> 'w \<Rightarrow> string \<times> 'w"
  c_ReadFile :: "string \<Rightarrow> ('w, string) api"
  c_CertsFromPEM :: "string \<Rightarrow> bool"
  c_HTTPGet :: "Transport \<Rightarrow> strmap \<Rightarrow> string \<Rightarrow> ('w, HttpResponse) api"
  c_GetVM :: "string \<Rightarrow> string \<Rightarrow> ('w, VirtualMachine) api"
  c_PatchVM :: "VirtualMachine \<Rightarrow> VirtualMachine \<Rightarrow> ('w, unit) api"
  c_GetVMI :: "string \<Rightarrow> string \<Rightarrow> ('w, VirtualMachineInstance) api"
  c_ListVMIMs :: "string \<Rightarrow> ('w, VMIM list) api"
  c_DeleteVMIM :: "VMIM \<Rightarrow> ('w, unit) api"
  c_ListPods :: "string option \<Rightarrow> string \<times> string \<Rightarrow> ('w, Pod list) api"
  c_DeletePod :: "Pod \<Rightarrow> ('w, unit) api"
  c_GetPVC :: "string \<Rightarrow> string \<Rightarrow> ('w, PersistentVolumeClaim) api"
  c_DeletePVC :: "string \<Rightarrow> string \<Rightarrow> ('w, unit) api"
  c_GetDV :: "string \<Rightarrow> string \<Rightarrow> ('w, DataVolume) api"
  c_CreateDV :: "DataVolume \<Rightarrow> ('w, unit) api"
  c_DeleteDV :: "string \<Rightarrow> string \<Rightarrow> ('w, unit) api"
  c_GetStorageClass :: "string \<Rightarrow> ('w, StorageClass) api"
  c_ListStorageClasses :: "('w, StorageClass list) api"
  c_ListKubeVirts :: "('w, KubeVirt list) api"
  c_GetNamespace :: "string \<Rightarrow> ('w, KNamespace) api"
  c_GetPlan :: "string \<Rightarrow> string \<Rightarrow> ('w, Plan) api"
  c_PatchPlan :: "Plan \<Rightarrow> Plan \<Rightarrow> ('w, unit) api"
  c_UpdatePlan :: "Plan \<Rightarrow> ('w, Plan) api"
  c_UpdatePlanStatus :: "Plan \<Rightarrow> ('w, Plan) api"
  c_CreatePlan :: "Plan \<Rightarrow> ('w, unit) api"
  c_DeletePlan :: "Plan \<Rightarrow> ('w, unit) api"
  c_ListPlansByLabel :: "string \<Rightarrow> string \<Rightarrow> ('w, Plan list) api"
  c_ListPlansByVM :: "string \<Rightarrow> ('w, Plan list) api"
  c_GetMig :: "string \<Rightarrow> string \<Rightarrow> ('w, Migration) api"
  c_UpdateMig :: "Migration \<Rightarrow> ('w, Migration) api"
  c_UpdateMigStatus :: "Migration \<Rightarrow> ('w, Migration) api"
  c_CreateMig :: "Migration \<Rightarrow> ('w, unit) api"
  c_DeleteMig :: "Migration \<Rightarrow> ('w, unit) api"
  c_ListMigsInNamespace :: "string \<Rightarrow> ('w, Migration list) api"
  c_ListMigsByPlanKey :: "string \<Rightarrow> ('w, Migration list) api"
  c_ListMigsByPlanName :: "string \<Rightarrow> ('w, Migration list) api"
  c_ListMigsByLabel :: "string \<Rightarrow> string \<Rightarrow> ('w, Migration list) api"
  c_GetMultiPlan :: "string \<Rightarrow> string \<Rightarrow> ('w, MultiPlan) api"
  c_UpdateMultiPlan :: "MultiPlan \<Rightarrow> ('w, MultiPlan) api"
  c_UpdateMultiPlanStatus :: "MultiPlan \<Rightarrow> ('w, MultiPlan) api"
  c_GetMultiMig :: "string \<Rightarrow> string \<Rightarrow> ('w, MultiMig) api"
  c_UpdateMultiMig :: "MultiMig \<Rightarrow> ('w, MultiMig) api"
  c_UpdateMultiMigStatus :: "MultiMig \<Rightarrow> ('w, MultiMig) api"

text \<open>The write requests.\<close>

datatype act =
    PatchVM VirtualMachine VirtualMachine
  | CreateDV DataVolume
  | DeleteDV string string
  | DeletePVC string string
  | DeletePod Pod
  | DeleteVMIM VMIM
  | PatchPlan Plan Plan
  | UpdatePlan Plan
  | UpdatePlanStatus Plan
  | CreatePlan Plan
  | DeletePlan Plan
  | UpdateMig Migration
  | UpdateMigStatus Migration
  | CreateMig Migration
  | DeleteMig Migration
  | UpdateMultiPlan MultiPlan
  | UpdateMultiPlanStatus MultiPlan
  | UpdateMultiMig MultiMig
  | UpdateMultiMigStatus MultiMig
  | Event string string string

record 'w sys =
  world :: 'w
  trace :: "(act \<times> goerr option) list"

section \<open>Requests\<close>

definition query :: "('w, 'r) api \<Rightarrow> (('w, 'z) sys_scheme, 'r) go" where
  "query f = (\<lambda>s. case f (world s) of
      (Inl e, w) \<Rightarrow> (Err e, s\<lparr>world := w\<rparr>)
    | (Inr r, w) \<Rightarrow> (Ok r, s\<lparr>world := w\<rparr>))"

definition request :: "act \<Rightarrow> ('w, 'r) api \<Rightarrow> (('w, 'z) sys_scheme, 'r) go" where
  "request a f = (\<lambda>s. case f (world s) of
      (Inl e, w) \<Rightarrow> (Err e, s\<lparr>world := w, trace := trace s @ [(a, Some e)]\<rparr>)
    | (Inr r, w) \<Rightarrow> (Ok r, s\<lparr>world := w, trace := trace s @ [(a, None)]\<rparr>))"

text \<open>A source of values that cannot fail: the clock and the random strings.\<close>

definition draw :: "('w \<Rightarrow> 'r \<times> 'w) \<Rightarrow> (('w, 'z) sys_scheme, 'r) go" where
  "draw f = (\<lambda>s. case f (world s) of (r, w) \<Rightarrow> (Ok r, s\<lparr>world := w\<rparr>))"

text \<open>An event handed to the recorder: nothing comes back.\<close>

definition emitEvent :: "string \<Rightarrow> string \<Rightarrow> string \<Rightarrow> (('w, 'z) sys_scheme, unit) go" where
  "emitEvent ty reason msg = modify (\<lambda>s. s\<lparr>trace := trace s @ [(Event ty reason msg, None)]\<rparr>)"

section \<open>Running and framing requests\<close>

lemma run_query [run]:
  "query f s = (case f (world s) of
      (Inl e, w) \<Rightarrow> (Err e, s\<lparr>world := w\<rparr>) | (Inr r, w) \<Rightarrow> (Ok r, s\<lparr>world := w\<rparr>))"
  by (simp add: query_def)

lemma run_request [run]:
  "request a f s = (case f (world s) of
      (Inl e, w) \<Rightarrow> (Err e, s\<lparr>world := w, trace := trace s @ [(a, Some e)]\<rparr>)
    | (Inr r, w) \<Rightarrow> (Ok r, s\<lparr>world := w, trace := trace s @ [(a, None)]\<rparr>))"
  by (simp add: request_def)

lemma run_draw [run]: "draw f s = (case f (world s) of (r, w) \<Rightarrow> (Ok r, s\<lparr>world := w\<rparr>))"
  by (simp add: draw_def)

lemma run_emitEvent [run]:
  "emitEvent ty reason msg s = (Ok (), s\<lparr>trace := trace s @ [(Event ty reason msg, None)]\<rparr>)"
  by (simp add: emitEvent_def run)

text \<open>
  \<open>emits P\<close>: the trace has grown by requests that all satisfy \<open>P\<close>.
\<close>

definition emits :: "(act \<Rightarrow> bool) \<Rightarrow> ('w, 'z) sys_scheme \<Rightarrow> ('w, 'z) sys_scheme \<Rightarrow> bool" where
  "emits P s t \<longleftrightarrow> (\<exists>new. trace t = trace s @ new \<and> list_all (\<lambda>(a, e). P a) new)"

lemma emits_preorder [frame]: "preorder_rel (emits P)"
  by (rule preorder_relI) (auto simp: emits_def)

lemma emits_mono: "emits P s t \<Longrightarrow> (\<And>a. P a \<Longrightarrow> Q a) \<Longrightarrow> emits Q s t"
  by (force simp: emits_def list_all_iff)

lemma emits_same_trace: "trace t = trace s \<Longrightarrow> emits P s t"
  by (simp add: emits_def)

lemma emits_in: "emits P s t \<Longrightarrow> (a, e) \<in> set (trace t) \<Longrightarrow> (a, e) \<notin> set (trace s) \<Longrightarrow> P a"
  by (auto simp: emits_def list_all_iff)

lemma frame_query [frame]: "(\<And>s w. R s (s\<lparr>world := w\<rparr>)) \<Longrightarrow> frame R (query f)"
  by (auto simp: frame_def run_query split: prod.splits sum.splits)

lemma frame_draw [frame]: "(\<And>s w. R s (s\<lparr>world := w\<rparr>)) \<Longrightarrow> frame R (draw f)"
  by (auto simp: frame_def run_draw split: prod.splits)

lemma frame_request: 
  "(\<And>s w e. R s (s\<lparr>world := w, trace := trace s @ [(a, e)]\<rparr>)) \<Longrightarrow> frame R (request a f)"
  by (auto simp: frame_def run_request split: prod.splits sum.splits)

lemma frame_request_emits [frame]: "P a \<Longrightarrow> frame (emits P) (request a f)"
  by (rule frame_request) (simp add: emits_def)

lemma frame_event_emits [frame]: "P (Event ty r m) \<Longrightarrow> frame (emits P) (emitEvent ty r m)"
  by (simp add: frame_def run emits_def)

lemma emits_world [frame]: "emits P s (s\<lparr>world := w\<rparr>)"
  by (simp add: emits_def)

lemma wp_query:
  "(\<And>r w. Q (Ok r) (s\<lparr>world := w\<rparr>)) \<Longrightarrow> (\<And>e w. Q (Err e) (s\<lparr>world := w\<rparr>)) \<Longrightarrow> wp (query f) Q s"
  by (auto simp: wp_def run_query split: prod.splits sum.splits)

lemma wp_request:
  "(\<And>r w. Q (Ok r) (s\<lparr>world := w, trace := trace s @ [(a, None)]\<rparr>)) \<Longrightarrow>
   (\<And>e w. Q (Err e) (s\<lparr>world := w, trace := trace s @ [(a, Some e)]\<rparr>)) \<Longrightarrow> wp (request a f) Q s"
  by (auto simp: wp_def run_request split: prod.splits sum.splits)

lemma wp_draw: "(\<And>r w. Q (Ok r) (s\<lparr>world := w\<rparr>)) \<Longrightarrow> wp (draw f) Q s"
  by (auto simp: wp_def run_draw split: prod.splits)

section \<open>A client that knows no object\<close>

text \<open>
  Every get and delete answers NotFound, every list is empty, every other write succeeds.
  Concrete clients for examples are updates of this one.
\<close>

definition missing :: "('w, 'r) api" where
  "missing = (\<lambda>w. (Inl (NotFoundErr ''not found''), w))"

definition yields :: "'r \<Rightarrow> ('w, 'r) api" where
  "yields r = (\<lambda>w. (Inr r, w))"

definition emptyClient :: "'w client" where
  "emptyClient = \<lparr>
     c_Now = (\<lambda>w. (0, w)), c_RandString = (\<lambda>n w. (replicate n CHR ''x'', w)),
     c_RangeOrder = (\<lambda>ks w. (ks, w)),
     c_FormatTime = (\<lambda>t. replicate (nat t) CHR ''I''), c_ParseTime = (\<lambda>s. Inr (int (length s))),
     c_ParseFloat = (\<lambda>s. Inl (PlainErr ''invalid syntax'')), c_Percent = (\<lambda>a b. []),
     c_RestConfig = \<lparr>rc_BearerToken = [], rc_BearerTokenFile = []\<rparr>,
     c_HTTPClientFor = (\<lambda>cfg. yields OtherTransport), c_Getenv = (\<lambda>k w. ([], w)),
     c_ReadFile = (\<lambda>p. missing), c_CertsFromPEM = (\<lambda>p. False), c_HTTPGet = (\<lambda>tr hs url. missing),
     c_GetVM = (\<lambda>ns n. missing), c_PatchVM = (\<lambda>a b. yields ()), c_GetVMI = (\<lambda>ns n. missing),
     c_ListVMIMs = (\<lambda>ns. yields []), c_DeleteVMIM = (\<lambda>v. missing),
     c_ListPods = (\<lambda>ns l. yields []), c_DeletePod = (\<lambda>p. missing),
     c_GetPVC = (\<lambda>ns n. missing), c_DeletePVC = (\<lambda>ns n. missing),
     c_GetDV = (\<lambda>ns n. missing), c_CreateDV = (\<lambda>d. yields ()), c_DeleteDV = (\<lambda>ns n. missing),
     c_GetStorageClass = (\<lambda>n. missing), c_ListStorageClasses = yields [], c_ListKubeVirts = yields [],
     c_GetNamespace = (\<lambda>n. missing),
     c_GetPlan = (\<lambda>ns n. missing), c_PatchPlan = (\<lambda>a b. yields ()), c_UpdatePlan = yields,
     c_UpdatePlanStatus = yields, c_CreatePlan = (\<lambda>p. yields ()), c_DeletePlan = (\<lambda>p. missing),
     c_ListPlansByLabel = (\<lambda>k v. yields []), c_ListPlansByVM = (\<lambda>n. yields []),
     c_GetMig = (\<lambda>ns n. missing), c_UpdateMig = yields, c_UpdateMigStatus = yields,
     c_CreateMig = (\<lambda>m. yields ()), c_DeleteMig = (\<lambda>m. missing),
     c_ListMigsInNamespace = (\<lambda>ns. yields []), c_ListMigsByPlanKey = (\<lambda>k. yields []),
     c_ListMigsByPlanName = (\<lambda>n. yields []), c_ListMigsByLabel = (\<lambda>k v. yields []),
     c_GetMultiPlan = (\<lambda>ns n. missing), c_UpdateMultiPlan = yields, c_UpdateMultiPlanStatus = yields,
     c_GetMultiMig = (\<lambda>ns n. missing), c_UpdateMultiMig = yields, c_UpdateMultiMigStatus = yields\<rparr>"

lemma run_missing [run]: "missing w = (Inl (NotFoundErr ''not found''), w)"
  by (simp add: missing_def)

lemma run_yields [run]: "yields r w = (Inr r, w)"
  by (simp add: yields_def)

end
