(* ===== verification/Helpers.thy ===== *)
theory Helpers
  imports Client
begin

text \<open>
  The lookups and checks shared by the controllers
  (\<open>src/pkg/component-helpers/vm.go\<close> and \<open>storagemigplan.go\<close>,
  \<open>src/pkg/reference/ref.go\<close>).  A \<open>(reason, message, error)\<close> triple of the source is a
  result that carries the pair.
\<close>

section \<open>vm.go\<close>

definition VMIExists :: "'w client \<Rightarrow> string \<Rightarrow> string \<Rightarrow> (('w, 'z) sys_scheme, bool) go" where
  "VMIExists cl vmName ns =
     bind (attempt (query (c_GetVMI cl ns vmName))) (\<lambda>r. case r of
       Inl e \<Rightarrow> if \<not> IsNotFound e then throw e else ret False
     | Inr vmi \<Rightarrow> ret True)"

definition IsVMRunning :: "'w client \<Rightarrow> string \<Rightarrow> string \<Rightarrow> (('w, 'z) sys_scheme, bool) go" where
  "IsVMRunning cl vmName ns =
     bind (attempt (query (c_GetVMI cl ns vmName))) (\<lambda>r. case r of
       Inl e \<Rightarrow> if IsNotFound e then ret False else throw e
     | Inr vmi \<Rightarrow> ret (VMI_IsRunning vmi))"

abbreviation StorageLiveMigratable :: string where "StorageLiveMigratable \<equiv> ''StorageLiveMigratable''"
abbreviation VirtualMachineRestartRequired :: string where "VirtualMachineRestartRequired \<equiv> ''RestartRequired''"

text \<open>The loop over the VM's conditions returns the first one that forbids a live migration.\<close>

definition blockingVMCondition :: "VMCondition \<Rightarrow> bool" where
  "blockingVMCondition c \<longleftrightarrow>
     (vc_Type c = StorageLiveMigratable \<and> vc_Status c = ConditionFalse) \<or>
     (vc_Type c = VirtualMachineRestartRequired \<and> vc_Status c = ConditionTrue)"

definition ValidateStorageMigrationPossibleForVM ::
  "'w client \<Rightarrow> string \<Rightarrow> string \<Rightarrow> (('w, 'z) sys_scheme, string \<times> string) go"
where
  "ValidateStorageMigrationPossibleForVM cl vmName ns =
     bind (attempt (query (c_GetVM cl ns vmName))) (\<lambda>r. case r of
       Inl e \<Rightarrow> if IsNotFound e then ret (NotFound, ''virtual machine not found'') else throw e
     | Inr vm \<Rightarrow>
         bind (IsVMRunning cl vmName ns) (\<lambda>running.
           if \<not> running then ret ([], [])
           else if \<not> vm_Ready vm then ret (NotReady, ''virtual machine is not ready'')
           else (case find blockingVMCondition (vm_Conditions vm) of
               Some c \<Rightarrow> ret (vc_Reason c, vc_Message c)
             | None \<Rightarrow> ret ([], []))))"

definition volumeNotFoundMessage :: "string \<Rightarrow> string" where
  "volumeNotFoundMessage v = ''volume '' @ v @ '' not found in virtual machine''"

definition ValidatePVCsMatchForVM ::
  "'w client \<Rightarrow> StatusVM \<Rightarrow> string \<Rightarrow> (('w, 'z) sys_scheme, string \<times> string) go"
where
  "ValidatePVCsMatchForVM cl migplanVM ns =
     bind (attempt (query (c_GetVM cl ns (pv_Name migplanVM)))) (\<lambda>r. case r of
       Inl e \<Rightarrow> if IsNotFound e then ret (NotFound, ''virtual machine not found'') else throw e
     | Inr vm \<Rightarrow>
         (case find (\<lambda>src. sp_VolumeName src \<notin> vol_Name ` set (vm_Volumes vm)) (sv_SourcePVCs migplanVM) of
            Some src \<Rightarrow> ret (NotFound, volumeNotFoundMessage (sp_VolumeName src))
          | None \<Rightarrow> ret ([], [])))"

definition GetVirtualMachineFromName ::
  "'w client \<Rightarrow> string \<Rightarrow> string \<Rightarrow> (('w, 'z) sys_scheme, VirtualMachine option) go"
where
  "GetVirtualMachineFromName cl vmName ns =
     bind (attempt (query (c_GetVM cl ns vmName))) (\<lambda>r. case r of
       Inl e \<Rightarrow> if IsNotFound e then ret None else throw e
     | Inr vm \<Rightarrow> ret (Some vm))"

definition HasDVOwnerRef :: "PersistentVolumeClaim \<Rightarrow> bool" where
  "HasDVOwnerRef pvc = list_ex (\<lambda>o'. or_Kind o' = ''DataVolume'') (om_OwnerReferences (pvc_Meta pvc))"

section \<open>storagemigplan.go\<close>

abbreviation DefaultK8sStorageClass :: string where
  "DefaultK8sStorageClass \<equiv> ''storageclass.kubernetes.io/is-default-class''"
abbreviation DefaultVirtStorageClass :: string where
  "DefaultVirtStorageClass \<equiv> ''storageclass.kubevirt.io/is-default-virt-class''"

definition GetStorageMigrationPlan ::
  "'w client \<Rightarrow> ObjectReference option \<Rightarrow> (('w, 'z) sys_scheme, Plan option) go"
where
  "GetStorageMigrationPlan cl ref = (case ref of
       None \<Rightarrow> ret None
     | Some rf \<Rightarrow>
         bind (attempt (query (c_GetPlan cl (ref_Namespace rf) (ref_Name rf)))) (\<lambda>r. case r of
           Inl e \<Rightarrow> if IsNotFound e then ret None else throw e
         | Inr p \<Rightarrow>
             let p1 = (if pl_Kind p = [] then p\<lparr>pl_Kind := PlanKind\<rparr> else p);
                 p2 = (if pl_APIVersion p1 = [] then p1\<lparr>pl_APIVersion := GroupVersion\<rparr> else p1)
             in ret (Some p2)))"

definition GetMultiNamespaceStorageMigrationPlan ::
  "'w client \<Rightarrow> ObjectReference option \<Rightarrow> (('w, 'z) sys_scheme, MultiPlan option) go"
where
  "GetMultiNamespaceStorageMigrationPlan cl ref = (case ref of
       None \<Rightarrow> ret None
     | Some rf \<Rightarrow>
         bind (attempt (query (c_GetMultiPlan cl (ref_Namespace rf) (ref_Name rf)))) (\<lambda>r. case r of
           Inl e \<Rightarrow> if IsNotFound e then ret None else throw e
         | Inr p \<Rightarrow>
             let p1 = (if mp_Kind p = [] then p\<lparr>mp_Kind := MultiPlanKind\<rparr> else p);
                 p2 = (if mp_APIVersion p1 = [] then p1\<lparr>mp_APIVersion := GroupVersion\<rparr> else p1)
             in ret (Some p2)))"

definition firstAnnotatedClass :: "string \<Rightarrow> StorageClass list \<Rightarrow> string option" where
  "firstAnnotatedClass key scs =
     map_option sc_Name (find (\<lambda>sc. mget (sc_Annotations sc) [] key = ''true'') scs)"

definition GetDefaultStorageClass :: "'w client \<Rightarrow> (('w, 'z) sys_scheme, string option) go" where
  "GetDefaultStorageClass cl =
     bind (attempt (query (c_ListStorageClasses cl))) (\<lambda>r. case r of
       Inl e \<Rightarrow> if IsNotFound e then ret None else throw e
     | Inr scs \<Rightarrow> ret (firstAnnotatedClass DefaultK8sStorageClass scs))"

definition GetDefaultVirtStorageClass :: "'w client \<Rightarrow> (('w, 'z) sys_scheme, string option) go" where
  "GetDefaultVirtStorageClass cl =
     bind (attempt (query (c_ListStorageClasses cl))) (\<lambda>r. case r of
       Inl e \<Rightarrow> if IsNotFound e then ret None else throw e
     | Inr scs \<Rightarrow> ret (firstAnnotatedClass DefaultVirtStorageClass scs))"

section \<open>ref.go\<close>

definition RefSet :: "ObjectReference option \<Rightarrow> bool" where
  "RefSet ref = (case ref of None \<Rightarrow> False | Some r \<Rightarrow> ref_Namespace r \<noteq> [] \<and> ref_Name r \<noteq> [])"

definition RefEquals :: "ObjectReference option \<Rightarrow> ObjectReference option \<Rightarrow> bool" where
  "RefEquals a b = (case (a, b) of (Some x, Some y) \<Rightarrow> x = y | _ \<Rightarrow> False)"

section \<open>The helpers only read\<close>

text \<open>
  A relation between states that an API read stays within.  Every helper then stays within it
  too: none of them sends a write request or touches the objects of the caller.
\<close>

locale observer =
  fixes R :: "('w, 'z) sys_scheme \<Rightarrow> ('w, 'z) sys_scheme \<Rightarrow> bool"
  assumes preorder: "preorder_rel R"
    and blind: "R s (s\<lparr>world := w\<rparr>)"
begin

lemmas steps = frame preorder blind

text \<open>A lookup whose answer the continuation may rely on.\<close>

lemma frame_found:
  assumes "\<And>e. frame R (k (Inl e))" "\<And>w w' r. f w = (Inr r, w') \<Longrightarrow> frame R (k (Inr r))"
  shows "frame R (bind (attempt (query f)) k)"
  unfolding frame_def
proof
  fix s :: "('w, 'z) sys_scheme"
  obtain v w where v: "f (world s) = (v, w)" by fastforce
  have "frame R (k v)" using v assms by (cases v) auto
  then have "R (s\<lparr>world := w\<rparr>) (snd (k v (s\<lparr>world := w\<rparr>)))" by (rule frameD2)
  then have "R s (snd (k v (s\<lparr>world := w\<rparr>)))" by (rule preorder_trans[OF preorder blind])
  then show "R s (snd (bind (attempt (query f)) k s))"
    using v by (cases v) (simp_all add: run)
qed

lemma frame_VMIExists: "frame R (VMIExists cl vmName ns)"
  unfolding VMIExists_def by (intro steps)

lemma frame_IsVMRunning: "frame R (IsVMRunning cl vmName ns)"
  unfolding IsVMRunning_def by (intro steps)

lemma frame_ValidatePossible: "frame R (ValidateStorageMigrationPossibleForVM cl vmName ns)"
  unfolding ValidateStorageMigrationPossibleForVM_def by (intro steps frame_IsVMRunning)

lemma frame_ValidatePVCsMatch: "frame R (ValidatePVCsMatchForVM cl vm ns)"
  unfolding ValidatePVCsMatchForVM_def by (intro steps)

lemma frame_GetVirtualMachineFromName: "frame R (GetVirtualMachineFromName cl vmName ns)"
  unfolding GetVirtualMachineFromName_def by (intro steps)

lemma frame_GetStorageMigrationPlan: "frame R (GetStorageMigrationPlan cl ref)"
  unfolding GetStorageMigrationPlan_def Let_def by (intro steps)

lemma frame_GetMultiNamespaceStorageMigrationPlan: "frame R (GetMultiNamespaceStorageMigrationPlan cl ref)"
  unfolding GetMultiNamespaceStorageMigrationPlan_def Let_def by (intro steps)

lemma frame_GetDefaultStorageClass: "frame R (GetDefaultStorageClass cl)"
  unfolding GetDefaultStorageClass_def by (intro steps)

lemma frame_GetDefaultVirtStorageClass: "frame R (GetDefaultVirtStorageClass cl)"
  unfolding GetDefaultVirtStorageClass_def by (intro steps)

lemmas helper_steps = frame_VMIExists frame_IsVMRunning frame_ValidatePossible
  frame_ValidatePVCsMatch frame_GetVirtualMachineFromName frame_GetStorageMigrationPlan
  frame_GetMultiNamespaceStorageMigrationPlan frame_GetDefaultStorageClass
  frame_GetDefaultVirtStorageClass

end

interpretation emits_obs: observer "emits P"
  by unfold_locales (simp_all add: emits_preorder emits_world)

text \<open>Reading leaves the trace alone.\<close>

interpretation trace_obs: observer "\<lambda>s t. trace t = trace s"
  by unfold_locales (simp_all add: preorder_eq)

end
