(* ===== verification/Progress.thy ===== *)
theory Progress
  imports Helpers
begin

text \<open>
  Reading the migration progress of a VM from the metrics of the virt-handler on its node
  (\<open>src/internal/controller/storagemig/progress.go\<close>): finding the pod, building the HTTPS
  client, parsing the Prometheus text.  Floating-point values are IEEE bit patterns; parsing
  them and formatting the percentage are library routines of the record \<open>client\<close>.
\<close>

section \<open>Parsing the metrics\<close>

abbreviation migrationDataProcessedMetric :: string where
  "migrationDataProcessedMetric \<equiv> ''kubevirt_vmi_migration_data_processed_bytes''"
abbreviation migrationDataTotalMetricOld :: string where
  "migrationDataTotalMetricOld \<equiv> ''kubevirt_vmi_migration_data_total_bytes''"
abbreviation migrationDataTotalMetric :: string where
  "migrationDataTotalMetric \<equiv> ''kubevirt_vmi_migration_data_bytes_total''"

definition extractMetricValue :: "'w client \<Rightarrow> string \<Rightarrow> goerr + float64" where
  "extractMetricValue cl metricLine =
     (let parts = Split metricLine CHR '' '';
          value = TrimSuffix (last parts) [CHR 0x22, CHR ''}'']
      in case c_ParseFloat cl value of
           Inl e \<Rightarrow> Inl (WrapErr ''failed to parse metric value: '' e)
         | Inr f \<Rightarrow> Inr f)"

text \<open>
  \<open>strings.TrimSpace(line) == ""\<close>.  Lines made of non-ASCII blanks are not skipped here, which
  changes nothing: no metric name occurs in them.
\<close>

definition blankLine :: "string \<Rightarrow> bool" where
  "blankLine line = list_all (\<lambda>c. c \<in> {CHR 0x09, CHR 0x0A, CHR 0x0B, CHR 0x0C, CHR 0x0D, CHR '' ''}) line"

definition isProcessedLine :: "string \<Rightarrow> string \<Rightarrow> bool" where
  "isProcessedLine vmName line \<longleftrightarrow> Contains line migrationDataProcessedMetric \<and> Contains line vmName"

definition isTotalLine :: "string \<Rightarrow> string \<Rightarrow> bool" where
  "isTotalLine vmName line \<longleftrightarrow>
     (Contains line migrationDataTotalMetric \<or> Contains line migrationDataTotalMetricOld) \<and> Contains line vmName"

text \<open>
  The scan loop: \<open>processedBytes\<close> with \<open>foundProcessed\<close> and \<open>totalBytes\<close> with
  \<open>foundTotal\<close> are options, \<open>n\<close> counts the calls of \<open>Scan\<close>.
\<close>

fun scanMetrics ::
  "'w client \<Rightarrow> string \<Rightarrow> nat \<Rightarrow> float64 option \<Rightarrow> float64 option \<Rightarrow> string list \<Rightarrow> nat \<times> float64 option \<times> float64 option"
where
  "scanMetrics cl vmName n processedBytes totalBytes [] = (n + 1, processedBytes, totalBytes)"
| "scanMetrics cl vmName n processedBytes totalBytes (line # lines) =
     (if HasPrefix line ''#'' \<or> blankLine line then scanMetrics cl vmName (n + 1) processedBytes totalBytes lines
      else let v = extractMetricValue cl line;
               processedBytes' = (if isProcessedLine vmName line
                             then (case v of Inr f \<Rightarrow> Some f | Inl _ \<Rightarrow> processedBytes) else processedBytes);
               totalBytes' = (if \<not> isProcessedLine vmName line \<and> isTotalLine vmName line
                         then (case v of Inr f \<Rightarrow> Some f | Inl _ \<Rightarrow> totalBytes) else totalBytes)
           in if processedBytes' \<noteq> None \<and> totalBytes' \<noteq> None then (n + 1, processedBytes', totalBytes')
              else scanMetrics cl vmName (n + 1) processedBytes' totalBytes' lines)"

text \<open>\<open>totalBytes == 0\<close> holds for both zeros of IEEE arithmetic.\<close>

definition isZeroFloat :: "float64 \<Rightarrow> bool" where
  "isZeroFloat f \<longleftrightarrow> f = 0 \<or> f = 0x8000000000000000"

definition parseMigrationProgressFromMetrics :: "'w client \<Rightarrow> HttpResponse \<Rightarrow> string \<Rightarrow> string result" where
  "parseMigrationProgressFromMetrics cl rsp vmName =
     (case scanMetrics cl vmName 0 None None (rsp_Lines rsp) of (n, processedBytes, totalBytes) \<Rightarrow>
        (case rsp_ScanErr rsp n of
           Some e \<Rightarrow> Err (WrapErr ''error reading metrics: '' e)
         | None \<Rightarrow>
             (case (processedBytes, totalBytes) of
                (Some p, Some t) \<Rightarrow> if isZeroFloat t then Ok ''0'' else Ok (c_Percent cl p t)
              | _ \<Rightarrow> Ok [])))"

section \<open>The HTTPS client\<close>

abbreviation kubevirtCA :: string where "kubevirtCA \<equiv> ''/etc/ssl/certs/kubevirt-ca/ca-bundle''"

definition getCACertPool :: "'w client \<Rightarrow> (('w, 'z) sys_scheme, string) go" where
  "getCACertPool cl =
     bind (query (c_ReadFile cl kubevirtCA)) (\<lambda>caCert.
       if \<not> c_CertsFromPEM cl caCert then throw (PlainErr ''failed to parse KubeVirt CA certificate'')
       else ret caCert)"

definition getTokenFromConfig :: "'w client \<Rightarrow> RestConfig \<Rightarrow> (('w, 'z) sys_scheme, string) go" where
  "getTokenFromConfig cl cfg =
     (if rc_BearerToken cfg = [] \<and> rc_BearerTokenFile cfg \<noteq> []
      then query (c_ReadFile cl (rc_BearerTokenFile cfg))
      else ret (rc_BearerToken cfg))"

definition getVirtHandlerHttpClient :: "'w client \<Rightarrow> RestConfig \<Rightarrow> (('w, 'z) sys_scheme, Transport) go" where
  "getVirtHandlerHttpClient cl cfg =
     bind (query (c_HTTPClientFor cl cfg)) (\<lambda>existing.
     let base = (case existing of HTTPTransport t \<Rightarrow> Some t | OtherTransport \<Rightarrow> None) in
     bind (draw (c_Getenv cl ''CONTROLLER_NAMESPACE'')) (\<lambda>namespace.
       if namespace = [] then throw (PlainErr ''CONTROLLER_NAMESPACE environment variable is not set'')
       else
         bind (attempt (getCACertPool cl)) (\<lambda>ca.
         let roots = (case ca of Inl _ \<Rightarrow> None | Inr pool \<Rightarrow> Some pool) in
         bind (getTokenFromConfig cl cfg) (\<lambda>token.
         ret \<lparr>tr_Base = base, tr_ServerName = ''virt-handler.'' @ namespace @ ''.svc'', tr_RootCAs = roots,
              tr_BearerToken = (if token \<noteq> [] then Some token else None)\<rparr>))))"

text \<open>\<open>bearerTokenRoundTripper.RoundTrip\<close>: the headers the base transport is given.\<close>

definition RoundTrip :: "Transport \<Rightarrow> strmap \<Rightarrow> strmap" where
  "RoundTrip tr headers = (case tr_BearerToken tr of
       None \<Rightarrow> headers
     | Some token \<Rightarrow> if mget headers [] ''Authorization'' = [] then headers(''Authorization'' \<mapsto> ''Bearer '' @ token)
                     else headers)"

definition metricsURL :: "string \<Rightarrow> string" where
  "metricsURL podIP = ''https://'' @ podIP @ '':8443/metrics''"

definition getProgressFromVirtHandlerMetrics :: "'w client \<Rightarrow> string \<Rightarrow> string \<Rightarrow> (('w, 'z) sys_scheme, string) go" where
  "getProgressFromVirtHandlerMetrics cl podIP vmName =
     bind (attempt (getVirtHandlerHttpClient cl (c_RestConfig cl))) (\<lambda>r. case r of
       Inl e \<Rightarrow> throw (WrapErr ''failed to create HTTP client: '' e)
     | Inr tr \<Rightarrow>
         bind (attempt (query (c_HTTPGet cl tr (RoundTrip tr Map.empty) (metricsURL podIP)))) (\<lambda>r. case r of
           Inl e \<Rightarrow> throw (WrapErr ''failed to fetch metrics: '' e)
         | Inr rsp \<Rightarrow>
             if rsp_StatusCode rsp \<noteq> 200
             then throw (PlainErr (''unexpected status code: '' @ showNat (rsp_StatusCode rsp)))
             else bind (attempt (liftR (parseMigrationProgressFromMetrics cl rsp vmName))) (\<lambda>r. case r of
               Inl e \<Rightarrow> throw (WrapErr ''failed to parse metrics: '' e)
             | Inr progress \<Rightarrow> ret progress)))"

section \<open>Finding the virt-handler\<close>

definition findVirtHandlerPod :: "'w client \<Rightarrow> string \<Rightarrow> (('w, 'z) sys_scheme, Pod option) go" where
  "findVirtHandlerPod cl nodeName =
     bind (attempt (query (c_ListPods cl None (''kubevirt.io'', ''virt-handler'')))) (\<lambda>r. case r of
       Inl e \<Rightarrow> throw (WrapErr ''failed to list virt-handler pods: '' e)
     | Inr pods \<Rightarrow> ret (find (\<lambda>pod. pod_NodeName pod = nodeName) pods))"

definition getLastObservedProgressPercent :: "'w client \<Rightarrow> string \<Rightarrow> string \<Rightarrow> (('w, 'z) sys_scheme, string) go" where
  "getLastObservedProgressPercent cl vmName namespace =
     bind (attempt (query (c_GetVMI cl namespace vmName))) (\<lambda>r. case r of
       Inl e \<Rightarrow> if IsNotFound e then ret [] else throw (WrapErr ''failed to get VMI: '' e)
     | Inr vmi \<Rightarrow>
         if vmi_NodeName vmi = [] then ret []
         else bind (attempt (findVirtHandlerPod cl (vmi_NodeName vmi))) (\<lambda>r. case r of
           Inl e \<Rightarrow> ret []
         | Inr None \<Rightarrow> ret []
         | Inr (Some virtHandlerPod) \<Rightarrow>
             if pod_IP virtHandlerPod = [] then ret []
             else bind (attempt (getProgressFromVirtHandlerMetrics cl (pod_IP virtHandlerPod) vmName)) (\<lambda>r. case r of
               Inl e \<Rightarrow> ret []
             | Inr progress \<Rightarrow> ret progress)))"

section \<open>Lemmas\<close>

text \<open>A line that carries a value of the processed or of the total metric for the VM.\<close>

definition processedValue :: "'w client \<Rightarrow> string \<Rightarrow> string \<Rightarrow> float64 \<Rightarrow> bool" where
  "processedValue cl vmName line f \<longleftrightarrow> \<not> HasPrefix line ''#'' \<and> \<not> blankLine line
     \<and> isProcessedLine vmName line \<and> extractMetricValue cl line = Inr f"

definition totalValue :: "'w client \<Rightarrow> string \<Rightarrow> string \<Rightarrow> float64 \<Rightarrow> bool" where
  "totalValue cl vmName line f \<longleftrightarrow> \<not> HasPrefix line ''#'' \<and> \<not> blankLine line
     \<and> \<not> isProcessedLine vmName line \<and> isTotalLine vmName line \<and> extractMetricValue cl line = Inr f"

lemma scanMetrics_processed:
  "scanMetrics cl vm n p t ls = (m, p', t') \<Longrightarrow> p = None \<or> t = None \<Longrightarrow> p' = Some f \<Longrightarrow>
   p = Some f \<or> (\<exists>l \<in> set ls. processedValue cl vm l f)"
  by (induction cl vm n p t ls rule: scanMetrics.induct)
    (auto simp: processedValue_def Let_def split: if_splits sum.splits)

lemma scanMetrics_total:
  "scanMetrics cl vm n p t ls = (m, p', t') \<Longrightarrow> t' = Some f \<Longrightarrow>
   t = Some f \<or> (\<exists>l \<in> set ls. totalValue cl vm l f)"
  by (induction cl vm n p t ls rule: scanMetrics.induct)
    (auto simp: totalValue_def Let_def split: if_splits sum.splits)

lemma scanMetrics_complete:
  "scanMetrics cl vm n p t ls = (m, p', t') \<Longrightarrow>
   p \<noteq> None \<or> (\<exists>l \<in> set ls. \<exists>f. processedValue cl vm l f) \<Longrightarrow>
   t \<noteq> None \<or> (\<exists>l \<in> set ls. \<exists>f. totalValue cl vm l f) \<Longrightarrow> p' \<noteq> None \<and> t' \<noteq> None"
proof (induction cl vm n p t ls rule: scanMetrics.induct)
  case (2 cl vm n p t l ls)
  show ?case
  proof (cases "HasPrefix l ''#'' \<or> blankLine l")
    case True
    then have "scanMetrics cl vm (n + 1) p t ls = (m, p', t')" using 2(3) by simp
    moreover have "\<not> processedValue cl vm l f" "\<not> totalValue cl vm l f" for f
      using True by (auto simp: processedValue_def totalValue_def)
    ultimately show ?thesis using 2(1)[OF True] 2(4,5) by auto
  next
    case False
    then show ?thesis using 2(2)[OF False refl refl refl] 2(3,4,5)
      by (auto simp: Let_def processedValue_def totalValue_def split: if_splits sum.splits)
  qed
qed simp


lemma Split_last: "CHR '' '' \<notin> set tok \<Longrightarrow> last (Split (pre @ '' '' @ tok) CHR '' '') = tok"
proof (induction pre)
  case Nil
  have "Split t CHR '' '' = [t]" if "CHR '' '' \<notin> set t" for t
    using that by (induction t) auto
  with Nil show ?case by (simp add: Split_not_Nil)
next
  case (Cons c pre)
  have ge2: "length (Split (u @ '' '' @ tok) CHR '' '') \<ge> 2" for u
    by (induction u) (auto simp: Split_not_Nil Suc_le_eq split: list.splits)
  show ?case using Cons ge2[of pre] by (auto simp: Split_not_Nil split: list.splits)
qed

context observer
begin

lemma frame_getVirtHandlerHttpClient: "frame R (getVirtHandlerHttpClient cl cfg)"
  unfolding getVirtHandlerHttpClient_def getCACertPool_def getTokenFromConfig_def Let_def by (intro steps)

lemma frame_getProgressFromVirtHandlerMetrics: "frame R (getProgressFromVirtHandlerMetrics cl ip vmName)"
  unfolding getProgressFromVirtHandlerMetrics_def by (intro steps frame_getVirtHandlerHttpClient)

lemma frame_getLastObservedProgressPercent: "frame R (getLastObservedProgressPercent cl vmName ns)"
  unfolding getLastObservedProgressPercent_def findVirtHandlerPod_def
  by (intro steps frame_getProgressFromVirtHandlerMetrics)

end

text \<open>No step of the reader panics, so \<open>attempt\<close> always hands back a value.\<close>

definition panic_free :: "('s, 'a) go \<Rightarrow> bool" where
  "panic_free m \<longleftrightarrow> (\<forall>s p. fst (m s) \<noteq> Panic p)"

named_theorems calm "introduction rules for panic freedom"

lemma panic_free_atoms [calm]:
  "panic_free (ret x)" "panic_free (throw e)" "panic_free (query f)" "panic_free (draw g)" "panic_free (request a f)"
  by (auto simp: panic_free_def run split: prod.splits sum.splits)

lemma panic_free_bind [calm]: "panic_free m \<Longrightarrow> (\<And>x. panic_free (f x)) \<Longrightarrow> panic_free (bind m f)"
  by (auto simp: panic_free_def run_bind split: prod.splits result.splits) (metis fst_conv)

lemma panic_free_attempt [calm]: "panic_free m \<Longrightarrow> panic_free (attempt m)"
  by (auto simp: panic_free_def run_attempt split: prod.splits result.splits) (metis fst_conv)

lemma panic_free_if [calm]: "panic_free m \<Longrightarrow> panic_free n \<Longrightarrow> panic_free (if b then m else n)"
  by simp

lemma panic_free_case_sum [calm]:
  "(\<And>e. panic_free (m e)) \<Longrightarrow> (\<And>x. panic_free (f x)) \<Longrightarrow> panic_free (case v of Inl e \<Rightarrow> m e | Inr x \<Rightarrow> f x)"
  by (simp split: sum.splits)

lemma panic_free_case_option [calm]:
  "panic_free m \<Longrightarrow> (\<And>x. panic_free (f x)) \<Longrightarrow> panic_free (case v of None \<Rightarrow> m | Some x \<Rightarrow> f x)"
  by (simp split: option.splits)

lemma panic_free_parse [calm]: "panic_free (liftR (parseMigrationProgressFromMetrics cl rsp vmName))"
  by (auto simp: panic_free_def run_liftR parseMigrationProgressFromMetrics_def split: prod.splits option.splits)

lemma panic_free_getProgress: "panic_free (getProgressFromVirtHandlerMetrics cl ip vmName)"
  unfolding getProgressFromVirtHandlerMetrics_def getVirtHandlerHttpClient_def getCACertPool_def
    getTokenFromConfig_def Let_def
  by (intro calm)

lemma panic_free_findVirtHandlerPod: "panic_free (findVirtHandlerPod cl node)"
  unfolding findVirtHandlerPod_def by (intro calm)

text \<open>\<open>swallows m\<close>: \<open>m\<close> returns normally whatever happens.\<close>

definition swallows :: "('s, 'a) go \<Rightarrow> bool" where
  "swallows m \<longleftrightarrow> (\<forall>s. \<exists>x. fst (m s) = Ok x)"

lemma swallows_attempt: "panic_free m \<Longrightarrow> (\<And>r. swallows (f r)) \<Longrightarrow> swallows (bind (attempt m) f)"
  unfolding swallows_def panic_free_def
  by (auto simp: run_bind run_attempt split: prod.splits result.splits) (metis fst_conv)

lemma swallows_ret: "swallows (ret x)"
  by (simp add: swallows_def run)

lemma parse_readable:
  "(\<And>n. rsp_ScanErr rsp n = None) \<Longrightarrow> \<exists>s. parseMigrationProgressFromMetrics cl rsp vmName = Ok s"
  by (auto simp: parseMigrationProgressFromMetrics_def split: prod.splits option.splits)

section \<open>Properties\<close>

text \<open>
  The parser reports a percentage exactly when the metrics have a readable value of both
  metrics on lines that mention the VM, and the percentage is computed from such a pair of
  lines (\<open>0\<close> when the total is zero); otherwise it reports nothing.
\<close>

theorem progress_parse_correct:
  assumes "parseMigrationProgressFromMetrics cl rsp vmName = Ok s"
  shows "if (\<exists>l \<in> set (rsp_Lines rsp). \<exists>f. processedValue cl vmName l f)
           \<and> (\<exists>l \<in> set (rsp_Lines rsp). \<exists>f. totalValue cl vmName l f)
         then \<exists>lp \<in> set (rsp_Lines rsp). \<exists>lt \<in> set (rsp_Lines rsp). \<exists>p t.
             processedValue cl vmName lp p \<and> totalValue cl vmName lt t
             \<and> s = (if isZeroFloat t then ''0'' else c_Percent cl p t)
         else s = []"
proof -
  obtain n po to where scan: "scanMetrics cl vmName 0 None None (rsp_Lines rsp) = (n, po, to)"
    using prod_cases3 by blast
  note P = scanMetrics_processed[OF scan] and T = scanMetrics_total[OF scan]
    and C = scanMetrics_complete[OF scan]
  show ?thesis
  proof (cases "\<exists>p t. po = Some p \<and> to = Some t")
    case True
    then obtain p t where pt: "po = Some p" "to = Some t" by blast
    then have "s = (if isZeroFloat t then ''0'' else c_Percent cl p t)"
      using assms scan by (auto simp: parseMigrationProgressFromMetrics_def split: option.splits if_splits)
    with P[of p] T[of t] pt show ?thesis by fastforce
  next
    case False
    then have "s = []"
      using assms scan by (auto simp: parseMigrationProgressFromMetrics_def split: option.splits)
    with C False show ?thesis by auto
  qed
qed

definition metricsClient :: "unit client" where
  "metricsClient = emptyClient\<lparr>c_ParseFloat := (\<lambda>s. case Atoi s of Some n \<Rightarrow> Inr (of_int n) | None \<Rightarrow> Inl (PlainErr ''syntax'')),
     c_Percent := (\<lambda>p t. showNat (unat p * 100 div unat t))\<rparr>"

definition metricsBody :: HttpResponse where
  "metricsBody = \<lparr>rsp_StatusCode = 200, rsp_Lines = [''# help'',
     ''kubevirt_vmi_migration_data_processed_bytes{vm1} 5'', ''kubevirt_vmi_migration_data_bytes_total{vm1} 0''],
     rsp_ScanErr = (\<lambda>n. None)\<rparr>"

lemma metricsBody_lines:
  "totalValue metricsClient ''vm1'' ''kubevirt_vmi_migration_data_bytes_total{vm1} 0'' 0"
  "processedValue metricsClient ''vm1'' ''kubevirt_vmi_migration_data_processed_bytes{vm1} 5'' 5"
  by code_simp+

lemma metricsClient_percent: "c_Percent metricsClient p t = showNat (unat p * 100 div unat t)"
  by (simp add: metricsClient_def)

theorem progress_parse_correct_witness:
  "\<exists>s. parseMigrationProgressFromMetrics metricsClient metricsBody ''vm1'' = Ok s \<and> s \<noteq> []"
proof -
  obtain s where s: "parseMigrationProgressFromMetrics metricsClient metricsBody ''vm1'' = Ok s"
    using parse_readable[of metricsBody] by (auto simp: metricsBody_def)
  have h: "\<exists>l \<in> set (rsp_Lines metricsBody). \<exists>f. processedValue metricsClient ''vm1'' l f"
    "\<exists>l \<in> set (rsp_Lines metricsBody). \<exists>f. totalValue metricsClient ''vm1'' l f"
    using metricsBody_lines by (auto simp: metricsBody_def)
  have "showNat k \<noteq> []" for k by (subst showNat.simps) simp
  then have "[] \<noteq> c_Percent metricsClient p t" for p t by (metis metricsClient_percent)
  then have "s \<noteq> []"
    using progress_parse_correct[OF s] h by (auto split: if_splits)
  with s show ?thesis by blast
qed

text \<open>
  The value read from a metric line is its last blank-separated token.  On a line of the
  form the comments of the parser show, \<open>metric{labels} value timestamp\<close>, that token is the
  timestamp: the byte count is ignored.
\<close>

theorem extractMetricValue_reads_timestamp:
  assumes "CHR '' '' \<notin> set timestamp" "\<not> HasSuffix timestamp [CHR 0x22, CHR ''}'']"
  shows "extractMetricValue cl (metric @ '' '' @ value @ '' '' @ timestamp) =
    (case c_ParseFloat cl timestamp of
       Inl e \<Rightarrow> Inl (WrapErr ''failed to parse metric value: '' e) | Inr f \<Rightarrow> Inr f)"
  using Split_last[OF assms(1), of "metric @ '' '' @ value"] TrimSuffix_id[OF assms(2)]
  by (simp add: extractMetricValue_def)

theorem extractMetricValue_reads_timestamp_witness:
  "CHR '' '' \<notin> set ''1763'' \<and> extractMetricValue metricsClient ''m{vm1} 5 1763'' = Inr 1763"
  using extractMetricValue_reads_timestamp[of "''1763''" metricsClient "''m{vm1}''" "''5''"]
  by (simp add: metricsClient_def HasSuffix_def suffix_def Cons_eq_append_conv Atoi_def digitsVal_def
      digitVal_def isDigit_def less_eq_char_def)

text \<open>
  Reading the progress never gets in the way of a migration: it sends no write request, it
  never panics, and it fails only when the VMI cannot be read for another reason than being
  gone; trouble with the virt-handler, the certificates, the connection or the metrics is
  reported as no progress.
\<close>

theorem progress_best_effort:
  assumes "getLastObservedProgressPercent cl vmName ns s = (r, s')"
  shows "trace s' = trace s
    \<and> ((\<exists>p. r = Ok p) \<or> (\<exists>e. r = Err (WrapErr ''failed to get VMI: '' e) \<and> \<not> IsNotFound e))"
proof -
  have "frame (\<lambda>s t. trace t = trace s) (getLastObservedProgressPercent cl vmName ns)"
    by (rule trace_obs.frame_getLastObservedProgressPercent)
  with assms have tr: "trace s' = trace s" by (rule frameD[rotated])
  let ?rest = "\<lambda>vmi. if vmi_NodeName vmi = [] then ret []
         else bind (attempt (findVirtHandlerPod cl (vmi_NodeName vmi))) (\<lambda>r. case r of
           Inl e \<Rightarrow> ret []
         | Inr None \<Rightarrow> ret []
         | Inr (Some virtHandlerPod) \<Rightarrow>
             if pod_IP virtHandlerPod = [] then ret []
             else bind (attempt (getProgressFromVirtHandlerMetrics cl (pod_IP virtHandlerPod) vmName)) (\<lambda>r. case r of
               Inl e \<Rightarrow> ret []
             | Inr progress \<Rightarrow> ret progress))"
  have calm_rest: "swallows (?rest vmi)" for vmi
    by (auto intro!: swallows_attempt swallows_ret panic_free_findVirtHandlerPod panic_free_getProgress
        split: sum.splits option.splits)
  obtain v w where q: "c_GetVMI cl ns vmName (world s) = (v, w)" by fastforce
  show ?thesis
  proof (cases v)
    case (Inl e)
    with q assms tr show ?thesis
      by (auto simp: getLastObservedProgressPercent_def run split: if_splits)
  next
    case (Inr vmi)
    then have "?rest vmi (s\<lparr>world := w\<rparr>) = (r, s')"
      using q assms by (simp add: getLastObservedProgressPercent_def run)
    moreover obtain x where "fst (?rest vmi (s\<lparr>world := w\<rparr>)) = Ok x"
      using calm_rest[of vmi] by (auto simp: swallows_def)
    ultimately show ?thesis using tr by simp
  qed
qed

theorem progress_best_effort_witness:
  "getLastObservedProgressPercent metricsClient ''vm1'' ''ns'' \<lparr>world = (), trace = []\<rparr> = (Ok [], \<lparr>world = (), trace = []\<rparr>)
   \<and> (\<exists>p. fst (getLastObservedProgressPercent metricsClient ''vm1'' ''ns'' \<lparr>world = (), trace = []\<rparr>) = Ok p)"
proof -
  have "getLastObservedProgressPercent metricsClient ''vm1'' ''ns'' \<lparr>world = (), trace = []\<rparr> = (Ok [], \<lparr>world = (), trace = []\<rparr>)"
    by (simp add: getLastObservedProgressPercent_def run metricsClient_def emptyClient_def)
  with progress_best_effort[OF this] show ?thesis by simp
qed

end
