(* ===== verification/Task.thy ===== *)
theory Task
  imports VolumeSwap Progress
begin

text \<open>
  The migration task: one call of \<open>Run\<close> executes the current phase of a migration
  (\<open>task.go\<close>, \<open>vm.go\<close> and \<open>cancel.go\<close> of \<open>src/internal/controller/storagemig\<close>).  The
  state is the system state of the client with the fields of the \<open>Task\<close> struct that the code
  changes: the migration object, the plan as it was read, and the requeue delay.
\<close>

section \<open>State\<close>

text \<open>Delays are \<open>time.Duration\<close>, in nanoseconds.\<close>

abbreviation PollReQ :: int where "PollReQ \<equiv> 20000000000"
abbreviation NoReQ :: int where "NoReQ \<equiv> 0"

record 'w task = "'w sys" +
  t_Owner :: Migration
  t_Plan :: "Plan option"
  t_Requeue :: int

abbreviation t_Phase :: "'w task \<Rightarrow> Phase" where
  "t_Phase t \<equiv> ms_Phase (mg_Status (t_Owner t))"
abbreviation t_Running :: "'w task \<Rightarrow> RunningVM list" where
  "t_Running t \<equiv> ms_RunningMigrations (mg_Status (t_Owner t))"
abbreviation t_Completed :: "'w task \<Rightarrow> string list" where
  "t_Completed t \<equiv> ms_CompletedMigrations (mg_Status (t_Owner t))"
abbreviation t_Cancelled :: "'w task \<Rightarrow> string list" where
  "t_Cancelled t \<equiv> ms_CancelledMigrations (mg_Status (t_Owner t))"
abbreviation t_Namespace :: "'w task \<Rightarrow> string" where
  "t_Namespace t \<equiv> om_Namespace (mg_Meta (t_Owner t))"

definition onOwner :: "(Migration \<Rightarrow> Migration) \<Rightarrow> ('w task, unit) go" where
  "onOwner f = modify (\<lambda>t. t\<lparr>t_Owner := f (t_Owner t)\<rparr>)"

definition onStatus :: "(MigStatus \<Rightarrow> MigStatus) \<Rightarrow> ('w task, unit) go" where
  "onStatus f = onOwner (\<lambda>m. m\<lparr>mg_Status := f (mg_Status m)\<rparr>)"

definition setPhase :: "Phase \<Rightarrow> ('w task, unit) go" where
  "setPhase p = onStatus (\<lambda>st. st\<lparr>ms_Phase := p\<rparr>)"

definition setRequeue :: "int \<Rightarrow> ('w task, unit) go" where
  "setRequeue d = modify (\<lambda>t. t\<lparr>t_Requeue := d\<rparr>)"

text \<open>\<open>t.Plan.x\<close>: a nil plan panics.\<close>

definition thePlan :: "('w task, Plan) go" where
  "thePlan = bind (gets t_Plan) (\<lambda>p. liftR (deref p))"

section \<open>vm.go\<close>

definition canVMStorageMigrate :: "'w client \<Rightarrow> string \<Rightarrow> ('w task, bool) go" where
  "canVMStorageMigrate cl vmName =
     bind (gets t_Namespace) (\<lambda>ns.
     bind (ValidateStorageMigrationPossibleForVM cl vmName ns) (\<lambda>(reason, message).
       if reason \<noteq> [] then ret False else ret True))"

definition patchVMIfChanged :: "'w client \<Rightarrow> VirtualMachine \<Rightarrow> VirtualMachine \<Rightarrow> ('w task, unit) go" where
  "patchVMIfChanged cl vm vmCopy =
     (if vm \<noteq> vmCopy then request (PatchVM vm vmCopy) (c_PatchVM cl vm vmCopy) else ret ())"

definition updateVMForStorageMigration :: "'w client \<Rightarrow> VirtualMachine \<Rightarrow> StatusVM \<Rightarrow> ('w task, unit) go" where
  "updateVMForStorageMigration cl vm planVM =
     bind (liftR (prepareVMForStorageMigration vm planVM)) (\<lambda>vmCopy.
     patchVMIfChanged cl vm (vmCopy\<lparr>vm_UpdateVolumesStrategy := Some ''Migration''\<rparr>))"

definition updateVMForOfflineStorageMigration ::
  "'w client \<Rightarrow> VirtualMachine \<Rightarrow> StatusVM \<Rightarrow> ('w task, unit) go"
where
  "updateVMForOfflineStorageMigration cl vm planVM =
     bind (liftR (prepareVMForStorageMigration vm planVM)) (\<lambda>vmCopy. patchVMIfChanged cl vm vmCopy)"

definition determineDataVolumeSize :: "'w client \<Rightarrow> PersistentVolumeClaim \<Rightarrow> ('w task, quantity) go" where
  "determineDataVolumeSize cl sourcePVC =
     bind (gets t_Namespace) (\<lambda>ns.
     bind (query (c_GetDV cl ns (om_Name (pvc_Meta sourcePVC)))) (\<lambda>dataVolume.
       case dv_PVC dataVolume of
         Some requests \<Rightarrow> ret (mget requests 0 ResourceStorage)
       | None \<Rightarrow>
           (case dv_Storage dataVolume of
              Some storage \<Rightarrow>
                if pvc_VolumeMode sourcePVC = Some PersistentVolumeBlock
                then ret (mget (pvc_Capacity sourcePVC) 0 ResourceStorage)
                else ret (mget (ss_Requests storage) 0 ResourceStorage)
            | None \<Rightarrow> ret (mget (pvc_Requests sourcePVC) 0 ResourceStorage))))"

definition determineSourcePVCSize :: "'w client \<Rightarrow> PersistentVolumeClaim \<Rightarrow> ('w task, quantity) go" where
  "determineSourcePVCSize cl sourcePVC =
     (if HasDVOwnerRef sourcePVC then determineDataVolumeSize cl sourcePVC
      else ret (mget (pvc_Requests sourcePVC) 0 ResourceStorage))"

definition cleanTargetAnnotations :: "strmap \<Rightarrow> strmap" where
  "cleanTargetAnnotations annotations = (\<lambda>k.
     if k \<in> {''pv.kubernetes.io/bind-completed'', ''volume.beta.kubernetes.io/storage-provisioner'',
             ''pv.kubernetes.io/bound-by-controller'', ''volume.kubernetes.io/storage-provisioner'',
             ''k8s.io/CloneRequest'', ''k8s.io/CloneOf''}
        \<or> HasPrefix k ''cdi.kubevirt.io'' \<or> HasPrefix k ''volume.kubernetes.io/selected-node''
     then None else annotations k)"

abbreviation MigrationUIDLabel :: string where
  "MigrationUIDLabel \<equiv> ''virtualmachinestoragemigration.kubevirt.io/virtualmachinestoragemigration-uid''"
abbreviation PlanLabel :: string where "PlanLabel \<equiv>
  ''virtualmachinestoragemigration.kubevirt.io/virtualmachinestoragemigrationplan-name''"
abbreviation PlanUIDLabel :: string where "PlanUIDLabel \<equiv>
  ''virtualmachinestoragemigration.kubevirt.io/virtualmachinestoragemigrationplan-uid''"

text \<open>The DataVolume that \<open>createTargetDV\<close> asks for.\<close>

definition targetDV ::
  "Migration \<Rightarrow> Plan \<Rightarrow> DestinationPVC \<Rightarrow> string \<Rightarrow> quantity \<Rightarrow> strmap \<Rightarrow> strmap \<Rightarrow> string option \<Rightarrow> DataVolume"
where
  "targetDV owner plan targetPvc name sz labels annotations sourcePVCName =
     \<lparr>dv_Name = name,
      dv_Namespace = om_Namespace (mg_Meta owner),
      dv_Labels = labels(MigrationUIDLabel \<mapsto> om_UID (mg_Meta owner),
                         PlanLabel \<mapsto> GetName (om_Name (pl_Meta plan)) ''mig'' DNS1035LabelMaxLength,
                         PlanUIDLabel \<mapsto> om_UID (pl_Meta plan)),
      dv_Annotations = (cleanTargetAnnotations annotations)(''cdi.kubevirt.io/allowClaimAdoption'' \<mapsto> ''true''),
      dv_Source = Some (case sourcePVCName of
          Some n \<Rightarrow> if n \<noteq> [] then SourcePVC (om_Namespace (mg_Meta owner)) n else SourceBlank
        | None \<Rightarrow> SourceBlank),
      dv_PVC = None,
      dv_Storage = Some \<lparr>ss_Requests = [ResourceStorage \<mapsto> sz],
         ss_StorageClassName = dp_StorageClassName targetPvc,
         ss_VolumeMode = (if dp_VolumeMode targetPvc \<in> {Some PersistentVolumeBlock, Some PersistentVolumeFilesystem}
                          then dp_VolumeMode targetPvc else None),
         ss_AccessModes = filter (\<lambda>m. m \<in> {''ReadWriteOnce'', ''ReadWriteMany'', ''ReadOnlyMany''}) (dp_AccessModes targetPvc)\<rparr>,
      dv_Phase = []\<rparr>"

definition createTargetDV ::
  "'w client \<Rightarrow> TargetMigrationPVC \<Rightarrow> quantity \<Rightarrow> strmap \<Rightarrow> strmap \<Rightarrow> string option \<Rightarrow> ('w task, unit) go"
where
  "createTargetDV cl pvc sz labels annotations sourcePVCName =
     bind (liftR (deref (dp_Name (tp_DestinationPVC pvc)))) (\<lambda>name.
     bind (gets t_Owner) (\<lambda>owner.
     bind thePlan (\<lambda>plan.
     let dv = targetDV owner plan (tp_DestinationPVC pvc) name sz labels annotations sourcePVCName in
     bind (attempt (request (CreateDV dv) (c_CreateDV cl dv))) (\<lambda>r. case r of
       Inl e \<Rightarrow> if IsAlreadyExists e then ret () else throw e
     | Inr _ \<Rightarrow> ret ()))))"

text \<open>
  The loop both migration modes share: the target of index \<open>i\<close> is sized and labelled after
  the source of index \<open>i\<close>, read again from the server.  The argument says what the new
  DataVolume is filled from.
\<close>

definition createTargetFor ::
  "'w client \<Rightarrow> (SourcePVC \<Rightarrow> string option) \<Rightarrow> StatusVM \<Rightarrow> nat \<Rightarrow> TargetMigrationPVC \<Rightarrow> ('w task, unit) go"
where
  "createTargetFor cl fillFrom planVM i pvc =
     bind (liftR (index (sv_SourcePVCs planVM) i)) (\<lambda>src.
     bind (query (c_GetPVC cl (sp_Namespace src) (sp_Name src))) (\<lambda>apiPVC.
     bind (determineSourcePVCSize cl apiPVC) (\<lambda>sz.
     createTargetDV cl pvc sz (om_Labels (pvc_Meta apiPVC)) (om_Annotations (pvc_Meta apiPVC)) (fillFrom src))))"

definition createTargetDVs ::
  "'w client \<Rightarrow> (SourcePVC \<Rightarrow> string option) \<Rightarrow> StatusVM \<Rightarrow> ('w task, unit) go"
where
  "createTargetDVs cl fillFrom planVM =
     foldE (\<lambda>(i, pvc) _. createTargetFor cl fillFrom planVM i pvc) (enumerate 0 (pv_TargetMigrationPVCs planVM)) ()"

definition offlineMigrateVM :: "'w client \<Rightarrow> StatusVM \<Rightarrow> ('w task, unit) go" where
  "offlineMigrateVM cl planVM =
     bind (gets t_Namespace) (\<lambda>ns.
     bind (query (c_GetVM cl ns (pv_Name planVM))) (\<lambda>vm.
     bind (ValidatePVCsMatchForVM cl planVM ns) (\<lambda>(reason, message).
       if message \<noteq> [] then throw (PlainErr message)
       else
         bind (updateVMForOfflineStorageMigration cl vm planVM) (\<lambda>_.
         createTargetDVs cl (\<lambda>src. Some (sp_Name src)) planVM))))"

definition liveMigrateVM :: "'w client \<Rightarrow> StatusVM \<Rightarrow> ('w task, unit) go" where
  "liveMigrateVM cl planVM =
     bind (gets t_Namespace) (\<lambda>ns.
     bind (query (c_GetVM cl ns (pv_Name planVM))) (\<lambda>vm.
     bind (ValidatePVCsMatchForVM cl planVM ns) (\<lambda>(reason, message).
       if message \<noteq> [] then throw (PlainErr message)
       else
         bind (createTargetDVs cl (\<lambda>src. None) planVM) (\<lambda>_.
         updateVMForStorageMigration cl vm planVM))))"

abbreviation RefreshStartTimeAnnotation :: string where
  "RefreshStartTimeAnnotation \<equiv> ''migration.kubevirt.io/refresh-start-time''"
abbreviation RefreshEndTimeAnnotation :: string where
  "RefreshEndTimeAnnotation \<equiv> ''migration.kubevirt.io/refresh-end-time''"

definition refreshReadyVirtualMachines :: "'w client \<Rightarrow> ('w task, unit) go" where
  "refreshReadyVirtualMachines cl =
     bind (gets (\<lambda>t. mg_PlanRef (t_Owner t))) (\<lambda>ref.
     bind (GetStorageMigrationPlan cl ref) (\<lambda>p. case p of
       None \<Rightarrow> throw (PlainErr ''plan not found'')
     | Some plan \<Rightarrow>
         bind (draw (c_Now cl)) (\<lambda>now.
         let planCopy = plan\<lparr>pl_Meta := (pl_Meta plan)\<lparr>om_Annotations :=
               ((om_Annotations (pl_Meta plan))(RefreshStartTimeAnnotation \<mapsto> c_FormatTime cl now))
                 (RefreshEndTimeAnnotation := None)\<rparr>\<rparr>
         in request (PatchPlan plan planCopy) (c_PatchPlan cl plan planCopy))))"

definition liftSum :: "goerr + 'a \<Rightarrow> ('s, 'a) go" where
  "liftSum r = (case r of Inl e \<Rightarrow> throw e | Inr x \<Rightarrow> ret x)"

definition refreshCompletedVirtualMachines :: "'w client \<Rightarrow> ('w task, bool) go" where
  "refreshCompletedVirtualMachines cl =
     bind (gets (\<lambda>t. mg_PlanRef (t_Owner t))) (\<lambda>ref.
     bind (GetStorageMigrationPlan cl ref) (\<lambda>p.
     bind (liftR (deref p)) (\<lambda>plan.
       case om_Annotations (pl_Meta plan) RefreshStartTimeAnnotation of
         None \<Rightarrow> throw (PlainErr ''refresh start time not found'')
       | Some startTimeString \<Rightarrow>
           bind (liftSum (c_ParseTime cl startTimeString)) (\<lambda>startTime.
             case om_Annotations (pl_Meta plan) RefreshEndTimeAnnotation of
               None \<Rightarrow> ret False
             | Some endTimeString \<Rightarrow>
                 bind (liftSum (c_ParseTime cl endTimeString)) (\<lambda>endTime. ret (endTime > startTime))))))"

definition getPlanVMByName :: "string \<Rightarrow> ('w task, StatusVM option) go" where
  "getPlanVMByName vmName =
     bind thePlan (\<lambda>plan.
     ret (case find (\<lambda>v. pv_Name v = vmName) (st_ReadyMigrations (pl_Status plan)) of
            Some v \<Rightarrow> Some v
          | None \<Rightarrow> find (\<lambda>v. pv_Name v = vmName) (st_InProgressMigrations (pl_Status plan))))"

definition isOfflineMigrationCompleted :: "'w client \<Rightarrow> string \<Rightarrow> ('w task, bool) go" where
  "isOfflineMigrationCompleted cl vmName =
     bind (getPlanVMByName vmName) (\<lambda>p. case p of
       None \<Rightarrow> ret False
     | Some planVM \<Rightarrow>
         bind (gets t_Namespace) (\<lambda>ns.
         bind (loopE (\<lambda>targetPVC _.
             bind (liftR (deref (dp_Name (tp_DestinationPVC targetPVC)))) (\<lambda>name.
             bind (attempt (query (c_GetDV cl ns name))) (\<lambda>r. case r of
               Inl e \<Rightarrow> if IsNotFound e then ret (Leave False) else throw e
             | Inr dv \<Rightarrow>
                 if dv_Phase dv \<noteq> ''Succeeded'' \<and> dv_Phase dv \<noteq> ''WaitForFirstConsumer''
                 then ret (Leave False) else ret (Next ()))))
           (pv_TargetMigrationPVCs planVM) ()) (\<lambda>v. case v of Leave b \<Rightarrow> ret b | Next _ \<Rightarrow> ret True)))"


section \<open>cancel.go\<close>

definition getCancellableMigrations :: "('w task, StatusVM list) go" where
  "getCancellableMigrations = gets (\<lambda>t. case t_Plan t of
       Some plan \<Rightarrow> st_ReadyMigrations (pl_Status plan) @ st_InProgressMigrations (pl_Status plan)
     | None \<Rightarrow> [])"

definition isVMOnSourceVolumes :: "'w client \<Rightarrow> string \<Rightarrow> ('w task, bool) go" where
  "isVMOnSourceVolumes cl vmName =
     bind (gets t_Namespace) (\<lambda>ns.
     bind (query (c_GetVM cl ns vmName)) (\<lambda>vm.
     bind getCancellableMigrations (\<lambda>cancelMigrations.
     ret (onSourceVolumes vm cancelMigrations vmName))))"

text \<open>
  The list of cancellable entries is a fresh slice of structs, but the \<open>SourcePVCs\<close> of an entry
  share their backing array with the plan of the task: what \<open>recoverCorruptedSourcePVCs\<close>
  writes is written to the first matching entry of the plan as well.  (When the recovery fails
  the task ends and its plan is dropped.)
\<close>

fun putFirst :: "string \<Rightarrow> SourcePVC list \<Rightarrow> StatusVM list \<Rightarrow> StatusVM list" where
  "putFirst n ss [] = []"
| "putFirst n ss (v # vs) = (if pv_Name v = n then v\<lparr>sv_SourcePVCs := ss\<rparr> # vs else v # putFirst n ss vs)"

definition putSources :: "string \<Rightarrow> SourcePVC list \<Rightarrow> Plan \<Rightarrow> Plan" where
  "putSources n ss plan =
     (let st = pl_Status plan in
      plan\<lparr>pl_Status :=
        if n \<in> pv_Name ` set (st_ReadyMigrations st)
        then st\<lparr>st_ReadyMigrations := putFirst n ss (st_ReadyMigrations st)\<rparr>
        else st\<lparr>st_InProgressMigrations := putFirst n ss (st_InProgressMigrations st)\<rparr>\<rparr>)"

definition cancelLiveMigration :: "'w client \<Rightarrow> string \<Rightarrow> ('w task, unit) go" where
  "cancelLiveMigration cl vmName =
     bind (gets t_Namespace) (\<lambda>ns.
     bind (query (c_GetVM cl ns vmName)) (\<lambda>vm.
     bind getCancellableMigrations (\<lambda>cancelMigrations.
       case find (\<lambda>p. pv_Name p = vmName) cancelMigrations of
         None \<Rightarrow> throw (PlainErr (''no cancellable plan VM found to revert volumes for '' @ vmName))
       | Some planVM \<Rightarrow>
           bind (liftR (recoverCorruptedSourcePVCs vm planVM)) (\<lambda>planVM'.
           bind (modify (\<lambda>t. t\<lparr>t_Plan := map_option (putSources vmName (sv_SourcePVCs planVM')) (t_Plan t)\<rparr>)) (\<lambda>_.
           bind (liftR (revertPlanVolumes planVM')) (\<lambda>revertPlan.
           updateVMForStorageMigration cl vm revertPlan))))))"

section \<open>task.go: looking at VMIMs and cleaning up\<close>

definition hasActiveVMIM :: "'w client \<Rightarrow> string \<Rightarrow> ('w task, bool) go" where
  "hasActiveVMIM cl vmName =
     bind (gets t_Owner) (\<lambda>owner.
     bind (query (c_ListVMIMs cl (om_Namespace (mg_Meta owner)))) (\<lambda>vmims.
     ret (list_ex (\<lambda>vmim. vmim_VMIName vmim = vmName
            \<and> \<not> vmim_CreationTimestamp vmim < om_CreationTimestamp (mg_Meta owner)
            \<and> vmim_Phase vmim \<notin> {MigrationSucceeded, MigrationFailed}) vmims)))"

definition isLiveMigrationCompleted :: "'w client \<Rightarrow> string \<Rightarrow> ('w task, bool) go" where
  "isLiveMigrationCompleted cl vmName =
     bind (gets t_Owner) (\<lambda>owner.
     bind (query (c_ListVMIMs cl (om_Namespace (mg_Meta owner)))) (\<lambda>vmims.
       case find (\<lambda>vmim. vmim_VMIName vmim = vmName \<and> vmim_Phase vmim \<noteq> MigrationFailed
                   \<and> \<not> vmim_CreationTimestamp vmim < om_CreationTimestamp (mg_Meta owner)) vmims of
         None \<Rightarrow> ret False
       | Some activeVMIM \<Rightarrow>
           ret (case vmim_MigrationState activeVMIM of
                  None \<Rightarrow> False
                | Some (completed, failed) \<Rightarrow> completed \<and> \<not> failed)))"

text \<open>\<open>if err := Delete(...); err != nil \&\& !IsNotFound(err) \{ return err \}\<close>\<close>

definition deleteIfPresent :: "act \<Rightarrow> ('w, unit) api \<Rightarrow> ('w task, unit) go" where
  "deleteIfPresent a f =
     bind (attempt (request a f)) (\<lambda>r. case r of
       Inl e \<Rightarrow> if \<not> IsNotFound e then throw e else ret ()
     | Inr _ \<Rightarrow> ret ())"

definition cleanupCompletedVMIMs :: "'w client \<Rightarrow> ('w task, unit) go" where
  "cleanupCompletedVMIMs cl =
     bind (gets t_Owner) (\<lambda>owner.
     bind (query (c_ListVMIMs cl (om_Namespace (mg_Meta owner)))) (\<lambda>vmims.
     foldE (\<lambda>vmim _.
       if vmim_Phase vmim = MigrationSucceeded
          \<and> vmim_VMIName vmim \<in> set (ms_CompletedMigrations (mg_Status owner))
       then deleteIfPresent (DeleteVMIM vmim) (c_DeleteVMIM cl vmim) else ret ()) vmims ()))"

definition cleanupCompletedPods :: "'w client \<Rightarrow> string list \<Rightarrow> ('w task, bool) go" where
  "cleanupCompletedPods cl completedMigrationsVMNames =
     bind (gets t_Namespace) (\<lambda>ns.
     bind (query (c_ListPods cl (Some ns) (''kubevirt.io'', ''virt-launcher''))) (\<lambda>pods.
     bind (foldE (\<lambda>pod _.
         if pod_Phase pod = ''Succeeded'' then deleteIfPresent (DeletePod pod) (c_DeletePod cl pod) else ret ())
       pods ()) (\<lambda>_.
     bind (loopE (\<lambda>vmName _.
         bind (attempt (query (c_GetVMI cl ns vmName))) (\<lambda>r. case r of
           Inl e \<Rightarrow> if IsNotFound e then ret (Next ()) else throw e
         | Inr vmi \<Rightarrow> if vmi_ActivePods vmi > 1 then ret (Leave False) else ret (Next ())))
       completedMigrationsVMNames ()) (\<lambda>v. case v of Leave b \<Rightarrow> ret b | Next _ \<Rightarrow> ret True))))"

definition cleanupMigrationResources :: "'w client \<Rightarrow> string list \<Rightarrow> ('w task, bool) go" where
  "cleanupMigrationResources cl completedMigrationsVMNames =
     bind (cleanupCompletedPods cl completedMigrationsVMNames) (\<lambda>allCleaned.
       if \<not> allCleaned then ret False
       else bind (cleanupCompletedVMIMs cl) (\<lambda>_. ret True))"

definition getSourcePVCsForCompletedMigrations :: "Plan \<Rightarrow> string list \<Rightarrow> SourcePVC list" where
  "getSourcePVCsForCompletedMigrations plan completedVMNames =
     concat (map sv_SourcePVCs (filter (\<lambda>vm. pv_Name vm \<in> set completedVMNames)
       (st_CompletedMigrations (pl_Status plan))))"

definition deleteSource :: "'w client \<Rightarrow> SourcePVC \<Rightarrow> ('w task, unit) go" where
  "deleteSource cl src =
     bind (attempt (request (DeleteDV (sp_Namespace src) (sp_Name src))
                            (c_DeleteDV cl (sp_Namespace src) (sp_Name src)))) (\<lambda>r. case r of
       Inl e \<Rightarrow>
         if \<not> IsNotFound e then throw e
         else deleteIfPresent (DeletePVC (sp_Namespace src) (sp_Name src))
                (c_DeletePVC cl (sp_Namespace src) (sp_Name src))
     | Inr _ \<Rightarrow> ret ())"

definition deleteSourceDataVolumesAndPVCs :: "'w client \<Rightarrow> string list \<Rightarrow> ('w task, unit) go" where
  "deleteSourceDataVolumesAndPVCs cl completedMigrationsVMNames =
     bind (gets t_Plan) (\<lambda>p. case p of
       None \<Rightarrow> ret ()
     | Some plan \<Rightarrow>
         let sourcePVCs = getSourcePVCsForCompletedMigrations plan completedMigrationsVMNames in
         if completedMigrationsVMNames \<noteq> [] \<and> sourcePVCs = []
         then bind (setRequeue PollReQ) (\<lambda>_.
              throw (PlainErr (''source PVCs not yet available in plan status for '' @
                showNat (length completedMigrationsVMNames) @ '' completed migrations'')))
         else
           bind (foldE (\<lambda>src seen.
               let key = sp_Namespace src @ ''/'' @ sp_Name src in
               if key \<in> seen then ret seen
               else bind (deleteSource cl src) (\<lambda>_. ret (insert key seen)))
             sourcePVCs {}) (\<lambda>_. ret ()))"

text \<open>\<open>cleanupCancelledMigrationResources\<close> of \<open>cancel.go\<close>.\<close>

definition deleteTargetDV :: "'w client \<Rightarrow> TargetMigrationPVC \<Rightarrow> ('w task, unit) go" where
  "deleteTargetDV cl targetPVC = (case dp_Name (tp_DestinationPVC targetPVC) of
       None \<Rightarrow> ret ()
     | Some name \<Rightarrow>
         bind (gets t_Namespace) (\<lambda>ns.
         bind (attempt (query (c_GetDV cl ns name))) (\<lambda>r. case r of
           Inl e \<Rightarrow> if IsNotFound e then ret () else throw e
         | Inr dv \<Rightarrow> deleteIfPresent (DeleteDV (dv_Namespace dv) (dv_Name dv)) (c_DeleteDV cl (dv_Namespace dv) (dv_Name dv)))))"

definition cleanupCancelledMigrationResources :: "'w client \<Rightarrow> string list \<Rightarrow> string list \<Rightarrow> ('w task, bool) go" where
  "cleanupCancelledMigrationResources cl cancelledMigrations completedMigrations =
     bind (cleanupMigrationResources cl completedMigrations) (\<lambda>allCleaned.
     bind (foldE (\<lambda>vmName _.
         bind getCancellableMigrations (\<lambda>planVMs.
         foldE (\<lambda>planVM _.
           if pv_Name planVM = vmName
           then foldE (\<lambda>targetPVC _. deleteTargetDV cl targetPVC) (pv_TargetMigrationPVCs planVM) ()
           else ret ()) planVMs ()))
       cancelledMigrations ()) (\<lambda>_.
     ret allCleaned))"

section \<open>task.go: the phases\<close>

definition init :: "('w task, unit) go" where
  "init = bind (gets t_Phase) (\<lambda>ph. if ph = PhaseUnset then setPhase Started else ret ())"

definition maybeTransitionToCanceling :: "('w task, unit) go" where
  "maybeTransitionToCanceling =
     bind (gets t_Owner) (\<lambda>owner.
     bind (gets t_Plan) (\<lambda>plan.
       if om_DeletionTimestamp (mg_Meta owner) = None
          \<or> ms_Phase (mg_Status owner) \<in> {Canceled, Completed, CleanupCancelledMigrations}
       then ret ()
       else if (case plan of
                  Some p \<Rightarrow> om_DeletionTimestamp (pl_Meta p) \<noteq> None \<and> HasFinalizer (pl_Meta p) PlanFinalizer
                | None \<Rightarrow> False)
       then ret ()
       else setPhase Canceling))"

definition handleCleanupMigrationResourcesPhase :: "'w client \<Rightarrow> ('w task, unit) go" where
  "handleCleanupMigrationResourcesPhase cl =
     bind (gets t_Completed) (\<lambda>completed.
     bind (cleanupMigrationResources cl completed) (\<lambda>allCleaned.
       if \<not> allCleaned then setRequeue PollReQ
       else
         bind (gets t_Plan) (\<lambda>plan.
         bind (if (case plan of Some p \<Rightarrow> spec_RetentionPolicy (pl_Spec p) = Some RetentionPolicyDeleteSource | None \<Rightarrow> False)
               then deleteSourceDataVolumesAndPVCs cl completed else ret ()) (\<lambda>_.
         bind (onOwner (Mig_RemoveFinalizer MigrationFinalizer)) (\<lambda>_.
         setPhase Completed)))))"

definition handleCleanupCancelledMigrationsPhase :: "'w client \<Rightarrow> ('w task, unit) go" where
  "handleCleanupCancelledMigrationsPhase cl =
     bind (gets t_Owner) (\<lambda>owner.
     bind (cleanupCancelledMigrationResources cl (ms_CancelledMigrations (mg_Status owner))
             (ms_CompletedMigrations (mg_Status owner))) (\<lambda>allCleaned.
       if \<not> allCleaned then setRequeue PollReQ else setPhase Canceled))"

definition handleCanceledPhase :: "'w client \<Rightarrow> ('w task, unit) go" where
  "handleCanceledPhase cl =
     bind (onStatus (\<lambda>st. st\<lparr>ms_Conditions := DeleteCondition [phaseString Canceling] (ms_Conditions st)\<rparr>)) (\<lambda>_.
     bind (draw (c_Now cl)) (\<lambda>now.
     bind (onStatus (\<lambda>st. st\<lparr>ms_Conditions := SetCondition now
         (mkCondition (phaseString Canceled) ConditionTrue ''Cancel'' Advisory ''The migration has been canceled.'')
         (ms_Conditions st)\<rparr>)) (\<lambda>_.
     onOwner (Mig_RemoveFinalizer MigrationFinalizer))))"

definition appendRunning :: "string \<Rightarrow> ('w task, unit) go" where
  "appendRunning vmName = onStatus (\<lambda>st. st\<lparr>ms_RunningMigrations :=
     ms_RunningMigrations st @ [\<lparr>rm_Name = vmName, rm_Progress = []\<rparr>]\<rparr>)"

text \<open>The body of the loop over the ready and in-progress VMs.\<close>

definition beginVM :: "'w client \<Rightarrow> StatusVM \<Rightarrow> ('w task, unit) go" where
  "beginVM cl planVM =
     bind (gets t_Namespace) (\<lambda>ns.
     bind (VMIExists cl (pv_Name planVM) ns) (\<lambda>vmiExists.
       if vmiExists then
         bind (canVMStorageMigrate cl (pv_Name planVM)) (\<lambda>can.
           if \<not> can then ret ()
           else bind (liveMigrateVM cl planVM) (\<lambda>_. appendRunning (pv_Name planVM)))
       else bind (offlineMigrateVM cl planVM) (\<lambda>_. appendRunning (pv_Name planVM))))"

definition handleBeginLiveMigrationPhase :: "'w client \<Rightarrow> ('w task, unit) go" where
  "handleBeginLiveMigrationPhase cl =
     bind thePlan (\<lambda>plan.
     bind (foldE (\<lambda>planVM _. beginVM cl planVM)
       (st_ReadyMigrations (pl_Status plan) @ st_InProgressMigrations (pl_Status plan)) ()) (\<lambda>_.
     setPhase WaitForLiveMigrationToComplete))"

text \<open>One running VM: still running (with its progress) or completed.\<close>

definition waitVM :: "'w client \<Rightarrow> RunningVM \<Rightarrow> RunningVM list \<Rightarrow> ('w task, RunningVM list) go" where
  "waitVM cl vm runningMigrations =
     bind (gets t_Namespace) (\<lambda>ns.
     bind (VMIExists cl (rm_Name vm) ns) (\<lambda>vmiExists.
     bind (if \<not> vmiExists then isOfflineMigrationCompleted cl (rm_Name vm)
           else isLiveMigrationCompleted cl (rm_Name vm)) (\<lambda>completed.
       if \<not> completed then
         (if vmiExists then
            bind (getLastObservedProgressPercent cl (rm_Name vm) ns) (\<lambda>progress.
            ret (runningMigrations @ [if progress \<noteq> [] then vm\<lparr>rm_Progress := progress\<rparr> else vm]))
          else ret (runningMigrations @ [vm]))
       else
         bind (onStatus (\<lambda>st. st\<lparr>ms_CompletedMigrations := ms_CompletedMigrations st @ [rm_Name vm]\<rparr>)) (\<lambda>_.
         ret runningMigrations))))"

definition handleWaitForLiveMigrationToCompletePhase :: "'w client \<Rightarrow> ('w task, unit) go" where
  "handleWaitForLiveMigrationToCompletePhase cl =
     bind (gets t_Running) (\<lambda>vms.
     bind (foldE (waitVM cl) vms []) (\<lambda>runningMigrations.
     bind (onStatus (\<lambda>st. st\<lparr>ms_RunningMigrations := runningMigrations\<rparr>)) (\<lambda>_.
     bind (if runningMigrations = [] then setPhase CleanupMigrationResources else ret ()) (\<lambda>_.
     setRequeue PollReQ))))"

definition cancelVM ::
  "'w client \<Rightarrow> RunningVM \<Rightarrow> RunningVM list \<times> string list \<Rightarrow> ('w task, RunningVM list \<times> string list) go"
where
  "cancelVM cl vm acc = (case acc of (runningMigrations, cancelledMigrations) \<Rightarrow>
     bind (gets t_Namespace) (\<lambda>ns.
     bind (VMIExists cl (rm_Name vm) ns) (\<lambda>vmiExists.
       if \<not> vmiExists then
         bind (cancelLiveMigration cl (rm_Name vm)) (\<lambda>_.
         ret (runningMigrations, cancelledMigrations @ [rm_Name vm]))
       else
         bind (isVMOnSourceVolumes cl (rm_Name vm)) (\<lambda>onSource.
           if onSource then
             bind (hasActiveVMIM cl (rm_Name vm)) (\<lambda>active.
               if active then ret (runningMigrations @ [vm], cancelledMigrations)
               else ret (runningMigrations, cancelledMigrations @ [rm_Name vm]))
           else
             bind (cancelLiveMigration cl (rm_Name vm)) (\<lambda>_.
             ret (runningMigrations @ [vm], cancelledMigrations))))))"

definition handleCancelingPhase :: "'w client \<Rightarrow> ('w task, unit) go" where
  "handleCancelingPhase cl =
     bind (gets t_Running) (\<lambda>vms.
     bind (foldE (cancelVM cl) vms ([], [])) (\<lambda>(runningMigrations, cancelledMigrations).
     bind (onStatus (\<lambda>st. st\<lparr>ms_RunningMigrations := runningMigrations,
                             ms_CancelledMigrations := cancelledMigrations\<rparr>)) (\<lambda>_.
     bind (if runningMigrations = [] then setPhase CleanupCancelledMigrations else ret ()) (\<lambda>_.
     setRequeue PollReQ))))"

text \<open>The switch of \<open>Run\<close>.\<close>

definition runPhase :: "'w client \<Rightarrow> Phase \<Rightarrow> ('w task, unit) go" where
  "runPhase cl ph = (case ph of
       Started \<Rightarrow>
         bind (onOwner (Mig_AddFinalizer MigrationFinalizer)) (\<lambda>_. setPhase RefreshStorageMigrationPlan)
     | RefreshStorageMigrationPlan \<Rightarrow>
         bind (refreshReadyVirtualMachines cl) (\<lambda>_. setPhase WaitForStorageMigrationPlanRefreshCompletion)
     | WaitForStorageMigrationPlanRefreshCompletion \<Rightarrow>
         bind (refreshCompletedVirtualMachines cl) (\<lambda>completed.
           if \<not> completed then setRequeue PollReQ else setPhase BeginLiveMigration)
     | BeginLiveMigration \<Rightarrow> handleBeginLiveMigrationPhase cl
     | WaitForLiveMigrationToComplete \<Rightarrow> handleWaitForLiveMigrationToCompletePhase cl
     | CleanupMigrationResources \<Rightarrow> handleCleanupMigrationResourcesPhase cl
     | Canceling \<Rightarrow> handleCancelingPhase cl
     | CleanupCancelledMigrations \<Rightarrow> handleCleanupCancelledMigrationsPhase cl
     | Canceled \<Rightarrow> handleCanceledPhase cl
     | _ \<Rightarrow> setRequeue NoReQ)"

definition Run :: "'w client \<Rightarrow> ('w task, unit) go" where
  "Run cl =
     bind (setRequeue NoReQ) (\<lambda>_.
     bind init (\<lambda>_.
     bind maybeTransitionToCanceling (\<lambda>_.
     bind (gets t_Phase) (runPhase cl))))"

end
