(* ===== verification/TaskFrames.thy ===== *)
theory TaskFrames
  imports Task
begin

text \<open>
  What the operations of the task leave alone.  The locale \<open>task_steps\<close> is the interface the
  proofs about the task rely on: a relation between task states that reads, requeues and the
  admitted write requests stay within.  Its lemmas say that the operations of \<open>vm.go\<close>,
  \<open>cancel.go\<close> and the cleanup half of \<open>task.go\<close> stay within it as well; the
  interpretations give the trace properties and the frame properties of the task.
\<close>

text \<open>The DataVolumes deleted for the cancelled VMs are those the server returns for their targets.\<close>

definition cancelledTarget :: "'w client \<Rightarrow> string \<Rightarrow> Plan option \<Rightarrow> string list \<Rightarrow> DataVolume \<Rightarrow> bool" where
  "cancelledTarget cl ns plan cancelled dv \<longleftrightarrow> (\<exists>p entry pvc name w w'. plan = Some p
     \<and> entry \<in> set (st_ReadyMigrations (pl_Status p) @ st_InProgressMigrations (pl_Status p))
     \<and> pv_Name entry \<in> set cancelled \<and> pvc \<in> set (pv_TargetMigrationPVCs entry)
     \<and> dp_Name (tp_DestinationPVC pvc) = Some name \<and> c_GetDV cl ns name w = (Inr dv, w'))"

locale task_steps = observer R
  for R :: "'w task \<Rightarrow> 'w task \<Rightarrow> bool" +
  fixes K :: "'w task \<Rightarrow> bool"
    and P :: "act \<Rightarrow> bool"
  assumes vacuous: "\<not> K s \<Longrightarrow> R s t"
    and sends: "P a \<Longrightarrow> R s (s\<lparr>world := w, trace := trace s @ [(a, e)]\<rparr>)"
    and requeues: "R s (s\<lparr>t_Requeue := d\<rparr>)"
begin

lemma frame_request_P: "P a \<Longrightarrow> frame R (request a f)"
  by (rule frame_request) (rule sends)

lemma frame_setRequeue: "frame R (setRequeue d)"
  unfolding setRequeue_def by (rule frame_modify) (rule requeues)

lemma frame_read:
  assumes "\<And>s. K s \<Longrightarrow> frame R (f (h s))"
  shows "frame R (bind (gets h) f)"
  unfolding frame_def
proof
  fix s
  show "R s (snd (bind (gets h) f s))"
    using assms[of s] vacuous[of s] by (cases "K s") (auto simp: run_bind run_gets frame_def)
qed

lemma frame_read_plan:
  assumes "\<And>s plan. K s \<Longrightarrow> t_Plan s = Some plan \<Longrightarrow> frame R (f plan)"
  shows "frame R (bind thePlan f)"
  unfolding thePlan_def bind_assoc
proof (rule frame_read)
  fix s
  assume "K s"
  then show "frame R (bind (liftR (deref (t_Plan s))) f)"
    using assms[of s] by (cases "t_Plan s") (auto simp: deref_def frame_def run preorder_refl[OF preorder])
qed

lemma frame_patchVMIfChanged: "(\<And>v v'. P (PatchVM v v')) \<Longrightarrow> frame R (patchVMIfChanged cl vm vm')"
  unfolding patchVMIfChanged_def by (intro steps frame_request_P)

lemma frame_updateVM: "(\<And>v v'. P (PatchVM v v')) \<Longrightarrow> frame R (updateVMForStorageMigration cl vm p)"
  unfolding updateVMForStorageMigration_def by (intro steps frame_patchVMIfChanged)

lemma frame_updateVMOffline: "(\<And>v v'. P (PatchVM v v')) \<Longrightarrow> frame R (updateVMForOfflineStorageMigration cl vm p)"
  unfolding updateVMForOfflineStorageMigration_def by (intro steps frame_patchVMIfChanged)

lemma frame_determineSourcePVCSize: "frame R (determineSourcePVCSize cl pvc)"
  unfolding determineSourcePVCSize_def determineDataVolumeSize_def by (intro steps)

lemma frame_canVMStorageMigrate: "frame R (canVMStorageMigrate cl n)"
  unfolding canVMStorageMigrate_def by (intro steps frame_ValidatePossible)

text \<open>The DataVolumes that a target of a plan entry may give rise to in the context \<open>K\<close>.\<close>

lemma frame_createTargetDV:
  assumes "\<And>s s' plan name. K s \<Longrightarrow> K s' \<Longrightarrow> t_Plan s' = Some plan \<Longrightarrow> dp_Name (tp_DestinationPVC pvc) = Some name \<Longrightarrow>
     P (CreateDV (targetDV (t_Owner s) plan (tp_DestinationPVC pvc) name sz labels annotations src))"
  shows "frame R (createTargetDV cl pvc sz labels annotations src)"
proof (cases "dp_Name (tp_DestinationPVC pvc)")
  case None
  then show ?thesis
    by (simp add: createTargetDV_def deref_def frame_def run preorder_refl[OF preorder])
next
  case (Some name)
  then have eq: "createTargetDV cl pvc sz labels annotations src =
     bind (gets t_Owner) (\<lambda>owner. bind thePlan (\<lambda>plan.
       let dv = targetDV owner plan (tp_DestinationPVC pvc) name sz labels annotations src in
       bind (attempt (request (CreateDV dv) (c_CreateDV cl dv))) (\<lambda>r. case r of
         Inl e \<Rightarrow> if IsAlreadyExists e then ret () else throw e
       | Inr _ \<Rightarrow> ret ())))"
    by (simp add: createTargetDV_def deref_def bind_def liftR_def)
  show ?thesis unfolding eq Let_def
    by (intro frame_read frame_read_plan steps frame_request_P) (rule assms[OF _ _ _ Some])
qed

lemma frame_createTargetDVs:
  assumes "\<And>s s' plan pvc name source sz labels annotations. K s \<Longrightarrow> K s' \<Longrightarrow> t_Plan s' = Some plan \<Longrightarrow>
     pvc \<in> set (pv_TargetMigrationPVCs planVM) \<Longrightarrow> source \<in> set (sv_SourcePVCs planVM) \<Longrightarrow>
     dp_Name (tp_DestinationPVC pvc) = Some name \<Longrightarrow>
     P (CreateDV (targetDV (t_Owner s) plan (tp_DestinationPVC pvc) name sz labels annotations (fillFrom source)))"
  shows "frame R (createTargetDVs cl fillFrom planVM)"
  unfolding createTargetDVs_def
proof (rule frame_foldE[OF preorder])
  fix x :: "nat \<times> TargetMigrationPVC" and a :: unit
  assume "x \<in> set (enumerate 0 (pv_TargetMigrationPVCs planVM))"
  then have "snd x \<in> set (pv_TargetMigrationPVCs planVM)" by (auto simp: in_set_conv_nth nth_enumerate_eq)
  then obtain i pvc where x: "x = (i, pvc)" and pvc: "pvc \<in> set (pv_TargetMigrationPVCs planVM)"
    by (metis prod.collapse)
  have "frame R (createTargetFor cl fillFrom planVM i pvc)"
  proof (cases "i < length (sv_SourcePVCs planVM)")
    case True
    then have "sv_SourcePVCs planVM ! i \<in> set (sv_SourcePVCs planVM)" by simp
    then have "frame R (bind (query (c_GetPVC cl (sp_Namespace (sv_SourcePVCs planVM ! i)) (sp_Name (sv_SourcePVCs planVM ! i)))) (\<lambda>apiPVC.
       bind (determineSourcePVCSize cl apiPVC) (\<lambda>sz.
       createTargetDV cl pvc sz (om_Labels (pvc_Meta apiPVC)) (om_Annotations (pvc_Meta apiPVC)) (fillFrom (sv_SourcePVCs planVM ! i)))))"
      by (intro steps frame_determineSourcePVCSize frame_createTargetDV assms pvc)
    with True show ?thesis by (simp add: createTargetFor_def index_def bind_def liftR_def)
  next
    case False
    then show ?thesis by (simp add: createTargetFor_def index_def frame_def run preorder_refl[OF preorder])
  qed
  then show "frame R ((case x of (i, pvc) \<Rightarrow> \<lambda>_. createTargetFor cl fillFrom planVM i pvc) a)"
    by (simp add: x)
qed


lemma frame_offlineMigrateVM:
  "(\<And>v v'. P (PatchVM v v')) \<Longrightarrow> frame R (createTargetDVs cl (\<lambda>src. Some (sp_Name src)) planVM) \<Longrightarrow>
   frame R (offlineMigrateVM cl planVM)"
  unfolding offlineMigrateVM_def by (intro steps frame_ValidatePVCsMatch frame_updateVMOffline)

lemma frame_liveMigrateVM:
  "(\<And>v v'. P (PatchVM v v')) \<Longrightarrow> frame R (createTargetDVs cl (\<lambda>src. None) planVM) \<Longrightarrow>
   frame R (liveMigrateVM cl planVM)"
  unfolding liveMigrateVM_def by (intro steps frame_ValidatePVCsMatch frame_updateVM)

lemma frame_beginVM:
  "(\<And>v v'. P (PatchVM v v')) \<Longrightarrow> frame R (createTargetDVs cl (\<lambda>src. None) planVM) \<Longrightarrow>
   frame R (createTargetDVs cl (\<lambda>src. Some (sp_Name src)) planVM) \<Longrightarrow>
   frame R (appendRunning (pv_Name planVM)) \<Longrightarrow> frame R (beginVM cl planVM)"
  unfolding beginVM_def
  by (intro steps frame_VMIExists frame_canVMStorageMigrate frame_liveMigrateVM frame_offlineMigrateVM)

lemma frame_refreshReadyVirtualMachines: "(\<And>p p'. P (PatchPlan p p')) \<Longrightarrow> frame R (refreshReadyVirtualMachines cl)"
  unfolding refreshReadyVirtualMachines_def Let_def by (intro steps frame_GetStorageMigrationPlan frame_request_P)

lemma frame_liftSum: "frame R (liftSum r)"
  unfolding liftSum_def by (intro steps)

lemma frame_refreshCompletedVirtualMachines: "frame R (refreshCompletedVirtualMachines cl)"
  unfolding refreshCompletedVirtualMachines_def by (intro steps frame_GetStorageMigrationPlan frame_liftSum)

lemma frame_thePlan: "frame R thePlan"
  unfolding thePlan_def by (intro steps)

lemma frame_isOfflineMigrationCompleted: "frame R (isOfflineMigrationCompleted cl n)"
  unfolding isOfflineMigrationCompleted_def getPlanVMByName_def by (intro steps frame_thePlan)

lemma frame_isLiveMigrationCompleted: "frame R (isLiveMigrationCompleted cl n)"
  unfolding isLiveMigrationCompleted_def by (intro steps)

lemma frame_hasActiveVMIM: "frame R (hasActiveVMIM cl n)"
  unfolding hasActiveVMIM_def by (intro steps)

lemma frame_isVMOnSourceVolumes: "frame R (isVMOnSourceVolumes cl n)"
  unfolding isVMOnSourceVolumes_def getCancellableMigrations_def by (intro steps)

lemma frame_cancelLiveMigration:
  "(\<And>v v'. P (PatchVM v v')) \<Longrightarrow> (\<And>s f. R s (s\<lparr>t_Plan := f (t_Plan s)\<rparr>)) \<Longrightarrow> frame R (cancelLiveMigration cl n)"
  unfolding cancelLiveMigration_def getCancellableMigrations_def
  by (intro steps frame_updateVM frame_modify)

lemma frame_deleteIfPresent: "P a \<Longrightarrow> frame R (deleteIfPresent a f)"
  unfolding deleteIfPresent_def by (intro steps frame_request_P)

lemma frame_cleanupCompletedVMIMs:
  assumes "\<And>s vmim. K s \<Longrightarrow> vmim_Phase vmim = MigrationSucceeded \<Longrightarrow> vmim_VMIName vmim \<in> set (t_Completed s) \<Longrightarrow>
    P (DeleteVMIM vmim)"
  shows "frame R (cleanupCompletedVMIMs cl)"
  unfolding cleanupCompletedVMIMs_def
  by (intro frame_read steps frame_deleteIfPresent) (auto intro: assms)

lemma frame_cleanupCompletedPods:
  "(\<And>pod. pod_Phase pod = ''Succeeded'' \<Longrightarrow> P (DeletePod pod)) \<Longrightarrow> frame R (cleanupCompletedPods cl names)"
  unfolding cleanupCompletedPods_def by (intro steps frame_deleteIfPresent)

lemma frame_cleanupMigrationResources:
  "(\<And>pod. pod_Phase pod = ''Succeeded'' \<Longrightarrow> P (DeletePod pod)) \<Longrightarrow>
   (\<And>s vmim. K s \<Longrightarrow> vmim_Phase vmim = MigrationSucceeded \<Longrightarrow> vmim_VMIName vmim \<in> set (t_Completed s) \<Longrightarrow> P (DeleteVMIM vmim)) \<Longrightarrow>
   frame R (cleanupMigrationResources cl names)"
  unfolding cleanupMigrationResources_def
  by (intro steps frame_cleanupCompletedPods frame_cleanupCompletedVMIMs)

lemma frame_deleteSource:
  "P (DeleteDV (sp_Namespace src) (sp_Name src)) \<Longrightarrow> P (DeletePVC (sp_Namespace src) (sp_Name src)) \<Longrightarrow>
   frame R (deleteSource cl src)"
  unfolding deleteSource_def by (intro steps frame_deleteIfPresent frame_request_P)

lemma frame_deleteSources:
  assumes "\<And>s plan src. K s \<Longrightarrow> t_Plan s = Some plan \<Longrightarrow> src \<in> set (getSourcePVCsForCompletedMigrations plan names) \<Longrightarrow>
    frame R (deleteSource cl src)"
  shows "frame R (deleteSourceDataVolumesAndPVCs cl names)"
  unfolding deleteSourceDataVolumesAndPVCs_def Let_def
  by (intro frame_read steps frame_setRequeue) (simp_all add: assms)

lemma frame_deleteTargetDV:
  assumes "\<And>s name w w' dv. K s \<Longrightarrow> dp_Name (tp_DestinationPVC pvc) = Some name \<Longrightarrow>
    c_GetDV cl (t_Namespace s) name w = (Inr dv, w') \<Longrightarrow> P (DeleteDV (dv_Namespace dv) (dv_Name dv))"
  shows "frame R (deleteTargetDV cl pvc)"
proof (cases "dp_Name (tp_DestinationPVC pvc)")
  case (Some name)
  have "frame R (bind (gets t_Namespace) (\<lambda>ns. bind (attempt (query (c_GetDV cl ns name))) (\<lambda>r. case r of
           Inl e \<Rightarrow> if IsNotFound e then ret () else throw e
         | Inr dv \<Rightarrow> deleteIfPresent (DeleteDV (dv_Namespace dv) (dv_Name dv)) (c_DeleteDV cl (dv_Namespace dv) (dv_Name dv)))))"
  proof (intro frame_read frame_found)
    fix s w w' dv
    assume "K s" "c_GetDV cl (t_Namespace s) name w = (Inr dv, w')"
    then have "P (DeleteDV (dv_Namespace dv) (dv_Name dv))" using assms Some by blast
    then show "frame R (case Inr dv of Inl e \<Rightarrow> if IsNotFound e then ret () else throw e
         | Inr dv \<Rightarrow> deleteIfPresent (DeleteDV (dv_Namespace dv) (dv_Name dv)) (c_DeleteDV cl (dv_Namespace dv) (dv_Name dv)))"
      by (simp add: frame_deleteIfPresent)
  qed (simp only: sum.case, intro steps)
  with Some show ?thesis by (simp add: deleteTargetDV_def)
qed (simp add: deleteTargetDV_def frame_ret preorder)

lemma frame_cleanupCancelled:
  assumes "\<And>pod. pod_Phase pod = ''Succeeded'' \<Longrightarrow> P (DeletePod pod)"
    and "\<And>s vmim. K s \<Longrightarrow> vmim_Phase vmim = MigrationSucceeded \<Longrightarrow> vmim_VMIName vmim \<in> set (t_Completed s) \<Longrightarrow> P (DeleteVMIM vmim)"
    and target: "\<And>s s' dv. K s \<Longrightarrow> K s' \<Longrightarrow> cancelledTarget cl (t_Namespace s) (t_Plan s') cancelled dv \<Longrightarrow>
      P (DeleteDV (dv_Namespace dv) (dv_Name dv))"
  shows "frame R (cleanupCancelledMigrationResources cl cancelled names)"
proof -
  have loop: "frame R (foldE (\<lambda>vmName _.
         bind getCancellableMigrations (\<lambda>planVMs.
         foldE (\<lambda>planVM _.
           if pv_Name planVM = vmName
           then foldE (\<lambda>targetPVC _. deleteTargetDV cl targetPVC) (pv_TargetMigrationPVCs planVM) ()
           else ret ()) planVMs ())) cancelled ())"
    unfolding getCancellableMigrations_def
  proof (intro frame_foldE preorder frame_read frame_if frame_deleteTargetDV)
    fix vmName s entry pvc s2 name w w' dv
    assume h: "vmName \<in> set cancelled" "K s" "K s2" "pvc \<in> set (pv_TargetMigrationPVCs entry)" "pv_Name entry = vmName"
      "entry \<in> set (case t_Plan s of None \<Rightarrow> []
         | Some plan \<Rightarrow> st_ReadyMigrations (pl_Status plan) @ st_InProgressMigrations (pl_Status plan))"
      "dp_Name (tp_DestinationPVC pvc) = Some name" "c_GetDV cl (t_Namespace s2) name w = (Inr dv, w')"
    from h(6) obtain p where "t_Plan s = Some p"
      "entry \<in> set (st_ReadyMigrations (pl_Status p) @ st_InProgressMigrations (pl_Status p))"
      by (cases "t_Plan s") auto
    with h have "cancelledTarget cl (t_Namespace s2) (t_Plan s) cancelled dv"
      unfolding cancelledTarget_def by blast
    then show "P (DeleteDV (dv_Namespace dv) (dv_Name dv))" by (rule target[OF \<open>K s2\<close> \<open>K s\<close>])
  qed (intro steps)
  show ?thesis
    unfolding cleanupCancelledMigrationResources_def
    by (rule frame_bind[OF preorder _ frame_bind[OF preorder loop frame_ret[OF preorder]]])
      (intro frame_cleanupMigrationResources assms(1,2))
qed

end

section \<open>Interpretations\<close>

text \<open>Only admitted requests are sent.\<close>

interpretation emits_steps: task_steps "emits P" "\<lambda>_. True" P
  by unfold_locales (auto simp: emits_def)

text \<open>The migration object and the plan are left alone.\<close>

definition sameObjects :: "'w task \<Rightarrow> 'w task \<Rightarrow> bool" where
  "sameObjects s t \<longleftrightarrow> t_Owner t = t_Owner s \<and> t_Plan t = t_Plan s"

interpretation objects: task_steps sameObjects "\<lambda>_. True" "\<lambda>_. True"
  by unfold_locales (auto simp: sameObjects_def intro: preorder_relI)

text \<open>The migration object is left alone; the plan may be repaired.\<close>

definition sameOwner :: "'w task \<Rightarrow> 'w task \<Rightarrow> bool" where
  "sameOwner s t \<longleftrightarrow> t_Owner t = t_Owner s"

interpretation owner: task_steps sameOwner "\<lambda>_. True" "\<lambda>_. True"
  by unfold_locales (auto simp: sameOwner_def intro: preorder_relI)

text \<open>
  Inside a given context (metadata of the migration, plan, completed VMs), which is kept, only
  admitted requests are sent.
\<close>

definition inContext :: "ObjectMeta \<Rightarrow> Plan option \<Rightarrow> string list \<Rightarrow> 'w task \<Rightarrow> bool" where
  "inContext M p C s \<longleftrightarrow> mg_Meta (t_Owner s) = M \<and> t_Plan s = p \<and> t_Completed s = C"

definition within :: "ObjectMeta \<Rightarrow> Plan option \<Rightarrow> string list \<Rightarrow> (act \<Rightarrow> bool) \<Rightarrow> 'w task \<Rightarrow> 'w task \<Rightarrow> bool" where
  "within M p C P s t \<longleftrightarrow> (inContext M p C s \<longrightarrow> inContext M p C t \<and> emits P s t)"

interpretation context_steps: task_steps "within M p C P" "inContext M p C" P
proof unfold_locales
  show "preorder_rel (within M p C P)"
    by (rule preorder_relI) (auto simp: within_def intro: preorder_refl preorder_trans emits_preorder)
qed (auto simp: within_def inContext_def emits_def)

end
