(* ===== verification/TaskPhases.thy ===== *)
theory TaskPhases
  imports TaskFrames
begin

text \<open>
  The phases of a migration.  The abstract state machine \<open>phase_step\<close> is the specification of
  \<open>Run\<close>; the theorems say that every call of \<open>Run\<close> moves along it, whatever the API server
  answers, and what follows for a migration that is reconciled again and again.
\<close>

section \<open>The state machine\<close>

text \<open>\<open>phase_step deleting p q\<close>: one move; the cancel move needs a deleted migration.\<close>

inductive phase_step :: "bool \<Rightarrow> Phase \<Rightarrow> Phase \<Rightarrow> bool" where
  start: "phase_step d PhaseUnset Started"
| refresh: "phase_step d Started RefreshStorageMigrationPlan"
| refreshing: "phase_step d RefreshStorageMigrationPlan WaitForStorageMigrationPlanRefreshCompletion"
| refreshed: "phase_step d WaitForStorageMigrationPlanRefreshCompletion BeginLiveMigration"
| migrate: "phase_step d BeginLiveMigration WaitForLiveMigrationToComplete"
| migrated: "phase_step d WaitForLiveMigrationToComplete CleanupMigrationResources"
| complete: "phase_step d CleanupMigrationResources Completed"
| cancel: "p \<notin> {Canceled, Completed, CleanupCancelledMigrations, Canceling} \<Longrightarrow> phase_step True p Canceling"
| reverted: "phase_step d Canceling CleanupCancelledMigrations"
| cancelled: "phase_step d CleanupCancelledMigrations Canceled"

inductive_cases phase_stepE: "phase_step d p q"
inductive_simps phase_step_final: "phase_step d Completed q" "phase_step d Canceled q"

definition rank :: "Phase \<Rightarrow> nat" where
  "rank p = (case p of
       Started \<Rightarrow> 1 | RefreshStorageMigrationPlan \<Rightarrow> 2 | WaitForStorageMigrationPlanRefreshCompletion \<Rightarrow> 3
     | BeginLiveMigration \<Rightarrow> 4 | WaitForLiveMigrationToComplete \<Rightarrow> 5 | CleanupMigrationResources \<Rightarrow> 6
     | Completed \<Rightarrow> 7 | Canceling \<Rightarrow> 8 | CleanupCancelledMigrations \<Rightarrow> 9 | Canceled \<Rightarrow> 10 | _ \<Rightarrow> 0)"

lemma phase_step_rank: "phase_step d p q \<Longrightarrow> rank p < rank q"
  by (induction rule: phase_step.induct) (auto simp: rank_def split: Phase.splits)

lemma phase_steps_rank: "(phase_step d)\<^sup>*\<^sup>* p q \<Longrightarrow> rank p \<le> rank q \<and> (rank p = rank q \<longrightarrow> p = q)"
proof (induction rule: rtranclp_induct)
  case (step y z)
  then show ?case using phase_step_rank[OF step(2)] by auto
qed simp

lemma phase_step_cancelling:
  "phase_step d p q \<Longrightarrow> p \<in> {Canceling, CleanupCancelledMigrations, Canceled} \<Longrightarrow>
   q \<in> {Canceling, CleanupCancelledMigrations, Canceled}"
  by (auto elim: phase_stepE)

lemma phase_steps_cancelling:
  "(phase_step d)\<^sup>*\<^sup>* p q \<Longrightarrow> p \<in> {Canceling, CleanupCancelledMigrations, Canceled} \<Longrightarrow>
   q \<in> {Canceling, CleanupCancelledMigrations, Canceled}"
  by (induction rule: rtranclp_induct) (use phase_step_cancelling in blast)+

lemma phase_steps_final:
  "(phase_step d)\<^sup>*\<^sup>* p q \<Longrightarrow> p \<in> {Completed, Canceled} \<Longrightarrow> q = p"
  by (induction rule: rtranclp_induct) (auto simp: phase_step_final)

lemma phase_steps_undeleted:
  "(phase_step d)\<^sup>*\<^sup>* p q \<Longrightarrow> \<not> d \<Longrightarrow> p \<notin> {Canceling, CleanupCancelledMigrations, Canceled} \<Longrightarrow>
   q \<notin> {Canceling, CleanupCancelledMigrations, Canceled}"
proof (induction rule: rtranclp_induct)
  case (step y z)
  then show ?case by (auto elim: phase_stepE)
qed simp

section \<open>What \<open>Run\<close> does before the switch\<close>

definition blockedByPlan :: "Plan option \<Rightarrow> bool" where
  "blockedByPlan plan = (case plan of
       Some p \<Rightarrow> om_DeletionTimestamp (pl_Meta p) \<noteq> None \<and> HasFinalizer (pl_Meta p) PlanFinalizer
     | None \<Rightarrow> False)"

text \<open>The phase that a call of \<open>Run\<close> executes.\<close>

definition effectivePhase :: "Migration \<Rightarrow> Plan option \<Rightarrow> Phase" where
  "effectivePhase m plan =
     (let ph = (if ms_Phase (mg_Status m) = PhaseUnset then Started else ms_Phase (mg_Status m)) in
      if om_DeletionTimestamp (mg_Meta m) = None \<or> ph \<in> {Canceled, Completed, CleanupCancelledMigrations}
         \<or> blockedByPlan plan then ph else Canceling)"

definition enter :: "'w task \<Rightarrow> 'w task" where
  "enter s = s\<lparr>t_Requeue := NoReQ, t_Owner := (t_Owner s)\<lparr>mg_Status := (mg_Status (t_Owner s))\<lparr>ms_Phase :=
     effectivePhase (t_Owner s) (t_Plan s)\<rparr>\<rparr>\<rparr>"

lemmas owner_defs = onOwner_def onStatus_def setPhase_def setRequeue_def

lemma same_phase_update [simp]:
  "m\<lparr>mg_Status := (mg_Status m)\<lparr>ms_Phase := ms_Phase (mg_Status m)\<rparr>\<rparr> = (m :: Migration)"
  "s\<lparr>t_Owner := t_Owner s\<rparr> = (s :: 'w task)"
  by simp_all

lemma Run_enter: "Run cl s = runPhase cl (effectivePhase (t_Owner s) (t_Plan s)) (enter s)"
proof -
  let ?o = "t_Owner s"
  let ?ph = "if ms_Phase (mg_Status ?o) = PhaseUnset then Started else ms_Phase (mg_Status ?o)"
  let ?s1 = "s\<lparr>t_Requeue := NoReQ, t_Owner := ?o\<lparr>mg_Status := (mg_Status ?o)\<lparr>ms_Phase := ?ph\<rparr>\<rparr>\<rparr>"
  have i: "init (s\<lparr>t_Requeue := NoReQ\<rparr>) = (Ok (), ?s1)"
  proof (cases "ms_Phase (mg_Status ?o) = PhaseUnset")
    case True
    then show ?thesis by (simp add: init_def owner_defs run)
  next
    case False
    have "s\<lparr>t_Requeue := NoReQ\<rparr> = s\<lparr>t_Requeue := NoReQ, t_Owner := ?o\<rparr>" by (cases s) simp
    with False show ?thesis by (simp add: init_def run)
  qed
  have m: "maybeTransitionToCanceling ?s1 = (Ok (), enter s)"
    by (auto simp: maybeTransitionToCanceling_def owner_defs run enter_def effectivePhase_def blockedByPlan_def
        Let_def split: option.splits)
  have "Run cl s = bind (gets t_Phase) (runPhase cl) (enter s)"
    unfolding Run_def run_bind[of "setRequeue _"] run_bind[of init] run_bind[of maybeTransitionToCanceling]
    using i m by (simp add: setRequeue_def run)
  then show ?thesis by (simp add: run enter_def)
qed

lemma enter_steps:
  "(phase_step (om_DeletionTimestamp (mg_Meta (t_Owner s)) \<noteq> None))\<^sup>*\<^sup>* (t_Phase s) (t_Phase (enter s))"
proof -
  let ?d = "om_DeletionTimestamp (mg_Meta (t_Owner s)) \<noteq> None"
  let ?ph = "if t_Phase s = PhaseUnset then Started else t_Phase s"
  have a: "(phase_step ?d)\<^sup>*\<^sup>* (t_Phase s) ?ph" by (simp add: phase_step.start r_into_rtranclp)
  have "t_Phase (enter s) = ?ph \<or> phase_step ?d ?ph (t_Phase (enter s))"
    by (auto simp: enter_def effectivePhase_def Let_def intro: phase_step.cancel)
  with a show ?thesis using rtranclp.rtrancl_into_rtrancl[OF a] by auto
qed

lemma enter_sel [simp]:
  "t_Phase (enter s) = effectivePhase (t_Owner s) (t_Plan s)" "mg_Meta (t_Owner (enter s)) = mg_Meta (t_Owner s)"
  "t_Plan (enter s) = t_Plan s" "t_Completed (enter s) = t_Completed s" "t_Running (enter s) = t_Running s"
  "t_Cancelled (enter s) = t_Cancelled s" "trace (enter s) = trace s" "world (enter s) = world s"
  by (simp_all add: enter_def)

section \<open>Where a handler may leave the phase\<close>

definition into :: "Phase set \<Rightarrow> 'w task \<Rightarrow> 'w task \<Rightarrow> bool" where
  "into A s t \<longleftrightarrow> t_Phase t = t_Phase s \<or> t_Phase t \<in> A"

interpretation phases: task_steps "into A" "\<lambda>_. True" "\<lambda>_. True"
proof unfold_locales
  show "preorder_rel (into A)" by (rule preorder_relI) (auto simp: into_def)
qed (simp_all add: into_def)

lemma into_onStatus: "(\<And>st. ms_Phase (f st) = ms_Phase st) \<Longrightarrow> frame (into A) (onStatus f)"
  by (simp add: frame_def owner_defs run into_def)

lemma into_onOwner: "(\<And>m. mg_Status (f m) = mg_Status m) \<Longrightarrow> frame (into A) (onOwner f)"
  by (simp add: frame_def owner_defs run into_def)

lemma into_setPhase: "p \<in> A \<Longrightarrow> frame (into A) (setPhase p)"
  by (simp add: frame_def owner_defs run into_def)

lemma into_plan: "into A s (s\<lparr>t_Plan := p\<rparr>)"
  by (simp add: into_def)

lemmas into_intros = phases.steps phases.frame_VMIExists phases.frame_setRequeue into_onStatus into_onOwner
  into_setPhase into_plan

lemma finalizer_status [simp]:
  "mg_Status (Mig_RemoveFinalizer f m) = mg_Status m" "mg_Status (Mig_AddFinalizer f m) = mg_Status m"
  by (simp_all add: Mig_RemoveFinalizer_def Mig_AddFinalizer_def)

text \<open>The successor a handler may set.\<close>

fun successors :: "Phase \<Rightarrow> Phase set" where
  "successors Started = {RefreshStorageMigrationPlan}"
| "successors RefreshStorageMigrationPlan = {WaitForStorageMigrationPlanRefreshCompletion}"
| "successors WaitForStorageMigrationPlanRefreshCompletion = {BeginLiveMigration}"
| "successors BeginLiveMigration = {WaitForLiveMigrationToComplete}"
| "successors WaitForLiveMigrationToComplete = {CleanupMigrationResources}"
| "successors CleanupMigrationResources = {Completed}"
| "successors Canceling = {CleanupCancelledMigrations}"
| "successors CleanupCancelledMigrations = {Canceled}"
| "successors _ = {}"

lemma into_Begin: "frame (into {WaitForLiveMigrationToComplete}) (handleBeginLiveMigrationPhase cl)"
  unfolding handleBeginLiveMigrationPhase_def
  by (intro into_intros phases.frame_thePlan phases.frame_beginVM phases.frame_createTargetDVs)
    (simp_all add: appendRunning_def into_onStatus)

lemma into_Wait: "frame (into {CleanupMigrationResources}) (handleWaitForLiveMigrationToCompletePhase cl)"
  unfolding handleWaitForLiveMigrationToCompletePhase_def waitVM_def
  by (intro into_intros phases.frame_isOfflineMigrationCompleted phases.frame_isLiveMigrationCompleted
      phases.frame_getLastObservedProgressPercent) simp_all

lemma into_Cleanup: "frame (into {Completed}) (handleCleanupMigrationResourcesPhase cl)"
  unfolding handleCleanupMigrationResourcesPhase_def
  by (intro into_intros phases.frame_cleanupMigrationResources phases.frame_deleteSources
      phases.frame_deleteSource) simp_all

lemma into_Canceling: "frame (into {CleanupCancelledMigrations}) (handleCancelingPhase cl)"
  unfolding handleCancelingPhase_def cancelVM_def
  by (intro into_intros phases.frame_cancelLiveMigration phases.frame_isVMOnSourceVolumes
      phases.frame_hasActiveVMIM) simp_all

lemma into_CleanupCancelled: "frame (into {Canceled}) (handleCleanupCancelledMigrationsPhase cl)"
  unfolding handleCleanupCancelledMigrationsPhase_def
  by (intro into_intros phases.frame_cleanupCancelled) simp_all

lemma into_Canceled: "frame (into {}) (handleCanceledPhase cl)"
  unfolding handleCanceledPhase_def by (intro into_intros) simp_all

lemma into_runPhase: "frame (into (successors ph)) (runPhase cl ph)"
  unfolding runPhase_def
  by (cases ph)
    (simp_all, (intro into_intros phases.frame_refreshReadyVirtualMachines
      phases.frame_refreshCompletedVirtualMachines into_Begin into_Wait into_Cleanup into_Canceling
      into_CleanupCancelled into_Canceled; simp)+)

lemma successors_step: "q \<in> successors p \<Longrightarrow> phase_step d p q"
  by (cases p) (auto intro: phase_step.intros)


lemma runPhase_steps:
  "(phase_step d)\<^sup>*\<^sup>* (t_Phase s) (t_Phase (snd (runPhase cl (t_Phase s) s)))"
proof -
  have "into (successors (t_Phase s)) s (snd (runPhase cl (t_Phase s) s))"
    by (rule frameD2[OF into_runPhase])
  then show ?thesis by (auto simp: into_def intro: successors_step)
qed

lemma Run_steps:
  "(phase_step (om_DeletionTimestamp (mg_Meta (t_Owner s)) \<noteq> None))\<^sup>*\<^sup>* (t_Phase s) (t_Phase (snd (Run cl s)))"
proof -
  let ?d = "om_DeletionTimestamp (mg_Meta (t_Owner s)) \<noteq> None"
  have "(phase_step ?d)\<^sup>*\<^sup>* (t_Phase (enter s)) (t_Phase (snd (runPhase cl (t_Phase (enter s)) (enter s))))"
    by (rule runPhase_steps)
  with enter_steps[of s] show ?thesis by (simp add: Run_enter)
qed

text \<open>
  The phases a migration goes through over any number of reconciles.  Between two calls of
  \<open>Run\<close> everything but the phase may change: the plan, the lists, the deletion timestamp.
\<close>

inductive runs :: "'w client \<Rightarrow> Phase \<Rightarrow> Phase \<Rightarrow> bool" for cl where
  none: "runs cl p p"
| more: "runs cl p (t_Phase s) \<Longrightarrow> runs cl p (t_Phase (snd (Run cl s)))"

lemma runs_steps: "runs cl p q \<Longrightarrow> (\<lambda>p q. \<exists>d. phase_step d p q)\<^sup>*\<^sup>* p q"
proof (induction rule: runs.induct)
  case (more p s)
  have "(\<lambda>p q. \<exists>d. phase_step d p q)\<^sup>*\<^sup>* (t_Phase s) (t_Phase (snd (Run cl s)))"
    by (rule rtranclp_mono[THEN predicate2D, OF _ Run_steps]) auto
  with more show ?case by simp
qed simp

lemma steps_summary:
  "(\<lambda>p q. \<exists>d. phase_step d p q)\<^sup>*\<^sup>* p q \<Longrightarrow>
   rank p \<le> rank q \<and> (rank p = rank q \<longrightarrow> p = q)
   \<and> (p \<in> {Canceling, CleanupCancelledMigrations, Canceled} \<longrightarrow> q \<in> {Canceling, CleanupCancelledMigrations, Canceled})
   \<and> (p \<in> {Completed, Canceled} \<longrightarrow> q = p)
   \<and> (q \<noteq> p \<longrightarrow> q \<noteq> LiveMigrationFailed \<and> (\<forall>x. q \<noteq> PhaseOther x))"
proof (induction rule: rtranclp_induct)
  case (step y z)
  from step(2) obtain d where d: "phase_step d y z" by blast
  note r = phase_step_rank[OF d] and c = phase_step_cancelling[OF d]
  have "\<not> phase_step d Completed z" "\<not> phase_step d Canceled z" by (simp_all add: phase_step_final)
  moreover have "z \<noteq> LiveMigrationFailed \<and> (\<forall>x. z \<noteq> PhaseOther x)" using d by (auto elim: phase_stepE)
  ultimately show ?case using step(3) r c d by auto
qed simp

section \<open>Properties\<close>

text \<open>
  C11. Over any number of reconciles, with anything happening in between, a migration only moves
  forward: its phase has a rank that never decreases and determines the phase, a migration that
  has begun to cancel is never completed, completed and canceled are final, and the phase
  \<open>LiveMigrationFailed\<close> of the API is never entered.
\<close>

theorem phase_history_monotone:
  assumes "runs cl p q"
  shows "rank p \<le> rank q \<and> (rank p = rank q \<longrightarrow> p = q)
    \<and> (p \<in> {Canceling, CleanupCancelledMigrations, Canceled} \<longrightarrow> q \<in> {Canceling, CleanupCancelledMigrations, Canceled})
    \<and> (p \<in> {Completed, Canceled} \<longrightarrow> q = p)
    \<and> (q \<noteq> p \<longrightarrow> q \<noteq> LiveMigrationFailed \<and> (\<forall>x. q \<noteq> PhaseOther x))"
  by (rule steps_summary[OF runs_steps[OF assms]])

definition freshTask :: "unit task" where
  "freshTask = \<lparr>world = (), trace = [], t_Owner = emptyMigration, t_Plan = Some emptyPlan, t_Requeue = 0\<rparr>"

lemma freshTask_Run: "t_Phase (snd (Run cl freshTask)) = RefreshStorageMigrationPlan"
  by (simp add: Run_enter runPhase_def effectivePhase_def freshTask_def empty_defs Let_def run owner_defs
      enter_def)

theorem phase_history_monotone_witness:
  "runs (emptyClient :: unit client) PhaseUnset RefreshStorageMigrationPlan \<and> rank PhaseUnset \<le> rank RefreshStorageMigrationPlan"
proof -
  have "runs (emptyClient :: unit client) PhaseUnset (t_Phase freshTask)"
    by (simp add: freshTask_def empty_defs runs.none)
  then have "runs (emptyClient :: unit client) PhaseUnset RefreshStorageMigrationPlan"
    using runs.more[of emptyClient PhaseUnset freshTask] by (simp add: freshTask_Run)
  with phase_history_monotone[OF this] show ?thesis by simp
qed

end
