(* ===== verification/TaskSafety.thy ===== *)
theory TaskSafety
  imports TaskPhases
begin

text \<open>
  Safety of the migration task: which write requests a call of \<open>Run\<close> may send, when sources
  are deleted, when the finalizer goes, and what happens to the lists of VMs.
\<close>

section \<open>Admitted requests\<close>

text \<open>A source claim that the retention policy lets go.\<close>

definition disposable :: "Migration \<Rightarrow> Plan option \<Rightarrow> string \<Rightarrow> string \<Rightarrow> bool" where
  "disposable m plan ns n \<longleftrightarrow> (\<exists>p entry src. plan = Some p
     \<and> spec_RetentionPolicy (pl_Spec p) = Some RetentionPolicyDeleteSource
     \<and> entry \<in> set (st_CompletedMigrations (pl_Status p))
     \<and> pv_Name entry \<in> set (ms_CompletedMigrations (mg_Status m))
     \<and> src \<in> set (sv_SourcePVCs entry) \<and> sp_Namespace src = ns \<and> sp_Name src = n)"

text \<open>A DataVolume for a target of a ready or in-progress entry: empty, or a clone of one of its sources.\<close>

definition plannedDV :: "Migration \<Rightarrow> Plan option \<Rightarrow> DataVolume \<Rightarrow> bool" where
  "plannedDV m plan dv \<longleftrightarrow> dv_Namespace dv = om_Namespace (mg_Meta m)
     \<and> dv_Labels dv MigrationUIDLabel = Some (om_UID (mg_Meta m))
     \<and> (\<exists>p entry t. plan = Some p
          \<and> entry \<in> set (st_ReadyMigrations (pl_Status p) @ st_InProgressMigrations (pl_Status p))
          \<and> t \<in> set (pv_TargetMigrationPVCs entry)
          \<and> dp_Name (tp_DestinationPVC t) = Some (dv_Name dv)
          \<and> (dv_Source dv = Some SourceBlank \<or>
             (\<exists>src \<in> set (sv_SourcePVCs entry). dv_Source dv = Some (SourcePVC (om_Namespace (mg_Meta m)) (sp_Name src)))))"

fun admitted :: "'w client \<Rightarrow> Migration \<Rightarrow> Plan option \<Rightarrow> Phase \<Rightarrow> act \<Rightarrow> bool" where
  "admitted cl m plan ph (PatchPlan p p') = (ph = RefreshStorageMigrationPlan)"
| "admitted cl m plan ph (PatchVM v v') = (ph = BeginLiveMigration \<or> ph = Canceling)"
| "admitted cl m plan ph (CreateDV dv) = (ph = BeginLiveMigration \<and> plannedDV m plan dv)"
| "admitted cl m plan ph (DeletePod pod) =
     ((ph = CleanupMigrationResources \<or> ph = CleanupCancelledMigrations) \<and> pod_Phase pod = ''Succeeded'')"
| "admitted cl m plan ph (DeleteVMIM vmim) =
     ((ph = CleanupMigrationResources \<or> ph = CleanupCancelledMigrations) \<and> vmim_Phase vmim = MigrationSucceeded
      \<and> vmim_VMIName vmim \<in> set (ms_CompletedMigrations (mg_Status m)))"
| "admitted cl m plan ph (DeleteDV ns n) =
     (ph = CleanupMigrationResources \<and> disposable m plan ns n \<or>
      ph = CleanupCancelledMigrations \<and> (\<exists>dv. dv_Namespace dv = ns \<and> dv_Name dv = n
        \<and> cancelledTarget cl (om_Namespace (mg_Meta m)) plan (ms_CancelledMigrations (mg_Status m)) dv))"
| "admitted cl m plan ph (DeletePVC ns n) = (ph = CleanupMigrationResources \<and> disposable m plan ns n)"
| "admitted cl m plan ph _ = False"

lemma targetDV_sel [simp]:
  "dv_Name (targetDV m p d n sz l a src) = n" "dv_Namespace (targetDV m p d n sz l a src) = om_Namespace (mg_Meta m)"
  "dv_Labels (targetDV m p d n sz l a src) MigrationUIDLabel = Some (om_UID (mg_Meta m))"
  "dv_Source (targetDV m p d n sz l a src) = Some (case src of
      Some n \<Rightarrow> if n \<noteq> [] then SourcePVC (om_Namespace (mg_Meta m)) n else SourceBlank | None \<Rightarrow> SourceBlank)"
  by (simp_all add: targetDV_def)

text \<open>A body that stays in its context, followed by steps that send nothing.\<close>

lemma emits_tail:
  assumes "frame (within M p C P) m" "\<And>x. frame (emits P) (k x)" "inContext M p C s"
  shows "emits P s (snd (bind m k s))"
proof -
  obtain r t where m: "m s = (r, t)" by fastforce
  have st: "emits P s t" using frameD[OF assms(1) m] assms(3) by (simp add: within_def)
  show ?thesis
  proof (cases r)
    case (Ok x)
    have "emits P t (snd (k x t))" by (rule frameD2[OF assms(2)])
    with st have "emits P s (snd (k x t))" by (rule preorder_trans[OF emits_preorder])
    with Ok m show ?thesis by (simp add: run_bind)
  qed (use m st in \<open>simp_all add: run_bind\<close>)
qed

lemma emits_body: "frame (within M p C P) m \<Longrightarrow> inContext M p C s \<Longrightarrow> emits P s (snd (m s))"
  using frameD2[of "within M p C P" m s] by (simp add: within_def)

lemma emits_onOwner: "frame (emits P) (onOwner f)"
  by (simp add: frame_def owner_defs run emits_def)

lemma emits_onStatus: "frame (emits P) (onStatus f)"
  unfolding onStatus_def by (rule emits_onOwner)

lemma emits_setPhase: "frame (emits P) (setPhase p)"
  unfolding setPhase_def by (rule emits_onStatus)

lemmas emits_intros = emits_obs.steps emits_steps.frame_setRequeue emits_onOwner emits_onStatus emits_setPhase

lemma within_appendRunning: "frame (within M p C P) (appendRunning n)"
  by (simp add: frame_def appendRunning_def owner_defs run within_def inContext_def emits_def)

lemma completed_sources:
  "src \<in> set (getSourcePVCsForCompletedMigrations plan names) \<longleftrightarrow>
   (\<exists>entry \<in> set (st_CompletedMigrations (pl_Status plan)). pv_Name entry \<in> set names \<and> src \<in> set (sv_SourcePVCs entry))"
  by (auto simp: getSourcePVCsForCompletedMigrations_def)

lemma emits_Begin:
  fixes s :: "'w task"
  shows "emits (admitted cl (t_Owner s) (t_Plan s) BeginLiveMigration) s (snd (handleBeginLiveMigrationPhase cl s))"
proof -
  let ?P = "admitted cl (t_Owner s) (t_Plan s) BeginLiveMigration"
  let ?R = "within (mg_Meta (t_Owner s)) (t_Plan s) (t_Completed s) ?P"
  have planned: "?P (CreateDV (targetDV (t_Owner u) plan (tp_DestinationPVC pvc) name sz labels annotations src))"
    if "inContext (mg_Meta (t_Owner s)) (t_Plan s) (t_Completed s) u"
      "pvc \<in> set (pv_TargetMigrationPVCs entry)"
      "entry \<in> set (st_ReadyMigrations (pl_Status p) @ st_InProgressMigrations (pl_Status p))"
      "t_Plan v = Some p" "inContext (mg_Meta (t_Owner s)) (t_Plan s) (t_Completed s) v"
      "dp_Name (tp_DestinationPVC pvc) = Some name"
      "src = None \<or> (\<exists>source \<in> set (sv_SourcePVCs entry). src = Some (sp_Name source))"
    for u v :: "'w task" and plan p entry pvc name sz labels annotations src
  proof -
    have "dv_Source (targetDV (t_Owner u) plan (tp_DestinationPVC pvc) name sz labels annotations src) = Some SourceBlank
      \<or> (\<exists>source \<in> set (sv_SourcePVCs entry).
          dv_Source (targetDV (t_Owner u) plan (tp_DestinationPVC pvc) name sz labels annotations src)
          = Some (SourcePVC (om_Namespace (mg_Meta (t_Owner s))) (sp_Name source)))"
      using that(1,7) by (fastforce simp: inContext_def)
    moreover have "t_Plan s = Some p" "mg_Meta (t_Owner u) = mg_Meta (t_Owner s)"
      using that(1,4,5) by (auto simp: inContext_def)
    ultimately show ?thesis
      using that(2,3,6) unfolding admitted.simps plannedDV_def by auto
  qed
  have body: "frame ?R (bind thePlan (\<lambda>plan. foldE (\<lambda>planVM _. beginVM cl planVM)
      (st_ReadyMigrations (pl_Status plan) @ st_InProgressMigrations (pl_Status plan)) ()))"
    by (intro context_steps.frame_read_plan context_steps.steps context_steps.frame_beginVM
        context_steps.frame_createTargetDVs within_appendRunning)
      (simp, (rule planned, assumption, assumption, assumption, assumption, assumption, assumption, blast)+)
  have "handleBeginLiveMigrationPhase cl = bind (bind thePlan (\<lambda>plan. foldE (\<lambda>planVM _. beginVM cl planVM)
      (st_ReadyMigrations (pl_Status plan) @ st_InProgressMigrations (pl_Status plan)) ())) (\<lambda>_. setPhase WaitForLiveMigrationToComplete)"
    by (simp add: handleBeginLiveMigrationPhase_def bind_assoc)
  then show ?thesis
    using emits_tail[OF body, of "\<lambda>_. setPhase WaitForLiveMigrationToComplete" s]
    by (simp add: emits_setPhase inContext_def)
qed


text \<open>The cleanup phase as a body that keeps the migration object and a tail that finishes it.\<close>

definition cleanupBody :: "'w client \<Rightarrow> string list \<Rightarrow> ('w task, bool) go" where
  "cleanupBody cl completed = bind (cleanupMigrationResources cl completed) (\<lambda>allCleaned.
     if \<not> allCleaned then bind (setRequeue PollReQ) (\<lambda>_. ret False)
     else bind (bind (gets t_Plan) (\<lambda>plan.
       if (case plan of Some p \<Rightarrow> spec_RetentionPolicy (pl_Spec p) = Some RetentionPolicyDeleteSource | None \<Rightarrow> False)
       then deleteSourceDataVolumesAndPVCs cl completed else ret ())) (\<lambda>_. ret True))"

definition cleanupTail :: "bool \<Rightarrow> ('w task, unit) go" where
  "cleanupTail done = (if done then bind (onOwner (Mig_RemoveFinalizer MigrationFinalizer)) (\<lambda>_. setPhase Completed) else ret ())"

lemma cleanup_split:
  "handleCleanupMigrationResourcesPhase cl s = bind (cleanupBody cl (t_Completed s)) cleanupTail s"
  by (auto simp: handleCleanupMigrationResourcesPhase_def cleanupBody_def cleanupTail_def run_bind run_gets run_ret
      setRequeue_def run_modify split: prod.splits result.splits)

lemma emits_Refresh:
  "emits (admitted cl m p RefreshStorageMigrationPlan) s
     (snd (bind (refreshReadyVirtualMachines cl) (\<lambda>_. setPhase WaitForStorageMigrationPlanRefreshCompletion) s))"
  by (rule frameD2) (intro emits_intros emits_steps.frame_refreshReadyVirtualMachines, simp)

lemma emits_WaitRefresh:
  "emits P s (snd (bind (refreshCompletedVirtualMachines cl) (\<lambda>completed.
     if \<not> completed then setRequeue PollReQ else setPhase BeginLiveMigration) s))"
  by (rule frameD2) (intro emits_intros emits_steps.frame_refreshCompletedVirtualMachines)

lemma emits_Wait: "emits P s (snd (handleWaitForLiveMigrationToCompletePhase cl s))"
  unfolding handleWaitForLiveMigrationToCompletePhase_def waitVM_def
  by (rule frameD2) (intro emits_intros emits_obs.frame_VMIExists emits_steps.frame_isOfflineMigrationCompleted
      emits_steps.frame_isLiveMigrationCompleted emits_obs.frame_getLastObservedProgressPercent)

lemma emits_Canceling: "emits (admitted cl m p Canceling) s (snd (handleCancelingPhase cl s))"
  unfolding handleCancelingPhase_def cancelVM_def
  by (rule frameD2)
    (intro emits_intros emits_obs.frame_VMIExists emits_steps.frame_cancelLiveMigration
      emits_steps.frame_isVMOnSourceVolumes emits_steps.frame_hasActiveVMIM; simp add: emits_def)

lemma emits_Cleanup:
  fixes s :: "'w task"
  shows "emits (admitted cl (t_Owner s) (t_Plan s) CleanupMigrationResources) s
     (snd (handleCleanupMigrationResourcesPhase cl s))"
proof -
  let ?P = "admitted cl (t_Owner s) (t_Plan s) CleanupMigrationResources"
  let ?K = "inContext (mg_Meta (t_Owner s)) (t_Plan s) (t_Completed s)"
  let ?R = "within (mg_Meta (t_Owner s)) (t_Plan s) (t_Completed s) ?P"
  have vmim: "?P (DeleteVMIM v)"
    if "?K u" "vmim_Phase v = MigrationSucceeded" "vmim_VMIName v \<in> set (t_Completed u)" for u :: "'w task" and v
    using that by (simp add: inContext_def)
  have src: "frame ?R (deleteSource cl src)"
    if "?K u" "case t_Plan u of Some p \<Rightarrow> spec_RetentionPolicy (pl_Spec p) = Some RetentionPolicyDeleteSource | None \<Rightarrow> False"
      "?K v" "t_Plan v = Some p" "src \<in> set (getSourcePVCsForCompletedMigrations p (t_Completed s))"
    for u v :: "'w task" and p src
  proof -
    have p: "t_Plan s = Some p" "t_Plan u = Some p" using that(1,3,4) by (simp_all add: inContext_def)
    then have "disposable (t_Owner s) (t_Plan s) (sp_Namespace src) (sp_Name src)"
      using that(2,5) unfolding disposable_def completed_sources by auto
    then show ?thesis by (intro context_steps.frame_deleteSource) simp_all
  qed
  have body: "frame ?R (cleanupBody cl (t_Completed s))"
    unfolding cleanupBody_def
    by (intro context_steps.frame_read context_steps.steps context_steps.frame_cleanupMigrationResources
        context_steps.frame_setRequeue context_steps.frame_deleteSources)
      (simp, rule vmim, assumption+, rule src, assumption+)
  show ?thesis unfolding cleanup_split
    by (rule emits_tail[OF body]) (unfold cleanupTail_def, intro emits_intros, simp add: inContext_def)
qed

lemma emits_CleanupCancelled:
  fixes s :: "'w task"
  shows "emits (admitted cl (t_Owner s) (t_Plan s) CleanupCancelledMigrations) s
     (snd (handleCleanupCancelledMigrationsPhase cl s))"
proof -
  let ?P = "admitted cl (t_Owner s) (t_Plan s) CleanupCancelledMigrations"
  let ?K = "inContext (mg_Meta (t_Owner s)) (t_Plan s) (t_Completed s)"
  let ?R = "within (mg_Meta (t_Owner s)) (t_Plan s) (t_Completed s) ?P"
  have vmim: "?P (DeleteVMIM v)"
    if "?K u" "vmim_Phase v = MigrationSucceeded" "vmim_VMIName v \<in> set (t_Completed u)" for u :: "'w task" and v
    using that by (simp add: inContext_def)
  have dv: "?P (DeleteDV (dv_Namespace dv) (dv_Name dv))"
    if "?K u" "?K v" "cancelledTarget cl (t_Namespace u) (t_Plan v) (t_Cancelled s) dv" for u v :: "'w task" and dv
    using that by (auto simp: inContext_def)
  have body: "frame ?R (cleanupCancelledMigrationResources cl (t_Cancelled s) (t_Completed s))"
    by (rule context_steps.frame_cleanupCancelled) (simp, rule vmim, assumption+, rule dv)
  show ?thesis
    using emits_tail[OF body, of "\<lambda>allCleaned. if \<not> allCleaned then setRequeue PollReQ else setPhase Canceled" s]
    by (simp add: handleCleanupCancelledMigrationsPhase_def run_bind[of "gets _"] run_gets inContext_def
        emits_steps.frame_setRequeue emits_setPhase)
qed

lemma emits_Canceled: "emits P s (snd (handleCanceledPhase cl s))"
  unfolding handleCanceledPhase_def by (rule frameD2) (intro emits_intros)

lemma emits_runPhase:
  "emits (admitted cl (t_Owner s) (t_Plan s) ph) s (snd (runPhase cl ph s))"
proof -
  have "emits P s (snd (bind (onOwner f) (\<lambda>_. setPhase q) s))" "emits P s (snd (setRequeue d s))" for P f q d
    by (rule frameD2, intro emits_intros)+
  then show ?thesis
    unfolding runPhase_def
    by (cases ph)
      (simp_all add: emits_Refresh emits_WaitRefresh emits_Begin emits_Wait emits_Cleanup emits_Canceling
        emits_CleanupCancelled emits_Canceled)
qed


lemma admitted_enter: "admitted cl (t_Owner (enter s)) p ph a = admitted cl (t_Owner s) p ph a"
  by (cases a) (simp_all add: disposable_def plannedDV_def)

lemma emits_Run:
  "emits (admitted cl (t_Owner s) (t_Plan s) (effectivePhase (t_Owner s) (t_Plan s))) s (snd (Run cl s))"
proof -
  have "admitted cl (t_Owner (enter s)) p ph = admitted cl (t_Owner s) p ph" for p ph
    by (rule ext) (rule admitted_enter)
  with emits_runPhase[of cl "enter s" "t_Phase (enter s)"] show ?thesis
    by (simp add: Run_enter emits_def)
qed

section \<open>Handlers and status updates\<close>

text \<open>
  A relation that also tolerates writes to the status of the migration and to the plan copy:
  every handler stays within it, up to the finalizer and the deletion of sources.
\<close>

locale status_steps = task_steps R K P
  for R :: "'w task \<Rightarrow> 'w task \<Rightarrow> bool" and K P +
  assumes status_free: "R s (s\<lparr>t_Owner := (t_Owner s)\<lparr>mg_Status := st\<rparr>\<rparr>)"
    and plan_free: "R s (s\<lparr>t_Plan := p\<rparr>)"
begin

lemma frame_onStatus: "frame R (onStatus f)"
  unfolding onStatus_def onOwner_def by (rule frame_modify) (rule status_free)

lemma frame_setPhase: "frame R (setPhase p)"
  unfolding setPhase_def by (rule frame_onStatus)

lemma frame_appendRunning: "frame R (appendRunning n)"
  unfolding appendRunning_def by (rule frame_onStatus)

lemmas handler_steps = steps frame_onStatus frame_setPhase frame_appendRunning frame_setRequeue frame_VMIExists

lemma frame_cleanupBody:
  assumes "\<And>a. (\<forall>ns n. a \<noteq> DeletePVC ns n) \<Longrightarrow> P a" "\<And>src. frame R (deleteSource cl src)"
  shows "frame R (cleanupBody cl completed)"
  unfolding cleanupBody_def
  by (intro handler_steps frame_cleanupMigrationResources frame_deleteSources assms(2))
    (simp_all add: assms(1))

lemma frame_handlers:
  assumes "\<And>a. (\<forall>ns n. a \<noteq> DeletePVC ns n) \<Longrightarrow> P a"
  shows "frame R (handleBeginLiveMigrationPhase cl)" "frame R (handleWaitForLiveMigrationToCompletePhase cl)"
    "frame R (handleCancelingPhase cl)" "frame R (handleCleanupCancelledMigrationsPhase cl)"
proof -
  show "frame R (handleBeginLiveMigrationPhase cl)"
    unfolding handleBeginLiveMigrationPhase_def
    by (intro handler_steps frame_thePlan frame_beginVM frame_createTargetDVs) (simp_all add: assms)
  show "frame R (handleWaitForLiveMigrationToCompletePhase cl)"
    unfolding handleWaitForLiveMigrationToCompletePhase_def waitVM_def
    by (intro handler_steps frame_isOfflineMigrationCompleted frame_isLiveMigrationCompleted
        frame_getLastObservedProgressPercent)
  show "frame R (handleCancelingPhase cl)"
    unfolding handleCancelingPhase_def cancelVM_def
    by (intro handler_steps frame_cancelLiveMigration frame_isVMOnSourceVolumes frame_hasActiveVMIM plan_free)
      (simp_all add: assms)
  show "frame R (handleCleanupCancelledMigrationsPhase cl)"
    unfolding handleCleanupCancelledMigrationsPhase_def
    by (intro handler_steps frame_cleanupCancelled) (simp_all add: assms)
qed

lemma frame_runPhase:
  assumes "\<And>a. (\<forall>ns n. a \<noteq> DeletePVC ns n) \<Longrightarrow> P a"
    and "ph \<noteq> CleanupMigrationResources"
    and "ph = Started \<Longrightarrow> frame R (onOwner (Mig_AddFinalizer MigrationFinalizer))"
    and "ph = Canceled \<Longrightarrow> frame R (onOwner (Mig_RemoveFinalizer MigrationFinalizer))"
  shows "frame R (runPhase cl ph)"
  using assms(2) unfolding runPhase_def
  by (cases ph)
    (simp_all add: frame_handlers[OF assms(1)] handleCanceledPhase_def,
     (intro handler_steps frame_refreshReadyVirtualMachines frame_refreshCompletedVirtualMachines assms(3,4);
      simp add: assms(1))+)

end

text \<open>The metadata of the migration are left alone.\<close>

definition sameMeta :: "'w task \<Rightarrow> 'w task \<Rightarrow> bool" where
  "sameMeta s t \<longleftrightarrow> mg_Meta (t_Owner t) = mg_Meta (t_Owner s)"

interpretation meta: status_steps sameMeta "\<lambda>_. True" "\<lambda>_. True"
proof unfold_locales
  show "preorder_rel sameMeta" by (rule preorder_relI) (auto simp: sameMeta_def)
qed (simp_all add: sameMeta_def)

text \<open>A claim is deleted only right after its DataVolume was found missing.\<close>

definition dvFirst :: "(act \<times> goerr option) list \<Rightarrow> bool" where
  "dvFirst xs \<longleftrightarrow> (\<forall>i < length xs. \<forall>ns n e. xs ! i = (DeletePVC ns n, e) \<longrightarrow>
     0 < i \<and> (\<exists>e'. xs ! (i - 1) = (DeleteDV ns n, Some e') \<and> IsNotFound e'))"

definition ordered :: "'w task \<Rightarrow> 'w task \<Rightarrow> bool" where
  "ordered s t \<longleftrightarrow> (\<exists>new. trace t = trace s @ new \<and> dvFirst new)"

lemma dvFirst_append:
  assumes "dvFirst xs" "dvFirst ys"
  shows "dvFirst (xs @ ys)"
  unfolding dvFirst_def
proof (intro allI impI)
  fix i ns n e
  assume i: "i < length (xs @ ys)" "(xs @ ys) ! i = (DeletePVC ns n, e)"
  show "0 < i \<and> (\<exists>e'. (xs @ ys) ! (i - 1) = (DeleteDV ns n, Some e') \<and> IsNotFound e')"
  proof (cases "i < length xs")
    case True
    with i(2) have "0 < i \<and> (\<exists>e'. xs ! (i - 1) = (DeleteDV ns n, Some e') \<and> IsNotFound e')"
      using assms(1) by (simp add: dvFirst_def nth_append)
    moreover from True have "i - 1 < length xs" by simp
    ultimately show ?thesis by (simp add: nth_append)
  next
    case False
    with i have "ys ! (i - length xs) = (DeletePVC ns n, e)" "i - length xs < length ys"
      by (simp_all add: nth_append)
    then have "0 < i - length xs \<and> (\<exists>e'. ys ! (i - length xs - 1) = (DeleteDV ns n, Some e') \<and> IsNotFound e')"
      using assms(2) unfolding dvFirst_def by blast
    moreover from this have "\<not> i - 1 < length xs" "i - 1 - length xs = i - length xs - 1" by auto
    ultimately show ?thesis using False by (auto simp: nth_append)
  qed
qed

lemma dvFirst_single: "(\<And>ns n. a \<noteq> DeletePVC ns n) \<Longrightarrow> dvFirst [(a, e)]"
  by (simp add: dvFirst_def)

interpretation dv_steps: status_steps ordered "\<lambda>_. True" "\<lambda>a. \<forall>ns n. a \<noteq> DeletePVC ns n"
proof unfold_locales
  show "preorder_rel ordered"
  proof (rule preorder_relI)
    show "ordered s s" for s :: "'w task" by (simp add: ordered_def dvFirst_def)
    show "ordered s u" if "ordered s t" "ordered t u" for s t u :: "'w task"
      using that by (auto simp: ordered_def intro: dvFirst_append)
  qed
qed (auto simp: ordered_def dvFirst_def)

lemma ordered_deleteSource: "frame ordered (deleteSource cl src)"
  by (auto simp: frame_def deleteSource_def deleteIfPresent_def run ordered_def dvFirst_def less_Suc_eq
      split: prod.splits sum.splits)

lemma ordered_runPhase: "frame ordered (runPhase cl ph)"
proof (cases "ph = CleanupMigrationResources")
  case True
  have "frame ordered (cleanupBody cl c)" for c
    by (rule dv_steps.frame_cleanupBody) (simp_all add: ordered_deleteSource)
  moreover have "frame ordered (cleanupTail b)" for b
    by (simp add: cleanupTail_def frame_def run owner_defs ordered_def dvFirst_def)
  ultimately have "frame ordered (bind (cleanupBody cl c) cleanupTail)" for c
    by (intro frame_bind dv_steps.preorder)
  then have "ordered s (snd (handleCleanupMigrationResourcesPhase cl s))" for s
    unfolding cleanup_split by (rule frameD2)
  with True show ?thesis by (simp add: runPhase_def frame_def)
next
  case False
  show ?thesis
    by (rule dv_steps.frame_runPhase[OF _ False])
      (simp_all add: frame_def onOwner_def run ordered_def dvFirst_def)
qed


section \<open>Finalizer\<close>

lemma cleanup_keeps_meta:
  assumes "handleCleanupMigrationResourcesPhase cl s = (r, t)"
  shows "t_Phase t = Completed \<or> mg_Meta (t_Owner t) = mg_Meta (t_Owner s)"
proof -
  obtain q u where b: "cleanupBody cl (t_Completed s) s = (q, u)" by fastforce
  have "frame sameMeta (cleanupBody cl (t_Completed s))"
    by (rule meta.frame_cleanupBody) (simp_all add: meta.frame_deleteSource)
  from frameD[OF this b] have m: "mg_Meta (t_Owner u) = mg_Meta (t_Owner s)" by (simp add: sameMeta_def)
  with assms b show ?thesis
    by (cases q) (auto simp: cleanup_split run_bind cleanupTail_def owner_defs run split: if_splits)
qed

lemma runPhase_finalizer:
  assumes "HasFinalizer (mg_Meta (t_Owner s)) MigrationFinalizer" "t_Phase s = ph" "runPhase cl ph s = (r, t)"
  shows "HasFinalizer (mg_Meta (t_Owner t)) MigrationFinalizer \<or> t_Phase t \<in> {Completed, Canceled}"
proof (cases "ph \<in> {Started, CleanupMigrationResources, Canceled}")
  case True
  have "into (successors ph) s t" by (rule frameD[OF into_runPhase assms(3)])
  then have "ph = Canceled \<Longrightarrow> t_Phase t = Canceled" using assms(2) by (auto simp: into_def)
  moreover have ?thesis if "ph = Started"
    using assms that
    by (auto simp: runPhase_def owner_defs run Mig_AddFinalizer_def addFinalizer_def HasFinalizer_iff)
  moreover have ?thesis if "ph = CleanupMigrationResources"
    using cleanup_keeps_meta[of cl s r t] assms that by (auto simp: runPhase_def)
  ultimately show ?thesis using True by blast
next
  case False
  then have "frame sameMeta (runPhase cl ph)" by (intro meta.frame_runPhase) auto
  from frameD[OF this assms(3)] assms(1) show ?thesis by (simp add: sameMeta_def)
qed

section \<open>Properties\<close>

text \<open>
  C5. Every write request a call of \<open>Run\<close> sends is one its phase is entitled to: the plan is
  touched only to trigger a refresh; VMs are patched only when beginning or cancelling;
  DataVolumes are created only when beginning, in the namespace of the migration, under its
  label, for a target of a ready or in-progress entry, empty or cloned from a source of that
  entry; only succeeded pods and succeeded VMIMs of completed VMs are removed; DataVolumes and
  claims are deleted only as disposable sources or as targets of cancelled VMs; all other
  phases send nothing.
\<close>

theorem Run_requests_admitted:
  "emits (admitted cl (t_Owner s) (t_Plan s) (effectivePhase (t_Owner s) (t_Plan s))) s (snd (Run cl s))"
  by (rule emits_Run)

text \<open>
  C2. Neither a source claim nor its DataVolume is ever deleted against the retention policy.  If
  a call of \<open>Run\<close> sends a request to delete a claim or a DataVolume, then either the migration
  is in its cleanup phase, the plan asks for \<open>deleteSource\<close>, and the object is a recorded source
  of a VM that both the plan and the migration list as completed; or the migration is cleaning
  up after a cancellation and the object is the DataVolume the server returned for a target of a
  cancelled VM.  A claim is deleted in the first case only, and only when the request just before
  was the deletion of the DataVolume of the same name, answered with NotFound.
\<close>

theorem source_claims_deleted_by_policy_only:
  assumes "i < length new" "trace (snd (Run cl s)) = trace s @ new" "new ! i = (a, e)" "a = DeletePVC ns n \<or> a = DeleteDV ns n"
  shows "(effectivePhase (t_Owner s) (t_Plan s) = CleanupMigrationResources \<and> disposable (t_Owner s) (t_Plan s) ns n
     \<or> effectivePhase (t_Owner s) (t_Plan s) = CleanupCancelledMigrations \<and> a = DeleteDV ns n
       \<and> (\<exists>dv. dv_Namespace dv = ns \<and> dv_Name dv = n
            \<and> cancelledTarget cl (om_Namespace (mg_Meta (t_Owner s))) (t_Plan s) (t_Cancelled s) dv))
    \<and> (a = DeletePVC ns n \<longrightarrow> 0 < i \<and> (\<exists>e'. new ! (i - 1) = (DeleteDV ns n, Some e') \<and> IsNotFound e'))"
proof -
  have "(a, e) \<in> set new" using assms(1,3) by (metis nth_mem)
  then have "admitted cl (t_Owner s) (t_Plan s) (effectivePhase (t_Owner s) (t_Plan s)) a"
    using emits_Run[of cl s] assms(2) by (auto simp: emits_def list_all_iff)
  moreover have "ordered (enter s) (snd (Run cl s))"
    unfolding Run_enter by (rule frameD2[OF ordered_runPhase])
  then have "dvFirst new" using assms(2) by (auto simp: ordered_def)
  ultimately show ?thesis using assms(1,3,4) by (auto simp: dvFirst_def)
qed

text \<open>A migration of one VM about to be cleaned up, with the policy to delete its source.\<close>

definition cleanupTask :: "unit task" where
  "cleanupTask = \<lparr>world = (), trace = [],
     t_Owner = emptyMigration\<lparr>mg_Meta := emptyMeta\<lparr>om_Finalizers := [MigrationFinalizer]\<rparr>,
       mg_Status := emptyMigStatus\<lparr>ms_Phase := CleanupMigrationResources, ms_CompletedMigrations := [''vm'']\<rparr>\<rparr>,
     t_Plan = Some (emptyPlan\<lparr>
       pl_Spec := \<lparr>spec_VirtualMachines = [], spec_RetentionPolicy = Some RetentionPolicyDeleteSource\<rparr>,
       pl_Status := emptyPlanStatus\<lparr>st_CompletedMigrations := [sampleEntry]\<rparr>\<rparr>), t_Requeue = 0\<rparr>"

lemma cleanupTask_effective: "effectivePhase (t_Owner cleanupTask) (t_Plan cleanupTask) = CleanupMigrationResources"
  by (simp add: effectivePhase_def cleanupTask_def empty_defs Let_def)

lemma cleanupTask_Run:
  "trace (snd (Run emptyClient cleanupTask)) = trace cleanupTask @
     [(DeleteDV ''ns'' ''root'', Some (NotFoundErr ''not found'')), (DeletePVC ''ns'' ''root'', Some (NotFoundErr ''not found''))]
   \<and> om_Finalizers (mg_Meta (t_Owner (snd (Run emptyClient cleanupTask)))) = []
   \<and> t_Phase (snd (Run emptyClient cleanupTask)) = Completed"
  unfolding Run_enter cleanupTask_effective
  by (simp add: runPhase_def handleCleanupMigrationResourcesPhase_def cleanupMigrationResources_def
      cleanupCompletedPods_def cleanupCompletedVMIMs_def deleteSourceDataVolumesAndPVCs_def deleteSource_def
      deleteIfPresent_def getSourcePVCsForCompletedMigrations_def run emptyClient_def owner_defs
      enter_def cleanupTask_def cleanupTask_effective empty_defs sampleEntry_def sampleSource_def Let_def
      Mig_RemoveFinalizer_def removeFinalizer_def)

theorem source_claims_deleted_by_policy_only_witness:
  "disposable (t_Owner cleanupTask) (t_Plan cleanupTask) ''ns'' ''root''
   \<and> fst (trace (snd (Run emptyClient cleanupTask)) ! 0) = DeleteDV ''ns'' ''root''"
proof -
  have "trace cleanupTask = []" by (simp add: cleanupTask_def)
  then show ?thesis
    using source_claims_deleted_by_policy_only[OF _ conjunct1[OF cleanupTask_Run], of 0 "DeleteDV ''ns'' ''root''" _ "''ns''" "''root''"]
      cleanupTask_Run by (simp add: cleanupTask_effective)
qed

text \<open>
  C14. The migration keeps its finalizer until it is over: a call of \<open>Run\<close> that leaves the
  migration without the finalizer it had leaves it completed or canceled.
\<close>

theorem finalizer_kept_until_over:
  assumes "HasFinalizer (mg_Meta (t_Owner s)) MigrationFinalizer"
    and "\<not> HasFinalizer (mg_Meta (t_Owner (snd (Run cl s)))) MigrationFinalizer"
  shows "t_Phase (snd (Run cl s)) \<in> {Completed, Canceled}"
proof -
  obtain r t where rt: "runPhase cl (t_Phase (enter s)) (enter s) = (r, t)" by fastforce
  then have "snd (Run cl s) = t" by (simp add: Run_enter)
  with runPhase_finalizer[OF _ refl rt] assms show ?thesis by simp
qed


theorem finalizer_kept_until_over_witness:
  "HasFinalizer (mg_Meta (t_Owner cleanupTask)) MigrationFinalizer
   \<and> t_Phase (snd (Run emptyClient cleanupTask)) \<in> {Completed, Canceled}"
proof -
  have "HasFinalizer (mg_Meta (t_Owner cleanupTask)) MigrationFinalizer"
    by (simp add: cleanupTask_def HasFinalizer_def)
  moreover have "\<not> HasFinalizer (mg_Meta (t_Owner (snd (Run emptyClient cleanupTask)))) MigrationFinalizer"
    using cleanupTask_Run by (simp add: HasFinalizer_def)
  ultimately show ?thesis using finalizer_kept_until_over by blast
qed

end
