(* ===== verification/TaskProgress.thy ===== *)
theory TaskProgress
  imports TaskSafety
begin

text \<open>
  A migration comes to an end.  The locale \<open>draining\<close> is a machine whose every visible change
  uses up a finite supply: any history of it has boundedly many changes, and a history without
  idle steps uses the supply up.  It is interpreted on \<open>Run\<close>, observed through the phase,
  with the number of phase changes still possible as the supply.  The second half shows that a
  call of \<open>Run\<close> outside the end phases which changes nothing has failed or asks to be called
  again, so that only failures and waiting can keep a migration from its end.
\<close>

section \<open>Machines with a finite supply of changes\<close>

text \<open>
  A history: the states a step is applied to, one after the other.  Only the observed part
  carries over from one step to the next; the rest of the state may change in between.
\<close>

fun history :: "('s \<Rightarrow> 's) \<Rightarrow> ('s \<Rightarrow> 'p) \<Rightarrow> 'p \<Rightarrow> 's list \<Rightarrow> bool" where
  "history step obs p [] \<longleftrightarrow> True"
| "history step obs p (s # ss) \<longleftrightarrow> obs s = p \<and> history step obs (obs (step s)) ss"

fun reached :: "('s \<Rightarrow> 's) \<Rightarrow> ('s \<Rightarrow> 'p) \<Rightarrow> 'p \<Rightarrow> 's list \<Rightarrow> 'p" where
  "reached step obs p [] = p"
| "reached step obs p (s # ss) = reached step obs (obs (step s)) ss"

lemma length_filter_mono: "(\<And>x. P x \<Longrightarrow> Q x) \<Longrightarrow> length (filter P xs) \<le> length (filter Q xs)"
  by (induction xs) auto

locale draining =
  fixes step :: "'s \<Rightarrow> 's" and obs :: "'s \<Rightarrow> 'p" and stock :: "'p \<Rightarrow> nat"
  assumes drains: "obs (step s) \<noteq> obs s \<Longrightarrow> stock (obs (step s)) < stock (obs s)"
begin

lemma stock_mono: "stock (obs (step s)) \<le> stock (obs s)"
  using drains[of s] by (cases "obs (step s) = obs s") auto

lemma changes_bounded:
  "history step obs p ss \<Longrightarrow>
   length (filter (\<lambda>s. obs (step s) \<noteq> obs s) ss) + stock (reached step obs p ss) \<le> stock p"
proof (induction ss arbitrary: p)
  case (Cons s ss)
  then have "length (filter (\<lambda>s. obs (step s) \<noteq> obs s) ss) + stock (reached step obs p (s # ss)) \<le> stock (obs (step s))"
    by simp
  moreover have "obs s = p" using Cons.prems by simp
  ultimately show ?case using drains[of s] by (cases "obs (step s) = obs s") auto
qed simp

text \<open>When only the phases of \<open>E\<close> are idle, a long enough history ends in \<open>E\<close>.\<close>

lemma drained:
  assumes stays: "\<And>s. obs s \<in> E \<Longrightarrow> obs (step s) \<in> E"
    and used: "\<And>p. p \<in> D \<Longrightarrow> stock p = 0 \<Longrightarrow> p \<in> E"
    and closed: "\<And>s. obs s \<in> D \<Longrightarrow> obs (step s) \<in> D"
  shows "history step obs p ss \<Longrightarrow> p \<in> D \<Longrightarrow>
    (\<forall>s\<in>set ss. obs s \<in> D \<longrightarrow> obs s \<in> E \<or> obs (step s) \<noteq> obs s) \<Longrightarrow> p \<in> E \<or> stock p \<le> length ss \<Longrightarrow>
    reached step obs p ss \<in> E"
proof (induction ss arbitrary: p)
  case Nil
  then show ?case using used by auto
next
  case (Cons s ss)
  then have s: "obs s = p" and ss: "history step obs (obs (step s)) ss" by simp_all
  have "obs (step s) \<in> E \<or> stock (obs (step s)) \<le> length ss"
    using Cons.prems(2-4) s stays[of s] drains[of s] by fastforce
  with Cons.IH[OF ss] closed[of s] Cons.prems(2,3) s show ?case by simp
qed

end

section \<open>The supply of a migration\<close>

text \<open>
  How often the phase can still change.  A migration that is not deleted walks down the six
  working phases; the cancellation adds three changes at any point of the walk.
\<close>

fun movesLeft :: "Phase \<Rightarrow> nat" where
  "movesLeft PhaseUnset = 8"
| "movesLeft Started = 8"
| "movesLeft RefreshStorageMigrationPlan = 7"
| "movesLeft WaitForStorageMigrationPlanRefreshCompletion = 6"
| "movesLeft BeginLiveMigration = 5"
| "movesLeft WaitForLiveMigrationToComplete = 4"
| "movesLeft CleanupMigrationResources = 3"
| "movesLeft Canceling = 2"
| "movesLeft CleanupCancelledMigrations = 1"
| "movesLeft Completed = 0"
| "movesLeft Canceled = 0"
| "movesLeft LiveMigrationFailed = 3"
| "movesLeft (PhaseOther _) = 3"

lemma movesLeft_le: "movesLeft p \<le> 8"
  by (cases p) simp_all

lemma successors_movesLeft: "q \<in> successors p \<Longrightarrow> movesLeft q < movesLeft p"
  by (cases p) simp_all

lemma effectivePhase_cases:
  "effectivePhase m plan = Canceling \<and> ms_Phase (mg_Status m) \<notin> {Canceled, Completed, CleanupCancelledMigrations}
   \<or> effectivePhase m plan = (if ms_Phase (mg_Status m) = PhaseUnset then Started else ms_Phase (mg_Status m))"
  by (auto simp: effectivePhase_def Let_def)

lemma cancel_movesLeft:
  "p \<notin> {Canceled, Completed, CleanupCancelledMigrations, Canceling} \<Longrightarrow> movesLeft Canceling < movesLeft p"
  by (cases p) simp_all

lemma Run_phase_cases:
  "t_Phase (snd (Run cl s)) = effectivePhase (t_Owner s) (t_Plan s)
   \<or> t_Phase (snd (Run cl s)) \<in> successors (effectivePhase (t_Owner s) (t_Plan s))"
  using frameD2[OF into_runPhase[of "effectivePhase (t_Owner s) (t_Plan s)" cl], of "enter s"]
  by (simp add: Run_enter into_def)

lemma Run_from_Started:
  "effectivePhase (t_Owner s) (t_Plan s) = Started \<Longrightarrow> t_Phase (snd (Run cl s)) = RefreshStorageMigrationPlan"
  by (simp add: Run_enter runPhase_def owner_defs run)

lemma Run_drains:
  assumes "t_Phase (snd (Run cl s)) \<noteq> t_Phase s"
  shows "movesLeft (t_Phase (snd (Run cl s))) < movesLeft (t_Phase s)"
proof -
  let ?e = "effectivePhase (t_Owner s) (t_Plan s)" and ?q = "t_Phase (snd (Run cl s))"
  have q: "?q = ?e \<or> movesLeft ?q < movesLeft ?e"
    using Run_phase_cases[of cl s] successors_movesLeft by blast
  consider "?e = Canceling" "t_Phase s \<notin> {Canceled, Completed, CleanupCancelledMigrations}"
    | "t_Phase s = PhaseUnset" "?e = Started" | "?e = t_Phase s"
    using effectivePhase_cases[of "t_Owner s" "t_Plan s"] by (auto split: if_splits)
  then show ?thesis
  proof cases
    case 1
    then show ?thesis using q assms cancel_movesLeft[of "t_Phase s"] by (cases "t_Phase s = Canceling") auto
  next
    case 2
    then show ?thesis using Run_from_Started[of s cl] by simp
  next
    case 3
    with q assms show ?thesis by auto
  qed
qed

interpretation migrating: draining "\<lambda>s. snd (Run cl s)" t_Phase movesLeft
  by unfold_locales (rule Run_drains)

section \<open>No silent standstill\<close>

text \<open>\<open>settles A m\<close>: where \<open>m\<close> succeeds, it has entered a phase of \<open>A\<close> or asks to be called again.\<close>

definition settles :: "Phase set \<Rightarrow> ('w task, 'a) go \<Rightarrow> bool" where
  "settles A m \<longleftrightarrow> (\<forall>s. wp m (\<lambda>r t. \<forall>x. r = Ok x \<longrightarrow> t_Phase t \<in> A \<or> t_Requeue t = PollReQ) s)"

lemma settles_bind:
  assumes "\<And>x. settles A (f x)"
  shows "settles A (bind m f)"
  unfolding settles_def wp_bind
proof (intro allI wpI)
  fix s r t
  show "next_wp (\<lambda>x. wp (f x) (\<lambda>r t. \<forall>x. r = Ok x \<longrightarrow> t_Phase t \<in> A \<or> t_Requeue t = PollReQ))
     (\<lambda>r t. \<forall>x. r = Ok x \<longrightarrow> t_Phase t \<in> A \<or> t_Requeue t = PollReQ) r t"
    using assms by (cases r) (simp_all add: settles_def)
qed

lemma settles_setPhase: "p \<in> A \<Longrightarrow> settles A (setPhase p)"
  by (simp add: settles_def owner_defs wp)

lemma settles_requeue: "settles A (setRequeue PollReQ)"
  by (simp add: settles_def owner_defs wp)

lemma settles_if: "settles A m \<Longrightarrow> settles A n \<Longrightarrow> settles A (if b then m else n)"
  by simp

lemma settles_prod: "(\<And>x y. settles A (f x y)) \<Longrightarrow> settles A (case v of (x, y) \<Rightarrow> f x y)"
  by (cases v) simp

lemmas settles_intros = settles_bind settles_setPhase settles_requeue settles_if settles_prod

text \<open>The phases that the switch of \<open>Run\<close> knows, and those in which it has nothing left to do.\<close>

fun ofMachine :: "Phase \<Rightarrow> bool" where
  "ofMachine LiveMigrationFailed = False"
| "ofMachine (PhaseOther _) = False"
| "ofMachine _ = True"

definition atRest :: "Phase \<Rightarrow> bool" where
  "atRest p \<longleftrightarrow> p \<in> {Completed, Canceled} \<or> \<not> ofMachine p"

lemma settles_runPhase:
  assumes "\<not> atRest ph" "ph \<noteq> PhaseUnset"
  shows "settles (successors ph) (runPhase cl ph)"
  using assms unfolding runPhase_def
  by (cases ph) (auto simp: atRest_def handleBeginLiveMigrationPhase_def handleWaitForLiveMigrationToCompletePhase_def
      handleCleanupMigrationResourcesPhase_def handleCleanupCancelledMigrationsPhase_def handleCancelingPhase_def
      intro!: settles_intros)

lemma effectivePhase_working:
  "\<not> atRest (ms_Phase (mg_Status m)) \<Longrightarrow> \<not> atRest (effectivePhase m plan) \<and> effectivePhase m plan \<noteq> PhaseUnset"
  using effectivePhase_cases[of m plan] by (auto simp: atRest_def split: if_splits)

lemma Run_settles:
  assumes "Run cl s = (Ok (), t)" "\<not> atRest (t_Phase s)"
  shows "t_Phase t \<noteq> t_Phase s \<or> t_Requeue t = PollReQ"
proof -
  let ?e = "effectivePhase (t_Owner s) (t_Plan s)"
  have "settles (successors ?e) (runPhase cl ?e)"
    using effectivePhase_working[OF assms(2)] by (blast intro: settles_runPhase)
  then have "t_Phase t \<in> successors ?e \<or> t_Requeue t = PollReQ"
    using assms(1) by (auto simp: settles_def Run_enter dest!: spec[of _ "enter s"] wp_run)
  moreover have "movesLeft ?e \<le> movesLeft (t_Phase s)"
    using effectivePhase_cases[of "t_Owner s" "t_Plan s"] cancel_movesLeft[of "t_Phase s"]
    by (cases "t_Phase s = Canceling") (auto split: if_splits)
  ultimately show ?thesis using successors_movesLeft[of "t_Phase t" ?e] by auto
qed

lemma ofMachine_closed: "ofMachine (t_Phase s) \<Longrightarrow> ofMachine (t_Phase (snd (Run cl s)))"
  using Run_phase_cases[of cl s] effectivePhase_cases[of "t_Owner s" "t_Plan s"]
  by (cases "effectivePhase (t_Owner s) (t_Plan s)") (auto split: if_splits)

lemma ended_closed: "t_Phase s \<in> {Completed, Canceled} \<Longrightarrow> t_Phase (snd (Run cl s)) \<in> {Completed, Canceled}"
  using Run_phase_cases[of cl s] effectivePhase_cases[of "t_Owner s" "t_Plan s"] by auto

lemma drained_ended: "ofMachine p \<Longrightarrow> movesLeft p = 0 \<Longrightarrow> p \<in> {Completed, Canceled}"
  by (cases p) auto

section \<open>One call\<close>

text \<open>\<open>stays m\<close>: where \<open>m\<close> fails, the phase is as before.\<close>

definition stays :: "('w task, 'a) go \<Rightarrow> bool" where
  "stays m \<longleftrightarrow> (\<forall>s r t. m s = (r, t) \<longrightarrow> (\<forall>x. r \<noteq> Ok x) \<longrightarrow> t_Phase t = t_Phase s)"



















section \<open>Properties\<close>


text \<open>
  C13. The phase of a migration changes at most eight times over any number of reconciles, whatever
  happens to the cluster, the plan and the migration in between.  All calls of \<open>Run\<close> beyond
  that find the migration at rest, fail, or ask to be called again after the poll interval: the
  controller cannot spin.
\<close>

theorem phase_changes_bounded:
  assumes "history (\<lambda>s. snd (Run cl s)) t_Phase p ss"
  shows "length (filter (\<lambda>s. t_Phase (snd (Run cl s)) \<noteq> t_Phase s) ss) \<le> movesLeft p
    \<and> length (filter (\<lambda>s. \<not> atRest (t_Phase s) \<and> fst (Run cl s) = Ok ()
          \<and> t_Requeue (snd (Run cl s)) \<noteq> PollReQ) ss) \<le> movesLeft p
    \<and> movesLeft p \<le> 8"
proof (intro conjI movesLeft_le)
  let ?moves = "\<lambda>s. t_Phase (snd (Run cl s)) \<noteq> t_Phase s"
  let ?quiet = "\<lambda>s. \<not> atRest (t_Phase s) \<and> fst (Run cl s) = Ok () \<and> t_Requeue (snd (Run cl s)) \<noteq> PollReQ"
  show bound: "length (filter ?moves ss) \<le> movesLeft p"
    using migrating.changes_bounded[OF assms] by simp
  have "?moves s" if "?quiet s" for s
    using Run_settles[of cl s "snd (Run cl s)"] that by (auto simp: prod_eq_iff)
  then have "length (filter ?quiet ss) \<le> length (filter ?moves ss)" by (rule length_filter_mono)
  with bound show "length (filter ?quiet ss) \<le> movesLeft p" by simp
qed

theorem phase_changes_bounded_witness:
  "history (\<lambda>s. snd (Run (emptyClient :: unit client) s)) t_Phase PhaseUnset [freshTask]
   \<and> length (filter (\<lambda>s. t_Phase (snd (Run emptyClient s)) \<noteq> t_Phase s) [freshTask]) = 1
   \<and> movesLeft PhaseUnset \<le> 8"
proof -
  have h: "history (\<lambda>s. snd (Run (emptyClient :: unit client) s)) t_Phase PhaseUnset [freshTask]"
    by (simp add: freshTask_def empty_defs)
  have "t_Phase freshTask = PhaseUnset" by (simp add: freshTask_def empty_defs)
  with h phase_changes_bounded[OF h] show ?thesis by (simp add: freshTask_Run)
qed

text \<open>
  C12. A migration comes to its end: when the phase is one of the state machine, no call of
  \<open>Run\<close> fails and no call has to wait (it asks to be called again only after it has changed
  the phase), as many calls as there are phase changes left lead to \<open>Completed\<close> or
  \<open>Canceled\<close>; a new migration needs at most eight.
\<close>

theorem migration_ends:
  assumes "history (\<lambda>s. snd (Run cl s)) t_Phase p ss" "ofMachine p" "movesLeft p \<le> length ss"
    and "\<forall>s\<in>set ss. fst (Run cl s) = Ok () \<and>
      (t_Requeue (snd (Run cl s)) = PollReQ \<longrightarrow> t_Phase (snd (Run cl s)) \<noteq> t_Phase s)"
  shows "reached (\<lambda>s. snd (Run cl s)) t_Phase p ss \<in> {Completed, Canceled}"
proof (rule migrating.drained[where E = "{Completed, Canceled}" and D = "Collect ofMachine"])
  show "history (\<lambda>s. snd (Run cl s)) t_Phase p ss" by fact
  show "\<forall>s\<in>set ss. t_Phase s \<in> Collect ofMachine \<longrightarrow>
    t_Phase s \<in> {Completed, Canceled} \<or> t_Phase (snd (Run cl s)) \<noteq> t_Phase s"
  proof (intro ballI impI)
    fix s
    assume s: "s \<in> set ss" and w: "t_Phase s \<in> Collect ofMachine"
    from s assms(4) have "Run cl s = (Ok (), snd (Run cl s))" by (simp add: prod_eq_iff)
    from Run_settles[OF this] s w assms(4) show "t_Phase s \<in> {Completed, Canceled} \<or> t_Phase (snd (Run cl s)) \<noteq> t_Phase s"
      unfolding atRest_def by blast
  qed
qed (use assms(2,3) in \<open>simp_all add: ended_closed[simplified] ofMachine_closed drained_ended[simplified]\<close>)

text \<open>The life of a migration of a plan without VMs, on a server that has the refreshed plan.\<close>

definition refreshedPlan :: Plan where
  "refreshedPlan = emptyPlan\<lparr>pl_Meta := emptyMeta\<lparr>om_Annotations :=
     [RefreshStartTimeAnnotation \<mapsto> ''I'', RefreshEndTimeAnnotation \<mapsto> ''II'']\<rparr>\<rparr>"

definition planClient :: "unit client" where
  "planClient = emptyClient\<lparr>c_GetPlan := \<lambda>ns n. yields refreshedPlan\<rparr>"

definition taskIn :: "Phase \<Rightarrow> unit task" where
  "taskIn ph = \<lparr>world = (), trace = [], t_Owner = emptyMigration
     \<lparr>mg_PlanRef := Some \<lparr>ref_Namespace = ''ns'', ref_Name = ''plan'', ref_UID = []\<rparr>,
      mg_Status := emptyMigStatus\<lparr>ms_Phase := ph\<rparr>\<rparr>,
     t_Plan = Some refreshedPlan, t_Requeue = 0\<rparr>"

lemmas life_defs = Run_enter runPhase_def effectivePhase_def Let_def run owner_defs enter_def
  taskIn_def planClient_def emptyClient_def refreshedPlan_def empty_defs

lemma life:
  "fst (Run planClient (taskIn PhaseUnset)) = Ok ()"
  "t_Phase (snd (Run planClient (taskIn PhaseUnset))) = RefreshStorageMigrationPlan"
  "fst (Run planClient (taskIn RefreshStorageMigrationPlan)) = Ok ()"
  "t_Phase (snd (Run planClient (taskIn RefreshStorageMigrationPlan))) = WaitForStorageMigrationPlanRefreshCompletion"
  "fst (Run planClient (taskIn WaitForStorageMigrationPlanRefreshCompletion)) = Ok ()"
  "t_Phase (snd (Run planClient (taskIn WaitForStorageMigrationPlanRefreshCompletion))) = BeginLiveMigration"
  "fst (Run planClient (taskIn BeginLiveMigration)) = Ok ()"
  "t_Phase (snd (Run planClient (taskIn BeginLiveMigration))) = WaitForLiveMigrationToComplete"
  "fst (Run planClient (taskIn WaitForLiveMigrationToComplete)) = Ok ()"
  "t_Phase (snd (Run planClient (taskIn WaitForLiveMigrationToComplete))) = CleanupMigrationResources"
  "fst (Run planClient (taskIn CleanupMigrationResources)) = Ok ()"
  "t_Phase (snd (Run planClient (taskIn CleanupMigrationResources))) = Completed"
  "fst (Run planClient (taskIn Completed)) = Ok ()"
  "t_Phase (snd (Run planClient (taskIn Completed))) = Completed"
  "t_Requeue (snd (Run planClient (taskIn Completed))) = NoReQ"
  by (simp_all add: life_defs refreshReadyVirtualMachines_def refreshCompletedVirtualMachines_def
      GetStorageMigrationPlan_def liftSum_def deref_def handleBeginLiveMigrationPhase_def thePlan_def
      handleWaitForLiveMigrationToCompletePhase_def handleCleanupMigrationResourcesPhase_def
      cleanupMigrationResources_def cleanupCompletedPods_def cleanupCompletedVMIMs_def)

lemma taskIn_phase [simp]: "t_Phase (taskIn ph) = ph"
  by (simp add: taskIn_def)


theorem migration_ends_witness:
  "reached (\<lambda>s. snd (Run planClient s)) t_Phase PhaseUnset
     (map taskIn [PhaseUnset, RefreshStorageMigrationPlan, WaitForStorageMigrationPlanRefreshCompletion,
        BeginLiveMigration, WaitForLiveMigrationToComplete, CleanupMigrationResources, Completed, Completed])
   \<in> {Completed, Canceled}"
  by (rule migration_ends) (simp_all add: life)

end
