(* ===== verification/PlanValidation.thy ===== *)
theory PlanValidation
  imports Helpers
begin

text \<open>
  Validation of a VirtualMachineStorageMigrationPlan
  (\<open>src/internal/controller/storagemigplan/validation.go\<close>): is KubeVirt able to migrate
  storage, what are the source and target claims of every VM of the plan, are the targets
  usable.  The plan under validation is a component of the state, because a validation that
  ends with an error leaves the plan half rewritten and the reconciler goes on with it.
\<close>

section \<open>The plan under validation\<close>

record 'w planning = "'w sys" +
  r_Plan :: Plan

abbreviation StorageMigrationNotPossibleType :: string where
  "StorageMigrationNotPossibleType \<equiv> ''StorageMigrationNotPossible''"
abbreviation InvalidPVCsType :: string where "InvalidPVCsType \<equiv> ''InvalidPVCs''"
abbreviation FilesystemPVCsWithoutKubeVirtContentTypeType :: string where
  "FilesystemPVCsWithoutKubeVirtContentTypeType \<equiv> ''FilesystemPVCsWithoutKubeVirtContentType''"
abbreviation NotAllVirtualMachinesReadyReason :: string where
  "NotAllVirtualMachinesReadyReason \<equiv> ''NotAllVirtualMachinesReady''"

definition onPlan :: "(Plan \<Rightarrow> Plan) \<Rightarrow> ('w planning, unit) go" where
  "onPlan f = modify (\<lambda>s. s\<lparr>r_Plan := f (r_Plan s)\<rparr>)"

definition onPlanStatus :: "(PlanStatus \<Rightarrow> PlanStatus) \<Rightarrow> ('w planning, unit) go" where
  "onPlanStatus f = onPlan (\<lambda>p. p\<lparr>pl_Status := f (pl_Status p)\<rparr>)"

definition onConditions :: "(Condition list \<Rightarrow> Condition list) \<Rightarrow> ('w planning, unit) go" where
  "onConditions f = onPlanStatus (\<lambda>st. st\<lparr>st_Conditions := f (st_Conditions st)\<rparr>)"

definition setCond :: "'w client \<Rightarrow> Condition \<Rightarrow> ('w planning, unit) go" where
  "setCond cl c = bind (draw (c_Now cl)) (\<lambda>now. onConditions (SetCondition now c))"

definition delCond :: "string \<Rightarrow> ('w planning, unit) go" where
  "delCond t = onConditions (DeleteCondition [t])"

section \<open>The KubeVirt installation\<close>

definition parseKubeVirtOperatorSemver :: "string \<Rightarrow> (int \<times> int \<times> int) result" where
  "parseKubeVirtOperatorSemver operatorVersion =
     (let tokens = Split operatorVersion CHR ''.'' in
      if length tokens < 3 then Err (PlainErr ''version string was not in semver format, != 3 tokens'')
      else
        bindR (index (tokens ! 0) 0) (\<lambda>c.
        let first = (if c = CHR ''v'' then tl (tokens ! 0) else tokens ! 0) in
        case Atoi first of
          None \<Rightarrow> Err (PlainErr ''major version could not be parsed as integer'')
        | Some major \<Rightarrow>
            (case Atoi (tokens ! 1) of
               None \<Rightarrow> Err (PlainErr ''minor version could not be parsed as integer'')
             | Some minor \<Rightarrow>
                 (case Atoi (hd (Split (tokens ! 2) CHR ''-'')) of
                    None \<Rightarrow> Err (PlainErr ''bugfix version could not be parsed as integer'')
                  | Some bugfix \<Rightarrow> Ok (major, minor, bugfix)))))"

definition isStorageLiveMigrationDisabled :: "string list \<Rightarrow> int \<Rightarrow> int \<Rightarrow> bool" where
  "isStorageLiveMigrationDisabled featureGates major minor =
     (if major = 1 \<and> minor \<ge> 5 \<or> major > 1 then False
      else ''VolumesUpdateStrategy'' \<notin> set featureGates \<or> ''VolumeMigration'' \<notin> set featureGates
        \<or> ''VMLiveUpdateFeatures'' \<notin> set featureGates)"

definition setNotPossible :: "'w client \<Rightarrow> string \<Rightarrow> string \<Rightarrow> ('w planning, unit) go" where
  "setNotPossible cl reason message =
     setCond cl (mkCondition StorageMigrationNotPossibleType ConditionTrue reason Critical message)"

definition validateKubeVirtInstalled :: "'w client \<Rightarrow> ('w planning, unit) go" where
  "validateKubeVirtInstalled cl =
     bind (delCond StorageMigrationNotPossibleType) (\<lambda>_.
     bind (attempt (query (c_ListKubeVirts cl))) (\<lambda>r. case r of
       Inl e \<Rightarrow>
         if IsNoMatchError e
         then setNotPossible cl ''KubeVirtNotInstalledSourceCluster'' ''KubeVirt is not installed on the source cluster''
         else throw (WrapErr ''error listing kubevirts: '' e)
     | Inr kubevirts \<Rightarrow>
         if length kubevirts = 0 \<or> length kubevirts > 1
         then setNotPossible cl ''KubeVirtNotInstalledSourceCluster'' ''KubeVirt is not installed on the source cluster''
         else
           let kubevirt = kubevirts ! 0 in
           bind (attempt (liftR (parseKubeVirtOperatorSemver (kv_OperatorVersion kubevirt)))) (\<lambda>v. case v of
             Inl _ \<Rightarrow> setNotPossible cl ''KubeVirtVersionNotSupported''
               ''KubeVirt version does not support storage live migration, Virtual Machines will be stopped instead''
           | Inr (major, minor, bugfix) \<Rightarrow>
               if major < 1 \<or> (major = 1 \<and> minor < 3)
               then setNotPossible cl ''KubeVirtVersionNotSupported''
                 ''KubeVirt version does not support storage live migration, Virtual Machines will be stopped instead''
               else if (case (kv_VMRolloutStrategy kubevirt, kv_FeatureGates kubevirt) of
                    (Some st, Some gates) \<Rightarrow> st \<noteq> ''LiveUpdate'' \<or> isStorageLiveMigrationDisabled gates major minor
                  | _ \<Rightarrow> True)
               then setNotPossible cl ''KubeVirtStorageLiveMigrationNotEnabled''
                 ''KubeVirt storage live migration is not enabled, Virtual Machines will be stopped instead''
               else ret ())))"

section \<open>Migrations of the plan\<close>

datatype migrationStatus = notStarted | inProgress | completed

fun statusOfMigrations :: "string \<Rightarrow> Migration list \<Rightarrow> migrationStatus" where
  "statusOfMigrations planName [] = notStarted"
| "statusOfMigrations planName (m # ms) =
     (case mg_PlanRef m of
        None \<Rightarrow> statusOfMigrations planName ms
      | Some ref \<Rightarrow>
          if ref_Name ref \<noteq> planName then statusOfMigrations planName ms
          else if ms_Phase (mg_Status m) \<in> {WaitForLiveMigrationToComplete, CleanupMigrationResources, Canceling,
                  CleanupCancelledMigrations} then inProgress
          else if ms_Phase (mg_Status m) = Completed then completed
          else statusOfMigrations planName ms)"

definition getMigrationStatus :: "'w client \<Rightarrow> Plan \<Rightarrow> (('w, 'z) sys_scheme, migrationStatus) go" where
  "getMigrationStatus cl plan =
     bind (attempt (query (c_ListMigsInNamespace cl (om_Namespace (pl_Meta plan))))) (\<lambda>r. case r of
       Inl e \<Rightarrow> ret notStarted
     | Inr ms \<Rightarrow> ret (statusOfMigrations (om_Name (pl_Meta plan)) ms))"

section \<open>Target names\<close>

text \<open>
  The expression \<open>(.*)-mig-([\d|[:alpha:]]\{4\})$\<close> matches exactly the names that end in
  \<open>-mig-\<close> and four characters of its class, which holds the digits, the letters and the bar;
  its second group is those four characters.
\<close>

definition suffixChar :: "char \<Rightarrow> bool" where
  "suffixChar c \<longleftrightarrow> isDigit c \<or> c = CHR ''|'' \<or> (CHR ''a'' \<le> c \<and> c \<le> CHR ''z'') \<or> (CHR ''A'' \<le> c \<and> c \<le> CHR ''Z'')"

definition lastFour :: "string \<Rightarrow> string" where
  "lastFour s = drop (length s - 4) s"

definition suffixMatches :: "string \<Rightarrow> bool" where
  "suffixMatches s \<longleftrightarrow> length s \<ge> 9 \<and> list_all suffixChar (lastFour s) \<and> HasSuffix s (''-mig-'' @ lastFour s)"

definition trimSuffix :: "string \<Rightarrow> string" where
  "trimSuffix pvcName = (let sfx = (if suffixMatches pvcName then ''-mig-'' @ lastFour pvcName else ''-new'')
     in TrimSuffix pvcName sfx)"

definition targetPVCName :: "string option \<Rightarrow> string \<Rightarrow> string option \<Rightarrow> string result" where
  "targetPVCName name sourcePVCName sfx = (case name of
       Some n \<Rightarrow> Ok n
     | None \<Rightarrow> (case sfx of
           Some s \<Rightarrow> Ok (GetName (trimSuffix sourcePVCName) (''mig-'' @ s) DNS1035LabelMaxLength)
         | None \<Rightarrow> Err (PlainErr ''no name provided and no suffix set'')))"

section \<open>Source claims\<close>

text \<open>The loop over the volumes goes on past a volume of the name that has no claim.\<close>

fun volumeSource :: "string \<Rightarrow> Volume list \<Rightarrow> string" where
  "volumeSource volumeName [] = []"
| "volumeSource volumeName (v # vs) =
     (if vol_Name v = volumeName then
        (case vol_PersistentVolumeClaim v of
           Some c \<Rightarrow> c
         | None \<Rightarrow> (case vol_DataVolume v of Some d \<Rightarrow> d | None \<Rightarrow> volumeSource volumeName vs))
      else volumeSource volumeName vs)"

text \<open>Both claim descriptions are pointers that the code dereferences.\<close>

fun migratedSource :: "string \<Rightarrow> StorageMigratedVolumeInfo list \<Rightarrow> string result" where
  "migratedSource pvcName [] = Ok pvcName"
| "migratedSource pvcName (v # vs) =
     bindR (deref (mv_DestinationPVCInfo v)) (\<lambda>d.
       if d = pvcName then deref (mv_SourcePVCInfo v) else migratedSource pvcName vs)"

definition getSourcePVCNameFromVolumeUpdateState :: "VirtualMachine \<Rightarrow> string \<Rightarrow> string result" where
  "getSourcePVCNameFromVolumeUpdateState vm pvcName = (case vm_VolumeUpdateState vm of
       Some (Some vs) \<Rightarrow> migratedSource pvcName vs
     | _ \<Rightarrow> Ok pvcName)"

definition getSourcePVC ::
  "'w client \<Rightarrow> VirtualMachine option \<Rightarrow> string \<Rightarrow> Plan \<Rightarrow> (('w, 'z) sys_scheme, PersistentVolumeClaim option) go"
where
  "getSourcePVC cl vmp volumeName plan =
     bind (liftR (deref vmp)) (\<lambda>vm.
     let pvcName = volumeSource volumeName (vm_Volumes vm) in
     if pvcName = [] then ret None
     else
       bind (getMigrationStatus cl plan) (\<lambda>ms.
       bind (if ms \<noteq> notStarted
             then bind (liftR (getSourcePVCNameFromVolumeUpdateState vm pvcName)) (\<lambda>n.
               ret (if n \<noteq> [] then n else pvcName))
             else ret pvcName) (\<lambda>name.
       bind (attempt (query (c_GetPVC cl (vm_Namespace vm) name))) (\<lambda>r. case r of
         Inl e \<Rightarrow> if IsNotFound e then ret None else throw e
       | Inr pvc \<Rightarrow> ret (Some pvc)))))"

definition emptyStatusVM :: StatusVM where
  "emptyStatusVM = \<lparr>pv_Name = [], pv_TargetMigrationPVCs = [], sv_SourcePVCs = []\<rparr>"

definition sourceEntry :: "string \<Rightarrow> PersistentVolumeClaim \<Rightarrow> SourcePVC" where
  "sourceEntry volumeName pvc = \<lparr>sp_VolumeName = volumeName, sp_Name = om_Name (pvc_Meta pvc),
     sp_Namespace = om_Namespace (pvc_Meta pvc), sp_SourcePVC = pvc\<rparr>"

definition nameTarget :: "string \<Rightarrow> TargetMigrationPVC \<Rightarrow> TargetMigrationPVC" where
  "nameTarget n pvc = pvc\<lparr>tp_DestinationPVC := (tp_DestinationPVC pvc)\<lparr>dp_Name := Some n\<rparr>\<rparr>"

text \<open>One round of the loop of \<open>createStatusVM\<close>; the accumulator holds the sources and the targets so far.\<close>

definition resolveVolume ::
  "'w client \<Rightarrow> VirtualMachine option \<Rightarrow> Plan \<Rightarrow> TargetMigrationPVC \<Rightarrow> SourcePVC list \<times> TargetMigrationPVC list \<Rightarrow>
   (('w, 'z) sys_scheme, (SourcePVC list \<times> TargetMigrationPVC list, unit) flow) go"
where
  "resolveVolume cl vm plan pvc acc =
     bind (getSourcePVC cl vm (tp_VolumeName pvc) plan) (\<lambda>sourcePVC. case sourcePVC of
       None \<Rightarrow> ret (Leave ())
     | Some claim \<Rightarrow>
         bind (liftR (targetPVCName (dp_Name (tp_DestinationPVC pvc)) (om_Name (pvc_Meta claim)) (st_Suffix (pl_Status plan)))) (\<lambda>n.
         ret (Next (fst acc @ [sourceEntry (tp_VolumeName pvc) claim], snd acc @ [nameTarget n pvc]))))"

definition createStatusVM :: "'w client \<Rightarrow> PlanVM \<Rightarrow> Plan \<Rightarrow> (('w, 'z) sys_scheme, StatusVM) go" where
  "createStatusVM cl migPlanVM plan =
     bind (GetVirtualMachineFromName cl (pv_Name migPlanVM) (om_Namespace (pl_Meta plan))) (\<lambda>vm.
     bind (loopE (resolveVolume cl vm plan) (pv_TargetMigrationPVCs migPlanVM) ([], [])) (\<lambda>v. case v of
       Leave _ \<Rightarrow> ret emptyStatusVM
     | Next acc \<Rightarrow> ret \<lparr>pv_Name = pv_Name migPlanVM, pv_TargetMigrationPVCs = snd acc, sv_SourcePVCs = fst acc\<rparr>))"

section \<open>Recorded sources\<close>

definition existingEntries :: "PlanStatus \<Rightarrow> StatusVM list" where
  "existingEntries st = st_ReadyMigrations st @ st_InProgressMigrations st @ st_FailedMigrations st @
     st_CompletedMigrations st @ st_InvalidMigrations st"

definition getExistingStatusVMMap :: "Plan \<Rightarrow> string \<rightharpoonup> StatusVM" where
  "getExistingStatusVMMap plan = foldl (\<lambda>m vm. m(pv_Name vm \<mapsto> vm)) Map.empty (existingEntries (pl_Status plan))"

definition sourcesMatchTargets :: "StatusVM \<Rightarrow> bool" where
  "sourcesMatchTargets statusVM =
     (if length (sv_SourcePVCs statusVM) = 0 \<or> length (sv_SourcePVCs statusVM) \<noteq> length (pv_TargetMigrationPVCs statusVM)
      then False
      else list_all (\<lambda>(src, tgt). dp_Name (tp_DestinationPVC tgt) = Some (sp_Name src))
        (zip (sv_SourcePVCs statusVM) (pv_TargetMigrationPVCs statusVM)))"

definition hasVMBeenSwapped :: "SourcePVC list \<Rightarrow> SourcePVC list \<Rightarrow> bool" where
  "hasVMBeenSwapped originalSources newSources =
     (if length originalSources \<noteq> length newSources then True
      else let originalSourceMap = foldl (\<lambda>m src. m(sp_VolumeName src \<mapsto> sp_Name src)) Map.empty originalSources
        in list_ex (\<lambda>src. originalSourceMap (sp_VolumeName src) \<noteq> Some (sp_Name src)) newSources)"

text \<open>
  What is recorded for a VM, given the entry computed from its current spec and the entry
  recorded before; \<open>None\<close> is the \<open>continue\<close> of a VM without sources.
\<close>

definition hasSources :: "StatusVM option \<Rightarrow> bool" where
  "hasSources existing = (case existing of None \<Rightarrow> False | Some e \<Rightarrow> length (sv_SourcePVCs e) > 0)"

definition keepSwapped :: "StatusVM option \<Rightarrow> StatusVM \<Rightarrow> StatusVM" where
  "keepSwapped existing sv = (case existing of
       None \<Rightarrow> sv
     | Some e \<Rightarrow>
         if hasSources existing \<and> hasVMBeenSwapped (sv_SourcePVCs e) (sv_SourcePVCs sv)
         then sv\<lparr>sv_SourcePVCs := sv_SourcePVCs e\<rparr> else sv)"

definition keepUncorrupted :: "StatusVM option \<Rightarrow> StatusVM \<Rightarrow> StatusVM" where
  "keepUncorrupted existing sv = (case existing of
       None \<Rightarrow> sv
     | Some e \<Rightarrow>
         if sourcesMatchTargets sv \<and> \<not> sourcesMatchTargets e then sv\<lparr>sv_SourcePVCs := sv_SourcePVCs e\<rparr> else sv)"

definition mergeExisting :: "StatusVM option \<Rightarrow> StatusVM \<Rightarrow> StatusVM option" where
  "mergeExisting existing statusVM =
     map_option (\<lambda>sv. keepUncorrupted existing (keepSwapped existing sv))
       (if length (sv_SourcePVCs statusVM) = 0 then (if hasSources existing then existing else None)
        else Some statusVM)"

definition recordVM :: "migrationStatus \<Rightarrow> StatusVM \<Rightarrow> PlanStatus \<Rightarrow> PlanStatus" where
  "recordVM ms sv st = (case ms of
       notStarted \<Rightarrow> st\<lparr>st_ReadyMigrations := st_ReadyMigrations st @ [sv]\<rparr>
     | inProgress \<Rightarrow> st\<lparr>st_InProgressMigrations := st_InProgressMigrations st @ [sv]\<rparr>
     | completed \<Rightarrow> st\<lparr>st_CompletedMigrations := st_CompletedMigrations st @ [sv]\<rparr>)"

text \<open>The body of the loop over the VMs of the spec.\<close>

definition classifyVM ::
  "'w client \<Rightarrow> (string \<rightharpoonup> StatusVM) \<Rightarrow> migrationStatus \<Rightarrow> PlanVM \<Rightarrow> unit \<Rightarrow> ('w planning, unit) go"
where
  "classifyVM cl existing ms vm u =
     bind (gets r_Plan) (\<lambda>plan.
     bind (ValidateStorageMigrationPossibleForVM cl (pv_Name vm) (om_Namespace (pl_Meta plan))) (\<lambda>(reason, message).
       if message \<noteq> [] \<or> reason \<noteq> []
       then setCond cl (mkCondition NotAllVirtualMachinesReadyReason ConditionTrue reason Warn message)
       else
         bind (createStatusVM cl vm plan) (\<lambda>statusVM.
           case mergeExisting (existing (pv_Name vm)) statusVM of
             None \<Rightarrow> ret ()
           | Some sv \<Rightarrow> onPlanStatus (recordVM ms sv))))"

section \<open>Storage classes\<close>

definition validateStorageClassExists :: "'w client \<Rightarrow> string \<Rightarrow> (('w, 'z) sys_scheme, string \<times> string) go" where
  "validateStorageClassExists cl storageClass =
     bind (attempt (query (c_GetStorageClass cl storageClass))) (\<lambda>r. case r of
       Inl e \<Rightarrow> if IsNotFound e then ret (NotFound, ''storage class '' @ storageClass @ '' not found'') else throw e
     | Inr _ \<Rightarrow> ret ([], []))"

definition getDefaultStorageClass :: "'w client \<Rightarrow> (('w, 'z) sys_scheme, string) go" where
  "getDefaultStorageClass cl =
     bind (GetDefaultVirtStorageClass cl) (\<lambda>v. case v of
       Some sc \<Rightarrow> ret sc
     | None \<Rightarrow> bind (GetDefaultStorageClass cl) (\<lambda>d. case d of Some sc \<Rightarrow> ret sc | None \<Rightarrow> ret []))"

definition classTarget :: "string \<Rightarrow> TargetMigrationPVC \<Rightarrow> TargetMigrationPVC" where
  "classTarget sc t = t\<lparr>tp_DestinationPVC := (tp_DestinationPVC t)\<lparr>dp_StorageClassName := Some sc\<rparr>\<rparr>"

definition putClass :: "nat \<Rightarrow> string \<Rightarrow> StatusVM \<Rightarrow> StatusVM" where
  "putClass i sc vm =
     vm\<lparr>pv_TargetMigrationPVCs := (pv_TargetMigrationPVCs vm)[i := classTarget sc (pv_TargetMigrationPVCs vm ! i)]\<rparr>"

text \<open>
  One target of one VM.  The loop variable shares the array of targets with the entry of the
  plan's ready list (its \<open>j\<close>-th), so a default class is written to both.
  \<open>Leave\<close> is the \<open>break\<close> with the issue found.
\<close>

definition useDefaultClass ::
  "'w client \<Rightarrow> nat \<Rightarrow> nat \<Rightarrow> StatusVM \<Rightarrow> ('w planning, (StatusVM, StatusVM \<times> string \<times> string) flow) go"
where
  "useDefaultClass cl j i vm =
     bind (getDefaultStorageClass cl) (\<lambda>sc.
       if sc \<noteq> [] then
         bind (onPlanStatus (\<lambda>st. st\<lparr>st_ReadyMigrations := (st_ReadyMigrations st)[j := putClass i sc vm]\<rparr>)) (\<lambda>_.
         ret (Next (putClass i sc vm)))
       else ret (Leave (vm, NotFound, ''no default storage class found'')))"

definition checkClass ::
  "'w client \<Rightarrow> nat \<Rightarrow> nat \<Rightarrow> TargetMigrationPVC \<Rightarrow> StatusVM \<Rightarrow>
   ('w planning, (StatusVM, StatusVM \<times> string \<times> string) flow) go"
where
  "checkClass cl j i pvc vm = (case dp_StorageClassName (tp_DestinationPVC pvc) of
       Some sc \<Rightarrow>
         if sc \<noteq> [] then
           bind (validateStorageClassExists cl sc) (\<lambda>(reason, message).
             if message \<noteq> [] then ret (Leave (vm, reason, message)) else ret (Next vm))
         else useDefaultClass cl j i vm
     | None \<Rightarrow> useDefaultClass cl j i vm)"

definition checkTarget ::
  "'w client \<Rightarrow> migrationStatus \<Rightarrow> nat \<Rightarrow> nat \<times> TargetMigrationPVC \<Rightarrow> StatusVM \<Rightarrow>
   ('w planning, (StatusVM, StatusVM \<times> string \<times> string) flow) go"
where
  "checkTarget cl ms j ipvc vm = (case ipvc of (i, pvc) \<Rightarrow>
     bind (checkClass cl j i pvc vm) (\<lambda>v. case v of
       Leave x \<Rightarrow> ret (Leave x)
     | Next vm' \<Rightarrow>
         (case dp_Name (tp_DestinationPVC pvc) of
            None \<Rightarrow> ret (Next vm')
          | Some n \<Rightarrow>
              bind (liftR (index (sv_SourcePVCs vm') i)) (\<lambda>src.
                if n = sp_Name src \<and> ms = notStarted
                then ret (Leave (vm', Conflict, ''VM '' @ pv_Name vm @ '' has a destination PVC name for volume '' @
                  tp_VolumeName pvc @ '' that is the same as the source PVC name''))
                else ret (Next vm')))))"

record pvcVerdict =
  pw_Ready :: "StatusVM list"
  pw_Invalid :: "StatusVM list"
  pw_Reason :: string
  pw_Message :: string

definition checkVM ::
  "'w client \<Rightarrow> migrationStatus \<Rightarrow> nat \<times> StatusVM \<Rightarrow> pvcVerdict \<Rightarrow> ('w planning, pvcVerdict) go"
where
  "checkVM cl ms jvm acc = (case jvm of (j, vm) \<Rightarrow>
     bind (loopE (checkTarget cl ms j) (List.enumerate 0 (pv_TargetMigrationPVCs vm)) vm) (\<lambda>v. case v of
       Next vm' \<Rightarrow> ret (acc\<lparr>pw_Ready := pw_Ready acc @ [vm']\<rparr>)
     | Leave (vm', reason, message) \<Rightarrow>
         ret (acc\<lparr>pw_Invalid := pw_Invalid acc @ [vm'], pw_Reason := reason, pw_Message := message\<rparr>)))"

definition validatePVCs :: "'w client \<Rightarrow> ('w planning, string \<times> string) go" where
  "validatePVCs cl =
     bind (gets r_Plan) (\<lambda>plan.
     bind (getMigrationStatus cl plan) (\<lambda>ms.
     bind (foldE (checkVM cl ms) (List.enumerate 0 (st_ReadyMigrations (pl_Status plan)))
            \<lparr>pw_Ready = [], pw_Invalid = [], pw_Reason = [], pw_Message = []\<rparr>) (\<lambda>w.
     bind (onPlanStatus (\<lambda>st. st\<lparr>st_ReadyMigrations := pw_Ready w, st_InvalidMigrations := pw_Invalid w\<rparr>)) (\<lambda>_.
     ret (pw_Reason w, pw_Message w)))))"

section \<open>Content types\<close>

definition claimKey :: "SourcePVC \<Rightarrow> string \<times> string" where
  "claimKey spvc =
     (if sp_Namespace spvc = [] then om_Namespace (pvc_Meta (sp_SourcePVC spvc)) else sp_Namespace spvc,
      if sp_Name spvc = [] then om_Name (pvc_Meta (sp_SourcePVC spvc)) else sp_Name spvc)"

text \<open>The set of claims, as a list without repetitions.\<close>

definition getPVCsFromVMs :: "StatusVM list \<Rightarrow> (string \<times> string) list" where
  "getPVCsFromVMs vms =
     remdups (filter (\<lambda>(ns, name). name \<noteq> [] \<and> ns \<noteq> []) (map claimKey (concat (map sv_SourcePVCs vms))))"

definition lacksContentType :: "PersistentVolumeClaim \<Rightarrow> bool" where
  "lacksContentType pvc \<longleftrightarrow>
     (pvc_VolumeMode pvc = None \<or> pvc_VolumeMode pvc = Some PersistentVolumeFilesystem) \<and>
     mget (om_Annotations (pvc_Meta pvc)) [] ''cdi.kubevirt.io/storage.contentType'' \<noteq> ''kubevirt''"

definition checkContentType ::
  "'w client \<Rightarrow> string \<times> string \<Rightarrow> string list \<Rightarrow> (('w, 'z) sys_scheme, string list) go"
where
  "checkContentType cl k offending =
     bind (attempt (query (c_GetPVC cl (fst k) (snd k)))) (\<lambda>r. case r of
       Inl e \<Rightarrow> if IsNotFound e then ret offending else throw e
     | Inr pvc \<Rightarrow> ret (if lacksContentType pvc then offending @ [fst k @ ''/'' @ snd k] else offending))"

definition getFilesystemPVCsWithoutKubeVirtContentType ::
  "'w client \<Rightarrow> StatusVM list \<Rightarrow> (('w, 'z) sys_scheme, string list) go"
where
  "getFilesystemPVCsWithoutKubeVirtContentType cl vms =
     bind (draw (c_RangeOrder cl (getPVCsFromVMs vms))) (\<lambda>ks. foldE (checkContentType cl) ks [])"

definition contentTypeMessage :: "string list \<Rightarrow> string" where
  "contentTypeMessage offending =
     (let msg = ''One or more PVCs have filesystem volume mode but do not have the annotation cdi.kubevirt.io/storage.contentType: kubevirt''
      in if length offending \<le> 5 then msg @ '': '' @ Join offending '', ''
         else msg @ '' ('' @ showNat (length offending) @ '' PVCs, e.g. '' @ Join (take 5 offending) '', '' @ '')'')"

section \<open>The whole validation\<close>

definition healCompletedMigrations :: "('w planning, unit) go" where
  "healCompletedMigrations = onPlan (\<lambda>plan.
     if length (st_CompletedMigrations (pl_Status plan)) > 0 then plan
     else plan\<lparr>pl_Status := (pl_Status plan)\<lparr>st_CompletedMigrations := st_CompletedMigrations (pl_Status plan) @
       map (\<lambda>vm. \<lparr>pv_Name = pv_Name vm, pv_TargetMigrationPVCs = pv_TargetMigrationPVCs vm, sv_SourcePVCs = []\<rparr>)
         (spec_VirtualMachines (pl_Spec plan))\<rparr>\<rparr>)"

definition clearLists :: "PlanStatus \<Rightarrow> PlanStatus" where
  "clearLists st = st\<lparr>st_ReadyMigrations := [], st_InvalidMigrations := [], st_CompletedMigrations := [],
     st_InProgressMigrations := [], st_FailedMigrations := []\<rparr>"

text \<open>The conditions set once the claims are valid.\<close>

definition summarize :: "'w client \<Rightarrow> ('w planning, unit) go" where
  "summarize cl =
     bind (gets r_Plan) (\<lambda>plan.
     let st = pl_Status plan in
     bind (attempt (getFilesystemPVCsWithoutKubeVirtContentType cl
            (st_ReadyMigrations st @ st_InProgressMigrations st @ st_CompletedMigrations st))) (\<lambda>r. case r of
       Inl e \<Rightarrow> throw (WrapErr ''looking up PVCs for content-type validation: '' e)
     | Inr offending \<Rightarrow>
         bind (if length offending > 0
               then setCond cl (mkCondition FilesystemPVCsWithoutKubeVirtContentTypeType ConditionTrue Advisory Warn
                      (contentTypeMessage offending))
               else delCond FilesystemPVCsWithoutKubeVirtContentTypeType) (\<lambda>_.
         bind (if length (st_ReadyMigrations st) > 0 then delCond StorageMigrationNotPossibleType else ret ()) (\<lambda>_.
         bind (if length (st_ReadyMigrations st) > 0 \<and>
                  length (st_ReadyMigrations st) + length (st_InProgressMigrations st) + length (st_CompletedMigrations st) +
                    length (st_FailedMigrations st) \<noteq> length (spec_VirtualMachines (pl_Spec plan))
               then setCond cl (mkCondition NotAllVirtualMachinesReadyReason ConditionTrue NotReady Warn
                      ''Some virtual machines are not ready for storage migration'')
               else delCond NotAllVirtualMachinesReadyReason) (\<lambda>_.
         if length (st_ReadyMigrations st) = 0 \<and> length (st_InProgressMigrations st) = 0
         then setCond cl (mkCondition NotAllVirtualMachinesReadyReason ConditionTrue NotReady Critical
                ''No virtual machines are ready for storage migration'')
         else ret ())))))"

text \<open>From the loop over the VMs on.\<close>

definition recompute ::
  "'w client \<Rightarrow> (string \<rightharpoonup> StatusVM) \<Rightarrow> migrationStatus \<Rightarrow> PlanVM list \<Rightarrow> ('w planning, unit) go"
where
  "recompute cl existing ms vms =
     bind (foldE (classifyVM cl existing ms) vms ()) (\<lambda>_.
     bind (validatePVCs cl) (\<lambda>(reason, message).
       if message \<noteq> []
       then setCond cl (mkCondition InvalidPVCsType ConditionTrue reason Critical message)
       else bind (delCond InvalidPVCsType) (\<lambda>_. summarize cl)))"

definition validateStorageMigrationPossible :: "'w client \<Rightarrow> ('w planning, unit) go" where
  "validateStorageMigrationPossible cl =
     bind (gets r_Plan) (\<lambda>plan.
     bind (getMigrationStatus cl plan) (\<lambda>ms.
       if ms = completed then healCompletedMigrations
       else bind (onPlanStatus clearLists) (\<lambda>_.
         recompute cl (getExistingStatusVMMap plan) ms (spec_VirtualMachines (pl_Spec plan)))))"

definition validateLiveMigrationPossible :: "'w client \<Rightarrow> ('w planning, unit) go" where
  "validateLiveMigrationPossible cl =
     bind (validateKubeVirtInstalled cl) (\<lambda>_.
     bind (gets r_Plan) (\<lambda>plan.
       if HasAnyCondition [StorageMigrationNotPossibleType] (st_Conditions (pl_Status plan)) then ret ()
       else validateStorageMigrationPossible cl))"

definition Plan_validate :: "'w client \<Rightarrow> ('w planning, unit) go" where
  "Plan_validate cl = (\<lambda>s. case validateLiveMigrationPossible cl s of
       (Err e, s') \<Rightarrow> (Err (WrapErr ''err checking if live migration is possible: '' e), s')
     | other \<Rightarrow> other)"


section \<open>Frames of the validation\<close>

lemma run_onPlan [run]: "onPlan f s = (Ok (), s\<lparr>r_Plan := f (r_Plan s)\<rparr>)"
  by (simp add: onPlan_def run)

lemma wp_onPlan [wp]: "wp (onPlan f) Q s = Q (Ok ()) (s\<lparr>r_Plan := f (r_Plan s)\<rparr>)"
  by (simp add: wp_def run)

lemma wp_onPlanStatus [wp]:
  "wp (onPlanStatus f) Q s = Q (Ok ()) (s\<lparr>r_Plan := (r_Plan s)\<lparr>pl_Status := f (pl_Status (r_Plan s))\<rparr>\<rparr>)"
  by (simp add: onPlanStatus_def wp)

lemma bind_gets: "bind (gets h) k s = k (h s) s"
  by (simp add: run)

lemma bind_onPlanStatus:
  "bind (onPlanStatus f) k s = k () (s\<lparr>r_Plan := (r_Plan s)\<lparr>pl_Status := f (pl_Status (r_Plan s))\<rparr>\<rparr>)"
  by (simp add: onPlanStatus_def run)

text \<open>
  A relation that lets the plan change anywhere but in its identity: metadata, spec, kind and
  suffix.  The whole validation stays within such a relation.
\<close>

definition sameIdentity :: "Plan \<Rightarrow> Plan \<Rightarrow> bool" where
  "sameIdentity p q \<longleftrightarrow> pl_Meta q = pl_Meta p \<and> pl_Spec q = pl_Spec p \<and> pl_Kind q = pl_Kind p \<and>
     pl_APIVersion q = pl_APIVersion p \<and> st_Suffix (pl_Status q) = st_Suffix (pl_Status p)"

locale plan_reader = observer R
  for R :: "'w planning \<Rightarrow> 'w planning \<Rightarrow> bool"
begin

lemma frame_getMigrationStatus: "frame R (getMigrationStatus cl plan)"
  unfolding getMigrationStatus_def by (intro steps)

lemma frame_getSourcePVC: "frame R (getSourcePVC cl vm v plan)"
  unfolding getSourcePVC_def by (intro steps frame_getMigrationStatus)

lemma frame_createStatusVM: "frame R (createStatusVM cl vm plan)"
  unfolding createStatusVM_def resolveVolume_def
  by (intro steps frame_getSourcePVC frame_GetVirtualMachineFromName)

lemma frame_validateStorageClassExists: "frame R (validateStorageClassExists cl sc)"
  unfolding validateStorageClassExists_def by (intro steps)

lemma frame_getDefaultStorageClass: "frame R (getDefaultStorageClass cl)"
  unfolding getDefaultStorageClass_def by (intro steps helper_steps)

lemma frame_getFilesystemPVCs: "frame R (getFilesystemPVCsWithoutKubeVirtContentType cl vms)"
  unfolding getFilesystemPVCsWithoutKubeVirtContentType_def checkContentType_def by (intro steps)

lemmas reader_steps = frame_getMigrationStatus frame_getSourcePVC frame_createStatusVM
  frame_validateStorageClassExists frame_getDefaultStorageClass frame_getFilesystemPVCs

end

interpretation plan_kept: plan_reader "\<lambda>s t. r_Plan t = r_Plan s"
  by unfold_locales (simp_all add: preorder_eq)

lemma wp_reader:
  "frame (\<lambda>s t. r_Plan t = r_Plan s) m \<Longrightarrow> (\<And>r t. r_Plan t = r_Plan s \<Longrightarrow> Q r t) \<Longrightarrow> wp m Q s"
  by (auto intro: wpI dest: frameD)

lemma wp_reader_bind:
  fixes s :: "'w planning"
  assumes "frame (\<lambda>s t. r_Plan t = r_Plan s) m"
    and "\<And>x t. m s = (Ok x, t) \<Longrightarrow> r_Plan t = r_Plan s \<Longrightarrow> wp (f x) Q t"
    and "\<And>e t. r_Plan t = r_Plan s \<Longrightarrow> Q (Err e) t"
    and "\<And>p t. r_Plan t = r_Plan s \<Longrightarrow> Q (Panic p) t"
  shows "wp (bind m f) Q s"
proof -
  obtain r t where r: "m s = (r, t)" by fastforce
  with assms(1) have t: "r_Plan t = r_Plan s" by (rule frameD)
  show ?thesis
    using assms(2)[OF _ t] assms(3,4)[OF t] r by (cases r) (simp_all add: wp_def run)
qed

text \<open>A relation that lets the conditions change.\<close>

locale cond_steps = plan_reader R
  for R :: "'w planning \<Rightarrow> 'w planning \<Rightarrow> bool" +
  assumes cond_edits: "R s (s\<lparr>r_Plan := (r_Plan s)\<lparr>pl_Status := (pl_Status (r_Plan s))\<lparr>st_Conditions := cs\<rparr>\<rparr>\<rparr>)"
begin

lemma frame_onConditions: "frame R (onConditions f)"
  unfolding onConditions_def onPlanStatus_def onPlan_def by (rule frame_modify) (rule cond_edits)

lemma frame_setCond: "frame R (setCond cl c)"
  unfolding setCond_def by (intro steps frame_onConditions)

lemma frame_delCond: "frame R (delCond t)"
  unfolding delCond_def by (rule frame_onConditions)

lemma frame_setNotPossible: "frame R (setNotPossible cl r m)"
  unfolding setNotPossible_def by (rule frame_setCond)

lemma frame_validateKubeVirtInstalled: "frame R (validateKubeVirtInstalled cl)"
  unfolding validateKubeVirtInstalled_def Let_def by (intro steps frame_delCond frame_setNotPossible)

lemma frame_summarize: "frame R (summarize cl)"
  unfolding summarize_def Let_def by (intro steps reader_steps frame_setCond frame_delCond)

end

definition onlyConditions :: "Plan \<Rightarrow> Plan \<Rightarrow> bool" where
  "onlyConditions p q \<longleftrightarrow> (\<exists>cs. q = p\<lparr>pl_Status := (pl_Status p)\<lparr>st_Conditions := cs\<rparr>\<rparr>)"

lemma onlyConditions_refl [simp]: "onlyConditions p p"
  unfolding onlyConditions_def by (rule exI[of _ "st_Conditions (pl_Status p)"]) simp

interpretation lists_kept: cond_steps "\<lambda>s t. onlyConditions (r_Plan s) (r_Plan t)"
proof unfold_locales
  show "preorder_rel (\<lambda>s t. onlyConditions (r_Plan s) (r_Plan t))"
    by (rule preorder_relI) (simp, auto simp: onlyConditions_def)
qed (simp, auto simp: onlyConditions_def)

locale plan_steps = plan_reader R
  for R :: "'w planning \<Rightarrow> 'w planning \<Rightarrow> bool" +
  assumes edits: "sameIdentity (r_Plan s) p \<Longrightarrow> R s (s\<lparr>r_Plan := p\<rparr>)"

sublocale plan_steps \<subseteq> cond_steps
  by unfold_locales (simp add: edits sameIdentity_def)

context plan_steps
begin

lemma frame_onPlan: "(\<And>p. sameIdentity p (f p)) \<Longrightarrow> frame R (onPlan f)"
  unfolding onPlan_def by (rule frame_modify) (rule edits)

lemma frame_onPlanStatus: "(\<And>st. st_Suffix (f st) = st_Suffix st) \<Longrightarrow> frame R (onPlanStatus f)"
  unfolding onPlanStatus_def by (rule frame_onPlan) (simp add: sameIdentity_def)

lemma frame_recordVM: "frame R (onPlanStatus (recordVM ms sv))"
  by (rule frame_onPlanStatus) (simp add: recordVM_def split: migrationStatus.splits)

lemma frame_classifyVM: "frame R (classifyVM cl existing ms vm u)"
  unfolding classifyVM_def by (intro steps frame_ValidatePossible frame_setCond reader_steps frame_recordVM)

lemma frame_checkTarget: "frame R (checkTarget cl ms j ipvc vm)"
  unfolding checkTarget_def checkClass_def useDefaultClass_def
  by (intro steps reader_steps frame_onPlanStatus) simp_all

lemma frame_checkVM: "frame R (checkVM cl ms jvm acc)"
  unfolding checkVM_def by (intro steps frame_checkTarget)

lemma frame_validatePVCs: "frame R (validatePVCs cl)"
  unfolding validatePVCs_def by (intro steps reader_steps frame_checkVM frame_onPlanStatus) simp

lemma frame_healCompletedMigrations: "frame R healCompletedMigrations"
  unfolding healCompletedMigrations_def by (rule frame_onPlan) (simp add: sameIdentity_def)

lemma frame_validateStorageMigrationPossible: "frame R (validateStorageMigrationPossible cl)"
  unfolding validateStorageMigrationPossible_def recompute_def
  by (intro steps reader_steps frame_healCompletedMigrations frame_classifyVM frame_validatePVCs frame_setCond
      frame_delCond frame_summarize frame_onPlanStatus) (simp add: clearLists_def)

lemma frame_validateLiveMigrationPossible: "frame R (validateLiveMigrationPossible cl)"
  unfolding validateLiveMigrationPossible_def
  by (intro steps frame_validateKubeVirtInstalled frame_validateStorageMigrationPossible)

lemma frame_Plan_validate: "frame R (Plan_validate cl)"
proof (rule frameI)
  fix s r s'
  assume "Plan_validate cl s = (r, s')"
  then have "snd (validateLiveMigrationPossible cl s) = s'"
    by (auto simp: Plan_validate_def split: prod.splits result.splits)
  then show "R s s'" using frameD2[OF frame_validateLiveMigrationPossible] by metis
qed

end

text \<open>Validation sends no request and keeps the identity of the plan.\<close>

interpretation validation_trace: plan_steps "\<lambda>s t. trace t = trace s"
  by unfold_locales (simp_all add: preorder_eq)

interpretation validation_identity: plan_steps "\<lambda>s t. sameIdentity (r_Plan s) (r_Plan t)"
  by unfold_locales (auto simp: sameIdentity_def intro: preorder_relI)

end
