(* ===== verification/PlanNaming.thy ===== *)
theory PlanNaming
  imports PlanValidation
begin

text \<open>
  Properties of the text handling of the plan validation: the version string of the KubeVirt
  operator, the decision whether storage migration is possible at all, and the names chosen for
  the target claims.
\<close>

section \<open>Decimal numbers\<close>

lemma of_char_digit: "n < 10 \<Longrightarrow> (of_char (char_of (n + 48 :: nat) :: char) :: int) = int n + 48"
proof -
  assume "n < 10"
  then have "(of_char (char_of (n + 48) :: char) :: nat) = n + 48" by simp
  then have "int (of_char (char_of (n + 48) :: char)) = int n + 48" by simp
  then show ?thesis by (simp only: of_nat_of_char)
qed

lemma isDigit_code: "isDigit c \<longleftrightarrow> 48 \<le> (of_char c :: nat) \<and> (of_char c :: nat) \<le> 57"
  by (simp add: isDigit_def less_eq_char_def)

lemma isDigit_digit: "n < 10 \<Longrightarrow> isDigit (char_of (n + 48 :: nat))"
  by (simp add: isDigit_code)

lemma digitVal_digit: "n < 10 \<Longrightarrow> digitVal (char_of (n + 48 :: nat)) = int n"
  by (simp add: digitVal_def of_char_digit)

lemma showNat_digits: "list_all isDigit (showNat n)"
proof (induction n rule: showNat.induct)
  case (1 n)
  then show ?case
    by (cases "n < 10") (simp_all add: showNat.simps[of n] isDigit_digit)
qed

lemma showNat_not_Nil: "showNat n \<noteq> []"
  by (simp add: showNat.simps[of n])

lemma digitsVal_snoc: "digitsVal (ds @ [c]) = 10 * digitsVal ds + digitVal c"
  by (simp add: digitsVal_def)

lemma digitsVal_showNat: "digitsVal (showNat n) = int n"
proof (induction n rule: showNat.induct)
  case (1 n)
  show ?case
  proof (cases "n < 10")
    case True
    then show ?thesis by (simp add: showNat.simps[of n] digitsVal_def digitVal_digit)
  next
    case False
    then have "digitsVal (showNat n) = 10 * int (n div 10) + int (n mod 10)"
      using 1 by (simp add: showNat.simps[of n] digitsVal_snoc digitVal_digit)
    then show ?thesis by presburger
  qed
qed

lemma Atoi_showNat:
  assumes "n < 2 ^ 63"
  shows "Atoi (showNat n) = Some (int n)"
proof -
  obtain c cs where s: "showNat n = c # cs" using showNat_not_Nil by (cases "showNat n") auto
  then have "isDigit c" using showNat_digits[of n] by simp
  then have "c \<noteq> CHR ''-''" "c \<noteq> CHR ''+''" by (auto simp: isDigit_def less_eq_char_def)
  moreover have "int n < 2 ^ 63" using assms by (metis of_nat_less_iff of_nat_numeral of_nat_power)
  ultimately show ?thesis
    using showNat_digits[of n] digitsVal_showNat[of n] unfolding s by (simp add: Atoi_def Let_def)
qed

section \<open>Splitting\<close>

lemma Split_free: "sep \<notin> set s \<Longrightarrow> Split s sep = [s]"
  by (induction s) auto

lemma Split_first: "sep \<notin> set s \<Longrightarrow> Split (s @ sep # rest) sep = s # Split rest sep"
  by (induction s) auto

lemma hd_Split: "sep \<notin> set s \<Longrightarrow> rest = [] \<or> (\<exists>r. rest = sep # r) \<Longrightarrow> hd (Split (s @ rest) sep) = s"
  by (auto simp: Split_free Split_first)

lemma length_Split: "length (Split s sep) = Suc (length (filter ((=) sep) s))"
proof (induction s)
  case (Cons c cs)
  then show ?case by (cases "Split cs sep") (auto simp: Split_not_Nil)
qed simp

lemma hd_Split_eq_Nil: "hd (Split s sep) = [] \<longleftrightarrow> s = [] \<or> (\<exists>r. s = sep # r)"
  by (cases s) (auto split: list.splits simp: Split_not_Nil)

lemma hd_Split_set: "set (hd (Split s sep)) \<subseteq> set s - {sep}"
proof (induction s)
  case (Cons c cs)
  then show ?case by (cases "Split cs sep") (auto simp: Split_not_Nil)
qed simp

lemma hd_Split_prefix: "\<exists>r. s = hd (Split s sep) @ r \<and> (r = [] \<or> (\<exists>r'. r = sep # r'))"
proof (induction s)
  case (Cons c cs)
  then show ?case by (cases "Split cs sep") (auto simp: Split_not_Nil)
qed simp

lemma digits_free: "list_all isDigit ds \<Longrightarrow> CHR ''.'' \<notin> set ds \<and> CHR ''-'' \<notin> set ds \<and> CHR ''v'' \<notin> set ds"
  by (auto simp: list_all_iff isDigit_def less_eq_char_def)

section \<open>The operator version\<close>

lemma Split_third:
  assumes "CHR ''.'' \<notin> set a" "CHR ''.'' \<notin> set b" "CHR ''.'' \<notin> set c" "CHR ''-'' \<notin> set c"
    "rest = [] \<or> (\<exists>r. rest = CHR ''-'' # r) \<or> (\<exists>r. rest = CHR ''.'' # r)"
  shows "\<exists>t ts. Split (a @ ''.'' @ b @ ''.'' @ c @ rest) CHR ''.'' = a # b # t # ts \<and> hd (Split t CHR ''-'') = c"
proof -
  obtain t ts where t: "Split (c @ rest) CHR ''.'' = t # ts" by (meson Split_not_Nil neq_Nil_conv)
  have "hd (Split t CHR ''-'') = c"
  proof (cases "\<exists>r. rest = CHR ''-'' # r")
    case True
    then obtain r where r: "rest = CHR ''-'' # r" by blast
    define u us where "u = hd (Split r CHR ''.'')" and "us = tl (Split r CHR ''.'')"
    have "Split r CHR ''.'' = u # us" by (simp add: u_def us_def Split_not_Nil)
    then have "Split (c @ rest) CHR ''.'' = (c @ CHR ''-'' # u) # us"
      using assms(3) unfolding r by (induction c) auto
    then show ?thesis using t assms(4) hd_Split[of "CHR ''-''" c "CHR ''-'' # u"] by simp
  next
    case False
    then have "t = c" using assms(3,5) t by (auto simp: Split_free Split_first)
    then show ?thesis using assms(4) by (simp add: Split_free)
  qed
  moreover have "Split (a @ ''.'' @ b @ ''.'' @ c @ rest) CHR ''.'' = a # b # t # ts"
    using assms(1,2) t by (simp add: Split_first)
  ultimately show ?thesis by blast
qed

text \<open>
  A version of the form the comment of the code gives, with or without the leading \<open>v\<close>
  and with anything after a hyphen or a further dot, is read as its three numbers, as long as
  they fit a 64-bit integer.
\<close>

theorem semver_roundtrip:
  assumes "major < 2 ^ 63" "minor < 2 ^ 63" "bugfix < 2 ^ 63" "v \<in> {'''', ''v''}"
    "rest = [] \<or> (\<exists>r. rest = CHR ''-'' # r) \<or> (\<exists>r. rest = CHR ''.'' # r)"
  shows "parseKubeVirtOperatorSemver (v @ showNat major @ ''.'' @ showNat minor @ ''.'' @ showNat bugfix @ rest)
    = Ok (int major, int minor, int bugfix)"
proof -
  note free = digits_free[OF showNat_digits]
  obtain t ts where t: "Split ((v @ showNat major) @ ''.'' @ showNat minor @ ''.'' @ showNat bugfix @ rest) CHR ''.'' =
      (v @ showNat major) # showNat minor # t # ts" "hd (Split t CHR ''-'') = showNat bugfix"
    using Split_third[OF _ _ _ _ assms(5), of "v @ showNat major" "showNat minor" "showNat bugfix"] assms(4) free by auto
  obtain d ds where d: "showNat major = d # ds" "d \<noteq> CHR ''v''"
    using showNat_not_Nil free[of major] by (cases "showNat major") auto
  note parse = parseKubeVirtOperatorSemver_def Atoi_showNat index_def Let_def
  show ?thesis
  proof (cases "v = []")
    case True
    with t d assms(1-3) Atoi_showNat[of major] show ?thesis by (simp add: parse)
  next
    case False
    with assms(4) have "v = ''v''" by simp
    with t assms(1-3) show ?thesis by (simp add: parse)
  qed
qed

theorem semver_roundtrip_witness:
  "parseKubeVirtOperatorSemver ''v1.3.0-beta.0.202'' = Ok (1, 3, 0)"
proof -
  have "showNat 1 = ''1''" "showNat 3 = ''3''" "showNat 0 = ''0''" by code_simp+
  then show ?thesis
    using semver_roundtrip[of 1 3 0 "''v''" "''-beta.0.202''"] by simp
qed

text \<open>
  The parser never panics but on a version that starts with a dot and has a second one: it
  looks at the first character of the first component without checking that there is one.
\<close>

theorem semver_panics_iff:
  "(\<exists>p. parseKubeVirtOperatorSemver v = Panic p) \<longleftrightarrow> (\<exists>r. v = CHR ''.'' # r \<and> CHR ''.'' \<in> set r)"
proof -
  let ?ts = "Split v CHR ''.''"
  have hd: "?ts ! 0 = hd ?ts" by (simp add: hd_conv_nth Split_not_Nil)
  have "(\<exists>p. parseKubeVirtOperatorSemver v = Panic p) \<longleftrightarrow> \<not> length ?ts < 3 \<and> hd ?ts = []"
    by (auto simp: parseKubeVirtOperatorSemver_def Let_def index_def hd split: option.splits)
  also have "\<dots> \<longleftrightarrow> (\<exists>r. v = CHR ''.'' # r \<and> CHR ''.'' \<in> set r)"
    by (auto simp: hd_Split_eq_Nil length_Split filter_empty_conv not_less Suc_le_eq)
  finally show ?thesis .
qed

section \<open>Is storage migration possible\<close>

text \<open>What the cluster must offer, as the comments and the release notes the code cites say it.\<close>

definition liveMigrationSupported :: "KubeVirt list \<Rightarrow> bool" where
  "liveMigrationSupported kvs \<longleftrightarrow> (\<exists>kv major minor bugfix gates. kvs = [kv]
     \<and> parseKubeVirtOperatorSemver (kv_OperatorVersion kv) = Ok (major, minor, bugfix)
     \<and> (major > 1 \<or> major = 1 \<and> minor \<ge> 3)
     \<and> kv_VMRolloutStrategy kv = Some ''LiveUpdate'' \<and> kv_FeatureGates kv = Some gates
     \<and> (major > 1 \<or> minor \<ge> 5
        \<or> {''VolumesUpdateStrategy'', ''VolumeMigration'', ''VMLiveUpdateFeatures''} \<subseteq> set gates))"

definition condsOf :: "'w planning \<Rightarrow> Condition list" where
  "condsOf s = st_Conditions (pl_Status (r_Plan s))"

lemma run_setNotPossible:
  "\<exists>w now. setNotPossible cl reason message s = (Ok (), s\<lparr>world := w, r_Plan := (r_Plan s)\<lparr>pl_Status := (pl_Status (r_Plan s))\<lparr>st_Conditions :=
     SetCondition now (mkCondition StorageMigrationNotPossibleType ConditionTrue reason Critical message) (condsOf s)\<rparr>\<rparr>\<rparr>)"
  by (auto simp: setNotPossible_def setCond_def onConditions_def onPlanStatus_def condsOf_def run split: prod.splits)

lemma run_delCond:
  "delCond ty s = (Ok (), s\<lparr>r_Plan := (r_Plan s)\<lparr>pl_Status := (pl_Status (r_Plan s))\<lparr>st_Conditions :=
     DeleteCondition [ty] (condsOf s)\<rparr>\<rparr>\<rparr>)"
  by (simp add: delCond_def onConditions_def onPlanStatus_def condsOf_def run)

text \<open>What the check leaves: the condition on its type, everything else as it was.\<close>

definition judged :: "bool \<Rightarrow> 'w planning \<Rightarrow> unit result \<times> 'w planning \<Rightarrow> bool" where
  "judged bad s rt \<longleftrightarrow> fst rt = Ok () \<and> isTrue (cond_map (condsOf (snd rt)) StorageMigrationNotPossibleType) = bad
     \<and> (\<forall>ty. ty \<noteq> StorageMigrationNotPossibleType \<longrightarrow> cond_map (condsOf (snd rt)) ty = cond_map (condsOf s) ty)"

lemma judged_bad:
  assumes "\<forall>ty. ty \<noteq> StorageMigrationNotPossibleType \<longrightarrow> cond_map (condsOf u) ty = cond_map (condsOf s) ty"
  shows "judged True s (setNotPossible cl reason message u)"
proof -
  let ?c = "mkCondition StorageMigrationNotPossibleType ConditionTrue reason Critical message"
  obtain w now where "setNotPossible cl reason message u = (Ok (), u\<lparr>world := w, r_Plan := (r_Plan u)\<lparr>pl_Status := (pl_Status (r_Plan u))\<lparr>st_Conditions :=
     SetCondition now ?c (condsOf u)\<rparr>\<rparr>\<rparr>)"
    using run_setNotPossible[of cl reason message u] by (elim exE)
  moreover have "isTrue (cond_map (SetCondition now ?c (condsOf u)) StorageMigrationNotPossibleType)"
    using conds.put_status[of now ?c "condsOf u"] by (simp add: mkCondition_def)
  moreover have "cond_map (SetCondition now ?c (condsOf u)) ty = cond_map (condsOf u) ty" if "ty \<noteq> StorageMigrationNotPossibleType" for ty
    using that by (intro conds.lookup_put_other) (simp add: mkCondition_def)
  ultimately show ?thesis using assms by (simp add: judged_def condsOf_def)
qed

text \<open>
  C37. The plan is marked as not possible exactly when the cluster does not have one KubeVirt of
  a version and with the settings that storage live migration needs; conditions of other types
  are left alone.
\<close>

theorem validateKubeVirtInstalled_correct:
  assumes "c_ListKubeVirts cl (world s) = (Inr kvs, w)"
    "\<And>kv p. kvs = [kv] \<Longrightarrow> parseKubeVirtOperatorSemver (kv_OperatorVersion kv) \<noteq> Panic p"
  shows "\<exists>t. validateKubeVirtInstalled cl s = (Ok (), t)
    \<and> HasAnyCondition [StorageMigrationNotPossibleType] (condsOf t) = (\<not> liveMigrationSupported kvs)
    \<and> (\<forall>ty. ty \<noteq> StorageMigrationNotPossibleType \<longrightarrow> cond_map (condsOf t) ty = cond_map (condsOf s) ty)"
proof -
  define u where "u = s\<lparr>r_Plan := (r_Plan s)\<lparr>pl_Status := (pl_Status (r_Plan s))\<lparr>st_Conditions :=
     DeleteCondition [StorageMigrationNotPossibleType] (condsOf s)\<rparr>\<rparr>, world := w\<rparr>"
  have u: "\<forall>ty. ty \<noteq> StorageMigrationNotPossibleType \<longrightarrow> cond_map (condsOf u) ty = cond_map (condsOf s) ty"
    "cond_map (condsOf u) StorageMigrationNotPossibleType = None"
    by (simp_all add: u_def condsOf_def[of "s\<lparr>r_Plan := y, world := x\<rparr>" for x y] conds.lookup_drop)
  note bad = judged_bad[OF u(1)]
  have good: "judged False s (Ok (), u)" using u by (simp add: judged_def isTrue_def)
  note start = validateKubeVirtInstalled_def run_bind run_delCond run_attempt run_query assms(1) run_liftR run_ret u_def[symmetric]
  have "judged (\<not> liveMigrationSupported kvs) s (validateKubeVirtInstalled cl s)"
  proof (cases "length kvs = 1")
    case False
    then have "\<not> liveMigrationSupported kvs" by (auto simp: liveMigrationSupported_def)
    moreover have "length kvs = 0 \<or> length kvs > 1" using False by linarith
    ultimately show ?thesis using bad by (simp add: start)
  next
    case True
    then obtain kv where kv: "kvs = [kv]" by (auto simp: length_Suc_conv)
    show ?thesis
    proof (cases "parseKubeVirtOperatorSemver (kv_OperatorVersion kv)")
      case (Ok v)
      obtain major minor bugfix where v: "v = (major, minor, bugfix)" by (cases v)
      show ?thesis
      proof (cases "liveMigrationSupported kvs")
        case True
        then show ?thesis
          using good kv Ok v by (auto simp: start liveMigrationSupported_def isStorageLiveMigrationDisabled_def split: if_splits)
      next
        case False
        then show ?thesis
          using bad kv Ok v
          by (auto simp: start liveMigrationSupported_def isStorageLiveMigrationDisabled_def split: option.splits)
      qed
    qed (use bad kv assms(2) in \<open>auto simp: start liveMigrationSupported_def\<close>)
  qed
  then show ?thesis
    unfolding judged_def HasAnyCondition_single by (intro exI[of _ "snd (validateKubeVirtInstalled cl s)"]) (auto simp: prod_eq_iff)
qed

definition kubevirtClient :: "unit client" where
  "kubevirtClient = emptyClient\<lparr>c_ListKubeVirts := yields [\<lparr>kv_OperatorVersion = ''v1.6.0'',
     kv_VMRolloutStrategy = Some ''LiveUpdate'', kv_FeatureGates = Some []\<rparr>]\<rparr>"

definition kubevirtState :: "unit planning" where
  "kubevirtState = \<lparr>world = (), trace = [], r_Plan = emptyPlan\<rparr>"

theorem validateKubeVirtInstalled_correct_witness:
  "\<exists>t. validateKubeVirtInstalled kubevirtClient kubevirtState = (Ok (), t)
     \<and> \<not> HasAnyCondition [StorageMigrationNotPossibleType] (condsOf t)"
proof -
  let ?kv = "\<lparr>kv_OperatorVersion = ''v1.6.0'', kv_VMRolloutStrategy = Some ''LiveUpdate'', kv_FeatureGates = Some []\<rparr>"
  have kvs: "c_ListKubeVirts kubevirtClient (world kubevirtState) = (Inr [?kv], ())"
    by (simp add: kubevirtClient_def run)
  have v: "parseKubeVirtOperatorSemver ''v1.6.0'' = Ok (1, 6, 0)" by code_simp
  have "liveMigrationSupported [?kv]" using v by (simp add: liveMigrationSupported_def)
  moreover have "\<And>kv p. [?kv] = [kv] \<Longrightarrow> parseKubeVirtOperatorSemver (kv_OperatorVersion kv) \<noteq> Panic p"
    using v by auto
  ultimately show ?thesis using validateKubeVirtInstalled_correct[OF kvs] by auto
qed

section \<open>Target names\<close>

lemma lastFour_append [simp]: "length sfx = 4 \<Longrightarrow> lastFour (b @ sfx) = sfx"
  by (simp add: lastFour_def)

lemma suffixMatches_mig:
  "length sfx = 4 \<Longrightarrow> list_all suffixChar sfx \<Longrightarrow> suffixMatches (b @ ''-mig-'' @ sfx)"
  using lastFour_append[of sfx "b @ ''-mig-''"] by (auto simp: suffixMatches_def HasSuffix_def suffix_def)

lemma trimSuffix_mig:
  assumes "length sfx = 4" "list_all suffixChar sfx"
  shows "trimSuffix (b @ ''-mig-'' @ sfx) = b"
proof -
  have "lastFour (b @ ''-mig-'' @ sfx) = sfx" using lastFour_append[OF assms(1), of "b @ ''-mig-''"] by simp
  then show ?thesis
    using suffixMatches_mig[OF assms, of b] TrimSuffix_append[of b "''-mig-'' @ sfx"] by (simp add: trimSuffix_def)
qed

lemma trimSuffix_length: "length (trimSuffix s) \<le> length s"
  by (simp add: trimSuffix_def Let_def TrimSuffix_length)

text \<open>
  C36. A generated target name is a valid label: with a suffix of four characters it has at most
  63 characters and ends in \<open>-mig-\<close> and the suffix, however long the source name is.
\<close>

theorem target_name_bounded:
  assumes "length sfx = 4" "targetPVCName None source (Some sfx) = Ok t"
  shows "length t \<le> 63 \<and> (\<exists>b. t = b @ ''-mig-'' @ sfx)"
proof -
  have t: "t = GetName (trimSuffix source) (''mig-'' @ sfx) 63"
    using assms(2) by (simp add: targetPVCName_def DNS1035LabelMaxLength_def)
  have "\<exists>b. t = b @ ''-'' @ (''mig-'' @ sfx)" unfolding t by (rule GetName_keeps_suffix) (simp add: assms(1))
  then show ?thesis using GetName_length[of "trimSuffix source" "''mig-'' @ sfx" 63] t by auto
qed

theorem target_name_bounded_witness:
  "\<exists>t. targetPVCName None (replicate 60 (CHR ''a'')) (Some ''x7kq'') = Ok t \<and> length t \<le> 63"
  using target_name_bounded[of "''x7kq''" "replicate 60 (CHR ''a'')"] by (simp add: targetPVCName_def)

text \<open>
  Suffixes do not pile up: migrating a claim that is itself the target of an earlier
  migration replaces the suffix, it does not add one.  For a base name that leaves room for the
  suffix, the second migration gives the name the first would have given with the new suffix,
  and a generated name is the name of its source only if the source carries the very suffix.
\<close>

theorem target_names_do_not_stack:
  assumes "length sfx = 4" "list_all suffixChar sfx" "length (trimSuffix source) \<le> 54"
    "targetPVCName None source (Some sfx) = Ok t"
  shows "trimSuffix t = trimSuffix source
    \<and> targetPVCName None t new = targetPVCName None source new
    \<and> (t = source \<longleftrightarrow> HasSuffix source (''-mig-'' @ sfx))"
proof -
  have "t = GetName (trimSuffix source) (''mig-'' @ sfx) 63"
    using assms(4) by (simp add: targetPVCName_def DNS1035LabelMaxLength_def)
  also have "\<dots> = trimSuffix source @ ''-'' @ (''mig-'' @ sfx)"
    by (rule GetName_short) (use assms(1,3) in auto)
  finally have t: "t = trimSuffix source @ ''-mig-'' @ sfx" by simp
  have trim: "trimSuffix t = trimSuffix source" unfolding t by (rule trimSuffix_mig[OF assms(1,2)])
  have "t = source" if sfx: "HasSuffix source (''-mig-'' @ sfx)"
  proof -
    obtain b where b: "source = b @ ''-mig-'' @ sfx" using sfx by (auto simp: HasSuffix_def suffix_def)
    then show ?thesis using t trimSuffix_mig[OF assms(1,2), of b] by simp
  qed
  moreover have "HasSuffix source (''-mig-'' @ sfx)" if "t = source"
    unfolding HasSuffix_def suffix_def using that t by (intro exI[of _ "trimSuffix source"]) simp
  ultimately show ?thesis using trim by (auto simp: targetPVCName_def split: option.splits)
qed

theorem target_names_do_not_stack_witness:
  "targetPVCName None ''root-mig-aaaa'' (Some ''bbbb'') = Ok ''root-mig-bbbb''
   \<and> trimSuffix ''root-mig-bbbb'' = ''root''"
proof -
  have s: "targetPVCName None ''root-mig-aaaa'' (Some ''bbbb'') = Ok ''root-mig-bbbb''"
      "trimSuffix ''root-mig-aaaa'' = ''root''" "list_all suffixChar ''bbbb''"
    by code_simp+
  with target_names_do_not_stack[of "''bbbb''" "''root-mig-aaaa''" "''root-mig-bbbb''"] show ?thesis by simp
qed

end
