(* ===== verification/GoHeap.thy ===== *)
theory GoHeap
  imports Prelude
begin

text \<open>
  Shared memory.  Most of the development treats objects as values; this theory is the store
  behind the few places where sharing decides: slices that grow in place and the generated deep
  copies.  A heap maps an address to the array stored there and knows the next free address; a
  pointer is the address of an array with one element.  Slices start at the beginning of their
  array, as every slice of the source does, so the capacity of a slice is the length of its array.
\<close>

section \<open>Heaps\<close>

record 'v heap =
  cells :: "nat \<Rightarrow> 'v list"
  lim :: nat

definition alloc :: "'v list \<Rightarrow> 'v heap \<Rightarrow> nat \<times> 'v heap" where
  "alloc xs h = (lim h, h\<lparr>cells := (cells h)(lim h := xs), lim := lim h + 1\<rparr>)"

definition store :: "nat \<Rightarrow> nat \<Rightarrow> 'v \<Rightarrow> 'v heap \<Rightarrow> 'v heap" where
  "store a i x h = h\<lparr>cells := (cells h)(a := (cells h a)[i := x])\<rparr>"

text \<open>\<open>extends h h'\<close>: everything allocated in \<open>h\<close> is unchanged in \<open>h'\<close>.\<close>

definition extends :: "'v heap \<Rightarrow> 'v heap \<Rightarrow> bool" where
  "extends h h' \<longleftrightarrow> lim h \<le> lim h' \<and> (\<forall>a<lim h. cells h' a = cells h a)"

lemma extends_refl [simp]: "extends h h"
  by (simp add: extends_def)

lemma extends_trans: "extends h h' \<Longrightarrow> extends h' h'' \<Longrightarrow> extends h h''"
  by (auto simp: extends_def)

lemma extends_lim: "extends h h' \<Longrightarrow> lim h \<le> lim h'"
  by (simp add: extends_def)

lemma extends_cells: "extends h h' \<Longrightarrow> a < lim h \<Longrightarrow> cells h' a = cells h a"
  by (simp add: extends_def)

lemma alloc_extends: "alloc xs h = (a, h') \<Longrightarrow> extends h h' \<and> a = lim h \<and> lim h' = lim h + 1 \<and> cells h' a = xs"
  by (auto simp: alloc_def extends_def)

lemma store_extends: "extends h h' \<Longrightarrow> lim h \<le> a \<Longrightarrow> extends h (store a i x h')"
  by (auto simp: extends_def store_def)

lemma store_sel [simp]:
  "lim (store a i x h) = lim h" "cells (store a i x h) a = (cells h a)[i := x]"
  "b \<noteq> a \<Longrightarrow> cells (store a i x h) b = cells h b"
  by (simp_all add: store_def)

section \<open>Slices\<close>

record slice =
  sl_arr :: nat
  sl_len :: nat

definition contents :: "'v heap \<Rightarrow> slice option \<Rightarrow> 'v list" where
  "contents h s = (case s of None \<Rightarrow> [] | Some t \<Rightarrow> take (sl_len t) (cells h (sl_arr t)))"

definition slcap :: "'v heap \<Rightarrow> slice option \<Rightarrow> nat" where
  "slcap h s = (case s of None \<Rightarrow> 0 | Some t \<Rightarrow> length (cells h (sl_arr t)))"

definition slen :: "slice option \<Rightarrow> nat" where
  "slen s = (case s of None \<Rightarrow> 0 | Some t \<Rightarrow> sl_len t)"

definition slice_ok :: "'v heap \<Rightarrow> slice option \<Rightarrow> bool" where
  "slice_ok h s \<longleftrightarrow> slen s \<le> slcap h s \<and> (\<forall>t. s = Some t \<longrightarrow> sl_arr t < lim h)"

text \<open>
  \<open>append(s, x)\<close>: a slice with room is extended in place; otherwise the elements move to a new
  array.  The language promises only that the new array is large enough; \<open>grow newLen oldCap\<close> is
  the capacity the runtime chooses and \<open>z\<close> the zero value of the element type.
\<close>

definition goAppend :: "(nat \<Rightarrow> nat \<Rightarrow> nat) \<Rightarrow> 'v \<Rightarrow> slice option \<Rightarrow> 'v \<Rightarrow> 'v heap \<Rightarrow> slice option \<times> 'v heap" where
  "goAppend grow z s x h =
     (let n = slen s in
      if n < slcap h s then
        (case s of
           Some t \<Rightarrow> (Some \<lparr>sl_arr = sl_arr t, sl_len = n + 1\<rparr>, store (sl_arr t) n x h)
         | None \<Rightarrow> (None, h))
      else
        let c = max (n + 1) (grow (n + 1) (slcap h s));
            (a, h') = alloc (contents h s @ [x] @ replicate (c - (n + 1)) z) h
        in (Some \<lparr>sl_arr = a, sl_len = n + 1\<rparr>, h'))"

text \<open>\<open>nextslicecap\<close> of the Go runtime for small slices: the capacity doubles.\<close>

definition goGrow :: "nat \<Rightarrow> nat \<Rightarrow> nat" where
  "goGrow newLen oldCap = (if newLen > 2 * oldCap then newLen else 2 * oldCap)"

lemma contents_length: "slice_ok h s \<Longrightarrow> length (contents h s) = slen s"
  by (auto simp: slice_ok_def contents_def slen_def slcap_def split: option.splits)

lemma goAppend_contents:
  assumes "slice_ok h s" "goAppend grow z s x h = (s', h')"
  shows "contents h' s' = contents h s @ [x] \<and> slice_ok h' s' \<and> slen s' = slen s + 1"
proof (cases "slen s < slcap h s")
  case True
  then obtain t where t: "s = Some t" by (cases s) (auto simp: slcap_def slen_def)
  with True have n: "sl_len t < length (cells h (sl_arr t))" by (simp add: slen_def slcap_def)
  with True t assms show ?thesis
    by (auto simp: goAppend_def contents_def slen_def slcap_def slice_ok_def store_def take_Suc_conv_app_nth Let_def)
next
  case False
  with contents_length[OF assms(1)] assms show ?thesis
    by (auto simp: goAppend_def Let_def alloc_def contents_def[of h'] slen_def[of "Some _"] slcap_def[of h'] slice_ok_def)
qed

text \<open>A full slice is never extended in place: what was there before stays.\<close>

lemma goAppend_full:
  assumes "slice_ok h s" "slcap h s = slen s" "goAppend grow z s x h = (s', h')"
  shows "extends h h' \<and> (\<forall>t. s' = Some t \<longrightarrow> sl_arr t = lim h)
    \<and> slcap h' s' = max (slen s + 1) (grow (slen s + 1) (slen s))"
  using assms contents_length[OF assms(1)]
  by (auto simp: goAppend_def Let_def alloc_def extends_def slcap_def[of h'])

lemma extends_contents: "extends h h' \<Longrightarrow> slice_ok h s \<Longrightarrow> contents h' s = contents h s \<and> slice_ok h' s \<and> slcap h' s = slcap h s"
  by (auto simp: extends_def slice_ok_def contents_def slcap_def slen_def split: option.splits)

end
