(* ===== verification/DeepCopy.thy ===== *)
theory DeepCopy
  imports GoHeap
begin

text \<open>
  What a deep copy is, and the statements that \<open>zz_generated.deepcopy.go\<close> is made of.  A Go
  value is a basic value, a struct, or a reference into the heap; a Go type says where the
  references are.  \<open>view\<close> unfolds a value into the tree it stands for, and \<open>deep T c\<close> says that
  the copier \<open>c\<close> makes a deep copy at type \<open>T\<close>: the same tree, made of new memory only, with
  the memory that was there untouched.
\<close>

section \<open>Values and types\<close>

datatype gval =
    Basic string
  | GNil
  | Ptr nat
  | Slc nat nat
  | Struct "(string \<times> gval) list"

text \<open>A map is a reference to its entries: \<open>TPtr (TSlice (TStruct ...))\<close>.\<close>

datatype gtype =
    TBasic
  | TPtr gtype
  | TSlice gtype
  | TStruct "(string \<times> gtype) list"

datatype tree =
    Leaf string
  | Absent
  | Box tree
  | Items "tree list"
  | Fields "(string \<times> tree) list"

fun field :: "gval \<Rightarrow> string \<Rightarrow> gval" where
  "field (Struct vs) f = (case map_of vs f of Some v \<Rightarrow> v | None \<Rightarrow> GNil)"
| "field _ f = GNil"

fun setField :: "string \<Rightarrow> gval \<Rightarrow> gval \<Rightarrow> gval" where
  "setField f x (Struct vs) = Struct (map (\<lambda>(g, v). (g, if g = f then x else v)) vs)"
| "setField f x v = v"

fun names :: "gval \<Rightarrow> string list" where
  "names (Struct vs) = map fst vs"
| "names _ = []"

fun isStruct :: "gval \<Rightarrow> bool" where
  "isStruct (Struct _) = True"
| "isStruct _ = False"

text \<open>A value of type \<open>T\<close>: its references point at allocated memory of the right type.\<close>

fun wt :: "gval heap \<Rightarrow> gtype \<Rightarrow> gval \<Rightarrow> bool" where
  "wt h TBasic v \<longleftrightarrow> (case v of Basic _ \<Rightarrow> True | _ \<Rightarrow> False)"
| "wt h (TPtr T) v \<longleftrightarrow> (case v of
      GNil \<Rightarrow> True
    | Ptr a \<Rightarrow> a < lim h \<and> cells h a \<noteq> [] \<and> wt h T (hd (cells h a))
    | _ \<Rightarrow> False)"
| "wt h (TSlice T) v \<longleftrightarrow> (case v of
      GNil \<Rightarrow> True
    | Slc a n \<Rightarrow> a < lim h \<and> n \<le> length (cells h a) \<and> (\<forall>x\<in>set (take n (cells h a)). wt h T x)
    | _ \<Rightarrow> False)"
| "wt h (TStruct fs) v \<longleftrightarrow> isStruct v \<and> names v = map fst fs \<and> (\<forall>(f, T)\<in>set fs. wt h T (field v f))"

fun view :: "gval heap \<Rightarrow> gtype \<Rightarrow> gval \<Rightarrow> tree" where
  "view h TBasic v = (case v of Basic s \<Rightarrow> Leaf s | _ \<Rightarrow> Absent)"
| "view h (TPtr T) v = (case v of Ptr a \<Rightarrow> Box (view h T (hd (cells h a))) | _ \<Rightarrow> Absent)"
| "view h (TSlice T) v = (case v of Slc a n \<Rightarrow> Items (map (view h T) (take n (cells h a))) | _ \<Rightarrow> Absent)"
| "view h (TStruct fs) v = Fields (map (\<lambda>(f, T). (f, view h T (field v f))) fs)"

fun reach :: "gval heap \<Rightarrow> gtype \<Rightarrow> gval \<Rightarrow> nat set" where
  "reach h TBasic v = {}"
| "reach h (TPtr T) v = (case v of Ptr a \<Rightarrow> insert a (reach h T (hd (cells h a))) | _ \<Rightarrow> {})"
| "reach h (TSlice T) v = (case v of Slc a n \<Rightarrow> insert a (\<Union>x\<in>set (take n (cells h a)). reach h T x) | _ \<Rightarrow> {})"
| "reach h (TStruct fs) v = (\<Union>(f, T)\<in>set fs. reach h T (field v f))"

text \<open>A type without references: an assignment copies it.\<close>

fun flat :: "gtype \<Rightarrow> bool" where
  "flat TBasic = True"
| "flat (TPtr _) = False"
| "flat (TSlice _) = False"
| "flat (TStruct fs) = (\<forall>(f, T)\<in>set fs. flat T)"

section \<open>The statements of the generated code\<close>

type_synonym copier = "gval \<Rightarrow> gval heap \<Rightarrow> gval \<times> gval heap"

text \<open>\<open>*out = *in\<close>.\<close>

definition assign :: copier where
  "assign v h = (v, h)"

text \<open>\<open>if in.F != nil { *out = new(T); (*in).DeepCopyInto(*out) }\<close>; the rest of the value is kept.\<close>

definition newPtr :: "copier \<Rightarrow> copier" where
  "newPtr c v h = (case v of
       Ptr a \<Rightarrow> (case alloc [GNil] h of (b, h1) \<Rightarrow>
         (case c (hd (cells h1 a)) h1 of (x, h2) \<Rightarrow> (Ptr b, store b 0 x h2)))
     | _ \<Rightarrow> (v, h))"

text \<open>\<open>for i := range *in { (*in)[i].DeepCopyInto(&(*out)[i]) }\<close>, from \<open>i\<close> on for \<open>n\<close> elements.\<close>

fun copyLoop :: "copier \<Rightarrow> nat \<Rightarrow> nat \<Rightarrow> nat \<Rightarrow> nat \<Rightarrow> gval heap \<Rightarrow> gval heap" where
  "copyLoop c a b i 0 h = h"
| "copyLoop c a b i (Suc n) h = (case c (cells h a ! i) h of (x, h') \<Rightarrow> copyLoop c a b (Suc i) n (store b i x h'))"

definition makeSlice :: "copier \<Rightarrow> copier" where
  "makeSlice c v h = (case v of
       Slc a n \<Rightarrow> (case alloc (replicate n GNil) h of (b, h1) \<Rightarrow> (Slc b n, copyLoop c a b 0 n h1))
     | _ \<Rightarrow> (v, h))"

text \<open>\<open>*out = make([]T, len(*in)); copy(*out, *in)\<close>.\<close>

definition copySlice :: copier where
  "copySlice v h = (case v of
       Slc a n \<Rightarrow> (case alloc (replicate n GNil) h of (b, h1) \<Rightarrow>
         (Slc b n, h1\<lparr>cells := (cells h1)(b := take n (cells h1 a))\<rparr>))
     | _ \<Rightarrow> (v, h))"

text \<open>\<open>*out = *in\<close> followed by one statement per field that holds references.\<close>

fun copyFields :: "(string \<times> copier) list \<Rightarrow> gval \<Rightarrow> gval \<Rightarrow> gval heap \<Rightarrow> gval \<times> gval heap" where
  "copyFields [] inn out h = (out, h)"
| "copyFields ((f, c) # cs) inn out h = (case c (field inn f) h of (x, h') \<Rightarrow> copyFields cs inn (setField f x out) h')"

definition copyInto :: "(string \<times> copier) list \<Rightarrow> copier" where
  "copyInto cs v h = copyFields cs v v h"

section \<open>Deep copies\<close>

text \<open>\<open>v'\<close> in \<open>h'\<close> is a copy of \<open>v\<close> in \<open>h\<close>: the same tree, made of what was allocated since.\<close>

definition copyOf :: "gtype \<Rightarrow> gval heap \<Rightarrow> gval \<Rightarrow> gval heap \<Rightarrow> gval \<Rightarrow> bool" where
  "copyOf T h v h' v' \<longleftrightarrow> wt h' T v' \<and> view h' T v' = view h T v \<and> reach h' T v' \<subseteq> {lim h..<lim h'}"

definition deep :: "gtype \<Rightarrow> copier \<Rightarrow> bool" where
  "deep T c \<longleftrightarrow> (\<forall>v h v' h'. wt h T v \<longrightarrow> c v h = (v', h') \<longrightarrow> extends h h' \<and> copyOf T h v h' v')"

lemma deepI:
  "(\<And>v h v' h'. wt h T v \<Longrightarrow> c v h = (v', h') \<Longrightarrow> extends h h' \<and> copyOf T h v h' v') \<Longrightarrow> deep T c"
  by (simp add: deep_def)

lemma deepD: "deep T c \<Longrightarrow> wt h T v \<Longrightarrow> c v h = (v', h') \<Longrightarrow> extends h h' \<and> copyOf T h v h' v'"
  unfolding deep_def by blast

lemma wt_reach: "wt h T v \<Longrightarrow> reach h T v \<subseteq> {..<lim h}"
proof (induction T arbitrary: v)
  case (TStruct fs)
  then show ?case by (fastforce simp: Basic_BNFs.snds.simps)
qed (auto split: gval.splits)

text \<open>A value does not notice changes outside of what it reaches.\<close>

lemma view_frame:
  assumes "\<And>a. a \<in> reach h T v \<Longrightarrow> cells h' a = cells h a" "lim h \<le> lim h'" "wt h T v"
  shows "wt h' T v \<and> view h' T v = view h T v \<and> reach h' T v = reach h T v"
  using assms(1,3)
proof (induction T arbitrary: v)
  case TBasic
  then show ?case by simp
next
  case (TPtr T)
  then show ?case using assms(2) by (auto split: gval.splits)
next
  case (TSlice T)
  show ?case
  proof (cases v)
    case (Slc a n)
    with TSlice.prems have eq: "cells h' a = cells h a" by auto
    have ih: "wt h' T x \<and> view h' T x = view h T x \<and> reach h' T x = reach h T x" if "x \<in> set (take n (cells h a))" for x
      using TSlice.IH[of x] TSlice.prems that Slc by auto
    show ?thesis using Slc eq ih TSlice.prems assms(2) by (auto cong: map_cong)
  qed (use TSlice.prems in auto)
next
  case (TStruct fs)
  have ih: "wt h' T (field v f) \<and> view h' T (field v f) = view h T (field v f) \<and> reach h' T (field v f) = reach h T (field v f)"
    if "(f, T) \<in> set fs" for f T
  proof (rule TStruct.IH[OF that])
    show "T \<in> Basic_BNFs.snds (f, T)" by (simp add: Basic_BNFs.snds.simps)
    show "wt h T (field v f)" using TStruct.prems(2) that by auto
    show "cells h' a = cells h a" if "a \<in> reach h T (field v f)" for a
      using TStruct.prems(1)[of a] that \<open>(f, T) \<in> set fs\<close> by auto
  qed
  have "(\<Union>(f, T)\<in>set fs. reach h' T (field v f)) = (\<Union>(f, T)\<in>set fs. reach h T (field v f))"
    using ih by (intro SUP_cong refl) auto
  moreover have "map (\<lambda>(f, T). (f, view h' T (field v f))) fs = map (\<lambda>(f, T). (f, view h T (field v f))) fs"
    using ih by (intro map_cong refl) auto
  ultimately show ?case using ih TStruct.prems(2) by auto
qed

lemma view_extends: "extends h h' \<Longrightarrow> wt h T v \<Longrightarrow> wt h' T v \<and> view h' T v = view h T v \<and> reach h' T v = reach h T v"
  using view_frame[of h T v h'] wt_reach[of h T v] by (auto simp: extends_def)

lemma flat_reach: "flat T \<Longrightarrow> reach h T v = {}"
  by (induction T arbitrary: v) (fastforce simp: Basic_BNFs.snds.simps)+

lemma copyOf_frame:
  assumes "copyOf T h v h' v'" "\<And>k. lim h \<le> k \<Longrightarrow> k < lim h' \<Longrightarrow> cells h'' k = cells h' k" "lim h' \<le> lim h''"
  shows "copyOf T h v h'' v'"
proof -
  have "cells h'' k = cells h' k" if "k \<in> reach h' T v'" for k
    using assms(1,2) that by (auto simp: copyOf_def)
  from view_frame[of h' T v' h'', OF this assms(3)] assms(1,3) show ?thesis by (auto simp: copyOf_def)
qed

lemma copyOf_source: "copyOf T g v h' v' \<Longrightarrow> view g T v = view h T v \<Longrightarrow> lim h \<le> lim g \<Longrightarrow> copyOf T h v h' v'"
  by (auto simp: copyOf_def)

lemma copyOf_extends: "copyOf T h v h' v' \<Longrightarrow> extends h' h'' \<Longrightarrow> copyOf T h v h'' v'"
  by (erule copyOf_frame) (auto simp: extends_def)

lemma copyOf_since: "copyOf T g v h' v' \<Longrightarrow> extends h g \<Longrightarrow> wt h T v \<Longrightarrow> copyOf T h v h' v'"
  by (erule copyOf_source) (auto simp: view_extends extends_lim)

lemma copyOf_store: "copyOf T h v h' v' \<Longrightarrow> b < lim h \<Longrightarrow> copyOf T h v (store b i x h') v'"
  by (erule copyOf_frame) auto

lemma deep_assign: "flat T \<Longrightarrow> deep T assign"
  by (simp add: deep_def copyOf_def assign_def flat_reach)

lemma deep_newPtr:
  assumes "deep T c"
  shows "deep (TPtr T) (newPtr c)"
proof (rule deepI)
  fix v h v' h'
  assume wt: "wt h (TPtr T) v" and run: "newPtr c v h = (v', h')"
  show "extends h h' \<and> copyOf (TPtr T) h v h' v'"
  proof (cases v)
    case (Ptr a)
    obtain b h1 where al: "alloc [GNil] h = (b, h1)" by fastforce
    note b = alloc_extends[OF al]
    obtain x h2 where cp: "c (hd (cells h1 a)) h1 = (x, h2)" by fastforce
    from run Ptr al cp have v': "v' = Ptr b" and h': "h' = store b 0 x h2" by (auto simp: newPtr_def)
    from wt Ptr b have eq: "cells h1 a = cells h a" and w: "wt h T (hd (cells h a))" by (auto simp: extends_def)
    have w1: "wt h1 T (hd (cells h1 a))" using view_extends[of h h1, OF _ w] b eq by simp
    have d: "extends h1 h2" "copyOf T h1 (hd (cells h1 a)) h2 x" using deepD[OF assms w1 cp] by blast+
    have b2: "b < lim h2" "cells h2 b = [GNil]" using extends_lim[OF d(1)] extends_cells[OF d(1), of b] b by auto
    have x: "copyOf T h (hd (cells h a)) h' x"
      unfolding h' by (rule copyOf_since[OF copyOf_store]) (use d(2) eq b w in auto)
    have "extends h h2" using b d(1) by (blast intro: extends_trans)
    then have "extends h h'" unfolding h' by (rule store_extends) (simp add: b)
    then show ?thesis using x b b2 unfolding v' Ptr h' by (auto simp: copyOf_def)
  qed (use wt run in \<open>auto simp: newPtr_def copyOf_def\<close>)
qed

lemma deep_copySlice:
  assumes "flat T"
  shows "deep (TSlice T) copySlice"
proof (rule deepI)
  fix v h v' h'
  assume wt: "wt h (TSlice T) v" and run: "copySlice v h = (v', h')"
  show "extends h h' \<and> copyOf (TSlice T) h v h' v'"
  proof (cases v)
    case (Slc a n)
    obtain b h1 where al: "alloc (replicate n GNil) h = (b, h1)" by fastforce
    note b = alloc_extends[OF al]
    from wt Slc b have eq: "cells h1 a = cells h a" by (auto simp: extends_def)
    from run Slc al have v': "v' = Slc b n" and h': "h' = h1\<lparr>cells := (cells h1)(b := take n (cells h a))\<rparr>"
      by (auto simp: copySlice_def eq)
    have ext: "extends h h'" using b by (auto simp: extends_def h')
    have elem: "wt h' T x \<and> view h' T x = view h T x \<and> reach h' T x = {}" if "x \<in> set (take n (cells h a))" for x
      using view_extends[OF ext, of T x] wt Slc that flat_reach[OF assms] by auto
    show ?thesis using ext elem wt Slc b unfolding v' by (auto simp: h' copyOf_def cong: map_cong)
  qed (use wt run in \<open>auto simp: copySlice_def copyOf_def\<close>)
qed

text \<open>The loop: the elements before \<open>i\<close> are copied, the rest of the target is still to be filled.\<close>

lemma copyLoop_copies:
  assumes "deep T c"
  shows "copyLoop c a b i n h = h' \<Longrightarrow> a < b \<Longrightarrow> b < lim h \<Longrightarrow> i + n \<le> length (cells h b) \<Longrightarrow>
    (\<And>j. i \<le> j \<Longrightarrow> j < i + n \<Longrightarrow> wt h T (cells h a ! j) \<and> b \<notin> reach h T (cells h a ! j)) \<Longrightarrow>
    lim h \<le> lim h' \<and> (\<forall>k<lim h. k \<noteq> b \<longrightarrow> cells h' k = cells h k) \<and> length (cells h' b) = length (cells h b)
    \<and> (\<forall>j<i. cells h' b ! j = cells h b ! j)
    \<and> (\<forall>j. i \<le> j \<and> j < i + n \<longrightarrow> copyOf T h (cells h a ! j) h' (cells h' b ! j))"
proof (induction n arbitrary: i h)
  case 0
  then show ?case by auto
next
  case (Suc n)
  obtain x h1 where cp: "c (cells h a ! i) h = (x, h1)" by fastforce
  have w: "wt h T (cells h a ! i)" using Suc.prems(5)[of i] by simp
  have d: "extends h h1" "copyOf T h (cells h a ! i) h1 x" using deepD[OF assms w cp] by blast+
  let ?g = "store b i x h1"
  have ga: "cells ?g a = cells h a" and gb: "cells ?g b = (cells h b)[i := x]" and lims: "lim h \<le> lim ?g"
    using d(1) Suc.prems(2,3) by (auto simp: extends_def)
  have todo: "wt ?g T (cells h a ! j) \<and> b \<notin> reach ?g T (cells h a ! j) \<and> view ?g T (cells h a ! j) = view h T (cells h a ! j)"
    if "Suc i \<le> j" "j < Suc i + n" for j
  proof -
    have y: "wt h T (cells h a ! j)" "b \<notin> reach h T (cells h a ! j)" using Suc.prems(5)[of j] that by auto
    have "cells ?g k = cells h k" if "k \<in> reach h T (cells h a ! j)" for k
      using wt_reach[OF y(1)] y(2) that d(1) by (cases "k = b") (auto simp: extends_def)
    from view_frame[of h T "cells h a ! j" ?g, OF this lims y(1)] y(2) show ?thesis by auto
  qed
  have rest: "copyLoop c a b (Suc i) n ?g = h'" using Suc.prems(1) cp by simp
  have ih: "lim ?g \<le> lim h' \<and> (\<forall>k<lim ?g. k \<noteq> b \<longrightarrow> cells h' k = cells ?g k) \<and> length (cells h' b) = length (cells ?g b)
    \<and> (\<forall>j<Suc i. cells h' b ! j = cells ?g b ! j)
    \<and> (\<forall>j. Suc i \<le> j \<and> j < Suc i + n \<longrightarrow> copyOf T ?g (cells ?g a ! j) h' (cells h' b ! j))"
    by (rule Suc.IH[OF rest]) (use Suc.prems(2-4) lims todo extends_cells[OF d(1) Suc.prems(3)] in \<open>simp_all add: ga\<close>)
  have at_i: "cells h' b ! i = x" using ih Suc.prems(4) gb by simp
  have here: "copyOf T h (cells h a ! i) h' x"
    by (rule copyOf_frame[OF copyOf_store[OF d(2) Suc.prems(3), of i x]]) (use ih Suc.prems(3) in auto)
  have later: "copyOf T h (cells h a ! j) h' (cells h' b ! j)" if "Suc i \<le> j" "j < Suc i + n" for j
    by (rule copyOf_source[where g = ?g]) (use ih todo[OF that] that lims ga in auto)
  have "copyOf T h (cells h a ! j) h' (cells h' b ! j)" if "i \<le> j" "j < i + Suc n" for j
    using here later[of j] at_i that by (cases "j = i") auto
  moreover have "\<forall>k<lim h. k \<noteq> b \<longrightarrow> cells h' k = cells h k" using ih lims d(1) by (simp add: extends_def)
  moreover have "cells h1 b = cells h b" by (rule extends_cells[OF d(1) Suc.prems(3)])
  ultimately show ?case using ih lims by simp
qed

lemma deep_makeSlice:
  assumes "deep T c"
  shows "deep (TSlice T) (makeSlice c)"
proof (rule deepI)
  fix v h v' h'
  assume wt: "wt h (TSlice T) v" and run: "makeSlice c v h = (v', h')"
  show "extends h h' \<and> copyOf (TSlice T) h v h' v'"
  proof (cases v)
    case (Slc a n)
    obtain b h1 where al: "alloc (replicate n GNil) h = (b, h1)" by fastforce
    note b = alloc_extends[OF al]
    from wt Slc b have eq: "cells h1 a = cells h a" and a: "a < b" "n \<le> length (cells h a)" by (auto simp: extends_def)
    from run Slc al have v': "v' = Slc b n" and h': "copyLoop c a b 0 n h1 = h'" by (auto simp: makeSlice_def)
    have src: "wt h T (cells h a ! j) \<and> wt h1 T (cells h a ! j) \<and> b \<notin> reach h1 T (cells h a ! j)" if "j < n" for j
    proof -
      have "cells h a ! j \<in> set (take n (cells h a))" using that a(2) by (auto simp: in_set_conv_nth)
      then have w: "wt h T (cells h a ! j)" using wt Slc by auto
      show ?thesis using w view_extends[of h h1, OF _ w] b wt_reach[OF w] by auto
    qed
    have len: "length (cells h1 b) = n" by (metis b length_replicate)
    have loop: "lim h1 \<le> lim h' \<and> (\<forall>k<lim h1. k \<noteq> b \<longrightarrow> cells h' k = cells h1 k) \<and> length (cells h' b) = length (cells h1 b)
      \<and> (\<forall>j<0. cells h' b ! j = cells h1 b ! j)
      \<and> (\<forall>j. 0 \<le> j \<and> j < 0 + n \<longrightarrow> copyOf T h1 (cells h1 a ! j) h' (cells h' b ! j))"
      by (rule copyLoop_copies[OF assms h']) (use b a src len in \<open>auto simp: eq\<close>)
    have copies: "copyOf T h (cells h a ! j) h' (cells h' b ! j)" if "j < n" for j
      by (rule copyOf_since[where g = h1]) (use loop b eq that src in auto)
    have "map (view h' T) (cells h' b) = map (view h T) (take n (cells h a))"
      using copies loop len a(2) by (auto simp: copyOf_def intro!: nth_equalityI)
    moreover have "wt h' T x \<and> reach h' T x \<subseteq> {lim h..<lim h'}" if "x \<in> set (cells h' b)" for x
      using that copies loop len by (metis copyOf_def in_set_conv_nth)
    moreover have "extends h h'" using loop b by (auto simp: extends_def)
    ultimately show ?thesis using loop b len unfolding v' Slc by (auto simp: copyOf_def)
  qed (use wt run in \<open>auto simp: makeSlice_def copyOf_def\<close>)
qed

section \<open>Structs\<close>

lemma setField_struct [simp]:
  "isStruct v \<Longrightarrow> isStruct (setField f x v)" "names (setField f x v) = names v"
  "isStruct v \<Longrightarrow> g \<in> set (names v) \<Longrightarrow> field (setField f x v) g = (if g = f then x else field v g)"
proof -
  show "isStruct v \<Longrightarrow> isStruct (setField f x v)" by (cases v) simp_all
  show "names (setField f x v) = names v" by (cases v) auto
  assume st: "isStruct v" and g: "g \<in> set (names v)"
  from st obtain vs where v: "v = Struct vs" by (cases v) auto
  have "map_of (map (\<lambda>(g, v). (g, if g = f then x else v)) ws) g
      = (if g = f then map_option (\<lambda>_. x) (map_of ws g) else map_of ws g)" for ws
    by (induction ws) auto
  moreover from g v obtain y where "map_of vs g = Some y" by (cases "map_of vs g") (auto simp: map_of_eq_None_iff)
  ultimately show "field (setField f x v) g = (if g = f then x else field v g)" by (auto simp: v)
qed

text \<open>The statements for the fields read the original only, which none of them changes.\<close>

lemma copyFields_copies:
  assumes "wt h (TStruct fs) inn"
  shows "copyFields cs inn out h = (out', h') \<Longrightarrow> isStruct out \<Longrightarrow> names out = map fst fs \<Longrightarrow> distinct (map fst cs) \<Longrightarrow>
    (\<And>f c. (f, c) \<in> set cs \<Longrightarrow> \<exists>T. (f, T) \<in> set fs \<and> deep T c) \<Longrightarrow>
    extends h h' \<and> isStruct out' \<and> names out' = map fst fs
    \<and> (\<forall>f \<in> fst ` set fs - fst ` set cs. field out' f = field out f)
    \<and> (\<forall>f c T. (f, c) \<in> set cs \<longrightarrow> (f, T) \<in> set fs \<longrightarrow> deep T c \<longrightarrow> copyOf T h (field inn f) h' (field out' f))"
  using assms
proof (induction cs arbitrary: out h)
  case (Cons p cs)
  obtain f c where p: "p = (f, c)" by fastforce
  obtain x h1 where cp: "c (field inn f) h = (x, h1)" by fastforce
  obtain T where T: "(f, T) \<in> set fs" "deep T c" using Cons.prems(5) p by auto
  have w: "wt h T' (field inn g)" if "(g, T') \<in> set fs" for g T' using Cons.prems(6) that by auto
  have ext: "extends h h1" using deepD[OF T(2) w[OF T(1)] cp] by blast
  have w1: "wt h1 (TStruct fs) inn" using view_extends[OF ext Cons.prems(6)] by blast
  have rest: "copyFields cs inn (setField f x out) h1 = (out', h')" using Cons.prems(1) p cp by simp
  note ih = Cons.IH[OF rest _ _ _ _ w1]
  have ih: "extends h1 h' \<and> isStruct out' \<and> names out' = map fst fs
    \<and> (\<forall>g \<in> fst ` set fs - fst ` set cs. field out' g = field (setField f x out) g)
    \<and> (\<forall>g c T. (g, c) \<in> set cs \<longrightarrow> (g, T) \<in> set fs \<longrightarrow> deep T c \<longrightarrow> copyOf T h1 (field inn g) h' (field out' g))"
    by (rule ih) (use Cons.prems(2-5) p in auto)
  have f: "f \<in> fst ` set fs - fst ` set cs" "f \<in> set (names out)" using T(1) Cons.prems(3,4) p by force+
  have out'_f: "field out' f = x" using ih f Cons.prems(2) by simp
  have keep: "\<forall>g \<in> fst ` set fs - fst ` set (p # cs). field out' g = field out g"
    using ih p Cons.prems(2,3) by auto
  have ext': "extends h1 h'" using ih by blast
  have head: "copyOf T' h (field inn f) h' (field out' f)" if "(f, T') \<in> set fs" "deep T' c" for T'
    unfolding out'_f using deepD[OF that(2) w[OF that(1)] cp] ext' by (blast intro: copyOf_extends)
  have tail: "copyOf T' h (field inn g) h' (field out' g)" if "(g, e) \<in> set cs" "(g, T') \<in> set fs" "deep T' e" for g e T'
    using ih that ext w[OF that(2)] by (blast intro: copyOf_since)
  have all: "\<forall>g e T'. (g, e) \<in> set (p # cs) \<longrightarrow> (g, T') \<in> set fs \<longrightarrow> deep T' e \<longrightarrow> copyOf T' h (field inn g) h' (field out' g)"
  proof (intro allI impI)
    fix g e T' assume "(g, e) \<in> set (p # cs)" "(g, T') \<in> set fs" "deep T' e"
    then show "copyOf T' h (field inn g) h' (field out' g)" using head tail p by (cases "(g, e) = p") auto
  qed
  have "extends h h'" using ext ext' by (rule extends_trans)
  with ih keep all show ?case by blast
qed simp

text \<open>
  A struct copier is deep when every field with references has its own deep copier; the fields
  without one must hold no references.
\<close>

lemma deep_copyInto:
  assumes "distinct (map fst fs)" "distinct (map fst cs)"
    and "\<And>f c. (f, c) \<in> set cs \<Longrightarrow> \<exists>T. (f, T) \<in> set fs \<and> deep T c"
    and "\<And>f T. (f, T) \<in> set fs \<Longrightarrow> f \<notin> fst ` set cs \<Longrightarrow> flat T"
  shows "deep (TStruct fs) (copyInto cs)"
proof (rule deepI)
  fix v h v' h'
  assume w: "wt h (TStruct fs) v" and "copyInto cs v h = (v', h')"
  then have run: "copyFields cs v v h = (v', h')" by (simp add: copyInto_def)
  have res: "extends h h' \<and> isStruct v' \<and> names v' = map fst fs
    \<and> (\<forall>f \<in> fst ` set fs - fst ` set cs. field v' f = field v f)
    \<and> (\<forall>f c T. (f, c) \<in> set cs \<longrightarrow> (f, T) \<in> set fs \<longrightarrow> deep T c \<longrightarrow> copyOf T h (field v f) h' (field v' f))"
    by (rule copyFields_copies[OF w run]) (use w assms(2,3) in auto)
  have each: "copyOf T h (field v f) h' (field v' f)" if fT: "(f, T) \<in> set fs" for f T
  proof (cases "f \<in> fst ` set cs")
    case True
    then obtain c where c: "(f, c) \<in> set cs" by auto
    obtain T' where "(f, T') \<in> set fs" "deep T' c" using assms(3)[OF c] by blast
    then have "deep T c" using fT assms(1) by (metis eq_key_imp_eq_value)
    then show ?thesis using res c fT by blast
  next
    case False
    then have same: "field v' f = field v f" using res fT by force
    have "wt h T (field v f)" using w fT by auto
    from view_extends[OF conjunct1[OF res] this] show ?thesis
      using flat_reach[OF assms(4)[OF fT False]] by (simp add: same copyOf_def)
  qed
  have "map (\<lambda>(f, T). (f, view h' T (field v' f))) fs = map (\<lambda>(f, T). (f, view h T (field v f))) fs"
    using each by (auto simp: copyOf_def)
  moreover have "(\<Union>(f, T)\<in>set fs. reach h' T (field v' f)) \<subseteq> {lim h..<lim h'}" "\<forall>(f, T)\<in>set fs. wt h' T (field v' f)"
    using each by (auto simp: copyOf_def subset_iff)
  ultimately show "extends h h' \<and> copyOf (TStruct fs) h v h' v'"
    using res by (simp add: copyOf_def)
qed

section \<open>What a deep copy is good for\<close>

text \<open>The same rule on tables of fields and statements, for the simplifier.\<close>

lemma deep_table:
  assumes "distinct (map fst fs)" "distinct (map fst cs)"
    and "list_all (\<lambda>(f, c). case map_of fs f of Some T \<Rightarrow> deep T c | None \<Rightarrow> False) cs"
    and "list_all (\<lambda>(f, T). f \<in> fst ` set cs \<or> flat T) fs"
  shows "deep (TStruct fs) (copyInto cs)"
proof (rule deep_copyInto[OF assms(1,2)])
  show "\<exists>T. (f, T) \<in> set fs \<and> deep T c" if "(f, c) \<in> set cs" for f c
  proof -
    from assms(3) that have "case map_of fs f of Some T \<Rightarrow> deep T c | None \<Rightarrow> False" by (force simp: list_all_iff)
    then show ?thesis by (auto split: option.splits dest: map_of_SomeD)
  qed
  show "flat T" if "(f, T) \<in> set fs" "f \<notin> fst ` set cs" for f T
    using assms(4) that by (auto simp: list_all_iff)
qed

lemmas deep_shapes = deep_newPtr deep_makeSlice deep_copySlice deep_assign

text \<open>
  \<open>DeepCopy\<close> of a pointer: nil for nil, otherwise a new object that \<open>DeepCopyInto\<close> fills.  The
  copy and everything that existed before are separate: any later change to one leaves the other
  as it is.
\<close>

definition deepCopyPtr :: "copier \<Rightarrow> copier" where
  "deepCopyPtr into inn h = (if inn = GNil then (GNil, h) else newPtr into inn h)"

lemma deep_deepCopyPtr: "deep T c \<Longrightarrow> deep (TPtr T) (deepCopyPtr c)"
  using deep_newPtr[of T c] by (auto simp: deep_def deepCopyPtr_def newPtr_def)

lemma copy_separate:
  assumes "deep T c" "wt h T v" "c v h = (v', h')"
  shows "view h' T v' = view h T v \<and> reach h' T v' \<inter> reach h' T v = {}"
    and "(\<And>a. lim h \<le> a \<Longrightarrow> a < lim h' \<Longrightarrow> cells g a = cells h' a) \<Longrightarrow> lim h' \<le> lim g \<Longrightarrow> view g T v' = view h T v"
    and "(\<And>a. a < lim h \<Longrightarrow> cells g a = cells h' a) \<Longrightarrow> lim h' \<le> lim g \<Longrightarrow> view g T v = view h T v"
proof -
  have d: "extends h h'" "copyOf T h v h' v'" using deepD[OF assms] by blast+
  note e = view_extends[OF d(1) assms(2)]
  show "view h' T v' = view h T v \<and> reach h' T v' \<inter> reach h' T v = {}"
    using d(2) e wt_reach[OF assms(2)] by (fastforce simp: copyOf_def)
  show "view g T v' = view h T v" if "\<And>a. lim h \<le> a \<Longrightarrow> a < lim h' \<Longrightarrow> cells g a = cells h' a" "lim h' \<le> lim g"
    using copyOf_frame[OF d(2) that] by (simp add: copyOf_def)
  show "view g T v = view h T v" if "\<And>a. a < lim h \<Longrightarrow> cells g a = cells h' a" "lim h' \<le> lim g"
  proof -
    have "extends h g" using that d(1) by (auto simp: extends_def)
    from view_extends[OF this assms(2)] show ?thesis by blast
  qed
qed

end
