(* ===== verification/ApiCopies.thy ===== *)
theory ApiCopies
  imports DeepCopy
begin

text \<open>
  The struct types of \<open>api/migrationcontroller/v1alpha1\<close> and the functions of
  \<open>zz_generated.deepcopy.go\<close> for them, one definition each.  The layouts come from the type
  declarations and the copiers from the generated file, so the lemmas say that the two agree:
  a field with references that the generated code forgets makes its lemma false.  They justify
  the other theories, where objects are values and \<open>DeepCopy\<close> is the identity.

  The types of the Kubernetes libraries (\<open>metav1.Time\<close>, \<open>ObjectMeta\<close>, \<open>ListMeta\<close>,
  \<open>PersistentVolumeClaim\<close>) are parameters: their layouts and their copiers, and the hypothesis
  \<open>deepLib\<close> that these copiers are deep, which is what \<open>DeepCopyInto\<close> is documented to be.
\<close>

section \<open>Layouts\<close>

record k8sTypes =
  kt_Time :: gtype
  kt_ObjectMeta :: gtype
  kt_ListMeta :: gtype
  kt_PersistentVolumeClaim :: gtype

record k8sCopiers =
  kc_Time :: copier
  kc_ObjectMeta :: copier
  kc_ListMeta :: copier
  kc_PersistentVolumeClaim :: copier

definition deepLib :: "k8sCopiers \<Rightarrow> k8sTypes \<Rightarrow> bool" where
  "deepLib K L \<longleftrightarrow> deep (kt_Time L) (kc_Time K) \<and> deep (kt_ObjectMeta L) (kc_ObjectMeta K)
     \<and> deep (kt_ListMeta L) (kc_ListMeta K) \<and> deep (kt_PersistentVolumeClaim L) (kc_PersistentVolumeClaim K)"

text \<open>\<open>metav1.TypeMeta\<close> and \<open>corev1.ObjectReference\<close> hold strings only and are copied by assignment.\<close>

definition TypeMeta_T :: gtype where
  "TypeMeta_T = TStruct [(''Kind'', TBasic), (''APIVersion'', TBasic)]"

definition ObjectReference_T :: gtype where
  "ObjectReference_T = TStruct [(''Kind'', TBasic), (''Namespace'', TBasic), (''Name'', TBasic), (''UID'', TBasic),
     (''APIVersion'', TBasic), (''ResourceVersion'', TBasic), (''FieldPath'', TBasic)]"

definition Condition_T :: "k8sTypes \<Rightarrow> gtype" where
  "Condition_T L = TStruct [
     (''Type'', TBasic), (''Status'', TBasic), (''Reason'', TBasic), (''Category'', TBasic),
     (''Message'', TBasic), (''LastTransitionTime'', kt_Time L)]"

definition Conditions_T :: "k8sTypes \<Rightarrow> gtype" where
  "Conditions_T L = TStruct [
     (''List'', TSlice (Condition_T L))]"

definition VirtualMachineStorageMigrationSpec_T :: "k8sTypes \<Rightarrow> gtype" where
  "VirtualMachineStorageMigrationSpec_T L = TStruct [
     (''VirtualMachineStorageMigrationPlanRef'', TPtr ObjectReference_T)]"

definition RunningVirtualMachineMigration_T :: "k8sTypes \<Rightarrow> gtype" where
  "RunningVirtualMachineMigration_T L = TStruct [
     (''Name'', TBasic), (''Progress'', TBasic)]"

definition VirtualMachineStorageMigrationStatus_T :: "k8sTypes \<Rightarrow> gtype" where
  "VirtualMachineStorageMigrationStatus_T L = TStruct [
     (''Conditions'', Conditions_T L), (''Phase'', TBasic), (''Errors'', TSlice TBasic),
     (''RunningMigrations'', TSlice (RunningVirtualMachineMigration_T L)),
     (''CompletedMigrations'', TSlice TBasic), (''CancelledMigrations'', TSlice TBasic)]"

definition VirtualMachineStorageMigration_T :: "k8sTypes \<Rightarrow> gtype" where
  "VirtualMachineStorageMigration_T L = TStruct [
     (''TypeMeta'', TypeMeta_T), (''ObjectMeta'', kt_ObjectMeta L),
     (''Spec'', VirtualMachineStorageMigrationSpec_T L),
     (''Status'', VirtualMachineStorageMigrationStatus_T L)]"

definition VirtualMachineStorageMigrationList_T :: "k8sTypes \<Rightarrow> gtype" where
  "VirtualMachineStorageMigrationList_T L = TStruct [
     (''TypeMeta'', TypeMeta_T), (''ListMeta'', kt_ListMeta L),
     (''Items'', TSlice (VirtualMachineStorageMigration_T L))]"

definition VirtualMachineStorageMigrationPlanDestinationPVC_T :: "k8sTypes \<Rightarrow> gtype" where
  "VirtualMachineStorageMigrationPlanDestinationPVC_T L = TStruct [
     (''Name'', TPtr TBasic), (''StorageClassName'', TPtr TBasic), (''AccessModes'', TSlice TBasic),
     (''VolumeMode'', TPtr TBasic)]"

definition VirtualMachineStorageMigrationPlanTargetMigrationPVC_T :: "k8sTypes \<Rightarrow> gtype" where
  "VirtualMachineStorageMigrationPlanTargetMigrationPVC_T L = TStruct [
     (''VolumeName'', TBasic), (''DestinationPVC'', VirtualMachineStorageMigrationPlanDestinationPVC_T L)]"

definition VirtualMachineStorageMigrationPlanVirtualMachine_T :: "k8sTypes \<Rightarrow> gtype" where
  "VirtualMachineStorageMigrationPlanVirtualMachine_T L = TStruct [
     (''Name'', TBasic),
     (''TargetMigrationPVCs'', TSlice (VirtualMachineStorageMigrationPlanTargetMigrationPVC_T L))]"

definition VirtualMachineStorageMigrationPlanSpec_T :: "k8sTypes \<Rightarrow> gtype" where
  "VirtualMachineStorageMigrationPlanSpec_T L = TStruct [
     (''VirtualMachines'', TSlice (VirtualMachineStorageMigrationPlanVirtualMachine_T L)),
     (''RetentionPolicy'', TPtr TBasic)]"

definition VirtualMachineStorageMigrationPlanSourcePVC_T :: "k8sTypes \<Rightarrow> gtype" where
  "VirtualMachineStorageMigrationPlanSourcePVC_T L = TStruct [
     (''VolumeName'', TBasic), (''Name'', TBasic), (''Namespace'', TBasic),
     (''SourcePVC'', kt_PersistentVolumeClaim L)]"

definition VirtualMachineStorageMigrationPlanStatusVirtualMachine_T :: "k8sTypes \<Rightarrow> gtype" where
  "VirtualMachineStorageMigrationPlanStatusVirtualMachine_T L = TStruct [
     (''VirtualMachineStorageMigrationPlanVirtualMachine'', VirtualMachineStorageMigrationPlanVirtualMachine_T L),
     (''SourcePVCs'', TSlice (VirtualMachineStorageMigrationPlanSourcePVC_T L))]"

definition VirtualMachineStorageMigrationPlanStatus_T :: "k8sTypes \<Rightarrow> gtype" where
  "VirtualMachineStorageMigrationPlanStatus_T L = TStruct [
     (''CompletedOutOf'', TBasic),
     (''ReadyMigrations'', TSlice (VirtualMachineStorageMigrationPlanStatusVirtualMachine_T L)),
     (''InvalidMigrations'', TSlice (VirtualMachineStorageMigrationPlanStatusVirtualMachine_T L)),
     (''InProgressMigrations'', TSlice (VirtualMachineStorageMigrationPlanStatusVirtualMachine_T L)),
     (''CompletedMigrations'', TSlice (VirtualMachineStorageMigrationPlanStatusVirtualMachine_T L)),
     (''FailedMigrations'', TSlice (VirtualMachineStorageMigrationPlanStatusVirtualMachine_T L)),
     (''Suffix'', TPtr TBasic), (''Conditions'', Conditions_T L)]"

definition VirtualMachineStorageMigrationPlan_T :: "k8sTypes \<Rightarrow> gtype" where
  "VirtualMachineStorageMigrationPlan_T L = TStruct [
     (''TypeMeta'', TypeMeta_T), (''ObjectMeta'', kt_ObjectMeta L),
     (''Spec'', VirtualMachineStorageMigrationPlanSpec_T L),
     (''Status'', VirtualMachineStorageMigrationPlanStatus_T L)]"

definition VirtualMachineStorageMigrationPlanList_T :: "k8sTypes \<Rightarrow> gtype" where
  "VirtualMachineStorageMigrationPlanList_T L = TStruct [
     (''TypeMeta'', TypeMeta_T), (''ListMeta'', kt_ListMeta L),
     (''Items'', TSlice (VirtualMachineStorageMigrationPlan_T L))]"

definition MultiNamespaceVirtualMachineStorageMigrationSpec_T :: "k8sTypes \<Rightarrow> gtype" where
  "MultiNamespaceVirtualMachineStorageMigrationSpec_T L = TStruct [
     (''MultiNamespaceVirtualMachineStorageMigrationPlanRef'', TPtr ObjectReference_T)]"

definition MultiNamespaceVirtualMachineStorageMigrationNamespaceStatus_T :: "k8sTypes \<Rightarrow> gtype" where
  "MultiNamespaceVirtualMachineStorageMigrationNamespaceStatus_T L = TStruct [
     (''Name'', TBasic),
     (''VirtualMachineStorageMigrationStatus'', TPtr (VirtualMachineStorageMigrationStatus_T L))]"

definition MultiNamespaceVirtualMachineStorageMigrationStatus_T :: "k8sTypes \<Rightarrow> gtype" where
  "MultiNamespaceVirtualMachineStorageMigrationStatus_T L = TStruct [
     (''Conditions'', Conditions_T L),
     (''Namespaces'', TSlice (MultiNamespaceVirtualMachineStorageMigrationNamespaceStatus_T L))]"

definition MultiNamespaceVirtualMachineStorageMigration_T :: "k8sTypes \<Rightarrow> gtype" where
  "MultiNamespaceVirtualMachineStorageMigration_T L = TStruct [
     (''TypeMeta'', TypeMeta_T), (''ObjectMeta'', kt_ObjectMeta L),
     (''Spec'', MultiNamespaceVirtualMachineStorageMigrationSpec_T L),
     (''Status'', MultiNamespaceVirtualMachineStorageMigrationStatus_T L)]"

definition MultiNamespaceVirtualMachineStorageMigrationList_T :: "k8sTypes \<Rightarrow> gtype" where
  "MultiNamespaceVirtualMachineStorageMigrationList_T L = TStruct [
     (''TypeMeta'', TypeMeta_T), (''ListMeta'', kt_ListMeta L),
     (''Items'', TSlice (MultiNamespaceVirtualMachineStorageMigration_T L))]"

definition VirtualMachineStorageMigrationPlanNamespaceSpec_T :: "k8sTypes \<Rightarrow> gtype" where
  "VirtualMachineStorageMigrationPlanNamespaceSpec_T L = TStruct [
     (''Name'', TBasic),
     (''VirtualMachineStorageMigrationPlanSpec'', TPtr (VirtualMachineStorageMigrationPlanSpec_T L))]"

definition MultiNamespaceVirtualMachineStorageMigrationPlanSpec_T :: "k8sTypes \<Rightarrow> gtype" where
  "MultiNamespaceVirtualMachineStorageMigrationPlanSpec_T L = TStruct [
     (''Namespaces'', TSlice (VirtualMachineStorageMigrationPlanNamespaceSpec_T L)),
     (''RetentionPolicy'', TPtr TBasic)]"

definition VirtualMachineStorageMigrationPlanNamespaceStatus_T :: "k8sTypes \<Rightarrow> gtype" where
  "VirtualMachineStorageMigrationPlanNamespaceStatus_T L = TStruct [
     (''Name'', TBasic),
     (''VirtualMachineStorageMigrationPlanStatus'', TPtr (VirtualMachineStorageMigrationPlanStatus_T L))]"

definition MultiNamespaceVirtualMachineStorageMigrationPlanStatus_T :: "k8sTypes \<Rightarrow> gtype" where
  "MultiNamespaceVirtualMachineStorageMigrationPlanStatus_T L = TStruct [
     (''Namespaces'', TSlice (VirtualMachineStorageMigrationPlanNamespaceStatus_T L)),
     (''Conditions'', Conditions_T L)]"

definition MultiNamespaceVirtualMachineStorageMigrationPlan_T :: "k8sTypes \<Rightarrow> gtype" where
  "MultiNamespaceVirtualMachineStorageMigrationPlan_T L = TStruct [
     (''TypeMeta'', TypeMeta_T), (''ObjectMeta'', kt_ObjectMeta L),
     (''Spec'', MultiNamespaceVirtualMachineStorageMigrationPlanSpec_T L),
     (''Status'', MultiNamespaceVirtualMachineStorageMigrationPlanStatus_T L)]"

definition MultiNamespaceVirtualMachineStorageMigrationPlanList_T :: "k8sTypes \<Rightarrow> gtype" where
  "MultiNamespaceVirtualMachineStorageMigrationPlanList_T L = TStruct [
     (''TypeMeta'', TypeMeta_T), (''ListMeta'', kt_ListMeta L),
     (''Items'', TSlice (MultiNamespaceVirtualMachineStorageMigrationPlan_T L))]"

section \<open>\<open>DeepCopyInto\<close>\<close>

definition Condition_DeepCopyInto :: "k8sCopiers \<Rightarrow> copier" where
  "Condition_DeepCopyInto K = copyInto [
     (''LastTransitionTime'', kc_Time K)]"

definition Conditions_DeepCopyInto :: "k8sCopiers \<Rightarrow> copier" where
  "Conditions_DeepCopyInto K = copyInto [
     (''List'', makeSlice (Condition_DeepCopyInto K))]"

definition VirtualMachineStorageMigrationSpec_DeepCopyInto :: "k8sCopiers \<Rightarrow> copier" where
  "VirtualMachineStorageMigrationSpec_DeepCopyInto K = copyInto [
     (''VirtualMachineStorageMigrationPlanRef'', newPtr assign)]"

definition RunningVirtualMachineMigration_DeepCopyInto :: "k8sCopiers \<Rightarrow> copier" where
  "RunningVirtualMachineMigration_DeepCopyInto K = copyInto []"

definition VirtualMachineStorageMigrationStatus_DeepCopyInto :: "k8sCopiers \<Rightarrow> copier" where
  "VirtualMachineStorageMigrationStatus_DeepCopyInto K = copyInto [
     (''Conditions'', Conditions_DeepCopyInto K), (''Errors'', copySlice),
     (''RunningMigrations'', copySlice), (''CompletedMigrations'', copySlice),
     (''CancelledMigrations'', copySlice)]"

definition VirtualMachineStorageMigration_DeepCopyInto :: "k8sCopiers \<Rightarrow> copier" where
  "VirtualMachineStorageMigration_DeepCopyInto K = copyInto [
     (''TypeMeta'', assign), (''ObjectMeta'', kc_ObjectMeta K),
     (''Spec'', VirtualMachineStorageMigrationSpec_DeepCopyInto K),
     (''Status'', VirtualMachineStorageMigrationStatus_DeepCopyInto K)]"

definition VirtualMachineStorageMigrationList_DeepCopyInto :: "k8sCopiers \<Rightarrow> copier" where
  "VirtualMachineStorageMigrationList_DeepCopyInto K = copyInto [
     (''TypeMeta'', assign), (''ListMeta'', kc_ListMeta K),
     (''Items'', makeSlice (VirtualMachineStorageMigration_DeepCopyInto K))]"

definition VirtualMachineStorageMigrationPlanDestinationPVC_DeepCopyInto :: "k8sCopiers \<Rightarrow> copier" where
  "VirtualMachineStorageMigrationPlanDestinationPVC_DeepCopyInto K = copyInto [
     (''Name'', newPtr assign), (''StorageClassName'', newPtr assign), (''AccessModes'', copySlice),
     (''VolumeMode'', newPtr assign)]"

definition VirtualMachineStorageMigrationPlanTargetMigrationPVC_DeepCopyInto :: "k8sCopiers \<Rightarrow> copier" where
  "VirtualMachineStorageMigrationPlanTargetMigrationPVC_DeepCopyInto K = copyInto [
     (''DestinationPVC'', VirtualMachineStorageMigrationPlanDestinationPVC_DeepCopyInto K)]"

definition VirtualMachineStorageMigrationPlanVirtualMachine_DeepCopyInto :: "k8sCopiers \<Rightarrow> copier" where
  "VirtualMachineStorageMigrationPlanVirtualMachine_DeepCopyInto K = copyInto [
     (''TargetMigrationPVCs'', makeSlice (VirtualMachineStorageMigrationPlanTargetMigrationPVC_DeepCopyInto K))]"

definition VirtualMachineStorageMigrationPlanSpec_DeepCopyInto :: "k8sCopiers \<Rightarrow> copier" where
  "VirtualMachineStorageMigrationPlanSpec_DeepCopyInto K = copyInto [
     (''VirtualMachines'', makeSlice (VirtualMachineStorageMigrationPlanVirtualMachine_DeepCopyInto K)),
     (''RetentionPolicy'', newPtr assign)]"

definition VirtualMachineStorageMigrationPlanSourcePVC_DeepCopyInto :: "k8sCopiers \<Rightarrow> copier" where
  "VirtualMachineStorageMigrationPlanSourcePVC_DeepCopyInto K = copyInto [
     (''SourcePVC'', kc_PersistentVolumeClaim K)]"

definition VirtualMachineStorageMigrationPlanStatusVirtualMachine_DeepCopyInto :: "k8sCopiers \<Rightarrow> copier" where
  "VirtualMachineStorageMigrationPlanStatusVirtualMachine_DeepCopyInto K = copyInto [
     (''VirtualMachineStorageMigrationPlanVirtualMachine'', VirtualMachineStorageMigrationPlanVirtualMachine_DeepCopyInto K),
     (''SourcePVCs'', makeSlice (VirtualMachineStorageMigrationPlanSourcePVC_DeepCopyInto K))]"

definition VirtualMachineStorageMigrationPlanStatus_DeepCopyInto :: "k8sCopiers \<Rightarrow> copier" where
  "VirtualMachineStorageMigrationPlanStatus_DeepCopyInto K = copyInto [
     (''ReadyMigrations'', makeSlice (VirtualMachineStorageMigrationPlanStatusVirtualMachine_DeepCopyInto K)),
     (''InvalidMigrations'', makeSlice (VirtualMachineStorageMigrationPlanStatusVirtualMachine_DeepCopyInto K)),
     (''InProgressMigrations'', makeSlice (VirtualMachineStorageMigrationPlanStatusVirtualMachine_DeepCopyInto K)),
     (''CompletedMigrations'', makeSlice (VirtualMachineStorageMigrationPlanStatusVirtualMachine_DeepCopyInto K)),
     (''FailedMigrations'', makeSlice (VirtualMachineStorageMigrationPlanStatusVirtualMachine_DeepCopyInto K)),
     (''Suffix'', newPtr assign), (''Conditions'', Conditions_DeepCopyInto K)]"

definition VirtualMachineStorageMigrationPlan_DeepCopyInto :: "k8sCopiers \<Rightarrow> copier" where
  "VirtualMachineStorageMigrationPlan_DeepCopyInto K = copyInto [
     (''TypeMeta'', assign), (''ObjectMeta'', kc_ObjectMeta K),
     (''Spec'', VirtualMachineStorageMigrationPlanSpec_DeepCopyInto K),
     (''Status'', VirtualMachineStorageMigrationPlanStatus_DeepCopyInto K)]"

definition VirtualMachineStorageMigrationPlanList_DeepCopyInto :: "k8sCopiers \<Rightarrow> copier" where
  "VirtualMachineStorageMigrationPlanList_DeepCopyInto K = copyInto [
     (''TypeMeta'', assign), (''ListMeta'', kc_ListMeta K),
     (''Items'', makeSlice (VirtualMachineStorageMigrationPlan_DeepCopyInto K))]"

definition MultiNamespaceVirtualMachineStorageMigrationSpec_DeepCopyInto :: "k8sCopiers \<Rightarrow> copier" where
  "MultiNamespaceVirtualMachineStorageMigrationSpec_DeepCopyInto K = copyInto [
     (''MultiNamespaceVirtualMachineStorageMigrationPlanRef'', newPtr assign)]"

definition MultiNamespaceVirtualMachineStorageMigrationNamespaceStatus_DeepCopyInto :: "k8sCopiers \<Rightarrow> copier" where
  "MultiNamespaceVirtualMachineStorageMigrationNamespaceStatus_DeepCopyInto K = copyInto [
     (''VirtualMachineStorageMigrationStatus'', newPtr (VirtualMachineStorageMigrationStatus_DeepCopyInto K))]"

definition MultiNamespaceVirtualMachineStorageMigrationStatus_DeepCopyInto :: "k8sCopiers \<Rightarrow> copier" where
  "MultiNamespaceVirtualMachineStorageMigrationStatus_DeepCopyInto K = copyInto [
     (''Conditions'', Conditions_DeepCopyInto K),
     (''Namespaces'', makeSlice (MultiNamespaceVirtualMachineStorageMigrationNamespaceStatus_DeepCopyInto K))]"

definition MultiNamespaceVirtualMachineStorageMigration_DeepCopyInto :: "k8sCopiers \<Rightarrow> copier" where
  "MultiNamespaceVirtualMachineStorageMigration_DeepCopyInto K = copyInto [
     (''TypeMeta'', assign), (''ObjectMeta'', kc_ObjectMeta K),
     (''Spec'', MultiNamespaceVirtualMachineStorageMigrationSpec_DeepCopyInto K),
     (''Status'', MultiNamespaceVirtualMachineStorageMigrationStatus_DeepCopyInto K)]"

definition MultiNamespaceVirtualMachineStorageMigrationList_DeepCopyInto :: "k8sCopiers \<Rightarrow> copier" where
  "MultiNamespaceVirtualMachineStorageMigrationList_DeepCopyInto K = copyInto [
     (''TypeMeta'', assign), (''ListMeta'', kc_ListMeta K),
     (''Items'', makeSlice (MultiNamespaceVirtualMachineStorageMigration_DeepCopyInto K))]"

definition VirtualMachineStorageMigrationPlanNamespaceSpec_DeepCopyInto :: "k8sCopiers \<Rightarrow> copier" where
  "VirtualMachineStorageMigrationPlanNamespaceSpec_DeepCopyInto K = copyInto [
     (''VirtualMachineStorageMigrationPlanSpec'', newPtr (VirtualMachineStorageMigrationPlanSpec_DeepCopyInto K))]"

definition MultiNamespaceVirtualMachineStorageMigrationPlanSpec_DeepCopyInto :: "k8sCopiers \<Rightarrow> copier" where
  "MultiNamespaceVirtualMachineStorageMigrationPlanSpec_DeepCopyInto K = copyInto [
     (''Namespaces'', makeSlice (VirtualMachineStorageMigrationPlanNamespaceSpec_DeepCopyInto K)),
     (''RetentionPolicy'', newPtr assign)]"

definition VirtualMachineStorageMigrationPlanNamespaceStatus_DeepCopyInto :: "k8sCopiers \<Rightarrow> copier" where
  "VirtualMachineStorageMigrationPlanNamespaceStatus_DeepCopyInto K = copyInto [
     (''VirtualMachineStorageMigrationPlanStatus'', newPtr (VirtualMachineStorageMigrationPlanStatus_DeepCopyInto K))]"

definition MultiNamespaceVirtualMachineStorageMigrationPlanStatus_DeepCopyInto :: "k8sCopiers \<Rightarrow> copier" where
  "MultiNamespaceVirtualMachineStorageMigrationPlanStatus_DeepCopyInto K = copyInto [
     (''Namespaces'', makeSlice (VirtualMachineStorageMigrationPlanNamespaceStatus_DeepCopyInto K)),
     (''Conditions'', Conditions_DeepCopyInto K)]"

definition MultiNamespaceVirtualMachineStorageMigrationPlan_DeepCopyInto :: "k8sCopiers \<Rightarrow> copier" where
  "MultiNamespaceVirtualMachineStorageMigrationPlan_DeepCopyInto K = copyInto [
     (''TypeMeta'', assign), (''ObjectMeta'', kc_ObjectMeta K),
     (''Spec'', MultiNamespaceVirtualMachineStorageMigrationPlanSpec_DeepCopyInto K),
     (''Status'', MultiNamespaceVirtualMachineStorageMigrationPlanStatus_DeepCopyInto K)]"

definition MultiNamespaceVirtualMachineStorageMigrationPlanList_DeepCopyInto :: "k8sCopiers \<Rightarrow> copier" where
  "MultiNamespaceVirtualMachineStorageMigrationPlanList_DeepCopyInto K = copyInto [
     (''TypeMeta'', assign), (''ListMeta'', kc_ListMeta K),
     (''Items'', makeSlice (MultiNamespaceVirtualMachineStorageMigrationPlan_DeepCopyInto K))]"

section \<open>\<open>DeepCopy\<close> and \<open>DeepCopyObject\<close>\<close>

definition Condition_DeepCopy :: "k8sCopiers \<Rightarrow> copier" where
  "Condition_DeepCopy K = deepCopyPtr (Condition_DeepCopyInto K)"

definition Conditions_DeepCopy :: "k8sCopiers \<Rightarrow> copier" where
  "Conditions_DeepCopy K = deepCopyPtr (Conditions_DeepCopyInto K)"

definition VirtualMachineStorageMigrationSpec_DeepCopy :: "k8sCopiers \<Rightarrow> copier" where
  "VirtualMachineStorageMigrationSpec_DeepCopy K = deepCopyPtr (VirtualMachineStorageMigrationSpec_DeepCopyInto K)"

definition RunningVirtualMachineMigration_DeepCopy :: "k8sCopiers \<Rightarrow> copier" where
  "RunningVirtualMachineMigration_DeepCopy K = deepCopyPtr (RunningVirtualMachineMigration_DeepCopyInto K)"

definition VirtualMachineStorageMigrationStatus_DeepCopy :: "k8sCopiers \<Rightarrow> copier" where
  "VirtualMachineStorageMigrationStatus_DeepCopy K = deepCopyPtr (VirtualMachineStorageMigrationStatus_DeepCopyInto K)"

definition VirtualMachineStorageMigration_DeepCopy :: "k8sCopiers \<Rightarrow> copier" where
  "VirtualMachineStorageMigration_DeepCopy K = deepCopyPtr (VirtualMachineStorageMigration_DeepCopyInto K)"

definition VirtualMachineStorageMigrationList_DeepCopy :: "k8sCopiers \<Rightarrow> copier" where
  "VirtualMachineStorageMigrationList_DeepCopy K = deepCopyPtr (VirtualMachineStorageMigrationList_DeepCopyInto K)"

definition VirtualMachineStorageMigrationPlanDestinationPVC_DeepCopy :: "k8sCopiers \<Rightarrow> copier" where
  "VirtualMachineStorageMigrationPlanDestinationPVC_DeepCopy K = deepCopyPtr (VirtualMachineStorageMigrationPlanDestinationPVC_DeepCopyInto K)"

definition VirtualMachineStorageMigrationPlanTargetMigrationPVC_DeepCopy :: "k8sCopiers \<Rightarrow> copier" where
  "VirtualMachineStorageMigrationPlanTargetMigrationPVC_DeepCopy K = deepCopyPtr (VirtualMachineStorageMigrationPlanTargetMigrationPVC_DeepCopyInto K)"

definition VirtualMachineStorageMigrationPlanVirtualMachine_DeepCopy :: "k8sCopiers \<Rightarrow> copier" where
  "VirtualMachineStorageMigrationPlanVirtualMachine_DeepCopy K = deepCopyPtr (VirtualMachineStorageMigrationPlanVirtualMachine_DeepCopyInto K)"

definition VirtualMachineStorageMigrationPlanSpec_DeepCopy :: "k8sCopiers \<Rightarrow> copier" where
  "VirtualMachineStorageMigrationPlanSpec_DeepCopy K = deepCopyPtr (VirtualMachineStorageMigrationPlanSpec_DeepCopyInto K)"

definition VirtualMachineStorageMigrationPlanSourcePVC_DeepCopy :: "k8sCopiers \<Rightarrow> copier" where
  "VirtualMachineStorageMigrationPlanSourcePVC_DeepCopy K = deepCopyPtr (VirtualMachineStorageMigrationPlanSourcePVC_DeepCopyInto K)"

definition VirtualMachineStorageMigrationPlanStatusVirtualMachine_DeepCopy :: "k8sCopiers \<Rightarrow> copier" where
  "VirtualMachineStorageMigrationPlanStatusVirtualMachine_DeepCopy K = deepCopyPtr (VirtualMachineStorageMigrationPlanStatusVirtualMachine_DeepCopyInto K)"

definition VirtualMachineStorageMigrationPlanStatus_DeepCopy :: "k8sCopiers \<Rightarrow> copier" where
  "VirtualMachineStorageMigrationPlanStatus_DeepCopy K = deepCopyPtr (VirtualMachineStorageMigrationPlanStatus_DeepCopyInto K)"

definition VirtualMachineStorageMigrationPlan_DeepCopy :: "k8sCopiers \<Rightarrow> copier" where
  "VirtualMachineStorageMigrationPlan_DeepCopy K = deepCopyPtr (VirtualMachineStorageMigrationPlan_DeepCopyInto K)"

definition VirtualMachineStorageMigrationPlanList_DeepCopy :: "k8sCopiers \<Rightarrow> copier" where
  "VirtualMachineStorageMigrationPlanList_DeepCopy K = deepCopyPtr (VirtualMachineStorageMigrationPlanList_DeepCopyInto K)"

definition MultiNamespaceVirtualMachineStorageMigrationSpec_DeepCopy :: "k8sCopiers \<Rightarrow> copier" where
  "MultiNamespaceVirtualMachineStorageMigrationSpec_DeepCopy K = deepCopyPtr (MultiNamespaceVirtualMachineStorageMigrationSpec_DeepCopyInto K)"

definition MultiNamespaceVirtualMachineStorageMigrationNamespaceStatus_DeepCopy :: "k8sCopiers \<Rightarrow> copier" where
  "MultiNamespaceVirtualMachineStorageMigrationNamespaceStatus_DeepCopy K = deepCopyPtr (MultiNamespaceVirtualMachineStorageMigrationNamespaceStatus_DeepCopyInto K)"

definition MultiNamespaceVirtualMachineStorageMigrationStatus_DeepCopy :: "k8sCopiers \<Rightarrow> copier" where
  "MultiNamespaceVirtualMachineStorageMigrationStatus_DeepCopy K = deepCopyPtr (MultiNamespaceVirtualMachineStorageMigrationStatus_DeepCopyInto K)"

definition MultiNamespaceVirtualMachineStorageMigration_DeepCopy :: "k8sCopiers \<Rightarrow> copier" where
  "MultiNamespaceVirtualMachineStorageMigration_DeepCopy K = deepCopyPtr (MultiNamespaceVirtualMachineStorageMigration_DeepCopyInto K)"

definition MultiNamespaceVirtualMachineStorageMigrationList_DeepCopy :: "k8sCopiers \<Rightarrow> copier" where
  "MultiNamespaceVirtualMachineStorageMigrationList_DeepCopy K = deepCopyPtr (MultiNamespaceVirtualMachineStorageMigrationList_DeepCopyInto K)"

definition VirtualMachineStorageMigrationPlanNamespaceSpec_DeepCopy :: "k8sCopiers \<Rightarrow> copier" where
  "VirtualMachineStorageMigrationPlanNamespaceSpec_DeepCopy K = deepCopyPtr (VirtualMachineStorageMigrationPlanNamespaceSpec_DeepCopyInto K)"

definition MultiNamespaceVirtualMachineStorageMigrationPlanSpec_DeepCopy :: "k8sCopiers \<Rightarrow> copier" where
  "MultiNamespaceVirtualMachineStorageMigrationPlanSpec_DeepCopy K = deepCopyPtr (MultiNamespaceVirtualMachineStorageMigrationPlanSpec_DeepCopyInto K)"

definition VirtualMachineStorageMigrationPlanNamespaceStatus_DeepCopy :: "k8sCopiers \<Rightarrow> copier" where
  "VirtualMachineStorageMigrationPlanNamespaceStatus_DeepCopy K = deepCopyPtr (VirtualMachineStorageMigrationPlanNamespaceStatus_DeepCopyInto K)"

definition MultiNamespaceVirtualMachineStorageMigrationPlanStatus_DeepCopy :: "k8sCopiers \<Rightarrow> copier" where
  "MultiNamespaceVirtualMachineStorageMigrationPlanStatus_DeepCopy K = deepCopyPtr (MultiNamespaceVirtualMachineStorageMigrationPlanStatus_DeepCopyInto K)"

definition MultiNamespaceVirtualMachineStorageMigrationPlan_DeepCopy :: "k8sCopiers \<Rightarrow> copier" where
  "MultiNamespaceVirtualMachineStorageMigrationPlan_DeepCopy K = deepCopyPtr (MultiNamespaceVirtualMachineStorageMigrationPlan_DeepCopyInto K)"

definition MultiNamespaceVirtualMachineStorageMigrationPlanList_DeepCopy :: "k8sCopiers \<Rightarrow> copier" where
  "MultiNamespaceVirtualMachineStorageMigrationPlanList_DeepCopy K = deepCopyPtr (MultiNamespaceVirtualMachineStorageMigrationPlanList_DeepCopyInto K)"

definition MultiNamespaceVirtualMachineStorageMigration_DeepCopyObject :: "k8sCopiers \<Rightarrow> copier" where
  "MultiNamespaceVirtualMachineStorageMigration_DeepCopyObject K inn h = (case MultiNamespaceVirtualMachineStorageMigration_DeepCopy K inn h of (c, h') \<Rightarrow> if c \<noteq> GNil then (c, h') else (GNil, h'))"

definition MultiNamespaceVirtualMachineStorageMigrationList_DeepCopyObject :: "k8sCopiers \<Rightarrow> copier" where
  "MultiNamespaceVirtualMachineStorageMigrationList_DeepCopyObject K inn h = (case MultiNamespaceVirtualMachineStorageMigrationList_DeepCopy K inn h of (c, h') \<Rightarrow> if c \<noteq> GNil then (c, h') else (GNil, h'))"

definition MultiNamespaceVirtualMachineStorageMigrationPlan_DeepCopyObject :: "k8sCopiers \<Rightarrow> copier" where
  "MultiNamespaceVirtualMachineStorageMigrationPlan_DeepCopyObject K inn h = (case MultiNamespaceVirtualMachineStorageMigrationPlan_DeepCopy K inn h of (c, h') \<Rightarrow> if c \<noteq> GNil then (c, h') else (GNil, h'))"

definition MultiNamespaceVirtualMachineStorageMigrationPlanList_DeepCopyObject :: "k8sCopiers \<Rightarrow> copier" where
  "MultiNamespaceVirtualMachineStorageMigrationPlanList_DeepCopyObject K inn h = (case MultiNamespaceVirtualMachineStorageMigrationPlanList_DeepCopy K inn h of (c, h') \<Rightarrow> if c \<noteq> GNil then (c, h') else (GNil, h'))"

definition VirtualMachineStorageMigration_DeepCopyObject :: "k8sCopiers \<Rightarrow> copier" where
  "VirtualMachineStorageMigration_DeepCopyObject K inn h = (case VirtualMachineStorageMigration_DeepCopy K inn h of (c, h') \<Rightarrow> if c \<noteq> GNil then (c, h') else (GNil, h'))"

definition VirtualMachineStorageMigrationList_DeepCopyObject :: "k8sCopiers \<Rightarrow> copier" where
  "VirtualMachineStorageMigrationList_DeepCopyObject K inn h = (case VirtualMachineStorageMigrationList_DeepCopy K inn h of (c, h') \<Rightarrow> if c \<noteq> GNil then (c, h') else (GNil, h'))"

definition VirtualMachineStorageMigrationPlan_DeepCopyObject :: "k8sCopiers \<Rightarrow> copier" where
  "VirtualMachineStorageMigrationPlan_DeepCopyObject K inn h = (case VirtualMachineStorageMigrationPlan_DeepCopy K inn h of (c, h') \<Rightarrow> if c \<noteq> GNil then (c, h') else (GNil, h'))"

definition VirtualMachineStorageMigrationPlanList_DeepCopyObject :: "k8sCopiers \<Rightarrow> copier" where
  "VirtualMachineStorageMigrationPlanList_DeepCopyObject K inn h = (case VirtualMachineStorageMigrationPlanList_DeepCopy K inn h of (c, h') \<Rightarrow> if c \<noteq> GNil then (c, h') else (GNil, h'))"

section \<open>Every copy is deep\<close>

named_theorems deep "the copiers that are proved deep"

lemma deepLib_deep [deep]:
  "deepLib K L \<Longrightarrow> deep (kt_Time L) (kc_Time K)" "deepLib K L \<Longrightarrow> deep (kt_ObjectMeta L) (kc_ObjectMeta K)"
  "deepLib K L \<Longrightarrow> deep (kt_ListMeta L) (kc_ListMeta K)"
  "deepLib K L \<Longrightarrow> deep (kt_PersistentVolumeClaim L) (kc_PersistentVolumeClaim K)"
  by (simp_all add: deepLib_def)

lemma flat_types [simp]: "flat TypeMeta_T" "flat ObjectReference_T" "flat (RunningVirtualMachineMigration_T L)"
  by (simp_all add: TypeMeta_T_def ObjectReference_T_def RunningVirtualMachineMigration_T_def)

lemma Condition_deep [deep]: "deepLib K L \<Longrightarrow> deep (Condition_T L) (Condition_DeepCopyInto K)"
  unfolding Condition_T_def Condition_DeepCopyInto_def by (rule deep_table) (simp_all add: deep_shapes deep)

lemma Conditions_deep [deep]: "deepLib K L \<Longrightarrow> deep (Conditions_T L) (Conditions_DeepCopyInto K)"
  unfolding Conditions_T_def Conditions_DeepCopyInto_def by (rule deep_table) (simp_all add: deep_shapes deep)

lemma VirtualMachineStorageMigrationSpec_deep [deep]: "deepLib K L \<Longrightarrow> deep (VirtualMachineStorageMigrationSpec_T L) (VirtualMachineStorageMigrationSpec_DeepCopyInto K)"
  unfolding VirtualMachineStorageMigrationSpec_T_def VirtualMachineStorageMigrationSpec_DeepCopyInto_def by (rule deep_table) (simp_all add: deep_shapes deep)

lemma RunningVirtualMachineMigration_deep [deep]: "deepLib K L \<Longrightarrow> deep (RunningVirtualMachineMigration_T L) (RunningVirtualMachineMigration_DeepCopyInto K)"
  unfolding RunningVirtualMachineMigration_T_def RunningVirtualMachineMigration_DeepCopyInto_def by (rule deep_table) (simp_all add: deep_shapes deep)

lemma VirtualMachineStorageMigrationStatus_deep [deep]: "deepLib K L \<Longrightarrow> deep (VirtualMachineStorageMigrationStatus_T L) (VirtualMachineStorageMigrationStatus_DeepCopyInto K)"
  unfolding VirtualMachineStorageMigrationStatus_T_def VirtualMachineStorageMigrationStatus_DeepCopyInto_def by (rule deep_table) (simp_all add: deep_shapes deep)

lemma VirtualMachineStorageMigration_deep [deep]: "deepLib K L \<Longrightarrow> deep (VirtualMachineStorageMigration_T L) (VirtualMachineStorageMigration_DeepCopyInto K)"
  unfolding VirtualMachineStorageMigration_T_def VirtualMachineStorageMigration_DeepCopyInto_def by (rule deep_table) (simp_all add: deep_shapes deep)

lemma VirtualMachineStorageMigrationList_deep [deep]: "deepLib K L \<Longrightarrow> deep (VirtualMachineStorageMigrationList_T L) (VirtualMachineStorageMigrationList_DeepCopyInto K)"
  unfolding VirtualMachineStorageMigrationList_T_def VirtualMachineStorageMigrationList_DeepCopyInto_def by (rule deep_table) (simp_all add: deep_shapes deep)

lemma VirtualMachineStorageMigrationPlanDestinationPVC_deep [deep]: "deepLib K L \<Longrightarrow> deep (VirtualMachineStorageMigrationPlanDestinationPVC_T L) (VirtualMachineStorageMigrationPlanDestinationPVC_DeepCopyInto K)"
  unfolding VirtualMachineStorageMigrationPlanDestinationPVC_T_def VirtualMachineStorageMigrationPlanDestinationPVC_DeepCopyInto_def by (rule deep_table) (simp_all add: deep_shapes deep)

lemma VirtualMachineStorageMigrationPlanTargetMigrationPVC_deep [deep]: "deepLib K L \<Longrightarrow> deep (VirtualMachineStorageMigrationPlanTargetMigrationPVC_T L) (VirtualMachineStorageMigrationPlanTargetMigrationPVC_DeepCopyInto K)"
  unfolding VirtualMachineStorageMigrationPlanTargetMigrationPVC_T_def VirtualMachineStorageMigrationPlanTargetMigrationPVC_DeepCopyInto_def by (rule deep_table) (simp_all add: deep_shapes deep)

lemma VirtualMachineStorageMigrationPlanVirtualMachine_deep [deep]: "deepLib K L \<Longrightarrow> deep (VirtualMachineStorageMigrationPlanVirtualMachine_T L) (VirtualMachineStorageMigrationPlanVirtualMachine_DeepCopyInto K)"
  unfolding VirtualMachineStorageMigrationPlanVirtualMachine_T_def VirtualMachineStorageMigrationPlanVirtualMachine_DeepCopyInto_def by (rule deep_table) (simp_all add: deep_shapes deep)

lemma VirtualMachineStorageMigrationPlanSpec_deep [deep]: "deepLib K L \<Longrightarrow> deep (VirtualMachineStorageMigrationPlanSpec_T L) (VirtualMachineStorageMigrationPlanSpec_DeepCopyInto K)"
  unfolding VirtualMachineStorageMigrationPlanSpec_T_def VirtualMachineStorageMigrationPlanSpec_DeepCopyInto_def by (rule deep_table) (simp_all add: deep_shapes deep)

lemma VirtualMachineStorageMigrationPlanSourcePVC_deep [deep]: "deepLib K L \<Longrightarrow> deep (VirtualMachineStorageMigrationPlanSourcePVC_T L) (VirtualMachineStorageMigrationPlanSourcePVC_DeepCopyInto K)"
  unfolding VirtualMachineStorageMigrationPlanSourcePVC_T_def VirtualMachineStorageMigrationPlanSourcePVC_DeepCopyInto_def by (rule deep_table) (simp_all add: deep_shapes deep)

lemma VirtualMachineStorageMigrationPlanStatusVirtualMachine_deep [deep]: "deepLib K L \<Longrightarrow> deep (VirtualMachineStorageMigrationPlanStatusVirtualMachine_T L) (VirtualMachineStorageMigrationPlanStatusVirtualMachine_DeepCopyInto K)"
  unfolding VirtualMachineStorageMigrationPlanStatusVirtualMachine_T_def VirtualMachineStorageMigrationPlanStatusVirtualMachine_DeepCopyInto_def by (rule deep_table) (simp_all add: deep_shapes deep)

lemma VirtualMachineStorageMigrationPlanStatus_deep [deep]: "deepLib K L \<Longrightarrow> deep (VirtualMachineStorageMigrationPlanStatus_T L) (VirtualMachineStorageMigrationPlanStatus_DeepCopyInto K)"
  unfolding VirtualMachineStorageMigrationPlanStatus_T_def VirtualMachineStorageMigrationPlanStatus_DeepCopyInto_def by (rule deep_table) (simp_all add: deep_shapes deep)

lemma VirtualMachineStorageMigrationPlan_deep [deep]: "deepLib K L \<Longrightarrow> deep (VirtualMachineStorageMigrationPlan_T L) (VirtualMachineStorageMigrationPlan_DeepCopyInto K)"
  unfolding VirtualMachineStorageMigrationPlan_T_def VirtualMachineStorageMigrationPlan_DeepCopyInto_def by (rule deep_table) (simp_all add: deep_shapes deep)

lemma VirtualMachineStorageMigrationPlanList_deep [deep]: "deepLib K L \<Longrightarrow> deep (VirtualMachineStorageMigrationPlanList_T L) (VirtualMachineStorageMigrationPlanList_DeepCopyInto K)"
  unfolding VirtualMachineStorageMigrationPlanList_T_def VirtualMachineStorageMigrationPlanList_DeepCopyInto_def by (rule deep_table) (simp_all add: deep_shapes deep)

lemma MultiNamespaceVirtualMachineStorageMigrationSpec_deep [deep]: "deepLib K L \<Longrightarrow> deep (MultiNamespaceVirtualMachineStorageMigrationSpec_T L) (MultiNamespaceVirtualMachineStorageMigrationSpec_DeepCopyInto K)"
  unfolding MultiNamespaceVirtualMachineStorageMigrationSpec_T_def MultiNamespaceVirtualMachineStorageMigrationSpec_DeepCopyInto_def by (rule deep_table) (simp_all add: deep_shapes deep)

lemma MultiNamespaceVirtualMachineStorageMigrationNamespaceStatus_deep [deep]: "deepLib K L \<Longrightarrow> deep (MultiNamespaceVirtualMachineStorageMigrationNamespaceStatus_T L) (MultiNamespaceVirtualMachineStorageMigrationNamespaceStatus_DeepCopyInto K)"
  unfolding MultiNamespaceVirtualMachineStorageMigrationNamespaceStatus_T_def MultiNamespaceVirtualMachineStorageMigrationNamespaceStatus_DeepCopyInto_def by (rule deep_table) (simp_all add: deep_shapes deep)

lemma MultiNamespaceVirtualMachineStorageMigrationStatus_deep [deep]: "deepLib K L \<Longrightarrow> deep (MultiNamespaceVirtualMachineStorageMigrationStatus_T L) (MultiNamespaceVirtualMachineStorageMigrationStatus_DeepCopyInto K)"
  unfolding MultiNamespaceVirtualMachineStorageMigrationStatus_T_def MultiNamespaceVirtualMachineStorageMigrationStatus_DeepCopyInto_def by (rule deep_table) (simp_all add: deep_shapes deep)

lemma MultiNamespaceVirtualMachineStorageMigration_deep [deep]: "deepLib K L \<Longrightarrow> deep (MultiNamespaceVirtualMachineStorageMigration_T L) (MultiNamespaceVirtualMachineStorageMigration_DeepCopyInto K)"
  unfolding MultiNamespaceVirtualMachineStorageMigration_T_def MultiNamespaceVirtualMachineStorageMigration_DeepCopyInto_def by (rule deep_table) (simp_all add: deep_shapes deep)

lemma MultiNamespaceVirtualMachineStorageMigrationList_deep [deep]: "deepLib K L \<Longrightarrow> deep (MultiNamespaceVirtualMachineStorageMigrationList_T L) (MultiNamespaceVirtualMachineStorageMigrationList_DeepCopyInto K)"
  unfolding MultiNamespaceVirtualMachineStorageMigrationList_T_def MultiNamespaceVirtualMachineStorageMigrationList_DeepCopyInto_def by (rule deep_table) (simp_all add: deep_shapes deep)

lemma VirtualMachineStorageMigrationPlanNamespaceSpec_deep [deep]: "deepLib K L \<Longrightarrow> deep (VirtualMachineStorageMigrationPlanNamespaceSpec_T L) (VirtualMachineStorageMigrationPlanNamespaceSpec_DeepCopyInto K)"
  unfolding VirtualMachineStorageMigrationPlanNamespaceSpec_T_def VirtualMachineStorageMigrationPlanNamespaceSpec_DeepCopyInto_def by (rule deep_table) (simp_all add: deep_shapes deep)

lemma MultiNamespaceVirtualMachineStorageMigrationPlanSpec_deep [deep]: "deepLib K L \<Longrightarrow> deep (MultiNamespaceVirtualMachineStorageMigrationPlanSpec_T L) (MultiNamespaceVirtualMachineStorageMigrationPlanSpec_DeepCopyInto K)"
  unfolding MultiNamespaceVirtualMachineStorageMigrationPlanSpec_T_def MultiNamespaceVirtualMachineStorageMigrationPlanSpec_DeepCopyInto_def by (rule deep_table) (simp_all add: deep_shapes deep)

lemma VirtualMachineStorageMigrationPlanNamespaceStatus_deep [deep]: "deepLib K L \<Longrightarrow> deep (VirtualMachineStorageMigrationPlanNamespaceStatus_T L) (VirtualMachineStorageMigrationPlanNamespaceStatus_DeepCopyInto K)"
  unfolding VirtualMachineStorageMigrationPlanNamespaceStatus_T_def VirtualMachineStorageMigrationPlanNamespaceStatus_DeepCopyInto_def by (rule deep_table) (simp_all add: deep_shapes deep)

lemma MultiNamespaceVirtualMachineStorageMigrationPlanStatus_deep [deep]: "deepLib K L \<Longrightarrow> deep (MultiNamespaceVirtualMachineStorageMigrationPlanStatus_T L) (MultiNamespaceVirtualMachineStorageMigrationPlanStatus_DeepCopyInto K)"
  unfolding MultiNamespaceVirtualMachineStorageMigrationPlanStatus_T_def MultiNamespaceVirtualMachineStorageMigrationPlanStatus_DeepCopyInto_def by (rule deep_table) (simp_all add: deep_shapes deep)

lemma MultiNamespaceVirtualMachineStorageMigrationPlan_deep [deep]: "deepLib K L \<Longrightarrow> deep (MultiNamespaceVirtualMachineStorageMigrationPlan_T L) (MultiNamespaceVirtualMachineStorageMigrationPlan_DeepCopyInto K)"
  unfolding MultiNamespaceVirtualMachineStorageMigrationPlan_T_def MultiNamespaceVirtualMachineStorageMigrationPlan_DeepCopyInto_def by (rule deep_table) (simp_all add: deep_shapes deep)

lemma MultiNamespaceVirtualMachineStorageMigrationPlanList_deep [deep]: "deepLib K L \<Longrightarrow> deep (MultiNamespaceVirtualMachineStorageMigrationPlanList_T L) (MultiNamespaceVirtualMachineStorageMigrationPlanList_DeepCopyInto K)"
  unfolding MultiNamespaceVirtualMachineStorageMigrationPlanList_T_def MultiNamespaceVirtualMachineStorageMigrationPlanList_DeepCopyInto_def by (rule deep_table) (simp_all add: deep_shapes deep)

text \<open>All types of the package, with the two functions generated for each.\<close>

definition apiCopies :: "k8sCopiers \<Rightarrow> k8sTypes \<Rightarrow> (gtype \<times> copier \<times> copier) list" where
  "apiCopies K L = [
     (Condition_T L, Condition_DeepCopyInto K, Condition_DeepCopy K),
     (Conditions_T L, Conditions_DeepCopyInto K, Conditions_DeepCopy K),
     (VirtualMachineStorageMigrationSpec_T L, VirtualMachineStorageMigrationSpec_DeepCopyInto K, VirtualMachineStorageMigrationSpec_DeepCopy K),
     (RunningVirtualMachineMigration_T L, RunningVirtualMachineMigration_DeepCopyInto K, RunningVirtualMachineMigration_DeepCopy K),
     (VirtualMachineStorageMigrationStatus_T L, VirtualMachineStorageMigrationStatus_DeepCopyInto K, VirtualMachineStorageMigrationStatus_DeepCopy K),
     (VirtualMachineStorageMigration_T L, VirtualMachineStorageMigration_DeepCopyInto K, VirtualMachineStorageMigration_DeepCopy K),
     (VirtualMachineStorageMigrationList_T L, VirtualMachineStorageMigrationList_DeepCopyInto K, VirtualMachineStorageMigrationList_DeepCopy K),
     (VirtualMachineStorageMigrationPlanDestinationPVC_T L, VirtualMachineStorageMigrationPlanDestinationPVC_DeepCopyInto K, VirtualMachineStorageMigrationPlanDestinationPVC_DeepCopy K),
     (VirtualMachineStorageMigrationPlanTargetMigrationPVC_T L, VirtualMachineStorageMigrationPlanTargetMigrationPVC_DeepCopyInto K, VirtualMachineStorageMigrationPlanTargetMigrationPVC_DeepCopy K),
     (VirtualMachineStorageMigrationPlanVirtualMachine_T L, VirtualMachineStorageMigrationPlanVirtualMachine_DeepCopyInto K, VirtualMachineStorageMigrationPlanVirtualMachine_DeepCopy K),
     (VirtualMachineStorageMigrationPlanSpec_T L, VirtualMachineStorageMigrationPlanSpec_DeepCopyInto K, VirtualMachineStorageMigrationPlanSpec_DeepCopy K),
     (VirtualMachineStorageMigrationPlanSourcePVC_T L, VirtualMachineStorageMigrationPlanSourcePVC_DeepCopyInto K, VirtualMachineStorageMigrationPlanSourcePVC_DeepCopy K),
     (VirtualMachineStorageMigrationPlanStatusVirtualMachine_T L, VirtualMachineStorageMigrationPlanStatusVirtualMachine_DeepCopyInto K, VirtualMachineStorageMigrationPlanStatusVirtualMachine_DeepCopy K),
     (VirtualMachineStorageMigrationPlanStatus_T L, VirtualMachineStorageMigrationPlanStatus_DeepCopyInto K, VirtualMachineStorageMigrationPlanStatus_DeepCopy K),
     (VirtualMachineStorageMigrationPlan_T L, VirtualMachineStorageMigrationPlan_DeepCopyInto K, VirtualMachineStorageMigrationPlan_DeepCopy K),
     (VirtualMachineStorageMigrationPlanList_T L, VirtualMachineStorageMigrationPlanList_DeepCopyInto K, VirtualMachineStorageMigrationPlanList_DeepCopy K),
     (MultiNamespaceVirtualMachineStorageMigrationSpec_T L, MultiNamespaceVirtualMachineStorageMigrationSpec_DeepCopyInto K, MultiNamespaceVirtualMachineStorageMigrationSpec_DeepCopy K),
     (MultiNamespaceVirtualMachineStorageMigrationNamespaceStatus_T L, MultiNamespaceVirtualMachineStorageMigrationNamespaceStatus_DeepCopyInto K, MultiNamespaceVirtualMachineStorageMigrationNamespaceStatus_DeepCopy K),
     (MultiNamespaceVirtualMachineStorageMigrationStatus_T L, MultiNamespaceVirtualMachineStorageMigrationStatus_DeepCopyInto K, MultiNamespaceVirtualMachineStorageMigrationStatus_DeepCopy K),
     (MultiNamespaceVirtualMachineStorageMigration_T L, MultiNamespaceVirtualMachineStorageMigration_DeepCopyInto K, MultiNamespaceVirtualMachineStorageMigration_DeepCopy K),
     (MultiNamespaceVirtualMachineStorageMigrationList_T L, MultiNamespaceVirtualMachineStorageMigrationList_DeepCopyInto K, MultiNamespaceVirtualMachineStorageMigrationList_DeepCopy K),
     (VirtualMachineStorageMigrationPlanNamespaceSpec_T L, VirtualMachineStorageMigrationPlanNamespaceSpec_DeepCopyInto K, VirtualMachineStorageMigrationPlanNamespaceSpec_DeepCopy K),
     (MultiNamespaceVirtualMachineStorageMigrationPlanSpec_T L, MultiNamespaceVirtualMachineStorageMigrationPlanSpec_DeepCopyInto K, MultiNamespaceVirtualMachineStorageMigrationPlanSpec_DeepCopy K),
     (VirtualMachineStorageMigrationPlanNamespaceStatus_T L, VirtualMachineStorageMigrationPlanNamespaceStatus_DeepCopyInto K, VirtualMachineStorageMigrationPlanNamespaceStatus_DeepCopy K),
     (MultiNamespaceVirtualMachineStorageMigrationPlanStatus_T L, MultiNamespaceVirtualMachineStorageMigrationPlanStatus_DeepCopyInto K, MultiNamespaceVirtualMachineStorageMigrationPlanStatus_DeepCopy K),
     (MultiNamespaceVirtualMachineStorageMigrationPlan_T L, MultiNamespaceVirtualMachineStorageMigrationPlan_DeepCopyInto K, MultiNamespaceVirtualMachineStorageMigrationPlan_DeepCopy K),
     (MultiNamespaceVirtualMachineStorageMigrationPlanList_T L, MultiNamespaceVirtualMachineStorageMigrationPlanList_DeepCopyInto K, MultiNamespaceVirtualMachineStorageMigrationPlanList_DeepCopy K)]"

lemmas DeepCopy_defs = Condition_DeepCopy_def
  Conditions_DeepCopy_def
  VirtualMachineStorageMigrationSpec_DeepCopy_def
  RunningVirtualMachineMigration_DeepCopy_def
  VirtualMachineStorageMigrationStatus_DeepCopy_def
  VirtualMachineStorageMigration_DeepCopy_def
  VirtualMachineStorageMigrationList_DeepCopy_def
  VirtualMachineStorageMigrationPlanDestinationPVC_DeepCopy_def
  VirtualMachineStorageMigrationPlanTargetMigrationPVC_DeepCopy_def
  VirtualMachineStorageMigrationPlanVirtualMachine_DeepCopy_def
  VirtualMachineStorageMigrationPlanSpec_DeepCopy_def
  VirtualMachineStorageMigrationPlanSourcePVC_DeepCopy_def
  VirtualMachineStorageMigrationPlanStatusVirtualMachine_DeepCopy_def
  VirtualMachineStorageMigrationPlanStatus_DeepCopy_def
  VirtualMachineStorageMigrationPlan_DeepCopy_def
  VirtualMachineStorageMigrationPlanList_DeepCopy_def
  MultiNamespaceVirtualMachineStorageMigrationSpec_DeepCopy_def
  MultiNamespaceVirtualMachineStorageMigrationNamespaceStatus_DeepCopy_def
  MultiNamespaceVirtualMachineStorageMigrationStatus_DeepCopy_def
  MultiNamespaceVirtualMachineStorageMigration_DeepCopy_def
  MultiNamespaceVirtualMachineStorageMigrationList_DeepCopy_def
  VirtualMachineStorageMigrationPlanNamespaceSpec_DeepCopy_def
  MultiNamespaceVirtualMachineStorageMigrationPlanSpec_DeepCopy_def
  VirtualMachineStorageMigrationPlanNamespaceStatus_DeepCopy_def
  MultiNamespaceVirtualMachineStorageMigrationPlanStatus_DeepCopy_def
  MultiNamespaceVirtualMachineStorageMigrationPlan_DeepCopy_def
  MultiNamespaceVirtualMachineStorageMigrationPlanList_DeepCopy_def

lemmas DeepCopyObject_defs = MultiNamespaceVirtualMachineStorageMigration_DeepCopyObject_def
  MultiNamespaceVirtualMachineStorageMigrationList_DeepCopyObject_def
  MultiNamespaceVirtualMachineStorageMigrationPlan_DeepCopyObject_def
  MultiNamespaceVirtualMachineStorageMigrationPlanList_DeepCopyObject_def
  VirtualMachineStorageMigration_DeepCopyObject_def
  VirtualMachineStorageMigrationList_DeepCopyObject_def
  VirtualMachineStorageMigrationPlan_DeepCopyObject_def
  VirtualMachineStorageMigrationPlanList_DeepCopyObject_def

lemma apiCopies_deep: "deepLib K L \<Longrightarrow> list_all (\<lambda>(T, into, copy). deep T into \<and> deep (TPtr T) copy) (apiCopies K L)"
  by (simp add: apiCopies_def DeepCopy_defs deep deep_deepCopyPtr)

text \<open>\<open>DeepCopyObject\<close> only changes the static type of the result.\<close>

lemma DeepCopyObject_copies:
  "MultiNamespaceVirtualMachineStorageMigration_DeepCopyObject K = MultiNamespaceVirtualMachineStorageMigration_DeepCopy K"
  "MultiNamespaceVirtualMachineStorageMigrationList_DeepCopyObject K = MultiNamespaceVirtualMachineStorageMigrationList_DeepCopy K"
  "MultiNamespaceVirtualMachineStorageMigrationPlan_DeepCopyObject K = MultiNamespaceVirtualMachineStorageMigrationPlan_DeepCopy K"
  "MultiNamespaceVirtualMachineStorageMigrationPlanList_DeepCopyObject K = MultiNamespaceVirtualMachineStorageMigrationPlanList_DeepCopy K"
  "VirtualMachineStorageMigration_DeepCopyObject K = VirtualMachineStorageMigration_DeepCopy K"
  "VirtualMachineStorageMigrationList_DeepCopyObject K = VirtualMachineStorageMigrationList_DeepCopy K"
  "VirtualMachineStorageMigrationPlan_DeepCopyObject K = VirtualMachineStorageMigrationPlan_DeepCopy K"
  "VirtualMachineStorageMigrationPlanList_DeepCopyObject K = VirtualMachineStorageMigrationPlanList_DeepCopy K"
  by (auto simp: fun_eq_iff DeepCopyObject_defs split: prod.splits)

section \<open>Properties\<close>

text \<open>
  C7. The generated deep copies are in step with the type declarations: for every struct of the
  API package both \<open>DeepCopyInto\<close> and \<open>DeepCopy\<close> build a value that reads the same, out of new
  memory only, and leave existing memory alone.
\<close>

theorem generated_copies_deep:
  assumes "deepLib K L"
  shows "list_all (\<lambda>(T, into, copy). deep T into \<and> deep (TPtr T) copy) (apiCopies K L)"
  using assms by (rule apiCopies_deep)

text \<open>
  C8. A reconcile may compare with the copy it took at its start: whatever it writes to the
  original, to anything that existed when the copy was made or to memory allocated later, the copy
  still reads as the original did; and writing to the copy does not show in the original.  The copy
  of nil is nil.
\<close>

theorem deep_copies_isolated:
  assumes "deepLib K L" "(T, into, copy) \<in> set (apiCopies K L)" "wt h (TPtr T) p" "copy p h = (q, h')" "lim h' \<le> lim g"
  shows "((\<forall>a. lim h \<le> a \<and> a < lim h' \<longrightarrow> cells g a = cells h' a) \<longrightarrow> view g (TPtr T) q = view h (TPtr T) p)
    \<and> ((\<forall>a<lim h. cells g a = cells h' a) \<longrightarrow> view g (TPtr T) p = view h (TPtr T) p)
    \<and> (p = GNil \<longleftrightarrow> q = GNil)"
proof -
  have d: "deep (TPtr T) copy" using apiCopies_deep[OF assms(1)] assms(2) by (auto simp: list_all_iff)
  have "view h' (TPtr T) q = view h (TPtr T) p" using copy_separate(1)[OF d assms(3,4)] by blast
  moreover have "wt h' (TPtr T) q" using deepD[OF d assms(3,4)] by (simp add: copyOf_def)
  ultimately have "p = GNil \<longleftrightarrow> q = GNil" using assms(3) by (auto split: gval.splits)
  then show ?thesis using copy_separate(2,3)[OF d assms(3,4), of g] assms(5) by blast
qed

text \<open>A list of one condition, in a program where the library types are plain values.\<close>

definition plainTypes :: k8sTypes where
  "plainTypes = \<lparr>kt_Time = TBasic, kt_ObjectMeta = TBasic, kt_ListMeta = TBasic, kt_PersistentVolumeClaim = TBasic\<rparr>"

definition plainCopiers :: k8sCopiers where
  "plainCopiers = \<lparr>kc_Time = assign, kc_ObjectMeta = assign, kc_ListMeta = assign, kc_PersistentVolumeClaim = assign\<rparr>"

lemma plainLib: "deepLib plainCopiers plainTypes"
  by (simp add: deepLib_def plainTypes_def plainCopiers_def deep_assign)

theorem generated_copies_deep_witness:
  "deepLib plainCopiers plainTypes \<and> deep (TPtr (Conditions_T plainTypes)) (Conditions_DeepCopy plainCopiers)"
  using generated_copies_deep[OF plainLib] plainLib by (simp add: apiCopies_def)

definition readyCondition :: gval where
  "readyCondition = Struct (map (\<lambda>f. (f, Basic f)) [''Type'', ''Status'', ''Reason'', ''Category'', ''Message'', ''LastTransitionTime''])"

definition conditionHeap :: "gval heap" where
  "conditionHeap = \<lparr>cells = (\<lambda>_. [])(0 := [Struct [(''List'', Slc 1 1)]], 1 := [readyCondition]), lim = 2\<rparr>"

theorem deep_copies_isolated_witness:
  "\<exists>q h'. Conditions_DeepCopy plainCopiers (Ptr 0) conditionHeap = (q, h')
     \<and> view (store 1 0 GNil h') (TPtr (Conditions_T plainTypes)) q = view conditionHeap (TPtr (Conditions_T plainTypes)) (Ptr 0)"
proof -
  obtain q h' where run: "Conditions_DeepCopy plainCopiers (Ptr 0) conditionHeap = (q, h')" by fastforce
  have m: "(Conditions_T plainTypes, Conditions_DeepCopyInto plainCopiers, Conditions_DeepCopy plainCopiers) \<in> set (apiCopies plainCopiers plainTypes)"
    by (simp add: apiCopies_def)
  have w: "wt conditionHeap (TPtr (Conditions_T plainTypes)) (Ptr 0)"
    by (simp add: conditionHeap_def Conditions_T_def Condition_T_def readyCondition_def plainTypes_def)
  from deep_copies_isolated[OF plainLib m w run, of "store 1 0 GNil h'"] run show ?thesis
    by (auto simp: conditionHeap_def)
qed

end
