(* ===== verification/GoPath.thy ===== *)
theory GoPath
  imports GoLib
begin

text \<open>
  Paths built by \<open>path.Join\<close> from names.  \<open>path.Join\<close> cleans what it joins, so in general two
  different lists of segments may give one path; on names that the API server admits nothing is
  cleaned away, and a path determines its segments.
\<close>

section \<open>Names\<close>

text \<open>
  A name as the API server admits it: not empty, without a slash, and not one of the two special
  path elements.
\<close>

definition plainName :: "string \<Rightarrow> bool" where
  "plainName s \<longleftrightarrow> s \<noteq> [] \<and> CHR ''/'' \<notin> set s \<and> s \<noteq> ''.'' \<and> s \<noteq> ''..''"

lemma Split_plain: "c \<notin> set a \<Longrightarrow> Split a c = [a]"
  by (induction a) auto

lemma Split_join: "c \<notin> set a \<Longrightarrow> Split (a @ c # b) c = a # Split b c"
  by (induction a) auto

lemma pathJoin_plain:
  assumes "plainName a" "plainName b"
  shows "pathJoin [a, b] = a @ CHR ''/'' # b"
proof -
  have "\<not> HasPrefix (a @ CHR ''/'' # b) ''/''" using assms(1) by (cases a) (auto simp: plainName_def HasPrefix_def)
  moreover have "Split (a @ CHR ''/'' # b) CHR ''/'' = [a, b]"
    using assms by (simp add: plainName_def Split_join Split_plain)
  ultimately show ?thesis using assms by (simp add: pathJoin_def pathClean_def plainName_def)
qed

lemma pathJoin_inj:
  assumes "plainName a" "plainName b" "plainName a'" "plainName b'"
  shows "pathJoin [a, b] = pathJoin [a', b'] \<longleftrightarrow> a = a' \<and> b = b'"
proof
  assume eq: "pathJoin [a, b] = pathJoin [a', b']"
  have "[a, b] = Split (pathJoin [a, b]) CHR ''/''" "[a', b'] = Split (pathJoin [a', b']) CHR ''/''"
    using assms by (simp_all add: pathJoin_plain plainName_def Split_join Split_plain)
  with eq show "a = a' \<and> b = b'" by simp
qed simp

lemma pathClean_plain: "plainName s \<Longrightarrow> pathClean s = s"
  by (cases s) (auto simp: pathClean_def plainName_def HasPrefix_def Let_def Split_plain)

section \<open>Absolute paths\<close>

text \<open>The absolute path with the given segments.\<close>

primrec absPath :: "string list \<Rightarrow> string" where
  "absPath [] = []"
| "absPath (e # es) = CHR ''/'' # e @ absPath es"

lemma absPath_append [simp]: "absPath (es @ fs) = absPath es @ absPath fs"
  by (induction es) simp_all

lemma Split_absPath:
  assumes "list_all plainName es"
  shows "Split (absPath es) CHR ''/'' = [] # es"
proof -
  have "CHR ''/'' \<notin> set a \<Longrightarrow> list_all plainName es \<Longrightarrow> Split (a @ absPath es) CHR ''/'' = a # es" for a es
  proof (induction es arbitrary: a)
    case (Cons e es)
    then have "CHR ''/'' \<notin> set e" by (simp add: plainName_def)
    with Cons show ?case by (simp add: Split_join)
  qed (simp add: Split_plain)
  from this[of "[]"] show ?thesis using assms by simp
qed

lemma absPath_inj: "list_all plainName es \<Longrightarrow> list_all plainName fs \<Longrightarrow> absPath es = absPath fs \<longleftrightarrow> es = fs"
  using Split_absPath by (metis list.inject)

lemma cleanElems_plain: "list_all plainName es \<Longrightarrow> cleanElems rooted acc es = rev acc @ es"
  by (induction es arbitrary: acc) (auto simp: plainName_def)

lemma cleanElems_root: "list_all plainName es \<Longrightarrow> cleanElems rooted [] ([] # es) = es"
  by (simp add: cleanElems_plain)

lemma Join_absPath: "es \<noteq> [] \<Longrightarrow> CHR ''/'' # Join es ''/'' = absPath es"
  by (induction es rule: induct_list012) simp_all

lemma pathClean_absPath: "es \<noteq> [] \<Longrightarrow> list_all plainName es \<Longrightarrow> pathClean (absPath es) = absPath es"
  using Split_absPath[of es] Join_absPath[of es]
  by (cases es) (auto simp: pathClean_def HasPrefix_def Let_def cleanElems_root simp del: cleanElems.simps(2))

text \<open>Joining segments, empty ones among them, to an absolute path.\<close>

lemma Join_Cons: "es \<noteq> [] \<Longrightarrow> Join (p # es) ''/'' = p @ absPath es"
  using Join_absPath[of es] by (cases es) simp_all

lemma pathJoin_absPath:
  assumes "es \<noteq> []" "list_all plainName es" "list_all (\<lambda>f. f \<noteq> [] \<longrightarrow> plainName f) fs"
  shows "pathJoin (absPath es # fs) = absPath (es @ filter (\<lambda>f. f \<noteq> []) fs)"
proof -
  let ?ne = "filter (\<lambda>f. f \<noteq> []) fs"
  have ne: "absPath es \<noteq> []" using assms(1) by (cases es) simp_all
  have plain: "list_all plainName (es @ ?ne)" using assms(2,3) by (auto simp: list_all_iff)
  have "Join (absPath es # ?ne) ''/'' = absPath (es @ ?ne)" by (cases "?ne = []") (simp_all add: Join_Cons)
  then show ?thesis using ne assms(1) pathClean_absPath[OF _ plain] by (simp add: pathJoin_def Let_def)
qed

text \<open>The root itself is a single slash, which \<open>path.Join\<close> absorbs.\<close>

lemma pathJoin_root:
  assumes "fs \<noteq> []" "list_all plainName fs"
  shows "pathJoin (''/'' # fs) = absPath fs"
proof -
  have ne: "filter (\<lambda>e. e \<noteq> []) fs = fs" using assms(2) by (intro filter_True) (auto simp: list_all_iff plainName_def)
  have "Split (CHR ''/'' # absPath fs) CHR ''/'' = [] # [] # fs" using Split_absPath[OF assms(2)] by simp
  then have "pathClean (CHR ''/'' # absPath fs) = absPath fs"
    using assms by (simp add: pathClean_def HasPrefix_def cleanElems_plain Join_absPath)
  then show ?thesis using assms(1) ne by (simp add: pathJoin_def Let_def Join_Cons)
qed

text \<open>Doubled and trailing slashes disappear.\<close>

lemma Split_append: "Split (a @ c # b) c = Split a c @ Split b c"
  by (induction a) (auto split: list.splits simp: Split_not_Nil)

lemma cleanElems_gaps: "list_all (\<lambda>e. e \<noteq> [] \<longrightarrow> plainName e) es \<Longrightarrow> cleanElems rooted acc es = rev acc @ filter (\<lambda>e. e \<noteq> []) es"
  by (induction es arbitrary: acc) (auto simp: plainName_def)

lemma pathClean_gaps:
  assumes "HasPrefix s ''/''" "Split s CHR ''/'' = es" "list_all (\<lambda>e. e \<noteq> [] \<longrightarrow> plainName e) es" "filter (\<lambda>e. e \<noteq> []) es = fs" "fs \<noteq> []"
  shows "pathClean s = absPath fs"
  using assms Join_absPath[of fs] by (simp add: pathClean_def cleanElems_gaps)

end
