(* ===== verification/TaskLists.thy ===== *)
theory TaskLists
  imports TaskSafety
begin

text \<open>
  The lists of running, completed and cancelled VMs across the phases, the order in which a
  migration of a VM talks to the server, and what the cancel path has seen before it gives a VM
  up.
\<close>

section \<open>Passing over reads\<close>

lemma wp_owner:
  assumes "frame sameOwner m" "\<And>r t'. t_Owner t' = t_Owner t \<Longrightarrow> Q r t'"
  shows "wp m Q t"
  by (rule wpI) (use assms(2) frameD[OF assms(1)] in \<open>auto simp: sameOwner_def\<close>)

lemma next_wpI:
  "(\<And>x. r = Ok x \<Longrightarrow> k x s) \<Longrightarrow> (\<And>e. r = Err e \<Longrightarrow> Q (Err e) s) \<Longrightarrow> (\<And>p. r = Panic p \<Longrightarrow> Q (Panic p) s) \<Longrightarrow>
   next_wp k Q r s"
  by (cases r) simp_all

lemma next_wp_fail:
  "\<forall>x. r \<noteq> Ok x \<Longrightarrow> (\<And>r'. \<forall>x. r' \<noteq> Ok x \<Longrightarrow> Q r' s) \<Longrightarrow> next_wp k Q r s"
  by (cases r) auto

lemma wp_owner_bind:
  assumes "frame sameOwner m"
    and "\<And>x t'. t_Owner t' = t_Owner t \<Longrightarrow> wp (f x) Q t'"
    and "\<And>r t'. t_Owner t' = t_Owner t \<Longrightarrow> (\<forall>x. r \<noteq> Ok x) \<Longrightarrow> Q r t'"
  shows "wp (bind m f) Q t"
  unfolding wp_bind by (rule wp_owner[OF assms(1)]) (auto intro!: next_wpI assms(2,3))

lemma wp_onStatus: "wp (onStatus f) Q t =
  Q (Ok ()) (t\<lparr>t_Owner := (t_Owner t)\<lparr>mg_Status := f (mg_Status (t_Owner t))\<rparr>\<rparr>)"
  by (simp add: onStatus_def onOwner_def wp_modify)

section \<open>The wait phase\<close>

lemma frame_completed:
  "frame sameOwner (if b then isOfflineMigrationCompleted cl n else isLiveMigrationCompleted cl n)"
  by (simp add: owner.frame_isOfflineMigrationCompleted owner.frame_isLiveMigrationCompleted)

text \<open>
  The three outcomes of one step of the loop: the VM is kept, it is completed, or the step fails.
\<close>

lemma wp_waitVM:
  fixes t :: "'w task"
  assumes kept: "\<And>t' vm'. t_Owner t' = t_Owner t \<Longrightarrow> rm_Name vm' = rm_Name vm \<Longrightarrow> Q (Ok (acc @ [vm'])) t'"
    and finished: "\<And>t'. t_Owner t' = (t_Owner t)\<lparr>mg_Status := (mg_Status (t_Owner t))\<lparr>ms_CompletedMigrations :=
        t_Completed t @ [rm_Name vm]\<rparr>\<rparr> \<Longrightarrow> Q (Ok acc) t'"
    and fails: "\<And>r t'. t_Owner t' = t_Owner t \<Longrightarrow> (\<forall>x. r \<noteq> Ok x) \<Longrightarrow> Q r t'"
  shows "wp (waitVM cl vm acc) Q t"
  unfolding waitVM_def wp_bind[of "gets _"] wp_gets next_wp.simps
proof (rule wp_owner_bind[OF owner.frame_VMIExists])
  fix vmiExists and t1 :: "'w task"
  assume t1: "t_Owner t1 = t_Owner t"
  show "wp (bind (if \<not> vmiExists then isOfflineMigrationCompleted cl (rm_Name vm)
           else isLiveMigrationCompleted cl (rm_Name vm)) (\<lambda>completed.
       if \<not> completed then
         (if vmiExists then
            bind (getLastObservedProgressPercent cl (rm_Name vm) (t_Namespace t)) (\<lambda>progress.
            ret (acc @ [if progress \<noteq> [] then vm\<lparr>rm_Progress := progress\<rparr> else vm]))
          else ret (acc @ [vm]))
       else
         bind (onStatus (\<lambda>st. st\<lparr>ms_CompletedMigrations := ms_CompletedMigrations st @ [rm_Name vm]\<rparr>)) (\<lambda>_.
         ret acc))) Q t1"
  proof (rule wp_owner_bind[OF frame_completed])
    fix completed and t2 :: "'w task"
    assume t2: "t_Owner t2 = t_Owner t1"
    have progress: "wp (bind (getLastObservedProgressPercent cl (rm_Name vm) (t_Namespace t)) (\<lambda>progress.
            ret (acc @ [if progress \<noteq> [] then vm\<lparr>rm_Progress := progress\<rparr> else vm]))) Q t2"
      by (rule wp_owner_bind[OF owner.frame_getLastObservedProgressPercent])
        (simp add: wp_ret kept t1 t2, simp add: fails t1 t2)
    show "wp (if \<not> completed then
         (if vmiExists then
            bind (getLastObservedProgressPercent cl (rm_Name vm) (t_Namespace t)) (\<lambda>progress.
            ret (acc @ [if progress \<noteq> [] then vm\<lparr>rm_Progress := progress\<rparr> else vm]))
          else ret (acc @ [vm]))
       else
         bind (onStatus (\<lambda>st. st\<lparr>ms_CompletedMigrations := ms_CompletedMigrations st @ [rm_Name vm]\<rparr>)) (\<lambda>_.
         ret acc)) Q t2"
      using progress by (auto simp: wp_bind wp_ret wp_onStatus t1 t2 intro!: kept finished)
  qed (simp add: fails t1)
qed (rule fails)

lemma waitLoop:
  fixes s :: "'w task"
  shows "wp (foldE (waitVM cl) vms []) (\<lambda>r t. t_Running t = t_Running s \<and> t_Phase t = t_Phase s \<and>
     (\<exists>added. t_Completed t = t_Completed s @ added \<and>
       (case r of
          Ok kept \<Rightarrow> mset (map rm_Name kept) + mset added = mset (map rm_Name vms)
        | _ \<Rightarrow> set added \<subseteq> rm_Name ` set vms))) s"
proof (rule wp_foldE[where I = "\<lambda>ys acc t. t_Running t = t_Running s \<and> t_Phase t = t_Phase s \<and>
     (\<exists>added. t_Completed t = t_Completed s @ added
        \<and> mset (map rm_Name acc) + mset added + mset (map rm_Name ys) = mset (map rm_Name vms))"])
  fix x :: RunningVM and ys b :: "RunningVM list" and t :: "'w task"
  assume I: "t_Running t = t_Running s \<and> t_Phase t = t_Phase s \<and>
     (\<exists>added. t_Completed t = t_Completed s @ added
        \<and> mset (map rm_Name b) + mset added + mset (map rm_Name (x # ys)) = mset (map rm_Name vms))"
  then obtain added where a: "t_Completed t = t_Completed s @ added"
    "mset (map rm_Name b) + mset added + mset (map rm_Name (x # ys)) = mset (map rm_Name vms)" by blast
  have sub: "set added \<subseteq> rm_Name ` set vms"
    using a(2) by (metis mset_subset_eq_add_left mset_subset_eq_add_right set_mset_mono set_mset_mset
        subset_mset.order_trans set_map)
  have swap: "mset (map rm_Name (b @ [x])) + mset added + mset (map rm_Name ys) = mset (map rm_Name vms)"
    "mset (map rm_Name b) + mset (added @ [rm_Name x]) + mset (map rm_Name ys) = mset (map rm_Name vms)"
    using a(2) by (simp_all add: ac_simps)
  show "wp (waitVM cl x b) (next_wp (\<lambda>c u. t_Running u = t_Running s \<and> t_Phase u = t_Phase s \<and>
     (\<exists>added. t_Completed u = t_Completed s @ added
        \<and> mset (map rm_Name c) + mset added + mset (map rm_Name ys) = mset (map rm_Name vms)))
     (\<lambda>r t. t_Running t = t_Running s \<and> t_Phase t = t_Phase s \<and>
     (\<exists>added. t_Completed t = t_Completed s @ added \<and>
       (case r of
          Ok kept \<Rightarrow> mset (map rm_Name kept) + mset added = mset (map rm_Name vms)
        | _ \<Rightarrow> set added \<subseteq> rm_Name ` set vms)))) t"
    by (rule wp_waitVM; (rule next_wpI)?)
      (use I a(1) sub swap in auto)
qed auto


section \<open>The cancel phase\<close>

lemma frame_cancelLive: "frame sameOwner (cancelLiveMigration cl n)"
  by (rule owner.frame_cancelLiveMigration) (simp_all add: sameOwner_def)

lemma bind_Ok: "bind m f s = (Ok y, u) \<longleftrightarrow> (\<exists>x t. m s = (Ok x, t) \<and> f x t = (Ok y, u))"
  by (auto simp: run_bind split: prod.splits result.splits)

lemma query_Ok: "query f s = (Ok x, t) \<Longrightarrow> \<exists>w. t = s\<lparr>world := w\<rparr>"
  by (auto simp: run_query split: prod.splits sum.splits)

text \<open>The patch of a VM: nothing when the VM is already as wanted.\<close>

definition patchRequest :: "VirtualMachine \<Rightarrow> VirtualMachine \<Rightarrow> (act \<times> goerr option) list" where
  "patchRequest vm vm' = (if vm = vm' then [] else [(PatchVM vm vm', None)])"

lemma patch_trace:
  "patchVMIfChanged cl vm vm' t = (Ok (), t') \<Longrightarrow> trace t' = trace t @ patchRequest vm vm' \<and> sameObjects t t'"
  by (auto simp: patchVMIfChanged_def patchRequest_def run sameObjects_def split: prod.splits sum.splits if_splits)

text \<open>
  The entry of the plan that the cancel path takes for a VM.  A cancelling pass may repair the
  sources of the entries it handles from what it reads of the VM, and changes nothing else of them.
\<close>

definition planEntry :: "Plan option \<Rightarrow> string \<Rightarrow> StatusVM option" where
  "planEntry plan n = find (\<lambda>p. pv_Name p = n) (case plan of
       Some p \<Rightarrow> st_ReadyMigrations (pl_Status p) @ st_InProgressMigrations (pl_Status p) | None \<Rightarrow> [])"

definition recovers :: "'w client \<Rightarrow> string \<Rightarrow> string \<Rightarrow> StatusVM \<Rightarrow> StatusVM \<Rightarrow> bool" where
  "recovers cl ns n p p' \<longleftrightarrow> (\<exists>vm w w'. c_GetVM cl ns n w = (Inr vm, w') \<and> recoverCorruptedSourcePVCs vm p = Ok p')"

definition planned :: "'w client \<Rightarrow> 'w task \<Rightarrow> string \<Rightarrow> StatusVM \<Rightarrow> bool" where
  "planned cl s n p \<longleftrightarrow> (\<exists>e. planEntry (t_Plan s) n = Some e \<and> (recovers cl (t_Namespace s) n)\<^sup>*\<^sup>* e p)"

text \<open>How a pass moves on: requests are added, entries are only repaired.\<close>

definition moves_on :: "'w client \<Rightarrow> 'w task \<Rightarrow> 'w task \<Rightarrow> bool" where
  "moves_on cl s t \<longleftrightarrow> t_Owner t = t_Owner s \<and> (\<exists>new. trace t = trace s @ new)
     \<and> (\<forall>n p. planEntry (t_Plan t) n = Some p \<longrightarrow> planned cl s n p)"

lemma planned_refl: "planEntry (t_Plan s) n = Some p \<Longrightarrow> planned cl s n p"
  by (auto simp: planned_def)

lemma planned_moves_on: "moves_on cl s t \<Longrightarrow> planned cl t n p \<Longrightarrow> planned cl s n p"
  by (fastforce simp: moves_on_def planned_def intro: rtranclp_trans)

lemma moves_on_trans:
  assumes "moves_on cl s t" "moves_on cl t u"
  shows "moves_on cl s u"
  using assms planned_moves_on[OF assms(1)] by (auto simp: moves_on_def)

lemma moves_on_world [simp]: "moves_on cl t (t\<lparr>world := w\<rparr>)"
  by (simp add: moves_on_def planned_refl)

lemma moves_on_refl [simp]: "moves_on cl t t"
  by (simp add: moves_on_def planned_refl)

lemma find_putFirst:
  "find (\<lambda>p. pv_Name p = m) (putFirst n ss xs) =
   (if m = n then map_option (\<lambda>p. p\<lparr>sv_SourcePVCs := ss\<rparr>) (find (\<lambda>p. pv_Name p = n) xs) else find (\<lambda>p. pv_Name p = m) xs)"
  by (induction xs) auto

lemma find_append: "find P (xs @ ys) = (case find P xs of None \<Rightarrow> find P ys | Some x \<Rightarrow> Some x)"
  by (induction xs) auto

lemma planEntry_putSources:
  "planEntry (map_option (putSources n ss) plan) m =
   (if m = n then map_option (\<lambda>p. p\<lparr>sv_SourcePVCs := ss\<rparr>) (planEntry plan n) else planEntry plan m)"
proof (cases plan)
  case (Some p)
  show ?thesis
  proof (cases "find (\<lambda>p. pv_Name p = n) (st_ReadyMigrations (pl_Status p))")
    case None
    then have "n \<notin> pv_Name ` set (st_ReadyMigrations (pl_Status p))" by (auto simp: find_None_iff)
    with Some None show ?thesis
      by (auto simp: planEntry_def putSources_def find_append find_putFirst Let_def split: option.splits)
  next
    case (Some x)
    then have "n \<in> pv_Name ` set (st_ReadyMigrations (pl_Status p))" by (auto simp: find_Some_iff)
    with Some \<open>plan = Some p\<close> show ?thesis
      by (simp add: planEntry_def putSources_def find_append find_putFirst Let_def)
  qed
qed (simp add: planEntry_def)

text \<open>What the cancel path has seen and done when it gives a VM up.\<close>

definition sawStopped :: "'w client \<Rightarrow> string \<Rightarrow> string \<Rightarrow> bool" where
  "sawStopped cl ns n \<longleftrightarrow> (\<exists>w w' e. c_GetVMI cl ns n w = (Inl e, w') \<and> IsNotFound e)"

definition turnedBack :: "'w client \<Rightarrow> 'w task \<Rightarrow> 'w task \<Rightarrow> string \<Rightarrow> bool" where
  "turnedBack cl s t n \<longleftrightarrow> (\<exists>w w' vm p p' rp vm'. c_GetVM cl (t_Namespace s) n w = (Inr vm, w')
     \<and> planned cl s n p \<and> recoverCorruptedSourcePVCs vm p = Ok p' \<and> revertPlanVolumes p' = Ok rp
     \<and> prepareVMForStorageMigration vm rp = Ok vm'
     \<and> set (patchRequest vm (vm'\<lparr>vm_UpdateVolumesStrategy := Some ''Migration''\<rparr>)) \<subseteq> set (drop (length (trace s)) (trace t)))"

definition sawOnSource :: "'w client \<Rightarrow> 'w task \<Rightarrow> string \<Rightarrow> bool" where
  "sawOnSource cl s n \<longleftrightarrow>
     (\<exists>p w w' vm. c_GetVM cl (t_Namespace s) n w = (Inr vm, w') \<and> planned cl s n p
        \<and> \<not> vmReferencesTargetVolumes vm p \<and> sv_SourcePVCs p \<noteq> []
        \<and> (\<forall>src \<in> set (sv_SourcePVCs p). \<exists>v \<in> set (vm_Volumes vm). volumeClaimName v = sp_Name src
             \<and> (sp_VolumeName src = [] \<or> vol_Name v = sp_VolumeName src))) \<and>
     (\<exists>w w' vmims. c_ListVMIMs cl (t_Namespace s) w = (Inr vmims, w')
        \<and> (\<forall>v \<in> set vmims. vmim_VMIName v = n \<and> \<not> vmim_CreationTimestamp v < om_CreationTimestamp (mg_Meta (t_Owner s)) \<longrightarrow>
             vmim_Phase v \<in> {MigrationSucceeded, MigrationFailed}))"

definition releasable :: "'w client \<Rightarrow> 'w task \<Rightarrow> 'w task \<Rightarrow> string \<Rightarrow> bool" where
  "releasable cl s t n \<longleftrightarrow> sawStopped cl (t_Namespace s) n \<and> turnedBack cl s t n \<or> sawOnSource cl s n"

lemma releasable_lift:
  assumes "moves_on cl s t" "moves_on cl u v" "\<exists>new. trace u = trace t @ new" "releasable cl t u n"
  shows "releasable cl s v n"
proof -
  have o: "t_Owner t = t_Owner s" using assms(1) by (simp add: moves_on_def)
  have "set (drop (length (trace t)) (trace u)) \<subseteq> set (drop (length (trace s)) (trace v))"
    using assms(1-3) by (auto simp: moves_on_def)
  then have "turnedBack cl t u n \<Longrightarrow> turnedBack cl s v n"
    using planned_moves_on[OF assms(1)] unfolding turnedBack_def o by (meson order_trans)
  moreover have "sawOnSource cl t n \<Longrightarrow> sawOnSource cl s n"
    using planned_moves_on[OF assms(1)] unfolding sawOnSource_def o by blast
  ultimately show ?thesis using assms(4) o by (auto simp: releasable_def)
qed

lemma onSourceVolumes_sound:
  "onSourceVolumes vm entries n \<Longrightarrow> \<exists>p. find (\<lambda>p. pv_Name p = n) entries = Some p
     \<and> \<not> vmReferencesTargetVolumes vm p \<and> sv_SourcePVCs p \<noteq> []
     \<and> (\<forall>src \<in> set (sv_SourcePVCs p). \<exists>v \<in> set (vm_Volumes vm). volumeClaimName v = sp_Name src
          \<and> (sp_VolumeName src = [] \<or> vol_Name v = sp_VolumeName src))"
  by (auto simp: onSourceVolumes_def list_all_iff dest: sourceMatchedD split: option.splits if_splits)

text \<open>The reads of the cancel path, with what their answer says.\<close>

lemma VMIExists_cases:
  assumes "VMIExists cl n ns t = (r, u)"
  shows "(\<exists>w. u = t\<lparr>world := w\<rparr>) \<and> (r = Ok False \<longrightarrow> sawStopped cl ns n)"
  using assms
  by (auto simp: VMIExists_def sawStopped_def run split: prod.splits sum.splits if_splits) blast+

lemma isVMOnSourceVolumes_cases:
  assumes "isVMOnSourceVolumes cl n t = (r, u)"
  shows "(\<exists>w. u = t\<lparr>world := w\<rparr>) \<and> (r = Ok True \<longrightarrow> (\<exists>p w w' vm. c_GetVM cl (t_Namespace t) n w = (Inr vm, w')
     \<and> planEntry (t_Plan t) n = Some p \<and> \<not> vmReferencesTargetVolumes vm p \<and> sv_SourcePVCs p \<noteq> []
     \<and> (\<forall>src \<in> set (sv_SourcePVCs p). \<exists>v \<in> set (vm_Volumes vm). volumeClaimName v = sp_Name src
          \<and> (sp_VolumeName src = [] \<or> vol_Name v = sp_VolumeName src))))"
proof -
  obtain v w where v: "c_GetVM cl (t_Namespace t) n (world t) = (v, w)" by fastforce
  show ?thesis
  proof (cases v)
    case (Inr vm)
    with assms v have "u = t\<lparr>world := w\<rparr>" "r = Ok (onSourceVolumes vm (case t_Plan t of
       Some plan \<Rightarrow> st_ReadyMigrations (pl_Status plan) @ st_InProgressMigrations (pl_Status plan) | None \<Rightarrow> []) n)"
      by (auto simp: isVMOnSourceVolumes_def getCancellableMigrations_def run)
    then show ?thesis using v Inr onSourceVolumes_sound unfolding planEntry_def by fastforce
  qed (use assms v in \<open>auto simp: isVMOnSourceVolumes_def run\<close>)
qed

lemma hasActiveVMIM_cases:
  assumes "hasActiveVMIM cl n t = (r, u)"
  shows "(\<exists>w. u = t\<lparr>world := w\<rparr>) \<and> (r = Ok False \<longrightarrow> (\<exists>w w' vmims. c_ListVMIMs cl (t_Namespace t) w = (Inr vmims, w')
     \<and> (\<forall>v \<in> set vmims. vmim_VMIName v = n \<and> \<not> vmim_CreationTimestamp v < om_CreationTimestamp (mg_Meta (t_Owner t)) \<longrightarrow>
          vmim_Phase v \<in> {MigrationSucceeded, MigrationFailed})))"
proof -
  obtain v w where v: "c_ListVMIMs cl (t_Namespace t) (world t) = (v, w)" by fastforce
  show ?thesis
    using assms v by (cases v) (auto simp: hasActiveVMIM_def run list_ex_iff)
qed

lemma cancelLive_Ok:
  assumes "cancelLiveMigration cl n t = (Ok (), u)"
  shows "moves_on cl t u \<and> turnedBack cl t u n"
proof -
  from assms obtain vm w p p' rp vm' v where
    vm: "c_GetVM cl (t_Namespace t) n (world t) = (Inr vm, w)" and p: "planEntry (t_Plan t) n = Some p"
    and p': "recoverCorruptedSourcePVCs vm p = Ok p'" and rp: "revertPlanVolumes p' = Ok rp"
    and vm': "prepareVMForStorageMigration vm rp = Ok vm'"
    and v: "v = t\<lparr>world := w, t_Plan := map_option (putSources n (sv_SourcePVCs p')) (t_Plan t)\<rparr>"
    and patch: "patchVMIfChanged cl vm (vm'\<lparr>vm_UpdateVolumesStrategy := Some ''Migration''\<rparr>) v = (Ok (), u)"
    by (auto simp: cancelLiveMigration_def getCancellableMigrations_def planEntry_def updateVMForStorageMigration_def
        bind_Ok run_gets run_query run_modify run_liftR run_throw split: option.splits prod.splits sum.splits result.splits)
  have tr: "trace u = trace t @ patchRequest vm (vm'\<lparr>vm_UpdateVolumesStrategy := Some ''Migration''\<rparr>)" and o: "t_Owner u = t_Owner t"
    and pl: "t_Plan u = map_option (putSources n (sv_SourcePVCs p')) (t_Plan t)"
    using patch_trace[OF patch] by (simp_all add: v sameObjects_def)
  have eq: "p\<lparr>sv_SourcePVCs := sv_SourcePVCs p'\<rparr> = p'"
    using p' by (auto simp: recoverCorruptedSourcePVCs_def bindR_eq_Ok split: if_splits)
  have step: "recovers cl (t_Namespace t) n p p'" using vm p' by (auto simp: recovers_def)
  have "planned cl t m q" if "planEntry (t_Plan u) m = Some q" for m q
    using that p step eq by (auto simp: pl planEntry_putSources planned_def split: if_splits)
  then have "moves_on cl t u" using tr o by (auto simp: moves_on_def)
  moreover have "turnedBack cl t u n"
    unfolding turnedBack_def using vm planned_refl[OF p] p' rp vm' tr by fastforce
  ultimately show ?thesis by blast
qed

text \<open>
  The outcomes of one step of the cancel loop: the VM is kept, it is given up after it was turned
  rp while stopped or seen safely rp on its sources, or the step fails.
\<close>

lemma cancelVM_Ok:
  assumes "cancelVM cl vm (rs, cs) t = (Ok (rs', cs'), u)"
  shows "moves_on cl t u \<and> ((rs', cs') = (rs @ [vm], cs)
    \<or> (rs', cs') = (rs, cs @ [rm_Name vm]) \<and> releasable cl t u (rm_Name vm))"
proof -
  let ?n = "rm_Name vm"
  from assms obtain b v where v: "VMIExists cl ?n (t_Namespace t) t = (Ok b, v)"
    and rest: "(if \<not> b then bind (cancelLiveMigration cl ?n) (\<lambda>_. ret (rs, cs @ [?n]))
       else bind (isVMOnSourceVolumes cl ?n) (\<lambda>onSource.
           if onSource then bind (hasActiveVMIM cl ?n) (\<lambda>active. if active then ret (rs @ [vm], cs) else ret (rs, cs @ [?n]))
           else bind (cancelLiveMigration cl ?n) (\<lambda>_. ret (rs @ [vm], cs)))) v = (Ok (rs', cs'), u)"
    by (auto simp: cancelVM_def bind_Ok run_gets)
  obtain w where w: "v = t\<lparr>world := w\<rparr>" and stopped: "\<not> b \<Longrightarrow> sawStopped cl (t_Namespace t) ?n"
    using VMIExists_cases[OF v] by auto
  have turned: "moves_on cl t x \<and> turnedBack cl t x ?n" if "cancelLiveMigration cl ?n (t\<lparr>world := y\<rparr>) = (Ok (), x)" for x y
  proof -
    have c: "moves_on cl (t\<lparr>world := y\<rparr>) x" "turnedBack cl (t\<lparr>world := y\<rparr>) x ?n" using cancelLive_Ok[OF that] by auto
    have "turnedBack cl t x ?n" using c(2) by (simp add: turnedBack_def planned_def)
    then show ?thesis using moves_on_trans[OF moves_on_world c(1)] by blast
  qed
  show ?thesis
  proof (cases b)
    case False
    then have "cancelLiveMigration cl ?n v = (Ok (), u)" "rs' = rs" "cs' = cs @ [?n]"
      using rest by (auto simp: bind_Ok run_ret)
    then show ?thesis using turned[of w u] stopped[OF False] by (simp add: w releasable_def)
  next
    case True
    then obtain on v2 where v2: "isVMOnSourceVolumes cl ?n v = (Ok on, v2)"
      and rest2: "(if on then bind (hasActiveVMIM cl ?n) (\<lambda>active. if active then ret (rs @ [vm], cs) else ret (rs, cs @ [?n]))
           else bind (cancelLiveMigration cl ?n) (\<lambda>_. ret (rs @ [vm], cs))) v2 = (Ok (rs', cs'), u)"
      using rest by (auto simp: bind_Ok)
    obtain w2 where w2: "v2 = t\<lparr>world := w2\<rparr>" using isVMOnSourceVolumes_cases[OF v2] by (auto simp: w)
    show ?thesis
    proof (cases on)
      case False
      then have "cancelLiveMigration cl ?n v2 = (Ok (), u)" "rs' = rs @ [vm]" "cs' = cs"
        using rest2 by (auto simp: bind_Ok run_ret)
      then show ?thesis using turned[of w2 u] by (simp add: w2)
    next
      case on: True
      then obtain active where h: "hasActiveVMIM cl ?n v2 = (Ok active, u)"
        "(rs', cs') = (if active then (rs @ [vm], cs) else (rs, cs @ [?n]))"
        using rest2 by (auto simp: bind_Ok run_ret split: if_splits)
      obtain w3 where w3: "u = t\<lparr>world := w3\<rparr>" using hasActiveVMIM_cases[OF h(1)] by (auto simp: w2)
      have "sawOnSource cl t ?n" if "\<not> active"
        unfolding sawOnSource_def
        using isVMOnSourceVolumes_cases[OF v2] hasActiveVMIM_cases[OF h(1)] on that planned_refl[of t ?n _ cl]
        by (intro conjI) (fastforce simp: w w2)+
      then show ?thesis using h(2) by (auto simp: w3 releasable_def split: if_splits)
    qed
  qed
qed

lemma frame_cancelVM: "frame sameOwner (cancelVM cl vm acc)"
  unfolding cancelVM_def
  by (intro owner.steps frame_case_prod owner.frame_VMIExists owner.frame_isVMOnSourceVolumes owner.frame_hasActiveVMIM
      frame_cancelLive)

lemma cancelLoop:
  fixes s :: "'w task"
  shows "wp (foldE (cancelVM cl) vms ([], [])) (\<lambda>r t. t_Owner t = t_Owner s \<and>
     (case r of
        Ok (rs, cs) \<Rightarrow> mset (map rm_Name rs) + mset cs = mset (map rm_Name vms) \<and> (\<forall>n \<in> set cs. releasable cl s t n)
      | _ \<Rightarrow> True)) s"
proof (rule wp_foldE[where I = "\<lambda>ys acc t. moves_on cl s t \<and>
     mset (map rm_Name (fst acc)) + mset (snd acc) + mset (map rm_Name ys) = mset (map rm_Name vms)
     \<and> (\<forall>n \<in> set (snd acc). releasable cl s t n)"], goal_cases)
  case (2 x ys b t)
  then have I: "moves_on cl s t" "mset (map rm_Name (fst b)) + mset (snd b) + mset (map rm_Name (x # ys)) = mset (map rm_Name vms)"
    "\<forall>n \<in> set (snd b). releasable cl s t n" by auto
  have o: "t_Owner t = t_Owner s" using I(1) by (simp add: moves_on_def)
  show ?case
  proof (rule wpI)
    fix r u
    assume r: "cancelVM cl x b t = (r, u)"
    have ou: "t_Owner u = t_Owner s" using frameD[OF frame_cancelVM r] o by (simp add: sameOwner_def)
    show "next_wp (\<lambda>c u. moves_on cl s u \<and>
       mset (map rm_Name (fst c)) + mset (snd c) + mset (map rm_Name ys) = mset (map rm_Name vms)
       \<and> (\<forall>n \<in> set (snd c). releasable cl s u n))
     (\<lambda>r t. t_Owner t = t_Owner s \<and>
     (case r of
        Ok (rs, cs) \<Rightarrow> mset (map rm_Name rs) + mset cs = mset (map rm_Name vms) \<and> (\<forall>n \<in> set cs. releasable cl s t n)
      | _ \<Rightarrow> True)) r u"
    proof (cases r)
      case (Ok c)
      obtain rs cs rs' cs' where b: "b = (rs, cs)" "c = (rs', cs')" by (cases b, cases c) auto
      note step = cancelVM_Ok[OF r[unfolded Ok b]]
      have su: "moves_on cl s u" using moves_on_trans[OF I(1)] step by blast
      have "releasable cl s u n" if "n \<in> set cs" for n
        using releasable_lift[OF moves_on_refl, of cl t u s n] step I(1,3) that b by (auto simp: moves_on_def)
      moreover have "releasable cl t u n \<Longrightarrow> releasable cl s u n" for n
        using releasable_lift[OF I(1) moves_on_refl] step by (auto simp: moves_on_def)
      ultimately show ?thesis using I(2) step su Ok b by (auto simp: ac_simps)
    qed (use ou in auto)
  qed
next
  case (3 b t)
  then show ?case by (auto simp: moves_on_def)
qed simp_all

section \<open>The begin phase\<close>

lemma frame_migrate: "frame sameOwner (liveMigrateVM cl p)" "frame sameOwner (offlineMigrateVM cl p)"
  by (rule owner.frame_liveMigrateVM owner.frame_offlineMigrateVM,
      simp, rule owner.frame_createTargetDVs, simp)+

definition running :: "string \<Rightarrow> RunningVM" where
  "running n = \<lparr>rm_Name = n, rm_Progress = []\<rparr>"

lemma wp_beginVM:
  fixes t :: "'w task"
  assumes skipped: "\<And>t'. t_Owner t' = t_Owner t \<Longrightarrow> Q (Ok ()) t'"
    and started: "\<And>t'. t_Owner t' = (t_Owner t)\<lparr>mg_Status := (mg_Status (t_Owner t))\<lparr>ms_RunningMigrations :=
        t_Running t @ [running (pv_Name p)]\<rparr>\<rparr> \<Longrightarrow> Q (Ok ()) t'"
    and fails: "\<And>r t'. t_Owner t' = t_Owner t \<Longrightarrow> (\<forall>x. r \<noteq> Ok x) \<Longrightarrow> Q r t'"
  shows "wp (beginVM cl p) Q t"
proof -
  have append: "wp (appendRunning (pv_Name p)) Q u" if "t_Owner u = t_Owner t" for u
    using that by (simp add: appendRunning_def wp_onStatus started running_def)
  have live: "wp (bind (liveMigrateVM cl p) (\<lambda>_. appendRunning (pv_Name p))) Q u"
    and offline: "wp (bind (offlineMigrateVM cl p) (\<lambda>_. appendRunning (pv_Name p))) Q u"
    if "t_Owner u = t_Owner t" for u
    using that by (intro wp_owner_bind frame_migrate; simp add: append fails)+
  have online: "wp (bind (canVMStorageMigrate cl (pv_Name p)) (\<lambda>can.
      if \<not> can then ret () else bind (liveMigrateVM cl p) (\<lambda>_. appendRunning (pv_Name p)))) Q u"
    if "t_Owner u = t_Owner t" for u
    using that by (intro wp_owner_bind owner.frame_canVMStorageMigrate) (auto simp: wp_ret skipped live intro!: fails)
  show ?thesis
    unfolding beginVM_def wp_bind[of "gets _"] wp_gets next_wp.simps
    by (intro wp_owner_bind owner.frame_VMIExists) (auto simp: online offline intro!: fails)
qed

text \<open>Some of the given entries, in order, have been added to the running VMs; nothing else has changed.\<close>

definition begun :: "'w task \<Rightarrow> StatusVM list \<Rightarrow> 'w task \<Rightarrow> bool" where
  "begun s entries t \<longleftrightarrow> (\<exists>added. subseq added (map pv_Name entries)
     \<and> t_Owner t = (t_Owner s)\<lparr>mg_Status := (mg_Status (t_Owner s))\<lparr>ms_RunningMigrations :=
          t_Running s @ map running added\<rparr>\<rparr>)"

lemma begun_skip: "begun s pre t \<Longrightarrow> t_Owner t' = t_Owner t \<Longrightarrow> begun s (pre @ rest) t'"
  unfolding begun_def by (metis map_append subseq_rev_drop_many)

lemma begun_start:
  assumes "begun s pre t" "t_Owner t' = (t_Owner t)\<lparr>mg_Status := (mg_Status (t_Owner t))\<lparr>ms_RunningMigrations :=
        t_Running t @ [running (pv_Name x)]\<rparr>\<rparr>"
  shows "begun s (pre @ [x]) t'"
proof -
  from assms(1) obtain added where a: "subseq added (map pv_Name pre)"
    "t_Owner t = (t_Owner s)\<lparr>mg_Status := (mg_Status (t_Owner s))\<lparr>ms_RunningMigrations := t_Running s @ map running added\<rparr>\<rparr>"
    by (auto simp: begun_def)
  have "subseq (added @ [pv_Name x]) (map pv_Name (pre @ [x]))"
    using a(1) by (simp add: list_emb_append_mono)
  moreover have "t_Owner t' = (t_Owner s)\<lparr>mg_Status := (mg_Status (t_Owner s))\<lparr>ms_RunningMigrations :=
      t_Running s @ map running (added @ [pv_Name x])\<rparr>\<rparr>"
    using a(2) assms(2) by simp
  ultimately show ?thesis unfolding begun_def by blast
qed

lemma beginLoop:
  fixes s :: "'w task"
  shows "wp (foldE (\<lambda>p _. beginVM cl p) entries ()) (\<lambda>r t. begun s entries t) s"
proof (rule wp_foldE[where I = "\<lambda>ys _ t. \<exists>pre. entries = pre @ ys \<and> begun s pre t"])
  have "t_Owner s = (t_Owner s)\<lparr>mg_Status := (mg_Status (t_Owner s))\<lparr>ms_RunningMigrations := t_Running s\<rparr>\<rparr>" by simp
  then show "\<exists>pre. entries = pre @ entries \<and> begun s pre s" by (auto simp: begun_def intro!: exI[of _ "[]"])
next
  fix x :: StatusVM and ys :: "StatusVM list" and b :: unit and t :: "'w task"
  assume "\<exists>pre. entries = pre @ x # ys \<and> begun s pre t"
  then obtain pre where pre: "entries = (pre @ [x]) @ ys" "begun s pre t" by auto
  show "wp (beginVM cl x) (next_wp (\<lambda>c u. \<exists>pre. entries = pre @ ys \<and> begun s pre u) (\<lambda>r t. begun s entries t)) t"
  proof (rule wp_beginVM)
    fix t' :: "'w task"
    assume "t_Owner t' = t_Owner t"
    with pre show "next_wp (\<lambda>c u. \<exists>pre. entries = pre @ ys \<and> begun s pre u) (\<lambda>r t. begun s entries t) (Ok ()) t'"
      using begun_skip[OF pre(2), of t' "[x]"] by auto
  next
    fix t' :: "'w task"
    assume "t_Owner t' = (t_Owner t)\<lparr>mg_Status := (mg_Status (t_Owner t))\<lparr>ms_RunningMigrations :=
        t_Running t @ [running (pv_Name x)]\<rparr>\<rparr>"
    with pre(1) show "next_wp (\<lambda>c u. \<exists>pre. entries = pre @ ys \<and> begun s pre u) (\<lambda>r t. begun s entries t) (Ok ()) t'"
      using begun_start[OF pre(2), of t' x] by auto
  next
    fix r :: "unit result" and t' :: "'w task"
    assume "t_Owner t' = t_Owner t" "\<forall>x. r \<noteq> Ok x"
    with pre show "next_wp (\<lambda>c u. \<exists>pre. entries = pre @ ys \<and> begun s pre u) (\<lambda>r t. begun s entries t) r t'"
      using begun_skip[OF pre(2), of t' "x # ys"] by (intro next_wp_fail) auto
  qed
qed auto


section \<open>The order of the requests\<close>

text \<open>The \<open>i\<close>-th request of the loop over the targets.\<close>

definition requestedFor ::
  "Migration \<Rightarrow> Plan option \<Rightarrow> (SourcePVC \<Rightarrow> string option) \<Rightarrow> StatusVM \<Rightarrow> nat \<Rightarrow> act \<times> goerr option \<Rightarrow> bool"
where
  "requestedFor m plan fillFrom planVM i q \<longleftrightarrow> (\<exists>p name sz labels annotations. plan = Some p
     \<and> i < length (sv_SourcePVCs planVM)
     \<and> dp_Name (tp_DestinationPVC (pv_TargetMigrationPVCs planVM ! i)) = Some name
     \<and> fst q = CreateDV (targetDV m p (tp_DestinationPVC (pv_TargetMigrationPVCs planVM ! i)) name sz labels annotations
          (fillFrom (sv_SourcePVCs planVM ! i)))
     \<and> (\<forall>e. snd q = Some e \<longrightarrow> IsAlreadyExists e))"

lemma createTargetDV_trace:
  assumes "createTargetDV cl pvc sz labels annotations src t = (Ok (), t')"
  shows "\<exists>p name e. t_Plan t = Some p \<and> dp_Name (tp_DestinationPVC pvc) = Some name
    \<and> trace t' = trace t @ [(CreateDV (targetDV (t_Owner t) p (tp_DestinationPVC pvc) name sz labels annotations src), e)]
    \<and> (\<forall>x. e = Some x \<longrightarrow> IsAlreadyExists x) \<and> sameObjects t t'"
  using assms
  by (auto simp: createTargetDV_def thePlan_def deref_def run Let_def sameObjects_def
      split: option.splits prod.splits sum.splits if_splits)

lemma read_keeps:
  assumes "frame (\<lambda>s t. trace t = trace s) m" "frame sameObjects m" "m t = (r, t')"
  shows "trace t' = trace t \<and> sameObjects t t'"
  using frameD[OF assms(1,3)] frameD[OF assms(2,3)] by simp

lemma trace_determineSourcePVCSize: "frame (\<lambda>s t. trace t = trace s) (determineSourcePVCSize cl pvc)"
  unfolding determineSourcePVCSize_def determineDataVolumeSize_def by (intro trace_obs.steps)

lemma createTargetFor_trace:
  assumes "createTargetFor cl fillFrom planVM i (pv_TargetMigrationPVCs planVM ! i) t = (Ok (), t')"
  shows "\<exists>q. trace t' = trace t @ [q] \<and> requestedFor (t_Owner t) (t_Plan t) fillFrom planVM i q \<and> sameObjects t t'"
proof -
  from assms obtain apiPVC sz t1 t2 where
    i: "i < length (sv_SourcePVCs planVM)" and
    r: "query (c_GetPVC cl (sp_Namespace (sv_SourcePVCs planVM ! i)) (sp_Name (sv_SourcePVCs planVM ! i))) t = (Ok apiPVC, t1)"
      "determineSourcePVCSize cl apiPVC t1 = (Ok sz, t2)"
      "createTargetDV cl (pv_TargetMigrationPVCs planVM ! i) sz (om_Labels (pvc_Meta apiPVC)) (om_Annotations (pvc_Meta apiPVC))
        (fillFrom (sv_SourcePVCs planVM ! i)) t2 = (Ok (), t')"
    by (auto simp: createTargetFor_def bind_Ok run_liftR index_def split: if_splits)
  have "trace t1 = trace t" "sameObjects t t1" using query_Ok[OF r(1)] by (auto simp: sameObjects_def)
  moreover have "trace t2 = trace t1 \<and> sameObjects t1 t2"
    by (rule read_keeps[OF trace_determineSourcePVCSize objects.frame_determineSourcePVCSize r(2)])
  ultimately have eq: "trace t2 = trace t" "t_Owner t2 = t_Owner t" "t_Plan t2 = t_Plan t"
    by (simp_all add: sameObjects_def)
  from createTargetDV_trace[OF r(3)] i show ?thesis
    unfolding eq requestedFor_def sameObjects_def by fastforce
qed

lemma createLoop_trace:
  assumes "foldE (\<lambda>(i, pvc) _. createTargetFor cl fillFrom planVM i pvc)
     (enumerate k (drop k (pv_TargetMigrationPVCs planVM))) () t = (Ok (), t')"
    and "length (pv_TargetMigrationPVCs planVM) = k + m"
  shows "\<exists>qs. trace t' = trace t @ qs \<and> length qs = m \<and> sameObjects t t'
    \<and> (\<forall>j < m. requestedFor (t_Owner t) (t_Plan t) fillFrom planVM (k + j) (qs ! j))"
  using assms
proof (induction m arbitrary: k t)
  case 0
  then show ?case by (auto simp: run_ret sameObjects_def)
next
  case (Suc m)
  let ?ts = "pv_TargetMigrationPVCs planVM"
  have k: "k < length ?ts" using Suc(3) by simp
  then have "drop k ?ts = ?ts ! k # drop (Suc k) ?ts" by (simp add: Cons_nth_drop_Suc)
  with Suc(2) obtain u where u: "createTargetFor cl fillFrom planVM k (?ts ! k) t = (Ok (), u)"
    and rest: "foldE (\<lambda>(i, pvc) _. createTargetFor cl fillFrom planVM i pvc)
     (enumerate (Suc k) (drop (Suc k) ?ts)) () u = (Ok (), t')"
    by (auto simp: bind_Ok)
  obtain q where q: "trace u = trace t @ [q]" "requestedFor (t_Owner t) (t_Plan t) fillFrom planVM k q" "sameObjects t u"
    using createTargetFor_trace[OF u] by blast
  obtain qs where qs: "trace t' = trace u @ qs" "length qs = m" "sameObjects u t'"
    "\<forall>j < m. requestedFor (t_Owner u) (t_Plan u) fillFrom planVM (Suc k + j) (qs ! j)"
    using Suc(1)[OF rest] Suc(3) by auto
  have "\<forall>j < Suc m. requestedFor (t_Owner t) (t_Plan t) fillFrom planVM (k + j) ((q # qs) ! j)"
    using q(2,3) qs(4) by (auto simp: less_Suc_eq_0_disj sameObjects_def)
  with q qs show ?case
    by (intro exI[of _ "q # qs"]) (auto simp: sameObjects_def)
qed

lemma createTargetDVs_trace:
  "createTargetDVs cl fillFrom planVM t = (Ok (), t') \<Longrightarrow>
   \<exists>qs. trace t' = trace t @ qs \<and> length qs = length (pv_TargetMigrationPVCs planVM) \<and> sameObjects t t'
    \<and> (\<forall>j < length (pv_TargetMigrationPVCs planVM). requestedFor (t_Owner t) (t_Plan t) fillFrom planVM j (qs ! j))"
  using createLoop_trace[of cl fillFrom planVM 0 t t'] by (simp add: createTargetDVs_def)


lemma validatePVCs_keeps:
  assumes "ValidatePVCsMatchForVM cl p ns t = (r, t')"
  shows "trace t' = trace t \<and> sameObjects t t'"
  by (rule read_keeps[OF trace_obs.frame_ValidatePVCsMatch objects.frame_ValidatePVCsMatch assms])

section \<open>Properties\<close>

text \<open>
  C32. A pass over the running VMs that succeeds loses none and invents none: with repetitions
  counted, every VM that was running is either still running or appended to the completed ones.
  The cleanup phase is entered exactly when no VM is left running.
\<close>

theorem wait_phase_conserves_vms:
  assumes "handleWaitForLiveMigrationToCompletePhase cl s = (Ok (), s')"
  shows "mset (map rm_Name (t_Running s')) + mset (t_Completed s') = mset (map rm_Name (t_Running s)) + mset (t_Completed s)
    \<and> t_Phase s' = (if t_Running s' = [] then CleanupMigrationResources else t_Phase s)
    \<and> t_Requeue s' = PollReQ"
proof -
  from assms obtain kept u where u: "foldE (waitVM cl) (t_Running s) [] s = (Ok kept, u)"
    and s': "s' = snd (bind (onStatus (\<lambda>st. st\<lparr>ms_RunningMigrations := kept\<rparr>)) (\<lambda>_.
      bind (if kept = [] then setPhase CleanupMigrationResources else ret ()) (\<lambda>_. setRequeue PollReQ)) u)"
    unfolding handleWaitForLiveMigrationToCompletePhase_def bind_Ok by (auto simp: run_gets bind_Ok run_bind)
  from wp_run[OF waitLoop[of cl "t_Running s" s] u] obtain added
    where "t_Completed u = t_Completed s @ added" "t_Phase u = t_Phase s"
      "mset (map rm_Name kept) + mset added = mset (map rm_Name (t_Running s))" by auto
  with s' show ?thesis by (auto simp: owner_defs run ac_simps)
qed

text \<open>
  A pass that fails half way keeps the running list as it was but has already appended the
  VMs it found completed before the failure; they are in both lists, and because the status is
  written back on errors too, the next pass appends them again.
\<close>

theorem wait_phase_error_keeps_completed_running:
  assumes "handleWaitForLiveMigrationToCompletePhase cl s = (Err e, s')"
  shows "t_Running s' = t_Running s \<and> t_Phase s' = t_Phase s
    \<and> (\<exists>added. t_Completed s' = t_Completed s @ added \<and> set added \<subseteq> rm_Name ` set (t_Running s))"
proof -
  have "foldE (waitVM cl) (t_Running s) [] s = (Err e, s')"
    using assms unfolding handleWaitForLiveMigrationToCompletePhase_def
    by (auto simp: run_bind run_gets run_modify run_ret owner_defs split: prod.splits result.splits if_splits)
  from wp_run[OF waitLoop[of cl "t_Running s" s] this] show ?thesis by auto
qed

text \<open>
  C33. A cancelling pass that succeeds accounts for every VM that was running: it is still
  running or it is cancelled.  A VM is cancelled only in two cases.  Either it was seen without a
  VMI, and the pass has sent and got accepted the patch that takes it back along the reverted
  entry of the plan, unless it was there already.  Or, compared with its entry of the plan, the
  VM was seen with all planned volumes on their recorded sources and no volume or template on a
  target, and no migration of this VM started since was still active.  The entry is the one of
  the plan at the start of the pass, up to sources that the pass repaired from the VM.  The
  cleanup of the targets is entered exactly when no VM is left running.
\<close>

theorem cancel_phase_releases_safely:
  assumes "handleCancelingPhase cl s = (Ok (), s')"
  shows "mset (map rm_Name (t_Running s')) + mset (t_Cancelled s') = mset (map rm_Name (t_Running s))
    \<and> (\<forall>n \<in> set (t_Cancelled s'). releasable cl s s' n)
    \<and> t_Completed s' = t_Completed s
    \<and> t_Phase s' = (if t_Running s' = [] then CleanupCancelledMigrations else t_Phase s)"
proof -
  from assms obtain rs cs u where u: "foldE (cancelVM cl) (t_Running s) ([], []) s = (Ok (rs, cs), u)"
    and s': "s' = snd (bind (onStatus (\<lambda>st. st\<lparr>ms_RunningMigrations := rs, ms_CancelledMigrations := cs\<rparr>)) (\<lambda>_.
      bind (if rs = [] then setPhase CleanupCancelledMigrations else ret ()) (\<lambda>_. setRequeue PollReQ)) u)"
    unfolding handleCancelingPhase_def bind_Ok by (auto simp: run_gets bind_Ok run_bind)
  from wp_run[OF cancelLoop[of cl "t_Running s" s] u]
  have l: "t_Owner u = t_Owner s" "mset (map rm_Name rs) + mset cs = mset (map rm_Name (t_Running s))"
    "\<forall>n \<in> set cs. releasable cl s u n" by auto
  have "trace s' = trace u" using s' by (simp add: owner_defs run)
  then have "releasable cl s s' n = releasable cl s u n" for n by (simp add: releasable_def turnedBack_def)
  with l s' show ?thesis by (auto simp: owner_defs run)
qed

text \<open>
  The list of cancelled VMs is rebuilt from scratch by every cancelling pass: a VM that an
  earlier pass cancelled, and that is therefore no longer running, is missing from it after the
  next successful pass, so the targets created for it are not deleted by the cleanup.
\<close>

theorem cancel_phase_forgets_earlier_passes:
  assumes "handleCancelingPhase cl s = (Ok (), s')"
    and "n \<in> set (t_Cancelled s)" "n \<notin> rm_Name ` set (t_Running s)"
  shows "n \<notin> set (t_Cancelled s')"
proof -
  from assms(1) obtain rs cs u where u: "foldE (cancelVM cl) (t_Running s) ([], []) s = (Ok (rs, cs), u)"
    and s': "s' = snd (bind (onStatus (\<lambda>st. st\<lparr>ms_RunningMigrations := rs, ms_CancelledMigrations := cs\<rparr>)) (\<lambda>_.
      bind (if rs = [] then setPhase CleanupCancelledMigrations else ret ()) (\<lambda>_. setRequeue PollReQ)) u)"
    unfolding handleCancelingPhase_def bind_Ok by (auto simp: run_gets bind_Ok run_bind)
  from wp_run[OF cancelLoop[of cl "t_Running s" s] u]
  have "mset (map rm_Name rs) + mset cs = mset (map rm_Name (t_Running s))" by simp
  then have "set cs \<subseteq> rm_Name ` set (t_Running s)"
    by (metis mset_subset_eq_add_right set_mset_mono set_mset_mset set_map)
  with s' assms(3) show ?thesis by (auto simp: owner_defs run)
qed

text \<open>
  The begin phase adds the VMs it starts to the running ones, in the order of the plan, and
  touches nothing else of the migration.  It moves on only when every entry has been handled;
  when it fails it stays in its phase, but the VMs started before the failure are already
  listed, so that the retry lists them a second time.
\<close>

theorem begin_phase_lists_started_vms:
  assumes "handleBeginLiveMigrationPhase cl s = (r, s')" "t_Plan s = Some plan"
  shows "\<exists>added. subseq added (map pv_Name (st_ReadyMigrations (pl_Status plan) @ st_InProgressMigrations (pl_Status plan)))
    \<and> t_Running s' = t_Running s @ map running added
    \<and> t_Phase s' = (case r of Ok _ \<Rightarrow> WaitForLiveMigrationToComplete | _ \<Rightarrow> t_Phase s)
    \<and> mg_Meta (t_Owner s') = mg_Meta (t_Owner s) \<and> t_Completed s' = t_Completed s"
proof -
  let ?es = "st_ReadyMigrations (pl_Status plan) @ st_InProgressMigrations (pl_Status plan)"
  obtain q u where u: "foldE (\<lambda>p _. beginVM cl p) ?es () s = (q, u)" by fastforce
  with assms have s': "r = q \<and> s' = (case q of Ok _ \<Rightarrow> snd (setPhase WaitForLiveMigrationToComplete u) | _ \<Rightarrow> u)"
    by (cases q) (auto simp: handleBeginLiveMigrationPhase_def thePlan_def run deref_def owner_defs)
  from wp_run[OF beginLoop[of cl ?es s] u] obtain added where a: "subseq added (map pv_Name ?es)"
    "t_Owner u = (t_Owner s)\<lparr>mg_Status := (mg_Status (t_Owner s))\<lparr>ms_RunningMigrations := t_Running s @ map running added\<rparr>\<rparr>"
    by (auto simp: begun_def)
  with s' show ?thesis
    by (intro exI[of _ added]) (cases q; simp add: owner_defs run)
qed

text \<open>
  C34. Live migration of a VM: when it succeeds, one empty DataVolume per target of the plan
  entry has been requested, in order, each created or already there, before the VM is patched;
  the single patch moves the VM to its targets and asks for the migration strategy.
\<close>

theorem liveMigrateVM_creates_targets_first:
  assumes "liveMigrateVM cl planVM s = (Ok (), s')"
  shows "\<exists>creates vm vm'. trace s' = trace s @ creates @ patchRequest vm (vm'\<lparr>vm_UpdateVolumesStrategy := Some ''Migration''\<rparr>)
    \<and> prepareVMForStorageMigration vm planVM = Ok vm'
    \<and> length creates = length (pv_TargetMigrationPVCs planVM)
    \<and> (\<forall>i < length creates. requestedFor (t_Owner s) (t_Plan s) (\<lambda>src. None) planVM i (creates ! i))"
proof -
  from assms obtain vm t1 reason t2 t3 where
    r: "query (c_GetVM cl (t_Namespace s) (pv_Name planVM)) s = (Ok vm, t1)"
      "ValidatePVCsMatchForVM cl planVM (t_Namespace s) t1 = (Ok (reason, []), t2)"
      "createTargetDVs cl (\<lambda>src. None) planVM t2 = (Ok (), t3)"
      "updateVMForStorageMigration cl vm planVM t3 = (Ok (), s')"
    unfolding liveMigrateVM_def by (auto simp: bind_Ok run_gets run_throw split: if_splits)
  from r(4) obtain vm' where p: "prepareVMForStorageMigration vm planVM = Ok vm'"
    "patchVMIfChanged cl vm (vm'\<lparr>vm_UpdateVolumesStrategy := Some ''Migration''\<rparr>) t3 = (Ok (), s')"
    by (auto simp: updateVMForStorageMigration_def bind_Ok run_liftR)
  have "trace t1 = trace s" "t_Owner t1 = t_Owner s" "t_Plan t1 = t_Plan s" using query_Ok[OF r(1)] by auto
  with validatePVCs_keeps[OF r(2)] have t2: "trace t2 = trace s" "t_Owner t2 = t_Owner s" "t_Plan t2 = t_Plan s"
    by (simp_all add: sameObjects_def)
  from createTargetDVs_trace[OF r(3)] obtain qs where qs: "trace t3 = trace s @ qs"
    "length qs = length (pv_TargetMigrationPVCs planVM)"
    "\<forall>j < length qs. requestedFor (t_Owner s) (t_Plan s) (\<lambda>src. None) planVM j (qs ! j)"
    unfolding t2 by auto
  then have "trace s' = trace s @ qs @ patchRequest vm (vm'\<lparr>vm_UpdateVolumesStrategy := Some ''Migration''\<rparr>)"
    using patch_trace[OF p(2)] by simp
  with p(1) qs(2,3) show ?thesis by blast
qed

text \<open>
  Offline migration of a VM: when it succeeds, the VM has been patched first, and without
  the migration strategy, so that it cannot start on its sources any more; then one clone of
  each source has been requested under the name of its target.
\<close>

theorem offlineMigrateVM_patches_first:
  assumes "offlineMigrateVM cl planVM s = (Ok (), s')"
  shows "\<exists>creates vm vm'. trace s' = trace s @ patchRequest vm vm' @ creates
    \<and> prepareVMForStorageMigration vm planVM = Ok vm'
    \<and> length creates = length (pv_TargetMigrationPVCs planVM)
    \<and> (\<forall>i < length creates. requestedFor (t_Owner s) (t_Plan s) (\<lambda>src. Some (sp_Name src)) planVM i (creates ! i))"
proof -
  from assms obtain vm t1 reason t2 t3 where
    r: "query (c_GetVM cl (t_Namespace s) (pv_Name planVM)) s = (Ok vm, t1)"
      "ValidatePVCsMatchForVM cl planVM (t_Namespace s) t1 = (Ok (reason, []), t2)"
      "updateVMForOfflineStorageMigration cl vm planVM t2 = (Ok (), t3)"
      "createTargetDVs cl (\<lambda>src. Some (sp_Name src)) planVM t3 = (Ok (), s')"
    unfolding offlineMigrateVM_def by (auto simp: bind_Ok run_gets run_throw split: if_splits)
  from r(3) obtain vm' where p: "prepareVMForStorageMigration vm planVM = Ok vm'"
    "patchVMIfChanged cl vm vm' t2 = (Ok (), t3)"
    by (auto simp: updateVMForOfflineStorageMigration_def bind_Ok run_liftR)
  have "trace t1 = trace s" "t_Owner t1 = t_Owner s" "t_Plan t1 = t_Plan s" using query_Ok[OF r(1)] by auto
  with validatePVCs_keeps[OF r(2)] patch_trace[OF p(2)]
  have t3: "trace t3 = trace s @ patchRequest vm vm'" "t_Owner t3 = t_Owner s" "t_Plan t3 = t_Plan s"
    by (simp_all add: sameObjects_def)
  from createTargetDVs_trace[OF r(4)] obtain qs where qs: "trace s' = trace s @ patchRequest vm vm' @ qs"
    "length qs = length (pv_TargetMigrationPVCs planVM)"
    "\<forall>j < length qs. requestedFor (t_Owner s) (t_Plan s) (\<lambda>src. Some (sp_Name src)) planVM j (qs ! j)"
    unfolding t3 by auto
  with p(1) show ?thesis by blast
qed


section \<open>A concrete migration\<close>

text \<open>
  One stopped VM, planned and not yet migrated, on a server that knows the VM, its claim and a
  finished DataVolume for every name.
\<close>

definition demoDV :: DataVolume where
  "demoDV = \<lparr>dv_Name = ''root-mig'', dv_Namespace = ''ns'', dv_Labels = Map.empty, dv_Annotations = Map.empty,
     dv_Source = None, dv_PVC = None, dv_Storage = None, dv_Phase = ''Succeeded''\<rparr>"

definition demoClient :: "unit client" where
  "demoClient = emptyClient\<lparr>c_GetVM := (\<lambda>ns n. yields sampleVM), c_GetPVC := (\<lambda>ns n. yields (sp_SourcePVC sampleSource)),
     c_GetDV := (\<lambda>ns n. yields demoDV)\<rparr>"

definition demoTask :: "RunningVM list \<Rightarrow> string list \<Rightarrow> unit task" where
  "demoTask rs cs = \<lparr>world = (), trace = [],
     t_Owner = emptyMigration\<lparr>mg_Status := emptyMigStatus\<lparr>ms_RunningMigrations := rs, ms_CancelledMigrations := cs\<rparr>\<rparr>,
     t_Plan = Some (emptyPlan\<lparr>pl_Status := emptyPlanStatus\<lparr>st_ReadyMigrations := [sampleEntry]\<rparr>\<rparr>), t_Requeue = 0\<rparr>"

lemma demo_sel [simp]:
  "c_GetVM demoClient ns n = yields sampleVM" "c_GetPVC demoClient ns n = yields (sp_SourcePVC sampleSource)"
  "c_GetDV demoClient ns n = yields demoDV" "c_GetVMI demoClient ns n = missing"
  "c_PatchVM demoClient v v' = yields ()" "c_CreateDV demoClient d = yields ()"
  "t_Running (demoTask rs cs) = rs" "t_Cancelled (demoTask rs cs) = cs" "t_Completed (demoTask rs cs) = []"
  "trace (demoTask rs cs) = []" "world (demoTask rs cs) = ()"
  "t_Plan (demoTask rs cs) = Some (emptyPlan\<lparr>pl_Status := emptyPlanStatus\<lparr>st_ReadyMigrations := [sampleEntry]\<rparr>\<rparr>)"
  by (simp_all add: demoClient_def demoTask_def emptyClient_def empty_defs)

lemma sample_sel [simp]:
  "pv_Name sampleEntry = ''vm''" "sv_SourcePVCs sampleEntry = [sampleSource]" "pv_TargetMigrationPVCs sampleEntry = [sampleTarget]"
  "sp_Name sampleSource = ''root''" "sp_VolumeName sampleSource = ''disk0''"
  "dp_Name (tp_DestinationPVC sampleTarget) = Some ''root-mig''"
  "HasDVOwnerRef (sp_SourcePVC sampleSource) = False" "vol_Name ` set (vm_Volumes sampleVM) = {''disk0''}"
  by (simp_all add: sample_defs HasDVOwnerRef_def emptyMeta_def)

lemma sample_prepare: "prepareVMForStorageMigration sampleVM sampleEntry = Ok (swapped sampleVM sampleEntry)"
  by (rule prepare_named[OF sample_facts(1) paired_named[OF sample_facts(2)]])

lemma sample_revert:
  "recoverCorruptedSourcePVCs sampleVM sampleEntry = Ok (sampleEntry\<lparr>sv_SourcePVCs := [sampleSource]\<rparr>)"
  "revertPlanVolumes (sampleEntry\<lparr>sv_SourcePVCs := [sampleSource]\<rparr>) = Ok (reverted sampleEntry)"
  "prepareVMForStorageMigration sampleVM (reverted sampleEntry) = Ok (swapped sampleVM (reverted sampleEntry))"
proof -
  have eq: "sampleEntry\<lparr>sv_SourcePVCs := [sampleSource]\<rparr> = sampleEntry" by (simp add: sampleEntry_def)
  show "revertPlanVolumes (sampleEntry\<lparr>sv_SourcePVCs := [sampleSource]\<rparr>) = Ok (reverted sampleEntry)"
    unfolding eq by (rule revert_paired[OF sample_facts(2)])
  show "prepareVMForStorageMigration sampleVM (reverted sampleEntry) = Ok (swapped sampleVM (reverted sampleEntry))"
    by (rule prepare_named[OF sample_facts(1) reverted_named[OF sample_facts(2)]])
qed (simp add: recoverCorruptedSourcePVCs_def)

lemmas demo_eval = run demo_sel sample_sel sample_prepare sample_revert ValidatePVCsMatchForVM_def VMIExists_def
  thePlan_def deref_def index_def Let_def owner_defs patchVMIfChanged_def emptyPlanStatus_def

lemma demo_migrate:
  "fst (liveMigrateVM demoClient sampleEntry (demoTask rs cs)) = Ok ()"
  "fst (offlineMigrateVM demoClient sampleEntry (demoTask rs cs)) = Ok ()"
  by (simp_all add: liveMigrateVM_def offlineMigrateVM_def updateVMForStorageMigration_def
      updateVMForOfflineStorageMigration_def createTargetDVs_def createTargetFor_def determineSourcePVCSize_def
      createTargetDV_def demo_eval)

lemma demo_wait:
  "fst (handleWaitForLiveMigrationToCompletePhase demoClient (demoTask [running ''vm''] [])) = Ok ()"
  by (simp add: handleWaitForLiveMigrationToCompletePhase_def waitVM_def isOfflineMigrationCompleted_def
      getPlanVMByName_def running_def demoDV_def demo_eval)

lemma demo_cancel:
  "fst (handleCancelingPhase demoClient (demoTask [running ''vm''] cs)) = Ok ()"
  "t_Cancelled (snd (handleCancelingPhase demoClient (demoTask [running ''vm''] cs))) = [''vm'']"
  by (simp_all add: handleCancelingPhase_def cancelVM_def cancelLiveMigration_def getCancellableMigrations_def
      updateVMForStorageMigration_def running_def demo_eval)

lemma fst_Ok: "fst x = Ok () \<Longrightarrow> x = (Ok (), snd x)"
  by (cases x) simp

theorem wait_phase_conserves_vms_witness:
  "mset (map rm_Name (t_Running (snd (handleWaitForLiveMigrationToCompletePhase demoClient (demoTask [running ''vm''] [])))))
   + mset (t_Completed (snd (handleWaitForLiveMigrationToCompletePhase demoClient (demoTask [running ''vm''] [])))) = {#''vm''#}"
  using wait_phase_conserves_vms[OF fst_Ok[OF demo_wait]] by (simp add: running_def)

theorem cancel_phase_releases_safely_witness:
  "t_Cancelled (snd (handleCancelingPhase demoClient (demoTask [running ''vm''] []))) = [''vm'']
   \<and> releasable demoClient (demoTask [running ''vm''] []) (snd (handleCancelingPhase demoClient (demoTask [running ''vm''] []))) ''vm''"
  using cancel_phase_releases_safely[OF fst_Ok[OF demo_cancel(1)]] by (simp add: demo_cancel(2))

theorem cancel_phase_forgets_earlier_passes_witness:
  "''old'' \<in> set (t_Cancelled (demoTask [running ''vm''] [''old'']))
   \<and> ''old'' \<notin> set (t_Cancelled (snd (handleCancelingPhase demoClient (demoTask [running ''vm''] [''old'']))))"
  using cancel_phase_forgets_earlier_passes[OF fst_Ok[OF demo_cancel(1)], of "''old''"] by (simp add: running_def)

theorem begin_phase_lists_started_vms_witness:
  "\<exists>added. subseq added [''vm''] \<and>
     t_Running (snd (handleBeginLiveMigrationPhase demoClient (demoTask [] []))) = map running added"
  using begin_phase_lists_started_vms[OF surjective_pairing, where cl = demoClient and s = "demoTask [] []"]
  by (fastforce simp: emptyPlanStatus_def)

theorem liveMigrateVM_creates_targets_first_witness:
  "\<exists>creates patch. trace (snd (liveMigrateVM demoClient sampleEntry (demoTask [] []))) = creates @ patch \<and> length creates = 1"
  using liveMigrateVM_creates_targets_first[OF fst_Ok[OF demo_migrate(1)]] by fastforce

theorem offlineMigrateVM_patches_first_witness:
  "\<exists>creates patch. trace (snd (offlineMigrateVM demoClient sampleEntry (demoTask [] []))) = patch @ creates \<and> length creates = 1"
  using offlineMigrateVM_patches_first[OF fst_Ok[OF demo_migrate(2)]] by fastforce

text \<open>Two running VMs: the first is complete, the VMI of the second cannot be read.\<close>

definition flakyClient :: "unit client" where
  "flakyClient = emptyClient\<lparr>
     c_GetVMI := (\<lambda>ns n. if n = ''a'' then yields \<lparr>vmi_Name = n, vmi_Phase = ''Running'', vmi_NodeName = [], vmi_ActivePods = 1\<rparr>
                         else (\<lambda>w. (Inl (ApiErr ''timeout''), w))),
     c_ListVMIMs := (\<lambda>ns. yields [\<lparr>vmim_Name = ''m'', vmim_Namespace = ns, vmim_VMIName = ''a'', vmim_CreationTimestamp = 0,
       vmim_Phase = MigrationSucceeded, vmim_MigrationState = Some (True, False)\<rparr>])\<rparr>"

lemma flaky_pass:
  "handleWaitForLiveMigrationToCompletePhase flakyClient
     (s\<lparr>t_Owner := emptyMigration\<lparr>mg_Status := emptyMigStatus\<lparr>ms_RunningMigrations := [running ''a'', running ''b''],
        ms_CompletedMigrations := done'\<rparr>\<rparr>\<rparr>) =
   (Err (ApiErr ''timeout''), s\<lparr>t_Owner := emptyMigration\<lparr>mg_Status := emptyMigStatus\<lparr>
        ms_RunningMigrations := [running ''a'', running ''b''], ms_CompletedMigrations := done' @ [''a'']\<rparr>\<rparr>\<rparr>)"
  by (simp add: handleWaitForLiveMigrationToCompletePhase_def waitVM_def isLiveMigrationCompleted_def VMIExists_def
      running_def flakyClient_def empty_defs run owner_defs)

theorem wait_phase_error_keeps_completed_running_witness:
  "\<exists>s1 s2. handleWaitForLiveMigrationToCompletePhase flakyClient (demoTask [running ''a'', running ''b''] []) = (Err (ApiErr ''timeout''), s1)
     \<and> t_Running s1 = [running ''a'', running ''b''] \<and> t_Completed s1 = [''a'']
     \<and> handleWaitForLiveMigrationToCompletePhase flakyClient s1 = (Err (ApiErr ''timeout''), s2) \<and> t_Completed s2 = [''a'', ''a'']"
proof -
  let ?s = "demoTask [running ''a'', running ''b''] []"
  have "?s = ?s\<lparr>t_Owner := emptyMigration\<lparr>mg_Status := emptyMigStatus\<lparr>ms_RunningMigrations := [running ''a'', running ''b''],
        ms_CompletedMigrations := []\<rparr>\<rparr>\<rparr>" by (simp add: demoTask_def empty_defs)
  then obtain s1 where s1: "handleWaitForLiveMigrationToCompletePhase flakyClient ?s = (Err (ApiErr ''timeout''), s1)"
    "s1 = ?s\<lparr>t_Owner := emptyMigration\<lparr>mg_Status := emptyMigStatus\<lparr>
        ms_RunningMigrations := [running ''a'', running ''b''], ms_CompletedMigrations := [''a'']\<rparr>\<rparr>\<rparr>"
    using flaky_pass[where s = ?s and done' = "[]"] by simp
  have "t_Running s1 = [running ''a'', running ''b'']"
    using wait_phase_error_keeps_completed_running[OF s1(1)] by simp
  moreover have "\<exists>s2. handleWaitForLiveMigrationToCompletePhase flakyClient s1 = (Err (ApiErr ''timeout''), s2) \<and> t_Completed s2 = [''a'', ''a'']"
    unfolding s1(2) flaky_pass by simp
  ultimately show ?thesis using s1 by auto
qed

end
