(* ===== verification/MigController.thy ===== *)
theory MigController
  imports TaskLists
begin

text \<open>
  The reconciler of VirtualMachineStorageMigration objects (\<open>controller.go\<close>, \<open>validation.go\<close>
  and \<open>migrate.go\<close> of \<open>src/internal/controller/storagemig\<close>) and the owner references it
  sets (\<open>SetControllerReference\<close> of the vendored \<open>controllerutil\<close>).  A migration object that
  the code mutates through its pointer is passed and returned.
\<close>

section \<open>Owner references\<close>

text \<open>\<open>schema.ParseGroupVersion\<close>, as far as the group.\<close>

definition apiGroup :: "string \<Rightarrow> string option" where
  "apiGroup gv = (if gv = [] \<or> gv = ''/'' then Some []
     else (case Split gv CHR ''/'' of [v] \<Rightarrow> Some [] | [g, v] \<Rightarrow> Some g | _ \<Rightarrow> None))"

definition referSameObject :: "OwnerReference \<Rightarrow> OwnerReference \<Rightarrow> bool" where
  "referSameObject a b = (case (apiGroup (or_APIVersion a), apiGroup (or_APIVersion b)) of
       (Some ga, Some gb) \<Rightarrow> ga = gb \<and> or_Kind a = or_Kind b \<and> or_Name a = or_Name b
     | _ \<Rightarrow> False)"

text \<open>\<open>indexOwnerRef\<close> and \<open>upsertOwnerRef\<close>: the first reference to the same object is replaced.\<close>

fun upsertOwnerRef :: "OwnerReference \<Rightarrow> OwnerReference list \<Rightarrow> OwnerReference list" where
  "upsertOwnerRef ref [] = [ref]"
| "upsertOwnerRef ref (r # rs) = (if referSameObject r ref then ref # rs else r # upsertOwnerRef ref rs)"

definition validateOwner :: "ObjectMeta \<Rightarrow> ObjectMeta \<Rightarrow> unit result" where
  "validateOwner own object =
     (if om_Namespace own \<noteq> [] then
        (if om_Namespace object = [] then
           Err (PlainErr (''cluster-scoped resource must not have a namespace-scoped owner, owner's namespace '' @ om_Namespace own))
         else if om_Namespace own \<noteq> om_Namespace object then
           Err (PlainErr (''cross-namespace owner references are disallowed, owner's namespace '' @ om_Namespace own @
             '', obj's namespace '' @ om_Namespace object))
         else Ok ())
      else Ok ())"

definition GetControllerOf :: "ObjectMeta \<Rightarrow> OwnerReference option" where
  "GetControllerOf m = find or_Controller (om_OwnerReferences m)"

definition planOwnerReference :: "Plan \<Rightarrow> OwnerReference" where
  "planOwnerReference plan = \<lparr>or_APIVersion = GroupVersion, or_Kind = PlanKind, or_Name = om_Name (pl_Meta plan),
     or_UID = om_UID (pl_Meta plan), or_Controller = True\<rparr>"

definition SetControllerReference :: "Plan \<Rightarrow> Migration \<Rightarrow> Migration result" where
  "SetControllerReference plan m =
     bindR (validateOwner (pl_Meta plan) (mg_Meta m)) (\<lambda>_.
     let ref = planOwnerReference plan in
     case GetControllerOf (mg_Meta m) of
       Some existing \<Rightarrow>
         if \<not> referSameObject existing ref then
           Err (PlainErr (''Object '' @ om_Namespace (mg_Meta m) @ ''/'' @ om_Name (mg_Meta m) @
             '' is already owned by another '' @ or_Kind existing @ '' controller '' @ or_Name existing))
         else Ok (m\<lparr>mg_Meta := (mg_Meta m)\<lparr>om_OwnerReferences := upsertOwnerRef ref (om_OwnerReferences (mg_Meta m))\<rparr>\<rparr>)
     | None \<Rightarrow> Ok (m\<lparr>mg_Meta := (mg_Meta m)\<lparr>om_OwnerReferences := upsertOwnerRef ref (om_OwnerReferences (mg_Meta m))\<rparr>\<rparr>))"

definition setOwnerReference :: "Plan option \<Rightarrow> Migration \<Rightarrow> Migration result" where
  "setOwnerReference plan m = (case plan of
       None \<Rightarrow> Err (PlainErr ''no plan found'')
     | Some p \<Rightarrow> SetControllerReference p m)"

section \<open>Validation\<close>

definition setMigCondition :: "'w client \<Rightarrow> Condition \<Rightarrow> Migration \<Rightarrow> (('w, 'z) sys_scheme, Migration) go" where
  "setMigCondition cl c m = bind (draw (c_Now cl)) (\<lambda>now.
     ret (m\<lparr>mg_Status := (mg_Status m)\<lparr>ms_Conditions := SetCondition now c (ms_Conditions (mg_Status m))\<rparr>\<rparr>))"

definition deleteMigCondition :: "string \<Rightarrow> Migration \<Rightarrow> Migration" where
  "deleteMigCondition t m = m\<lparr>mg_Status := (mg_Status m)\<lparr>ms_Conditions := DeleteCondition [t] (ms_Conditions (mg_Status m))\<rparr>\<rparr>"

definition planRefPath :: "ObjectReference \<Rightarrow> string" where
  "planRefPath ref = pathJoin [ref_Namespace ref, ref_Name ref]"

definition validatePlan :: "'w client \<Rightarrow> Plan \<Rightarrow> ObjectReference \<Rightarrow> Migration \<Rightarrow> (('w, 'z) sys_scheme, Migration) go" where
  "validatePlan cl plan ref m =
     (if HasCriticalCondition (st_Conditions (pl_Status plan)) then
        setMigCondition cl (mkCondition PlanNotReady ConditionTrue NotReady Critical
          (''The referenced `virtualMachineStorageMigrationPlanRef` has critical conditions, subject: '' @ planRefPath ref)) m
      else ret (deleteMigCondition PlanNotReady m))"

definition validate :: "'w client \<Rightarrow> Plan \<Rightarrow> ObjectReference \<Rightarrow> Migration \<Rightarrow> (('w, 'z) sys_scheme, Migration) go" where
  "validate cl plan ref m = (case FindOwnerReference m of
       None \<Rightarrow> setMigCondition cl (mkCondition InvalidPlanRef ConditionTrue NotFound Critical ''cannot find owner reference'') m
     | Some ownerReference \<Rightarrow>
         let m1 = deleteMigCondition InvalidPlanRef m in
         if ref_UID ref \<noteq> [] then
           (if or_UID ownerReference \<noteq> ref_UID ref then
              setMigCondition cl (mkCondition InvalidPlanRef ConditionTrue NotFound Critical
                (''migration is not owned by the plan '' @ ref_Name ref @ '', uid mismatch'')) m1
            else validatePlan cl plan ref (deleteMigCondition InvalidPlanRef m1))
         else validatePlan cl plan ref m1)"

section \<open>Running the task\<close>

text \<open>
  \<open>migrate\<close> builds a task around the migration, runs it, and hands back the migration as the
  task left it, the requeue delay, and the error if there is one.
\<close>

definition migrate :: "'w client \<Rightarrow> Plan option \<Rightarrow> Migration \<Rightarrow> ('w sys, Migration \<times> int \<times> goerr option) go" where
  "migrate cl plan m = (\<lambda>s.
     case Run cl \<lparr>world = world s, trace = trace s, t_Owner = m, t_Plan = plan, t_Requeue = 0\<rparr> of (r, t) \<Rightarrow>
       ((case r of
           Ok _ \<Rightarrow> Ok (t_Owner t, t_Requeue t, None)
         | Err e \<Rightarrow> Ok (t_Owner t, t_Requeue t, Some e)
         | Panic p \<Rightarrow> Panic p), s\<lparr>world := world t, trace := trace t\<rparr>))"

section \<open>Reconcile\<close>

definition persistMigration :: "'w client \<Rightarrow> Migration \<Rightarrow> Migration \<Rightarrow> int \<Rightarrow> goerr option \<Rightarrow> ('w sys, int) go" where
  "persistMigration cl orig m requeueAfter migrateErr =
     (let desiredStatus = mg_Status m in
      bind (if mg_Meta orig \<noteq> mg_Meta m
            then bind (request (UpdateMig m) (c_UpdateMig cl m)) (\<lambda>m'. ret (m'\<lparr>mg_Status := desiredStatus\<rparr>))
            else ret m) (\<lambda>m1.
      bind (if mg_Status orig \<noteq> desiredStatus
            then bind (request (UpdateMigStatus m1) (c_UpdateMigStatus cl m1)) (\<lambda>_. ret ())
            else ret ()) (\<lambda>_.
      case migrateErr of Some e \<Rightarrow> throw e | None \<Rightarrow> ret requeueAfter)))"

text \<open>The branch that validates the migration and runs the task.\<close>

definition reconcilePlanned :: "'w client \<Rightarrow> Migration \<Rightarrow> ObjectReference \<Rightarrow> Migration \<Rightarrow> ('w sys, int) go" where
  "reconcilePlanned cl orig ref m =
     bind (GetStorageMigrationPlan cl (Some ref)) (\<lambda>plan.
     bind (case plan of
         Some p \<Rightarrow>
           bind (liftR (setOwnerReference plan (deleteMigCondition InvalidPlanRef m))) (\<lambda>m1. validate cl p ref m1)
       | None \<Rightarrow>
           setMigCondition cl (mkCondition InvalidPlanRef ConditionTrue NotFound Critical
             (''The referenced `virtualMachineStorageMigrationPlanRef` does not exist, subject: '' @ planRefPath ref @ ''.'')) m) (\<lambda>m1.
     if \<not> HasBlockerCondition (ms_Conditions (mg_Status m1)) \<or> om_DeletionTimestamp (mg_Meta m1) \<noteq> None
     then bind (migrate cl plan m1) (\<lambda>(m2, requeueAfter, migrateErr). persistMigration cl orig m2 requeueAfter migrateErr)
     else persistMigration cl orig m1 NoReQ None))"

definition Mig_Reconcile :: "'w client \<Rightarrow> string \<Rightarrow> string \<Rightarrow> ('w sys, int) go" where
  "Mig_Reconcile cl ns name =
     bind (attempt (query (c_GetMig cl ns name))) (\<lambda>r. case r of
       Inl e \<Rightarrow> if IsNotFound e then ret 0 else throw e
     | Inr m \<Rightarrow>
         if om_DeletionTimestamp (mg_Meta m) \<noteq> None \<and> ms_Phase (mg_Status m) \<in> {Canceled, Completed}
         then persistMigration cl m (Mig_RemoveFinalizer MigrationFinalizer m) NoReQ None
         else if ms_Phase (mg_Status m) = Completed then ret 0
         else (case mg_PlanRef m of
             None \<Rightarrow> ret 0
           | Some ref0 \<Rightarrow>
               let ref = ref0\<lparr>ref_Namespace := om_Namespace (mg_Meta m)\<rparr>
               in reconcilePlanned cl m ref (m\<lparr>mg_PlanRef := Some ref\<rparr>)))"

section \<open>Watches\<close>

text \<open>The index key of a migration and the requests a changed plan or VMIM gives rise to.\<close>

definition planNameIndex :: "Migration \<Rightarrow> string list" where
  "planNameIndex m = (case mg_PlanRef m of
       None \<Rightarrow> []
     | Some ref \<Rightarrow> [pathJoin [om_Namespace (mg_Meta m), ref_Name ref]])"

definition requestFor :: "Migration \<Rightarrow> string \<times> string" where
  "requestFor m = (om_Namespace (mg_Meta m), om_Name (mg_Meta m))"

definition getMigMigrationsForPlan :: "'w client \<Rightarrow> Plan \<Rightarrow> (('w, 'z) sys_scheme, (string \<times> string) list) go" where
  "getMigMigrationsForPlan cl plan =
     bind (attempt (query (c_ListMigsByPlanKey cl (pathJoin [om_Namespace (pl_Meta plan), om_Name (pl_Meta plan)])))) (\<lambda>r.
       case r of Inl _ \<Rightarrow> ret [] | Inr ms \<Rightarrow> ret (map requestFor ms))"

definition getMigMigrationsForVMIM :: "'w client \<Rightarrow> VMIM \<Rightarrow> (('w, 'z) sys_scheme, (string \<times> string) list) go" where
  "getMigMigrationsForVMIM cl vmim =
     bind (attempt (query (c_ListMigsInNamespace cl (vmim_Namespace vmim)))) (\<lambda>r. case r of
       Inl _ \<Rightarrow> ret []
     | Inr ms \<Rightarrow> ret (map requestFor (filter (\<lambda>m. list_ex (\<lambda>rm. rm_Name rm = vmim_VMIName vmim)
           (ms_RunningMigrations (mg_Status m))) ms)))"


section \<open>Lemmas\<close>

text \<open>Two migrations that differ at most in conditions, owner references and plan reference.\<close>

definition sameCore :: "Migration \<Rightarrow> Migration \<Rightarrow> bool" where
  "sameCore m m' \<longleftrightarrow> ms_Phase (mg_Status m') = ms_Phase (mg_Status m)
     \<and> om_Finalizers (mg_Meta m') = om_Finalizers (mg_Meta m)
     \<and> om_DeletionTimestamp (mg_Meta m') = om_DeletionTimestamp (mg_Meta m)
     \<and> om_Namespace (mg_Meta m') = om_Namespace (mg_Meta m)
     \<and> ms_CancelledMigrations (mg_Status m') = ms_CancelledMigrations (mg_Status m)"

lemma sameCore_trans: "sameCore a b \<Longrightarrow> sameCore b c \<Longrightarrow> sameCore a c"
  by (simp add: sameCore_def)

lemma setMigCondition_result:
  "setMigCondition cl c m s = (r, t) \<Longrightarrow> \<exists>now w. t = s\<lparr>world := w\<rparr> \<and>
     r = Ok (m\<lparr>mg_Status := (mg_Status m)\<lparr>ms_Conditions := SetCondition now c (ms_Conditions (mg_Status m))\<rparr>\<rparr>)"
  by (auto simp: setMigCondition_def run split: prod.splits)

lemma deleteMigCondition_core: "sameCore m (deleteMigCondition t m)"
  by (simp add: deleteMigCondition_def sameCore_def)

lemma sameCore_conditions: "sameCore m m' \<Longrightarrow>
  sameCore m (m'\<lparr>mg_Status := (mg_Status m')\<lparr>ms_Conditions := cs\<rparr>\<rparr>)"
  by (simp add: sameCore_def)

lemma validate_core: "validate cl plan ref m s = (Ok m', t) \<Longrightarrow> sameCore m m'"
  by (auto simp: validate_def validatePlan_def Let_def run_ret deleteMigCondition_def
      intro!: sameCore_conditions dest!: setMigCondition_result split: option.splits if_splits)
    (simp_all add: sameCore_def)

lemma setOwnerReference_core: "setOwnerReference plan m = Ok m' \<Longrightarrow> sameCore m m'"
  by (auto simp: setOwnerReference_def SetControllerReference_def bindR_eq_Ok sameCore_def Let_def
      split: option.splits if_splits)

text \<open>A validated migration that is not blocked has a plan without critical conditions.\<close>

lemma critical_set: "HasBlockerCondition (SetCondition now (mkCondition t ConditionTrue r Critical msg) l)"
  using SetCondition_blocks[of "mkCondition t ConditionTrue r Critical msg"]
  by (simp add: HasBlockerCondition_def)


lemma validate_unblocked:
  assumes "validate cl plan ref m s = (Ok m', t)" "\<not> HasBlockerCondition (ms_Conditions (mg_Status m'))"
  shows "\<not> HasCriticalCondition (st_Conditions (pl_Status plan))"
proof
  assume crit: "HasCriticalCondition (st_Conditions (pl_Status plan))"
  have "HasBlockerCondition (ms_Conditions (mg_Status m'))"
    using assms(1) crit
    by (auto simp: validate_def validatePlan_def Let_def critical_set dest!: setMigCondition_result
        split: option.splits if_splits)
  with assms(2) show False by simp
qed

lemma migrate_Ok:
  "migrate cl plan m s = (Ok (m2, rq, e), t) \<Longrightarrow> \<exists>r u.
     Run cl \<lparr>world = world s, trace = trace s, t_Owner = m, t_Plan = plan, t_Requeue = 0\<rparr> = (r, u)
     \<and> m2 = t_Owner u \<and> rq = t_Requeue u \<and> t = s\<lparr>world := world u, trace := trace u\<rparr>"
  by (auto simp: migrate_def split: prod.splits result.splits)

lemma frame_migrate_emits:
  assumes "\<And>a. admitted cl m plan (effectivePhase m plan) a \<Longrightarrow> P a"
  shows "frame (emits P) (migrate cl plan m)"
proof (rule frameI)
  fix s r t
  assume "migrate cl plan m s = (r, t)"
  then have "trace t = trace (snd (Run cl \<lparr>world = world s, trace = trace s, t_Owner = m, t_Plan = plan, t_Requeue = 0\<rparr>))"
    by (auto simp: migrate_def split: prod.splits)
  moreover have "emits (admitted cl m plan (effectivePhase m plan))
      \<lparr>world = world s, trace = trace s, t_Owner = m, t_Plan = plan, t_Requeue = 0\<rparr>
      (snd (Run cl \<lparr>world = world s, trace = trace s, t_Owner = m, t_Plan = plan, t_Requeue = 0\<rparr>))"
    using emits_Run[of cl "\<lparr>world = world s, trace = trace s, t_Owner = m, t_Plan = plan, t_Requeue = 0\<rparr>"] by simp
  ultimately have "emits (admitted cl m plan (effectivePhase m plan)) s t" by (simp add: emits_def)
  then show "emits P s t" by (rule emits_mono) (rule assms)
qed

lemma frame_persist:
  assumes "mg_Meta orig \<noteq> mg_Meta m \<Longrightarrow> P (UpdateMig m)" "\<And>x. P (UpdateMigStatus (x\<lparr>mg_Status := mg_Status m\<rparr>))"
  shows "frame (emits P) (persistMigration cl orig m rq err)"
proof -
  have m: "m = m\<lparr>mg_Status := mg_Status m\<rparr>" by simp
  let ?second = "\<lambda>m1. bind (if mg_Status orig \<noteq> mg_Status m
      then bind (request (UpdateMigStatus m1) (c_UpdateMigStatus cl m1)) (\<lambda>_. ret ()) else ret ()) (\<lambda>_.
      case err of Some e \<Rightarrow> throw e | None \<Rightarrow> ret rq)"
  have second: "frame (emits P) (?second (x\<lparr>mg_Status := mg_Status m\<rparr>))" for x
    by (intro emits_obs.steps frame_request_emits assms(2))
  show ?thesis
  proof (cases "mg_Meta orig \<noteq> mg_Meta m")
    case True
    then have "persistMigration cl orig m rq err =
      bind (request (UpdateMig m) (c_UpdateMig cl m)) (\<lambda>m'. ?second (m'\<lparr>mg_Status := mg_Status m\<rparr>))"
      by (simp add: persistMigration_def Let_def bind_assoc)
    with True show ?thesis by (simp only:) (intro emits_obs.steps second frame_request_emits assms(1))
  next
    case False
    then have eq: "persistMigration cl orig m rq err = ?second m" by (simp add: persistMigration_def Let_def)
    show ?thesis unfolding eq using second[of m] unfolding m[symmetric] .
  qed
qed

text \<open>
  What the objects written back by one reconcile of \<open>m\<close> look like: the phase moves along the
  state machine, and the finalizer goes only with a final phase.
\<close>

definition advances :: "Migration \<Rightarrow> Migration \<Rightarrow> bool" where
  "advances m m' \<longleftrightarrow>
     (phase_step (om_DeletionTimestamp (mg_Meta m) \<noteq> None))\<^sup>*\<^sup>* (ms_Phase (mg_Status m)) (ms_Phase (mg_Status m'))"

fun writesBack :: "Migration \<Rightarrow> act \<Rightarrow> bool" where
  "writesBack m (UpdateMig m') = (advances m m' \<and>
     (HasFinalizer (mg_Meta m) MigrationFinalizer \<and> \<not> HasFinalizer (mg_Meta m') MigrationFinalizer \<longrightarrow>
      ms_Phase (mg_Status m') \<in> {Completed, Canceled}))"
| "writesBack m (UpdateMigStatus m') = advances m m'"
| "writesBack m a = True"

lemma frame_persist_advances:
  assumes "advances orig m" "HasFinalizer (mg_Meta orig) MigrationFinalizer \<Longrightarrow>
    \<not> HasFinalizer (mg_Meta m) MigrationFinalizer \<Longrightarrow> ms_Phase (mg_Status m) \<in> {Completed, Canceled}"
  shows "frame (emits (writesBack orig)) (persistMigration cl orig m rq err)"
  by (rule frame_persist) (use assms in \<open>auto simp: advances_def\<close>)

lemma advances_core: "sameCore m m' \<Longrightarrow> advances m m'"
  by (simp add: sameCore_def advances_def)

lemma core_finalizer: "sameCore m m' \<Longrightarrow> HasFinalizer (mg_Meta m') f = HasFinalizer (mg_Meta m) f"
  by (simp add: sameCore_def HasFinalizer_def)

lemma migrate_advances:
  assumes "sameCore orig m" "migrate cl plan m s = (Ok (m2, rq, e), t)"
  shows "advances orig m2" "HasFinalizer (mg_Meta orig) MigrationFinalizer \<Longrightarrow>
    \<not> HasFinalizer (mg_Meta m2) MigrationFinalizer \<Longrightarrow> ms_Phase (mg_Status m2) \<in> {Completed, Canceled}"
proof -
  let ?t = "\<lparr>world = world s, trace = trace s, t_Owner = m, t_Plan = plan, t_Requeue = 0\<rparr>"
  obtain r u where u: "Run cl ?t = (r, u)" "m2 = t_Owner u" using migrate_Ok[OF assms(2)] by blast
  then have snd: "snd (Run cl ?t) = u" by simp
  show "advances orig m2"
    using Run_steps[of ?t cl] assms(1) u(2) by (simp add: snd advances_def sameCore_def)
  assume "HasFinalizer (mg_Meta orig) MigrationFinalizer" "\<not> HasFinalizer (mg_Meta m2) MigrationFinalizer"
  moreover obtain q v where qv: "runPhase cl (t_Phase (enter ?t)) (enter ?t) = (q, v)" by fastforce
  moreover from this have "v = u" using snd by (simp add: Run_enter)
  ultimately show "ms_Phase (mg_Status m2) \<in> {Completed, Canceled}"
    using runPhase_finalizer[OF _ refl qv] assms(1) u(2) by (simp add: core_finalizer)
qed

lemma emits_setMigCondition: "frame (emits P) (setMigCondition cl c m)"
  unfolding setMigCondition_def by (intro emits_obs.steps)

lemma emits_validate: "frame (emits P) (validate cl plan ref m)"
  unfolding validate_def validatePlan_def Let_def by (intro emits_obs.steps emits_setMigCondition)

text \<open>The two ways the plan branch prepares the migration.\<close>

definition prepared :: "'w client \<Rightarrow> Plan option \<Rightarrow> ObjectReference \<Rightarrow> Migration \<Rightarrow> ('w sys, Migration) go" where
  "prepared cl plan ref m = (case plan of
       Some p \<Rightarrow> bind (liftR (setOwnerReference plan (deleteMigCondition InvalidPlanRef m))) (\<lambda>m1. validate cl p ref m1)
     | None \<Rightarrow> setMigCondition cl (mkCondition InvalidPlanRef ConditionTrue NotFound Critical
             (''The referenced `virtualMachineStorageMigrationPlanRef` does not exist, subject: '' @ planRefPath ref @ ''.'')) m)"

lemma reconcilePlanned_prepared:
  "reconcilePlanned cl orig ref m = bind (GetStorageMigrationPlan cl (Some ref)) (\<lambda>plan.
     bind (prepared cl plan ref m) (\<lambda>m1.
     if \<not> HasBlockerCondition (ms_Conditions (mg_Status m1)) \<or> om_DeletionTimestamp (mg_Meta m1) \<noteq> None
     then bind (migrate cl plan m1) (\<lambda>(m2, requeueAfter, migrateErr). persistMigration cl orig m2 requeueAfter migrateErr)
     else persistMigration cl orig m1 NoReQ None))"
  by (simp add: reconcilePlanned_def prepared_def)

lemma emits_prepared: "frame (emits P) (prepared cl plan ref m)"
  unfolding prepared_def by (intro emits_obs.steps emits_setMigCondition emits_validate)

lemma prepared_core: "prepared cl plan ref m s = (Ok m', t) \<Longrightarrow> sameCore m m'"
  by (cases plan)
    (auto simp: prepared_def bind_Ok run_liftR deleteMigCondition_core
      intro: sameCore_conditions sameCore_trans[OF sameCore_trans[OF deleteMigCondition_core setOwnerReference_core] validate_core]
      dest!: setMigCondition_result, simp add: sameCore_def)

lemma prepared_unblocked:
  assumes "prepared cl plan ref m s = (Ok m', t)" "\<not> HasBlockerCondition (ms_Conditions (mg_Status m'))"
  shows "\<exists>p. plan = Some p \<and> \<not> HasCriticalCondition (st_Conditions (pl_Status p))"
proof (cases plan)
  case None
  then have "HasBlockerCondition (ms_Conditions (mg_Status m'))"
    using assms(1) by (auto simp: prepared_def critical_set dest!: setMigCondition_result)
  with assms(2) show ?thesis by simp
next
  case (Some p)
  with assms validate_unblocked show ?thesis by (fastforce simp: prepared_def bind_Ok)
qed


lemma emits_writesBack_planned:
  assumes "sameCore orig m"
  shows "frame (emits (writesBack orig)) (reconcilePlanned cl orig ref m)"
  unfolding reconcilePlanned_prepared
proof (rule frame_bind[OF emits_preorder emits_obs.frame_GetStorageMigrationPlan],
    rule frame_bind_result[OF emits_preorder emits_prepared])
  fix plan s m1 t
  assume "prepared cl plan ref m s = (Ok m1, t)"
  then have core: "sameCore orig m1" using prepared_core sameCore_trans assms by blast
  have run: "frame (emits (writesBack orig)) (bind (migrate cl plan m1)
      (\<lambda>(m2, rq, err). persistMigration cl orig m2 rq err))"
  proof (rule frame_bind_result[OF emits_preorder frame_migrate_emits])
    show "writesBack orig a" if "admitted cl m1 plan (effectivePhase m1 plan) a" for a
      using that by (cases a) simp_all
  next
    fix s x t
    assume run: "migrate cl plan m1 s = (Ok x, t)"
    obtain m2 rq err where x: "x = (m2, rq, err)" using prod_cases3 by blast
    show "frame (emits (writesBack orig)) (case x of (m2, rq, err) \<Rightarrow> persistMigration cl orig m2 rq err)"
      unfolding x prod.case by (rule frame_persist_advances) (rule migrate_advances[OF core run[unfolded x]]; assumption)+
  qed
  have skip: "frame (emits (writesBack orig)) (persistMigration cl orig m1 NoReQ None)"
    by (rule frame_persist_advances) (use core in \<open>auto simp: advances_core core_finalizer\<close>)
  show "frame (emits (writesBack orig)) (if \<not> HasBlockerCondition (ms_Conditions (mg_Status m1)) \<or> om_DeletionTimestamp (mg_Meta m1) \<noteq> None
     then bind (migrate cl plan m1) (\<lambda>(m2, requeueAfter, migrateErr). persistMigration cl orig m2 requeueAfter migrateErr)
     else persistMigration cl orig m1 NoReQ None)"
    using run skip by simp
qed

text \<open>What one reconcile may send to an object that is not being deleted.\<close>

definition planFound :: "'w client \<Rightarrow> Migration \<Rightarrow> bool" where
  "planFound cl m \<longleftrightarrow> (\<exists>ref p w w'. mg_PlanRef m = Some ref
     \<and> c_GetPlan cl (om_Namespace (mg_Meta m)) (ref_Name ref) w = (Inr p, w')
     \<and> \<not> HasCriticalCondition (st_Conditions (pl_Status p)))"

fun onlyPersists :: "act \<Rightarrow> bool" where
  "onlyPersists (UpdateMig m) = True"
| "onlyPersists (UpdateMigStatus m) = True"
| "onlyPersists a = False"

lemma frame_persist_only: "(\<And>a. onlyPersists a \<Longrightarrow> P a) \<Longrightarrow> frame (emits P) (persistMigration cl orig m rq err)"
  by (rule frame_persist) simp_all

lemma GetStorageMigrationPlan_found:
  assumes "GetStorageMigrationPlan cl (Some ref) s = (Ok (Some p), t)"
  shows "\<exists>p0 w w'. c_GetPlan cl (ref_Namespace ref) (ref_Name ref) w = (Inr p0, w')
    \<and> pl_Spec p = pl_Spec p0 \<and> pl_Status p = pl_Status p0"
  using assms
  by (auto simp: GetStorageMigrationPlan_def run Let_def split: prod.splits sum.splits if_splits) blast+

text \<open>The requests of a reconcile: writes of the migration, and what the task may send for the plan it read.\<close>

definition foundFor :: "'w client \<Rightarrow> string \<Rightarrow> string \<Rightarrow> Plan option \<Rightarrow> bool" where
  "foundFor cl ns n plan = (case plan of None \<Rightarrow> True
     | Some p \<Rightarrow> \<exists>p0 w w'. c_GetPlan cl ns n w = (Inr p0, w') \<and> pl_Spec p = pl_Spec p0 \<and> pl_Status p = pl_Status p0)"

lemma emits_task_planned:
  assumes "\<And>a. onlyPersists a \<Longrightarrow> P a"
    and "\<And>plan m1 a. sameCore m m1 \<Longrightarrow> foundFor cl (ref_Namespace ref) (ref_Name ref) plan \<Longrightarrow>
      admitted cl m1 plan (effectivePhase m1 plan) a \<Longrightarrow> P a"
  shows "frame (emits P) (reconcilePlanned cl orig ref m)"
  unfolding reconcilePlanned_prepared
proof (intro frame_bind_result[OF emits_preorder emits_obs.frame_GetStorageMigrationPlan]
    frame_bind_result[OF emits_preorder emits_prepared])
  fix s plan t s1 m1 t1
  assume g: "GetStorageMigrationPlan cl (Some ref) s = (Ok plan, t)" and p: "prepared cl plan ref m s1 = (Ok m1, t1)"
  have "foundFor cl (ref_Namespace ref) (ref_Name ref) plan"
    using g GetStorageMigrationPlan_found[of cl ref s _ t] by (auto simp: foundFor_def split: option.splits)
  then have "frame (emits P) (migrate cl plan m1)" by (intro frame_migrate_emits assms(2)[OF prepared_core[OF p]])
  then show "frame (emits P) (if \<not> HasBlockerCondition (ms_Conditions (mg_Status m1)) \<or> om_DeletionTimestamp (mg_Meta m1) \<noteq> None
     then bind (migrate cl plan m1) (\<lambda>(m2, requeueAfter, migrateErr). persistMigration cl orig m2 requeueAfter migrateErr)
     else persistMigration cl orig m1 NoReQ None)"
    by (intro frame_if frame_bind frame_case_prod emits_preorder frame_persist_only assms(1))
qed

lemma reconcile_requests:
  assumes "c_GetMig cl ns name (world s) = (Inr m, w)"
    and "\<And>a. onlyPersists a \<Longrightarrow> P a"
    and "\<And>ref plan m1 a. mg_PlanRef m = Some ref \<Longrightarrow> sameCore m m1 \<Longrightarrow> foundFor cl (om_Namespace (mg_Meta m)) (ref_Name ref) plan \<Longrightarrow>
      admitted cl m1 plan (effectivePhase m1 plan) a \<Longrightarrow> P a"
  shows "emits P s (snd (Mig_Reconcile cl ns name s))"
proof -
  let ?k = "if om_DeletionTimestamp (mg_Meta m) \<noteq> None \<and> ms_Phase (mg_Status m) \<in> {Canceled, Completed}
         then persistMigration cl m (Mig_RemoveFinalizer MigrationFinalizer m) NoReQ None
         else if ms_Phase (mg_Status m) = Completed then ret 0
         else (case mg_PlanRef m of
             None \<Rightarrow> ret 0
           | Some ref0 \<Rightarrow>
               let ref = ref0\<lparr>ref_Namespace := om_Namespace (mg_Meta m)\<rparr>
               in reconcilePlanned cl m ref (m\<lparr>mg_PlanRef := Some ref\<rparr>))"
  have "frame (emits P) (reconcilePlanned cl m (ref\<lparr>ref_Namespace := om_Namespace (mg_Meta m)\<rparr>) (m\<lparr>mg_PlanRef := r\<rparr>))"
    if "mg_PlanRef m = Some ref" for ref r
    by (rule emits_task_planned) (use assms(2,3) that in \<open>auto simp: sameCore_def\<close>)
  then have "frame (emits P) ?k"
    unfolding Let_def by (intro frame_if frame_case_option emits_obs.steps frame_persist_only assms(2))
  from frameD2[OF this, of "s\<lparr>world := w\<rparr>"] show ?thesis
    using assms(1) by (simp add: Mig_Reconcile_def run emits_def)
qed

lemma emits_guarded_planned:
  assumes "om_DeletionTimestamp (mg_Meta m) = None"
    and "\<And>a. onlyPersists a \<Longrightarrow> P a"
    and "\<And>a p0 w w'. c_GetPlan cl (ref_Namespace ref) (ref_Name ref) w = (Inr p0, w') \<Longrightarrow>
      \<not> HasCriticalCondition (st_Conditions (pl_Status p0)) \<Longrightarrow> P a"
  shows "frame (emits P) (reconcilePlanned cl orig ref m)"
  unfolding reconcilePlanned_prepared
proof (intro frame_bind_result[OF emits_preorder emits_obs.frame_GetStorageMigrationPlan]
    frame_bind_result[OF emits_preorder emits_prepared])
  fix s plan t s1 m1 t1
  assume g: "GetStorageMigrationPlan cl (Some ref) s = (Ok plan, t)" and p: "prepared cl plan ref m s1 = (Ok m1, t1)"
  have del: "om_DeletionTimestamp (mg_Meta m1) = None" using prepared_core[OF p] assms(1) by (simp add: sameCore_def)
  show "frame (emits P) (if \<not> HasBlockerCondition (ms_Conditions (mg_Status m1)) \<or> om_DeletionTimestamp (mg_Meta m1) \<noteq> None
     then bind (migrate cl plan m1) (\<lambda>(m2, requeueAfter, migrateErr). persistMigration cl orig m2 requeueAfter migrateErr)
     else persistMigration cl orig m1 NoReQ None)"
  proof (cases "HasBlockerCondition (ms_Conditions (mg_Status m1))")
    case True
    then show ?thesis using del frame_persist_only[OF assms(2)] by simp
  next
    case False
    then obtain q where q: "plan = Some q" "\<not> HasCriticalCondition (st_Conditions (pl_Status q))"
      using prepared_unblocked[OF p] by blast
    then have "P a" for a using GetStorageMigrationPlan_found[of cl ref s q t] g assms(3) by auto
    then show ?thesis
      using False by (auto intro!: frame_bind emits_preorder frame_migrate_emits frame_persist_only split: prod.splits)
  qed
qed


section \<open>Properties\<close>

text \<open>
  C15. Every migration object one reconcile writes back, metadata or status, is an advance of the
  object it read: its phase is reached along the state machine, with the cancel transition only
  for an object with a deletion timestamp, and an update that drops the finalizer writes a
  completed or canceled migration.
\<close>

theorem reconcile_writes_advance:
  assumes "c_GetMig cl ns name (world s) = (Inr m, w)"
  shows "emits (writesBack m) s (snd (Mig_Reconcile cl ns name s))"
proof -
  let ?k = "if om_DeletionTimestamp (mg_Meta m) \<noteq> None \<and> ms_Phase (mg_Status m) \<in> {Canceled, Completed}
         then persistMigration cl m (Mig_RemoveFinalizer MigrationFinalizer m) NoReQ None
         else if ms_Phase (mg_Status m) = Completed then ret 0
         else (case mg_PlanRef m of
             None \<Rightarrow> ret 0
           | Some ref0 \<Rightarrow>
               let ref = ref0\<lparr>ref_Namespace := om_Namespace (mg_Meta m)\<rparr>
               in reconcilePlanned cl m ref (m\<lparr>mg_PlanRef := Some ref\<rparr>))"
  have "frame (emits (writesBack m)) ?k"
    unfolding Let_def
  proof (intro frame_if frame_case_option emits_obs.steps emits_writesBack_planned frame_persist_advances)
    show "sameCore m (m\<lparr>mg_PlanRef := ref\<rparr>)" for ref by (simp add: sameCore_def)
  qed (auto simp: advances_def)
  from frameD2[OF this, of "s\<lparr>world := w\<rparr>"] show ?thesis
    using assms by (simp add: Mig_Reconcile_def run emits_def)
qed

text \<open>
  C16. A migration that is not being deleted acts on the cluster only under a valid plan: any
  request other than writing the migration itself requires that the referenced plan has been
  found in the namespace of the migration and has no critical condition.
\<close>

theorem reconcile_acts_only_with_valid_plan:
  assumes "c_GetMig cl ns name (world s) = (Inr m, w)" "om_DeletionTimestamp (mg_Meta m) = None"
  shows "emits (\<lambda>a. onlyPersists a \<or> planFound cl m) s (snd (Mig_Reconcile cl ns name s))"
proof -
  let ?P = "\<lambda>a. onlyPersists a \<or> planFound cl m"
  have planned: "frame (emits ?P) (reconcilePlanned cl m (ref\<lparr>ref_Namespace := om_Namespace (mg_Meta m)\<rparr>)
      (m\<lparr>mg_PlanRef := r\<rparr>))" if "mg_PlanRef m = Some ref" for ref r
    by (rule emits_guarded_planned) (use assms(2) that in \<open>auto simp: planFound_def\<close>)
  have "frame (emits ?P) (if ms_Phase (mg_Status m) = Completed then ret 0
         else (case mg_PlanRef m of
             None \<Rightarrow> ret 0
           | Some ref0 \<Rightarrow>
               let ref = ref0\<lparr>ref_Namespace := om_Namespace (mg_Meta m)\<rparr>
               in reconcilePlanned cl m ref (m\<lparr>mg_PlanRef := Some ref\<rparr>)))"
    unfolding Let_def by (intro emits_obs.steps planned)
  from frameD2[OF this, of "s\<lparr>world := w\<rparr>"] show ?thesis
    using assms by (simp add: Mig_Reconcile_def run emits_def)
qed

text \<open>
  Persisting never loses a status: if the status has changed, then either the metadata
  update before it failed, and its error is reported, or the last request writes exactly the
  new status, whether or not the task itself failed; an error of the task is reported once both
  writes went through.
\<close>

theorem persistMigration_writes_status:
  assumes "persistMigration cl orig m rq err s = (r, s')" "mg_Status orig \<noteq> mg_Status m"
  shows "(\<exists>e. trace s' = trace s @ [(UpdateMig m, Some e)] \<and> r = Err e)
    \<or> (\<exists>pre m' e. trace s' = trace s @ pre @ [(UpdateMigStatus m', e)] \<and> mg_Status m' = mg_Status m
        \<and> set pre \<subseteq> {(UpdateMig m, None)}
        \<and> r = (case e of Some x \<Rightarrow> Err x | None \<Rightarrow> (case err of Some x \<Rightarrow> Err x | None \<Rightarrow> Ok rq)))"
proof -
  have second: "\<exists>e. trace u = trace t @ [(UpdateMigStatus x, e)]
      \<and> q = (case e of Some x \<Rightarrow> Err x | None \<Rightarrow> (case err of Some x \<Rightarrow> Err x | None \<Rightarrow> Ok rq))"
    if "bind (bind (request (UpdateMigStatus x) (c_UpdateMigStatus cl x)) (\<lambda>_. ret ())) (\<lambda>_.
      case err of Some e \<Rightarrow> throw e | None \<Rightarrow> ret rq) t = (q, u)" for x t q u
  proof -
    obtain v w where v: "c_UpdateMigStatus cl x (world t) = (v, w)" by fastforce
    show ?thesis
    proof (cases v)
      case (Inl e)
      with v that show ?thesis by (intro exI[of _ "Some e"]) (auto simp: run)
    next
      case (Inr y)
      with v that show ?thesis by (intro exI[of _ None]) (auto simp: run split: option.splits)
    qed
  qed
  show ?thesis
  proof (cases "mg_Meta orig = mg_Meta m")
    case True
    then show ?thesis using assms second[of m s r s'] by (auto simp: persistMigration_def Let_def)
  next
    case False
    obtain v w where v: "c_UpdateMig cl m (world s) = (v, w)" by fastforce
    show ?thesis
    proof (cases v)
      case (Inl e)
      with v False assms show ?thesis by (auto simp: persistMigration_def Let_def run)
    next
      case (Inr m')
      let ?t = "s\<lparr>world := w, trace := trace s @ [(UpdateMig m, None)]\<rparr>"
      have "bind (bind (request (UpdateMigStatus (m'\<lparr>mg_Status := mg_Status m\<rparr>)) (c_UpdateMigStatus cl (m'\<lparr>mg_Status := mg_Status m\<rparr>))) (\<lambda>_. ret ())) (\<lambda>_.
        case err of Some e \<Rightarrow> throw e | None \<Rightarrow> ret rq) ?t = (r, s')"
        using v Inr False assms
        by (simp add: persistMigration_def Let_def bind_assoc run_bind[of "request (UpdateMig m) _"] run_request)
      from second[OF this] show ?thesis by (force intro!: exI[of _ "[(UpdateMig m, None)]"])
    qed
  qed
qed


text \<open>
  Adopting a migration: when it succeeds the plan is the controller of the migration, with
  its own UID, the plan lives in the namespace of the migration (or in none), the migration was
  not controlled by another object, and every reference to another object is kept.  A
  migration controlled by another object is refused.
\<close>

theorem SetControllerReference_correct:
  "case SetControllerReference plan m of
     Ok m' \<Rightarrow> GetControllerOf (mg_Meta m') = Some (planOwnerReference plan)
       \<and> om_Namespace (pl_Meta plan) \<in> {[], om_Namespace (mg_Meta m)}
       \<and> (\<forall>r. GetControllerOf (mg_Meta m) = Some r \<longrightarrow> referSameObject r (planOwnerReference plan))
       \<and> (\<forall>r. r \<in> set (om_OwnerReferences (mg_Meta m)) \<and> \<not> referSameObject r (planOwnerReference plan) \<longrightarrow>
            r \<in> set (om_OwnerReferences (mg_Meta m')))
   | Err e \<Rightarrow> om_Namespace (pl_Meta plan) \<notin> {[], om_Namespace (mg_Meta m)}
       \<or> (\<exists>r. GetControllerOf (mg_Meta m) = Some r \<and> \<not> referSameObject r (planOwnerReference plan))
   | Panic p \<Rightarrow> False"
proof -
  let ?ref = "planOwnerReference plan" and ?rs = "om_OwnerReferences (mg_Meta m)"
  have ctl: "or_Controller ?ref" by (simp add: planOwnerReference_def)
  have first: "find or_Controller (upsertOwnerRef ?ref rs) = Some ?ref"
    if "\<forall>r. find or_Controller rs = Some r \<longrightarrow> referSameObject r ?ref" for rs
    using that ctl by (induction rs) (auto split: if_splits)
  have keep: "r \<in> set (upsertOwnerRef ?ref rs)" if "r \<in> set rs" "\<not> referSameObject r ?ref" for r rs
    using that by (induction rs) auto
  show ?thesis
    using first[of ?rs] keep[of _ ?rs]
    by (auto simp: SetControllerReference_def validateOwner_def GetControllerOf_def Let_def split: option.splits)
qed

theorem SetControllerReference_correct_witness:
  "\<exists>m'. SetControllerReference emptyPlan emptyMigration = Ok m'
     \<and> GetControllerOf (mg_Meta m') = Some (planOwnerReference emptyPlan)"
proof -
  obtain m' where ok: "SetControllerReference emptyPlan emptyMigration = Ok m'"
    by (simp add: SetControllerReference_def validateOwner_def GetControllerOf_def empty_defs)
  with SetControllerReference_correct[of emptyPlan emptyMigration] show ?thesis by simp
qed

definition storedClient :: "unit client" where
  "storedClient = emptyClient\<lparr>c_GetMig := (\<lambda>ns n. yields emptyMigration)\<rparr>"

definition idle :: "unit sys" where
  "idle = \<lparr>world = (), trace = []\<rparr>"

lemma storedClient_get: "c_GetMig storedClient ns n (world idle) = (Inr emptyMigration, ())"
  by (simp add: storedClient_def yields_def)

theorem reconcile_writes_advance_witness:
  "emits (writesBack emptyMigration) idle (snd (Mig_Reconcile storedClient ''ns'' ''m'' idle))"
  by (rule reconcile_writes_advance[OF storedClient_get])

theorem reconcile_acts_only_with_valid_plan_witness:
  "emits (\<lambda>a. onlyPersists a \<or> planFound storedClient emptyMigration) idle (snd (Mig_Reconcile storedClient ''ns'' ''m'' idle))"
  by (rule reconcile_acts_only_with_valid_plan[OF storedClient_get]) (simp add: empty_defs)

theorem persistMigration_writes_status_witness:
  "\<exists>pre m' e. trace (snd (persistMigration storedClient emptyMigration
       (emptyMigration\<lparr>mg_Status := emptyMigStatus\<lparr>ms_Phase := Started\<rparr>\<rparr>) 0 None idle)) = pre @ [(UpdateMigStatus m', e)]
     \<and> ms_Phase (mg_Status m') = Started"
proof -
  let ?m = "emptyMigration\<lparr>mg_Status := emptyMigStatus\<lparr>ms_Phase := Started\<rparr>\<rparr>"
  have d: "mg_Status emptyMigration \<noteq> mg_Status ?m" by (simp add: empty_defs)
  have "mg_Meta emptyMigration = mg_Meta ?m" by simp
  then have "fst (persistMigration storedClient emptyMigration ?m 0 None idle) = Ok 0"
    using d by (simp add: persistMigration_def Let_def run storedClient_def emptyClient_def del: Migration.simps)
  with persistMigration_writes_status[OF surjective_pairing d, of storedClient 0 None idle]
  show ?thesis by (auto simp: idle_def)
qed

end
