(* ===== verification/PlanController.thy ===== *)
theory PlanController
  imports PlanValidation MigController
begin

text \<open>
  The reconciler of VirtualMachineStorageMigrationPlan objects
  (\<open>src/internal/controller/storagemigplan/controller.go\<close>): the finalizer and blocked
  deletion, validation, the bookkeeping of ready and completed VMs, the refresh annotations
  through which a migration waits for the plan, and the write-back of the plan.
\<close>

section \<open>Conditions\<close>

definition readyCondition :: "ConditionStatus \<Rightarrow> string \<Rightarrow> Condition" where
  "readyCondition status message = mkCondition Ready status [] Required message"

definition progressCondition :: "ConditionStatus \<Rightarrow> string \<Rightarrow> Condition" where
  "progressCondition status message = mkCondition Progressing status [] Required message"

section \<open>Migrations of the plan\<close>

definition listMigrationsForPlan :: "'w client \<Rightarrow> Plan \<Rightarrow> (('w, 'z) sys_scheme, Migration list) go" where
  "listMigrationsForPlan cl plan = query (c_ListMigsByPlanName cl (om_Name (pl_Meta plan)))"

definition activeMigration :: "Migration \<Rightarrow> bool" where
  "activeMigration m \<longleftrightarrow> ms_Phase (mg_Status m) \<noteq> Completed \<and> ms_Phase (mg_Status m) \<noteq> Canceled"

definition hasActiveMigrations :: "'w client \<Rightarrow> Plan \<Rightarrow> (('w, 'z) sys_scheme, bool) go" where
  "hasActiveMigrations cl plan =
     bind (listMigrationsForPlan cl plan) (\<lambda>ms. ret (list_ex activeMigration ms))"

definition compareStorageMigrations :: "Migration \<Rightarrow> Migration \<Rightarrow> int" where
  "compareStorageMigrations a b =
     (let byTime = (let x = om_CreationTimestamp (mg_Meta a); y = om_CreationTimestamp (mg_Meta b)
                    in if x < y then -1 else if x > y then 1 else 0)
      in if ms_Phase (mg_Status a) \<noteq> ms_Phase (mg_Status b) then
           (if ms_Phase (mg_Status a) = Completed then -1
            else if ms_Phase (mg_Status b) = Completed then 1
            else byTime)
         else byTime)"

definition updateReadyCompletedMigrations :: "Migration \<Rightarrow> PlanStatus \<Rightarrow> PlanStatus" where
  "updateReadyCompletedMigrations lastMigration st =
     (let finished = (\<lambda>vm. pv_Name vm \<in> set (ms_CompletedMigrations (mg_Status lastMigration))) in
      st\<lparr>st_CompletedMigrations := st_CompletedMigrations st @ filter finished (st_ReadyMigrations st) @
           filter finished (st_InProgressMigrations st),
         st_ReadyMigrations := filter (\<lambda>vm. \<not> finished vm) (st_ReadyMigrations st),
         st_InProgressMigrations := filter (\<lambda>vm. \<not> finished vm) (st_InProgressMigrations st)\<rparr>)"

definition processMigrations :: "'w client \<Rightarrow> ('w planning, unit) go" where
  "processMigrations cl =
     bind (gets r_Plan) (\<lambda>plan.
     bind (attempt (query (c_ListMigsByPlanName cl (om_Name (pl_Meta plan))))) (\<lambda>r. case r of
       Inl e \<Rightarrow> if \<not> IsNotFound e then ret () else throw e
     | Inr items \<Rightarrow>
         let sorted = SortFunc compareStorageMigrations items in
         if length sorted = 0 then setCond cl (progressCondition ConditionFalse ''no storage migrations found'')
         else
           bind (if HasCondition [Ready] (st_Conditions (pl_Status plan))
                 then setCond cl (progressCondition ConditionTrue ''in progress storage migrations found'')
                 else setCond cl (progressCondition ConditionFalse ''plan is not ready'')) (\<lambda>_.
           bind (onPlanStatus (updateReadyCompletedMigrations (last sorted))) (\<lambda>_.
           bind (gets r_Plan) (\<lambda>plan'.
             if length (st_CompletedMigrations (pl_Status plan')) = length (spec_VirtualMachines (pl_Spec plan')) \<and>
                length (spec_VirtualMachines (pl_Spec plan')) > 0
             then bind (setCond cl (progressCondition ConditionFalse ''all storage migrations completed'')) (\<lambda>_.
                  setCond cl (readyCondition ConditionFalse ''all storage migrations completed''))
             else ret ())))))"

section \<open>The refresh handshake\<close>

definition shouldUpdateRefresh :: "'w client \<Rightarrow> Plan \<Rightarrow> bool" where
  "shouldUpdateRefresh cl plan = (case om_Annotations (pl_Meta plan) RefreshStartTimeAnnotation of
       None \<Rightarrow> False
     | Some startText \<Rightarrow>
         (case om_Annotations (pl_Meta plan) RefreshEndTimeAnnotation of
            None \<Rightarrow> True
          | Some endText \<Rightarrow>
              (case c_ParseTime cl startText of
                 Inl _ \<Rightarrow> True
               | Inr startTime \<Rightarrow>
                   (case c_ParseTime cl endText of Inl _ \<Rightarrow> True | Inr endTime \<Rightarrow> \<not> endTime > startTime))))"

definition setRefreshAnnotations :: "'w client \<Rightarrow> ('w planning, unit) go" where
  "setRefreshAnnotations cl = bind (draw (c_Now cl)) (\<lambda>now.
     onPlan (\<lambda>p. p\<lparr>pl_Meta := (pl_Meta p)\<lparr>om_Annotations :=
       (om_Annotations (pl_Meta p))(RefreshEndTimeAnnotation \<mapsto> c_FormatTime cl now)\<rparr>\<rparr>))"

section \<open>Reconcile\<close>

definition planCompletedByStatus :: "Plan \<Rightarrow> bool" where
  "planCompletedByStatus plan = PlanStatusShowsCompleted (spec_VirtualMachines (pl_Spec plan)) (Some (pl_Status plan))"

definition persistPlan :: "'w client \<Rightarrow> Plan \<Rightarrow> ('w planning, unit) go" where
  "persistPlan cl orig =
     bind (gets r_Plan) (\<lambda>plan.
     let desiredStatus = pl_Status plan;
         compareStatus = PlanStatus_CopyTimestamps (pl_Status orig) (Some desiredStatus)
     in
     bind (if pl_Meta orig \<noteq> pl_Meta plan
           then bind (request (UpdatePlan plan) (c_UpdatePlan cl plan)) (\<lambda>p. onPlan (\<lambda>_. p\<lparr>pl_Status := desiredStatus\<rparr>))
           else ret ()) (\<lambda>_.
     bind (gets r_Plan) (\<lambda>plan1.
     if compareStatus \<noteq> desiredStatus
     then bind (request (UpdatePlanStatus plan1) (c_UpdatePlanStatus cl plan1)) (\<lambda>_. ret ())
     else ret ())))"

definition reconcileDeleted :: "'w client \<Rightarrow> ('w planning, unit) go" where
  "reconcileDeleted cl =
     bind (gets r_Plan) (\<lambda>plan.
     bind (hasActiveMigrations cl plan) (\<lambda>active.
       if active then
         (if \<not> HasCondition [DeletionBlocked] (st_Conditions (pl_Status plan)) then
            bind (setCond cl (mkCondition DeletionBlocked ConditionTrue [] Advisory
              ''plan deletion is blocked by active migrations; in-flight migrations will continue until complete'')) (\<lambda>_.
            emitEvent ''Normal'' ''DeletionBlocked'' ''plan deletion is blocked by active migrations'')
          else ret ())
       else onPlan (Plan_RemoveFinalizer PlanFinalizer)))"

definition setReadiness :: "'w client \<Rightarrow> ('w planning, unit) go" where
  "setReadiness cl =
     bind (gets (\<lambda>s. pl_Status (r_Plan s))) (\<lambda>st.
       if HasCriticalCondition (st_Conditions st)
       then setCond cl (readyCondition ConditionFalse ''plan has one or more critical conditions'')
       else if length (st_ReadyMigrations st) > 0
       then setCond cl (readyCondition ConditionTrue ''plan is ready'')
       else setCond cl (readyCondition ConditionFalse ''no virtual machines are ready for storage migration''))"

definition ensureSuffix :: "'w client \<Rightarrow> ('w planning, unit) go" where
  "ensureSuffix cl =
     bind (gets (\<lambda>s. st_Suffix (pl_Status (r_Plan s)))) (\<lambda>sfx. case sfx of
       None \<Rightarrow> bind (draw (c_RandString cl 4)) (\<lambda>s. onPlanStatus (\<lambda>st. st\<lparr>st_Suffix := Some s\<rparr>))
     | Some _ \<Rightarrow> ret ())"

definition countCompleted :: "('w planning, unit) go" where
  "countCompleted = onPlan (\<lambda>p. p\<lparr>pl_Status := (pl_Status p)\<lparr>st_CompletedOutOf :=
     showNat (length (st_CompletedMigrations (pl_Status p))) @ ''/'' @ showNat (length (spec_VirtualMachines (pl_Spec p)))\<rparr>\<rparr>)"

definition reconcileLive :: "'w client \<Rightarrow> ('w planning, unit) go" where
  "reconcileLive cl =
     bind (onPlan (\<lambda>p. if \<not> HasFinalizer (pl_Meta p) PlanFinalizer then Plan_AddFinalizer PlanFinalizer p else p)) (\<lambda>_.
     bind (ensureSuffix cl) (\<lambda>_.
     bind (attempt (Plan_validate cl)) (\<lambda>r.
     bind (case r of
         Inl e \<Rightarrow> bind (draw (c_Now cl)) (\<lambda>now. onConditions (SetReconcileFailed now e))
       | Inr _ \<Rightarrow> delCond ReconcileFailed) (\<lambda>_.
     bind (setReadiness cl) (\<lambda>_.
     bind (processMigrations cl) (\<lambda>_.
     bind countCompleted (\<lambda>_.
     bind (gets r_Plan) (\<lambda>plan.
     if shouldUpdateRefresh cl plan then setRefreshAnnotations cl else ret ()))))))))"

definition planStart :: "'w sys \<Rightarrow> Plan \<Rightarrow> 'w planning" where
  "planStart s plan = \<lparr>world = world s, trace = trace s, r_Plan = plan\<rparr>"

text \<open>Running a computation on a local plan object.\<close>

definition withPlan :: "Plan \<Rightarrow> ('w planning, 'a) go \<Rightarrow> ('w sys, 'a) go" where
  "withPlan plan m = (\<lambda>s. case m (planStart s plan) of (r, t) \<Rightarrow> (r, s\<lparr>world := world t, trace := trace t\<rparr>))"

definition Plan_Reconcile :: "'w client \<Rightarrow> string \<Rightarrow> string \<Rightarrow> ('w sys, unit) go" where
  "Plan_Reconcile cl ns name =
     bind (attempt (query (c_GetPlan cl ns name))) (\<lambda>r. case r of
       Inl e \<Rightarrow> if IsNotFound e then ret () else throw e
     | Inr plan \<Rightarrow>
         if om_DeletionTimestamp (pl_Meta plan) = None \<and> planCompletedByStatus plan then ret ()
         else withPlan plan
           (bind (if om_DeletionTimestamp (pl_Meta plan) \<noteq> None then reconcileDeleted cl else reconcileLive cl) (\<lambda>_.
            persistPlan cl plan)))"

section \<open>Watches\<close>

text \<open>The two index functions registered by \<open>IndexFields\<close> and the mappers of the watches.\<close>

definition vmIndex :: "Plan \<Rightarrow> string list" where
  "vmIndex plan = map pv_Name (spec_VirtualMachines (pl_Spec plan))"

definition migrationNameIndex :: "Migration \<Rightarrow> string list" where
  "migrationNameIndex m = (case mg_PlanRef m of
       None \<Rightarrow> [] | Some ref \<Rightarrow> if ref_Name ref = [] then [] else [ref_Name ref])"

definition getVirtualMachineStorageMigrationsPlanForStorageMigration :: "Migration \<Rightarrow> (string \<times> string) list" where
  "getVirtualMachineStorageMigrationsPlanForStorageMigration m = (case mg_PlanRef m of
       None \<Rightarrow> []
     | Some ref \<Rightarrow> if ref_Name ref = [] then [] else [(om_Namespace (mg_Meta m), ref_Name ref)])"

definition getVirtualMachineMigrationPlansForVM ::
  "'w client \<Rightarrow> VirtualMachine \<Rightarrow> (('w, 'z) sys_scheme, (string \<times> string) list) go"
where
  "getVirtualMachineMigrationPlansForVM cl vm =
     bind (attempt (query (c_ListPlansByVM cl (vm_Name vm)))) (\<lambda>r. case r of
       Inl _ \<Rightarrow> ret []
     | Inr plans \<Rightarrow> ret (map (\<lambda>p. (om_Namespace (pl_Meta p), om_Name (pl_Meta p))) plans))"

end
