(* ===== verification/PlanClaims.thy ===== *)
theory PlanClaims
  imports PlanValidation VolumeSwap "HOL-Library.Multiset"
begin

text \<open>
  What the validation of a plan promises about the claims of its VMs: the recorded source claims
  survive, the VMs declared ready can be migrated, and what happens to the lists when the API
  server fails half way.
\<close>

section \<open>Checking the targets\<close>

text \<open>Two targets or entries that differ in storage classes only.\<close>

definition sameTarget :: "TargetMigrationPVC \<Rightarrow> TargetMigrationPVC \<Rightarrow> bool" where
  "sameTarget a b \<longleftrightarrow> tp_VolumeName b = tp_VolumeName a \<and> dp_Name (tp_DestinationPVC b) = dp_Name (tp_DestinationPVC a)"

definition classed :: "StatusVM \<Rightarrow> StatusVM \<Rightarrow> bool" where
  "classed a b \<longleftrightarrow> pv_Name b = pv_Name a \<and> sv_SourcePVCs b = sv_SourcePVCs a
     \<and> list_all2 sameTarget (pv_TargetMigrationPVCs a) (pv_TargetMigrationPVCs b)"

lemma classed_refl [simp]: "classed a a"
  by (simp add: classed_def sameTarget_def list_all2_refl)

lemma classed_refl_list [simp]: "list_all2 classed xs xs"
  by (simp add: list_all2_refl)

lemma classed_length: "classed a b \<Longrightarrow> length (pv_TargetMigrationPVCs b) = length (pv_TargetMigrationPVCs a)"
  by (auto simp: classed_def dest: list_all2_lengthD)

lemma putClass_classed:
  assumes "classed a b"
  shows "classed a (putClass i sc b)"
proof -
  have "list_all2 sameTarget (pv_TargetMigrationPVCs a)
      ((pv_TargetMigrationPVCs b)[i := classTarget sc (pv_TargetMigrationPVCs b ! i)])"
    by (rule list_all2_upd)
      (use assms in \<open>auto simp: classed_def classTarget_def sameTarget_def list_all2_conv_all_nth\<close>)
  with assms show ?thesis by (simp add: classed_def putClass_def)
qed

text \<open>
  The default storage class as the API server shows it: the first class of a listing with the
  annotation for virtualization, and the first one with the plain annotation when a listing
  shows none of the former.  A cluster without default class has the empty answer.
\<close>

definition listedDefault :: "'w client \<Rightarrow> string \<Rightarrow> string option \<Rightarrow> bool" where
  "listedDefault cl annotation v \<longleftrightarrow> (\<exists>r w w'. c_ListStorageClasses cl w = (r, w') \<and> (case r of
       Inl e \<Rightarrow> IsNotFound e \<and> v = None
     | Inr scs \<Rightarrow> v = firstAnnotatedClass annotation scs))"

definition defaultAnswer :: "'w client \<Rightarrow> string \<Rightarrow> bool" where
  "defaultAnswer cl sc \<longleftrightarrow> listedDefault cl DefaultVirtStorageClass (Some sc) \<or> listedDefault cl DefaultVirtStorageClass None
     \<and> (listedDefault cl DefaultK8sStorageClass (Some sc) \<or> listedDefault cl DefaultK8sStorageClass None \<and> sc = [])"

lemma getDefaultStorageClass_gives: "gives (getDefaultStorageClass cl) (defaultAnswer cl)"
proof -
  have found: "gives (GetDefaultStorageClass cl) (listedDefault cl DefaultK8sStorageClass)"
    "gives (GetDefaultVirtStorageClass cl) (listedDefault cl DefaultVirtStorageClass)"
    by (auto simp: gives_def GetDefaultStorageClass_def GetDefaultVirtStorageClass_def run listedDefault_def
        split: prod.splits sum.splits if_splits) (force split: sum.splits)+
  have plain: "gives (bind (GetDefaultStorageClass cl) (\<lambda>d. case d of Some sc \<Rightarrow> ret sc | None \<Rightarrow> ret [])) (defaultAnswer cl)"
    if "listedDefault cl DefaultVirtStorageClass None"
    using that by (intro gives_bind[OF found(1)]) (auto simp: defaultAnswer_def intro!: gives_ret split: option.splits)
  show ?thesis
    unfolding getDefaultStorageClass_def
    by (rule gives_bind[OF found(2)]) (auto simp: defaultAnswer_def intro!: gives_ret plain split: option.splits)
qed

text \<open>
  The class of a target.  \<open>classFound\<close>: it is the class that the entry names, which the API
  server has, or the default class when it names none.  \<open>classMissing\<close>: the API server
  does not have the named class, or there is no default class.
\<close>

definition namesClass :: "string option \<Rightarrow> bool" where
  "namesClass c \<longleftrightarrow> c \<noteq> None \<and> c \<noteq> Some []"

definition classFound :: "'w client \<Rightarrow> string option \<Rightarrow> string \<Rightarrow> bool" where
  "classFound cl c sc \<longleftrightarrow> sc \<noteq> [] \<and> (if namesClass c
     then c = Some sc \<and> (\<exists>x w w'. c_GetStorageClass cl sc w = (Inr x, w')) else defaultAnswer cl sc)"

definition classMissing :: "'w client \<Rightarrow> string option \<Rightarrow> bool" where
  "classMissing cl c \<longleftrightarrow> (if namesClass c
     then (\<exists>sc e w w'. c = Some sc \<and> c_GetStorageClass cl sc w = (Inl e, w') \<and> IsNotFound e) else defaultAnswer cl [])"

abbreviation className :: "StatusVM \<Rightarrow> nat \<Rightarrow> string option" where
  "className vm i \<equiv> dp_StorageClassName (tp_DestinationPVC (pv_TargetMigrationPVCs vm ! i))"

text \<open>
  A target that the migration can use, in an entry \<open>vm\<close> made from \<open>vm0\<close>: it has a class that was
  found, and its claim is not the source claim unless volumes are already being moved.
\<close>

definition usableAt :: "'w client \<Rightarrow> migrationStatus \<Rightarrow> StatusVM \<Rightarrow> StatusVM \<Rightarrow> nat \<Rightarrow> bool" where
  "usableAt cl ms vm0 vm i \<longleftrightarrow> (\<exists>sc. className vm i = Some sc \<and> classFound cl (className vm0 i) sc) \<and>
     (\<forall>n. dp_Name (tp_DestinationPVC (pv_TargetMigrationPVCs vm ! i)) = Some n \<longrightarrow> i < length (sv_SourcePVCs vm) \<and>
        (ms = notStarted \<longrightarrow> n \<noteq> sp_Name (sv_SourcePVCs vm ! i)))"

lemma usableAt_cong:
  "pv_TargetMigrationPVCs b ! k = pv_TargetMigrationPVCs a ! k \<Longrightarrow> sv_SourcePVCs b = sv_SourcePVCs a \<Longrightarrow>
   usableAt cl ms vm0 b k = usableAt cl ms vm0 a k"
  by (simp add: usableAt_def)

definition usable :: "'w client \<Rightarrow> migrationStatus \<Rightarrow> StatusVM \<Rightarrow> StatusVM \<Rightarrow> bool" where
  "usable cl ms vm0 vm \<longleftrightarrow> (\<forall>i < length (pv_TargetMigrationPVCs vm). usableAt cl ms vm0 vm i)"

text \<open>
  An entry with a fault: the class of one of its targets is missing, or the target has the name
  of the source claim before any volume has moved.
\<close>

definition faulty :: "'w client \<Rightarrow> migrationStatus \<Rightarrow> StatusVM \<Rightarrow> bool" where
  "faulty cl ms vm \<longleftrightarrow> (\<exists>i < length (pv_TargetMigrationPVCs vm). classMissing cl (className vm i)
     \<or> ms = notStarted \<and> i < length (sv_SourcePVCs vm)
       \<and> dp_Name (tp_DestinationPVC (pv_TargetMigrationPVCs vm ! i)) = Some (sp_Name (sv_SourcePVCs vm ! i)))"

text \<open>The plan differs from \<open>P\<close> at most in the storage classes of its ready list.\<close>

definition onlyClasses :: "Plan \<Rightarrow> Plan \<Rightarrow> bool" where
  "onlyClasses P q \<longleftrightarrow> (\<exists>rs. list_all2 classed (st_ReadyMigrations (pl_Status P)) rs
     \<and> q = P\<lparr>pl_Status := (pl_Status P)\<lparr>st_ReadyMigrations := rs\<rparr>\<rparr>)"

lemma onlyClasses_refl [simp]: "onlyClasses P P"
  unfolding onlyClasses_def by (rule exI[of _ "st_ReadyMigrations (pl_Status P)"]) simp

lemma onlyClasses_put:
  assumes "onlyClasses P q" "j < length (st_ReadyMigrations (pl_Status P)) \<Longrightarrow> classed (st_ReadyMigrations (pl_Status P) ! j) vm"
  shows "onlyClasses P (q\<lparr>pl_Status := (pl_Status q)\<lparr>st_ReadyMigrations := (st_ReadyMigrations (pl_Status q))[j := vm]\<rparr>\<rparr>)"
proof -
  obtain rs where rs: "list_all2 classed (st_ReadyMigrations (pl_Status P)) rs"
      "q = P\<lparr>pl_Status := (pl_Status P)\<lparr>st_ReadyMigrations := rs\<rparr>\<rparr>"
    using assms(1) by (auto simp: onlyClasses_def)
  then have "list_all2 classed (st_ReadyMigrations (pl_Status P)) (rs[j := vm])"
    using assms(2) by (intro list_all2_upd)
  with rs(2) show ?thesis unfolding onlyClasses_def by (intro exI[of _ "rs[j := vm]"]) simp
qed

text \<open>What one step leaves of an entry whose targets before the \<open>i\<close>-th are settled.\<close>

definition settled :: "'w client \<Rightarrow> migrationStatus \<Rightarrow> StatusVM \<Rightarrow> nat \<Rightarrow> StatusVM \<Rightarrow> bool" where
  "settled cl ms vm0 k vm \<longleftrightarrow> classed vm0 vm \<and> (\<forall>i < k. usableAt cl ms vm0 vm i)
     \<and> (\<forall>i. k \<le> i \<and> i < length (pv_TargetMigrationPVCs vm0) \<longrightarrow>
          pv_TargetMigrationPVCs vm ! i = pv_TargetMigrationPVCs vm0 ! i)"

definition atEntry :: "Plan \<Rightarrow> nat \<Rightarrow> StatusVM \<Rightarrow> bool" where
  "atEntry P j vm \<longleftrightarrow> (j < length (st_ReadyMigrations (pl_Status P)) \<longrightarrow> classed (st_ReadyMigrations (pl_Status P) ! j) vm)"

lemma classed_trans: "classed a b \<Longrightarrow> classed b c \<Longrightarrow> classed a c"
  by (auto simp: classed_def sameTarget_def list_all2_conv_all_nth)

text \<open>How the class check of one target leaves the entry.\<close>

definition classChecked :: "'w client \<Rightarrow> nat \<Rightarrow> StatusVM \<Rightarrow> (StatusVM, StatusVM \<times> string \<times> string) flow result \<Rightarrow> bool" where
  "classChecked cl i vm r = (case r of
       Ok (Next vm') \<Rightarrow> (\<exists>sc. classFound cl (className vm i) sc \<and> vm' = (if className vm i = Some sc then vm else putClass i sc vm))
     | Ok (Leave (vm', reason, message)) \<Rightarrow> vm' = vm \<and> message \<noteq> [] \<and> classMissing cl (className vm i)
     | _ \<Rightarrow> True)"

lemma useDefaultClass_wp:
  fixes s :: "'w planning"
  assumes "onlyClasses P (r_Plan s)" "atEntry P j vm" "\<not> namesClass (className vm i)"
  shows "wp (useDefaultClass cl j i vm) (\<lambda>r t. onlyClasses P (r_Plan t) \<and> classChecked cl i vm r) s"
  unfolding useDefaultClass_def
proof (rule wp_reader_bind[OF plan_kept.frame_getDefaultStorageClass])
  fix sc and t :: "'w planning"
  assume t: "r_Plan t = r_Plan s" and "getDefaultStorageClass cl s = (Ok sc, t)"
  then have "defaultAnswer cl sc" using getDefaultStorageClass_gives by (blast dest: givesD)
  moreover have "sc \<noteq> [] \<Longrightarrow> className vm i \<noteq> Some sc" using assms(3) by (auto simp: namesClass_def)
  ultimately show "wp (if sc \<noteq> [] then
         bind (onPlanStatus (\<lambda>st. st\<lparr>st_ReadyMigrations := (st_ReadyMigrations st)[j := putClass i sc vm]\<rparr>)) (\<lambda>_.
         ret (Next (putClass i sc vm)))
       else ret (Leave (vm, NotFound, ''no default storage class found'')))
       (\<lambda>r t. onlyClasses P (r_Plan t) \<and> classChecked cl i vm r) t"
    using assms t onlyClasses_put[OF assms(1), of j]
    by (auto simp: wp classChecked_def atEntry_def classFound_def classMissing_def intro: putClass_classed)
qed (simp_all add: assms classChecked_def)

lemma validateStorageClassExists_gives:
  "gives (validateStorageClassExists cl sc) (\<lambda>(reason, message). if message = [] then \<exists>x w w'. c_GetStorageClass cl sc w = (Inr x, w')
     else \<exists>e w w'. c_GetStorageClass cl sc w = (Inl e, w') \<and> IsNotFound e)"
  by (auto simp: gives_def validateStorageClassExists_def run split: prod.splits sum.splits if_splits)

lemma checkClass_wp:
  fixes s :: "'w planning"
  assumes "onlyClasses P (r_Plan s)" "atEntry P j vm" "pv_TargetMigrationPVCs vm ! i = pvc"
  shows "wp (checkClass cl j i pvc vm) (\<lambda>r t. onlyClasses P (r_Plan t) \<and> classChecked cl i vm r) s"
proof (cases "namesClass (className vm i)")
  case False
  then have "checkClass cl j i pvc vm = useDefaultClass cl j i vm"
    using assms(3) by (auto simp: checkClass_def namesClass_def split: option.splits)
  with useDefaultClass_wp[OF assms(1,2) False] show ?thesis by simp
next
  case True
  then obtain sc where sc: "sc \<noteq> []" "className vm i = Some sc" by (auto simp: namesClass_def)
  have "wp (bind (validateStorageClassExists cl sc) (\<lambda>(reason, message).
      if message \<noteq> [] then ret (Leave (vm, reason, message)) else ret (Next vm)))
      (\<lambda>r t. onlyClasses P (r_Plan t) \<and> classChecked cl i vm r) s"
  proof (rule wp_reader_bind[OF plan_kept.frame_validateStorageClassExists])
    fix x and t :: "'w planning"
    assume "validateStorageClassExists cl sc s = (Ok x, t)" and t: "r_Plan t = r_Plan s"
    from givesD[OF validateStorageClassExists_gives this(1)]
    show "wp (case x of (reason, message) \<Rightarrow> if message \<noteq> [] then ret (Leave (vm, reason, message)) else ret (Next vm))
        (\<lambda>r t. onlyClasses P (r_Plan t) \<and> classChecked cl i vm r) t"
      using assms(1) t sc True by (auto simp: wp classChecked_def classFound_def classMissing_def split: prod.splits if_splits)
  qed (use assms(1) in \<open>simp_all add: classChecked_def\<close>)
  then show ?thesis using sc assms(3) by (simp add: checkClass_def)
qed

text \<open>One target, then all targets of one VM.\<close>

lemma settled_step:
  assumes "settled cl ms vm0 i vm" "i < length (pv_TargetMigrationPVCs vm0)"
    "classChecked cl i vm (Ok (Next vm'))" "pvc = pv_TargetMigrationPVCs vm0 ! i"
    "\<And>n. dp_Name (tp_DestinationPVC pvc) = Some n \<Longrightarrow> i < length (sv_SourcePVCs vm0) \<and>
        (ms = notStarted \<longrightarrow> n \<noteq> sp_Name (sv_SourcePVCs vm0 ! i))"
  shows "settled cl ms vm0 (Suc i) vm'"
proof -
  have c: "classed vm0 vm" and T: "pv_TargetMigrationPVCs vm ! i = pvc"
    using assms by (auto simp: settled_def)
  have len: "length (pv_TargetMigrationPVCs vm) = length (pv_TargetMigrationPVCs vm0)" using c by (rule classed_length)
  obtain sc where sc: "classFound cl (className vm0 i) sc"
      "vm' = (if dp_StorageClassName (tp_DestinationPVC pvc) = Some sc then vm else putClass i sc vm)"
    using assms(3,4) T by (auto simp: classChecked_def)
  have c': "classed vm0 vm'" using sc(2) c by (auto intro: putClass_classed)
  have src: "sv_SourcePVCs vm' = sv_SourcePVCs vm0" using c' by (simp add: classed_def)
  have other: "pv_TargetMigrationPVCs vm' ! k = pv_TargetMigrationPVCs vm ! k" if "k \<noteq> i" for k
    using sc(2) that by (simp add: putClass_def)
  have here: "dp_StorageClassName (tp_DestinationPVC (pv_TargetMigrationPVCs vm' ! i)) = Some sc"
      "dp_Name (tp_DestinationPVC (pv_TargetMigrationPVCs vm' ! i)) = dp_Name (tp_DestinationPVC pvc)"
    using sc(2) T len assms(2) by (auto simp: putClass_def classTarget_def)
  have "usableAt cl ms vm0 vm' k" if "k < Suc i" for k
  proof (cases "k = i")
    case True
    with here sc(1) src assms(5) show ?thesis by (auto simp: usableAt_def)
  next
    case False
    with that have "usableAt cl ms vm0 vm k" using assms(1) by (simp add: settled_def)
    then show ?thesis
      using usableAt_cong[OF other[OF False], of cl ms vm0] src c by (simp add: classed_def)
  qed
  moreover have "pv_TargetMigrationPVCs vm' ! k = pv_TargetMigrationPVCs vm0 ! k"
    if "Suc i \<le> k" "k < length (pv_TargetMigrationPVCs vm0)" for k
    using that assms(1) other[of k] by (auto simp: settled_def)
  ultimately show ?thesis using c' by (simp add: settled_def)
qed

text \<open>What the loop over the targets of the entry \<open>vm0\<close> leaves.\<close>

definition targetsChecked ::
  "'w client \<Rightarrow> migrationStatus \<Rightarrow> StatusVM \<Rightarrow> (StatusVM, StatusVM \<times> string \<times> string) flow result \<Rightarrow> bool"
where
  "targetsChecked cl ms vm0 r = (case r of
       Ok (Next vm') \<Rightarrow> classed vm0 vm' \<and> usable cl ms vm0 vm'
     | Ok (Leave (vm', reason, message)) \<Rightarrow> classed vm0 vm' \<and> message \<noteq> [] \<and> faulty cl ms vm0
     | _ \<Rightarrow> True)"

lemma checkTarget_wp:
  assumes "onlyClasses P (r_Plan s)" "atEntry P j vm" "settled cl ms vm0 i vm"
    "i < length (pv_TargetMigrationPVCs vm0)" "pvc = pv_TargetMigrationPVCs vm0 ! i"
  shows "wp (checkTarget cl ms j (i, pvc) vm) (\<lambda>r t. onlyClasses P (r_Plan t) \<and>
     (case r of Ok (Next vm') \<Rightarrow> atEntry P j vm' \<and> settled cl ms vm0 (Suc i) vm' | _ \<Rightarrow> targetsChecked cl ms vm0 r)) s"
proof -
  have c: "classed vm0 vm" using assms(3) by (simp add: settled_def)
  have T: "pv_TargetMigrationPVCs vm ! i = pvc" using assms(3-5) by (auto simp: settled_def)
  have checked: "classed vm0 vm' \<and> atEntry P j vm' \<and> sv_SourcePVCs vm' = sv_SourcePVCs vm0"
    if "classChecked cl i vm (Ok (Next vm'))" for vm'
  proof -
    have v: "\<And>a. classed a vm \<Longrightarrow> classed a vm'"
      using that by (auto simp: classChecked_def intro: putClass_classed split: if_splits)
    with c assms(2) have "classed vm0 vm'" "atEntry P j vm'" by (auto simp: atEntry_def)
    then show ?thesis by (simp add: classed_def)
  qed
  note step = settled_step[OF assms(3,4) _ assms(5)]
  have missing: "classMissing cl (className vm i) \<Longrightarrow> faulty cl ms vm0"
    using assms(4,5) T by (auto simp: faulty_def)
  have conflict: "ms = notStarted \<Longrightarrow> i < length (sv_SourcePVCs vm0) \<Longrightarrow>
      dp_Name (tp_DestinationPVC pvc) = Some (sp_Name (sv_SourcePVCs vm0 ! i)) \<Longrightarrow> faulty cl ms vm0"
    using assms(4,5) unfolding faulty_def by blast
  show ?thesis
    unfolding checkTarget_def prod.case wp_bind
  proof (rule wp_mono[OF checkClass_wp[OF assms(1,2) T]])
    fix r and t :: "'a planning"
    assume *: "onlyClasses P (r_Plan t) \<and> classChecked cl i vm r"
    show "next_wp (\<lambda>v. wp (case v of Leave x \<Rightarrow> ret (Leave x)
       | Next vm' \<Rightarrow>
         (case dp_Name (tp_DestinationPVC pvc) of
            None \<Rightarrow> ret (Next vm')
          | Some n \<Rightarrow>
              bind (liftR (index (sv_SourcePVCs vm') i)) (\<lambda>src.
                if n = sp_Name src \<and> ms = notStarted
                then ret (Leave (vm', Conflict, ''VM '' @ pv_Name vm @ '' has a destination PVC name for volume '' @
                  tp_VolumeName pvc @ '' that is the same as the source PVC name''))
                else ret (Next vm')))) (\<lambda>r t. onlyClasses P (r_Plan t) \<and>
           (case r of Ok (Next vm') \<Rightarrow> atEntry P j vm' \<and> settled cl ms vm0 (Suc i) vm' | _ \<Rightarrow> targetsChecked cl ms vm0 r)))
       (\<lambda>r t. onlyClasses P (r_Plan t) \<and>
         (case r of Ok (Next vm') \<Rightarrow> atEntry P j vm' \<and> settled cl ms vm0 (Suc i) vm' | _ \<Rightarrow> targetsChecked cl ms vm0 r)) r t"
    proof (cases "\<exists>vm'. r = Ok (Next vm')")
      case True
      then obtain vm' where r: "r = Ok (Next vm')" by blast
      with * checked have c': "classed vm0 vm'" "atEntry P j vm'" "sv_SourcePVCs vm' = sv_SourcePVCs vm0" by auto
      with r * show ?thesis
        using step[of vm'] conflict by (cases "dp_Name (tp_DestinationPVC pvc)") (auto simp: wp index_def targetsChecked_def)
    next
      case False
      with * c show ?thesis
        by (auto simp: wp targetsChecked_def classChecked_def intro: missing split: result.splits flow.splits prod.splits)
    qed
  qed
qed

lemma checkTargets_wp:
  assumes "onlyClasses P (r_Plan s)" "atEntry P j vm0"
  shows "wp (loopE (checkTarget cl ms j) (List.enumerate 0 (pv_TargetMigrationPVCs vm0)) vm0)
    (\<lambda>r t. onlyClasses P (r_Plan t) \<and> targetsChecked cl ms vm0 r) s"
proof (rule wp_loopE[where I = "\<lambda>ys vm t. onlyClasses P (r_Plan t) \<and> atEntry P j vm \<and>
    (\<exists>k \<le> length (pv_TargetMigrationPVCs vm0). ys = drop k (List.enumerate 0 (pv_TargetMigrationPVCs vm0)) \<and> settled cl ms vm0 k vm)"])
  show "onlyClasses P (r_Plan s) \<and> atEntry P j vm0 \<and>
    (\<exists>k \<le> length (pv_TargetMigrationPVCs vm0). List.enumerate 0 (pv_TargetMigrationPVCs vm0) =
       drop k (List.enumerate 0 (pv_TargetMigrationPVCs vm0)) \<and> settled cl ms vm0 k vm0)"
    using assms by (auto simp: settled_def intro: exI[of _ 0])
next
  fix x ys vm and t :: "'a planning"
  assume "onlyClasses P (r_Plan t) \<and> atEntry P j vm \<and>
    (\<exists>k \<le> length (pv_TargetMigrationPVCs vm0). x # ys = drop k (List.enumerate 0 (pv_TargetMigrationPVCs vm0)) \<and> settled cl ms vm0 k vm)"
  then obtain k where k: "onlyClasses P (r_Plan t)" "atEntry P j vm" "settled cl ms vm0 k vm"
      "x # ys = drop k (List.enumerate 0 (pv_TargetMigrationPVCs vm0))" by blast
  have lt: "k < length (pv_TargetMigrationPVCs vm0)"
    using k(4) by (metis drop_all length_enumerate list.distinct(1) not_le)
  have x: "x = (k, pv_TargetMigrationPVCs vm0 ! k)" "ys = drop (Suc k) (List.enumerate 0 (pv_TargetMigrationPVCs vm0))"
    using k(4) lt by (simp_all add: Cons_nth_drop_Suc[symmetric] nth_enumerate_eq)
  show "wp (checkTarget cl ms j x vm) (next_wp (\<lambda>v u. case v of
        Next c \<Rightarrow> onlyClasses P (r_Plan u) \<and> atEntry P j c \<and>
          (\<exists>k \<le> length (pv_TargetMigrationPVCs vm0). ys = drop k (List.enumerate 0 (pv_TargetMigrationPVCs vm0)) \<and> settled cl ms vm0 k c)
      | Leave r \<Rightarrow> onlyClasses P (r_Plan u) \<and> targetsChecked cl ms vm0 (Ok (Leave r)))
     (\<lambda>r t. onlyClasses P (r_Plan t) \<and> targetsChecked cl ms vm0 r)) t"
    unfolding x(1)
    by (rule wp_mono[OF checkTarget_wp[OF k(1-3) lt refl]])
      (use lt x(2) in \<open>auto split: result.splits flow.splits intro!: exI[of _ "Suc k"]\<close>)
next
  fix vm and t :: "'a planning"
  assume "onlyClasses P (r_Plan t) \<and> atEntry P j vm \<and>
    (\<exists>k \<le> length (pv_TargetMigrationPVCs vm0). [] = drop k (List.enumerate 0 (pv_TargetMigrationPVCs vm0)) \<and> settled cl ms vm0 k vm)"
  then show "onlyClasses P (r_Plan t) \<and> targetsChecked cl ms vm0 (Ok (Next vm))"
    by (auto simp: targetsChecked_def settled_def usable_def dest: classed_length)
qed

text \<open>
  All the VMs: the verdict splits the entries, in order, into usable and faulty ones.  An entry
  is judged by what became of it and whether it stays ready.
\<close>

definition judged :: "'w client \<Rightarrow> migrationStatus \<Rightarrow> StatusVM \<Rightarrow> StatusVM \<times> bool \<Rightarrow> bool" where
  "judged cl ms vm0 v \<longleftrightarrow> classed vm0 (fst v) \<and> (if snd v then usable cl ms vm0 (fst v) else faulty cl ms vm0)"

definition sortedOut :: "'w client \<Rightarrow> migrationStatus \<Rightarrow> StatusVM list \<Rightarrow> StatusVM list \<Rightarrow> StatusVM list \<Rightarrow> bool" where
  "sortedOut cl ms vms ready invalid \<longleftrightarrow> (\<exists>vs. list_all2 (judged cl ms) vms vs
     \<and> ready = map fst (filter snd vs) \<and> invalid = map fst (filter (\<lambda>v. \<not> snd v) vs))"

lemma sortedOut_snoc:
  assumes "sortedOut cl ms vms ready invalid" "classed vm vm'"
  shows "usable cl ms vm vm' \<Longrightarrow> sortedOut cl ms (vms @ [vm]) (ready @ [vm']) invalid"
    and "faulty cl ms vm \<Longrightarrow> sortedOut cl ms (vms @ [vm]) ready (invalid @ [vm'])"
proof -
  obtain vs where v: "list_all2 (judged cl ms) vms vs" "ready = map fst (filter snd vs)" "invalid = map fst (filter (\<lambda>v. \<not> snd v) vs)"
    using assms(1) by (auto simp: sortedOut_def)
  show "usable cl ms vm vm' \<Longrightarrow> sortedOut cl ms (vms @ [vm]) (ready @ [vm']) invalid"
    unfolding sortedOut_def using v assms(2) by (intro exI[of _ "vs @ [(vm', True)]"]) (simp add: judged_def list_all2_appendI)
  show "faulty cl ms vm \<Longrightarrow> sortedOut cl ms (vms @ [vm]) ready (invalid @ [vm'])"
    unfolding sortedOut_def using v assms(2) by (intro exI[of _ "vs @ [(vm', False)]"]) (simp add: judged_def list_all2_appendI)
qed

lemma sortedOut_classed:
  assumes "sortedOut cl ms vms ready invalid"
  obtains vms' where "list_all2 classed vms vms'" "mset (ready @ invalid) = mset vms'"
proof -
  obtain vs where v: "list_all2 (judged cl ms) vms vs" "ready = map fst (filter snd vs)" "invalid = map fst (filter (\<lambda>v. \<not> snd v) vs)"
    using assms by (auto simp: sortedOut_def)
  have "list_all2 classed vms (map fst vs)"
    using v(1) by (auto simp: list_all2_conv_all_nth judged_def)
  moreover have "mset (ready @ invalid) = mset (map fst vs)"
    unfolding v(2,3) by (induction vs) auto
  ultimately show thesis by (rule that)
qed

lemma sortedOut_ready:
  assumes "sortedOut cl ms vms ready invalid" "vm \<in> set ready"
  shows "\<exists>vm0 \<in> set vms. classed vm0 vm \<and> usable cl ms vm0 vm"
proof -
  obtain vs v where v: "list_all2 (judged cl ms) vms vs" "v \<in> set vs" "snd v" "vm = fst v"
    using assms by (auto simp: sortedOut_def)
  then obtain i where i: "i < length vs" "v = vs ! i" by (auto simp: in_set_conv_nth)
  then have "judged cl ms (vms ! i) v" "vms ! i \<in> set vms" using v(1) by (auto simp: list_all2_conv_all_nth)
  then show ?thesis using v(3,4) by (auto simp: judged_def)
qed

definition verdict :: "'w client \<Rightarrow> migrationStatus \<Rightarrow> StatusVM list \<Rightarrow> pvcVerdict \<Rightarrow> bool" where
  "verdict cl ms vms w \<longleftrightarrow> sortedOut cl ms vms (pw_Ready w) (pw_Invalid w) \<and> (pw_Message w = [] \<longleftrightarrow> pw_Invalid w = [])"

lemma verdict_empty: "verdict cl ms [] \<lparr>pw_Ready = [], pw_Invalid = [], pw_Reason = [], pw_Message = []\<rparr>"
  by (simp add: verdict_def sortedOut_def)

lemma verdict_snoc:
  assumes "verdict cl ms vms w" "classed vm vm'"
  shows "usable cl ms vm vm' \<Longrightarrow> verdict cl ms (vms @ [vm]) (w\<lparr>pw_Ready := pw_Ready w @ [vm']\<rparr>)"
    and "message \<noteq> [] \<Longrightarrow> faulty cl ms vm \<Longrightarrow> verdict cl ms (vms @ [vm])
      (w\<lparr>pw_Invalid := pw_Invalid w @ [vm'], pw_Reason := reason, pw_Message := message\<rparr>)"
  using assms sortedOut_snoc[of cl ms vms "pw_Ready w" "pw_Invalid w"] by (auto simp: verdict_def)

lemma checkVM_wp:
  assumes "onlyClasses P (r_Plan s)" "atEntry P j vm" "verdict cl ms vms w"
  shows "wp (checkVM cl ms (j, vm) w) (next_wp (\<lambda>w' t. onlyClasses P (r_Plan t) \<and> verdict cl ms (vms @ [vm]) w')
     (\<lambda>r t. onlyClasses P (r_Plan t))) s"
  unfolding checkVM_def prod.case wp_bind
  by (rule wp_mono[OF checkTargets_wp[OF assms(1,2)]])
    (use verdict_snoc[OF assms(3)] in \<open>auto simp: targetsChecked_def wp split: result.splits flow.splits prod.splits\<close>)

lemma checkVMs_wp:
  assumes "onlyClasses P (r_Plan s)" "vms = st_ReadyMigrations (pl_Status P)"
  shows "wp (foldE (checkVM cl ms) (List.enumerate 0 vms) \<lparr>pw_Ready = [], pw_Invalid = [], pw_Reason = [], pw_Message = []\<rparr>)
     (next_wp (\<lambda>w t. onlyClasses P (r_Plan t) \<and> verdict cl ms vms w) (\<lambda>r t. onlyClasses P (r_Plan t))) s"
proof (rule wp_foldE[where I = "\<lambda>ys w t. onlyClasses P (r_Plan t) \<and>
    (\<exists>k \<le> length vms. ys = drop k (List.enumerate 0 vms) \<and> verdict cl ms (take k vms) w)"])
  show "onlyClasses P (r_Plan s) \<and> (\<exists>k \<le> length vms. List.enumerate 0 vms = drop k (List.enumerate 0 vms) \<and>
      verdict cl ms (take k vms) \<lparr>pw_Ready = [], pw_Invalid = [], pw_Reason = [], pw_Message = []\<rparr>)"
    using assms(1) verdict_empty[of cl ms] by (auto intro: exI[of _ 0])
next
  fix x ys w and t :: "'a planning"
  assume "onlyClasses P (r_Plan t) \<and> (\<exists>k \<le> length vms. x # ys = drop k (List.enumerate 0 vms) \<and> verdict cl ms (take k vms) w)"
  then obtain k where k: "onlyClasses P (r_Plan t)" "verdict cl ms (take k vms) w" "x # ys = drop k (List.enumerate 0 vms)" by blast
  have lt: "k < length vms" using k(3) by (metis drop_all length_enumerate list.distinct(1) not_le)
  have x: "x = (k, vms ! k)" "ys = drop (Suc k) (List.enumerate 0 vms)"
    using k(3) lt by (simp_all add: Cons_nth_drop_Suc[symmetric] nth_enumerate_eq)
  have "atEntry P k (vms ! k)" by (simp add: atEntry_def assms(2))
  from checkVM_wp[OF k(1) this k(2)]
  show "wp (checkVM cl ms x w) (next_wp (\<lambda>w' u. onlyClasses P (r_Plan u) \<and>
      (\<exists>k \<le> length vms. ys = drop k (List.enumerate 0 vms) \<and> verdict cl ms (take k vms) w'))
      (next_wp (\<lambda>w t. onlyClasses P (r_Plan t) \<and> verdict cl ms vms w) (\<lambda>r t. onlyClasses P (r_Plan t)))) t"
    unfolding x(1)
  proof (rule wp_mono)
    fix r and u :: "'a planning"
    assume "next_wp (\<lambda>w' t. onlyClasses P (r_Plan t) \<and> verdict cl ms (take k vms @ [vms ! k]) w')
      (\<lambda>r t. onlyClasses P (r_Plan t)) r u"
    then show "next_wp (\<lambda>w' u. onlyClasses P (r_Plan u) \<and>
      (\<exists>k \<le> length vms. ys = drop k (List.enumerate 0 vms) \<and> verdict cl ms (take k vms) w'))
      (next_wp (\<lambda>w t. onlyClasses P (r_Plan t) \<and> verdict cl ms vms w) (\<lambda>r t. onlyClasses P (r_Plan t))) r u"
      using lt x(2) by (cases r) (auto simp: take_Suc_conv_app_nth intro!: exI[of _ "Suc k"])
  qed
next
  fix w and t :: "'a planning"
  assume "onlyClasses P (r_Plan t) \<and> (\<exists>k \<le> length vms. [] = drop k (List.enumerate 0 vms) \<and> verdict cl ms (take k vms) w)"
  then show "next_wp (\<lambda>w t. onlyClasses P (r_Plan t) \<and> verdict cl ms vms w) (\<lambda>r t. onlyClasses P (r_Plan t)) (Ok w) t"
    by auto
qed

text \<open>The plan after the claims were checked.\<close>

definition withVerdict :: "pvcVerdict \<Rightarrow> Plan \<Rightarrow> Plan" where
  "withVerdict w p = p\<lparr>pl_Status := (pl_Status p)\<lparr>st_ReadyMigrations := pw_Ready w, st_InvalidMigrations := pw_Invalid w\<rparr>\<rparr>"

lemma withVerdict_onlyClasses: "onlyClasses P q \<Longrightarrow> withVerdict w q = withVerdict w P"
  by (auto simp: onlyClasses_def withVerdict_def)

definition pvcsChecked :: "'w client \<Rightarrow> 'w planning \<Rightarrow> (string \<times> string) result \<Rightarrow> 'w planning \<Rightarrow> bool" where
  "pvcsChecked cl s r t = (case r of
       Ok (reason, message) \<Rightarrow> (\<exists>ms w s'. getMigrationStatus cl (r_Plan s) s = (Ok ms, s')
         \<and> verdict cl ms (st_ReadyMigrations (pl_Status (r_Plan s))) w \<and> message = pw_Message w
         \<and> r_Plan t = withVerdict w (r_Plan s))
     | _ \<Rightarrow> onlyClasses (r_Plan s) (r_Plan t))"

lemma wp_gets_bind: "wp (bind (gets h) k) Q s = wp (k (h s)) Q s"
  by (simp add: wp)

lemma validatePVCs_wp: "wp (validatePVCs cl) (pvcsChecked cl s) s"
  unfolding validatePVCs_def wp_gets_bind
proof (rule wp_reader_bind[OF plan_kept.frame_getMigrationStatus])
  fix ms and t :: "'a planning"
  assume ms: "getMigrationStatus cl (r_Plan s) s = (Ok ms, t)" and t: "r_Plan t = r_Plan s"
  show "wp (bind (foldE (checkVM cl ms) (List.enumerate 0 (st_ReadyMigrations (pl_Status (r_Plan s))))
            \<lparr>pw_Ready = [], pw_Invalid = [], pw_Reason = [], pw_Message = []\<rparr>) (\<lambda>w.
     bind (onPlanStatus (\<lambda>st. st\<lparr>st_ReadyMigrations := pw_Ready w, st_InvalidMigrations := pw_Invalid w\<rparr>)) (\<lambda>_.
     ret (pw_Reason w, pw_Message w)))) (pvcsChecked cl s) t"
    unfolding wp_bind
  proof (rule wp_mono[OF checkVMs_wp[OF _ refl, of "r_Plan s"]])
    show "onlyClasses (r_Plan s) (r_Plan t)" using t by simp
  next
    fix r and u :: "'a planning"
    assume "next_wp (\<lambda>w t. onlyClasses (r_Plan s) (r_Plan t) \<and> verdict cl ms (st_ReadyMigrations (pl_Status (r_Plan s))) w)
      (\<lambda>r t. onlyClasses (r_Plan s) (r_Plan t)) r u"
    then show "next_wp (\<lambda>w. wp (onPlanStatus (\<lambda>st. st\<lparr>st_ReadyMigrations := pw_Ready w, st_InvalidMigrations := pw_Invalid w\<rparr>))
        (next_wp (\<lambda>_. wp (ret (pw_Reason w, pw_Message w)) (pvcsChecked cl s)) (pvcsChecked cl s))) (pvcsChecked cl s) r u"
      using ms withVerdict_onlyClasses[of "r_Plan s" "r_Plan u"]
      by (cases r) (auto simp: wp withVerdict_def pvcsChecked_def)
  qed
qed (simp_all add: pvcsChecked_def)

section \<open>Classifying the VMs\<close>

text \<open>The accumulator of \<open>createStatusVM\<close> once it has got to the targets \<open>rest\<close>.\<close>

definition resolved :: "TargetMigrationPVC list \<Rightarrow> TargetMigrationPVC list \<Rightarrow> SourcePVC list \<times> TargetMigrationPVC list \<Rightarrow> bool" where
  "resolved T rest acc \<longleftrightarrow> map sp_VolumeName (fst acc) @ map tp_VolumeName rest = map tp_VolumeName T
     \<and> map tp_VolumeName (snd acc) @ map tp_VolumeName rest = map tp_VolumeName T
     \<and> (\<forall>tgt \<in> set (snd acc). dp_Name (tp_DestinationPVC tgt) \<noteq> None)"

lemma resolveVolume_gives:
  assumes "resolved T (pvc # rest) acc"
  shows "gives (resolveVolume cl vm plan pvc acc) (\<lambda>v. case v of Next acc' \<Rightarrow> resolved T rest acc' | Leave _ \<Rightarrow> True)"
proof -
  have "resolved T rest (fst acc @ [sourceEntry (tp_VolumeName pvc) c], snd acc @ [nameTarget n pvc])" for c n
    using assms by (auto simp: resolved_def sourceEntry_def nameTarget_def)
  then show ?thesis
    unfolding resolveVolume_def
    by (intro gives_bind[OF gives_any]) (auto split: option.splits intro!: gives_ret gives_bind[OF gives_any])
qed

definition statusEntry :: "PlanVM \<Rightarrow> StatusVM \<Rightarrow> bool" where
  "statusEntry vm x \<longleftrightarrow> pv_Name x = pv_Name vm
     \<and> map sp_VolumeName (sv_SourcePVCs x) = map tp_VolumeName (pv_TargetMigrationPVCs vm)
     \<and> map tp_VolumeName (pv_TargetMigrationPVCs x) = map tp_VolumeName (pv_TargetMigrationPVCs vm)
     \<and> (\<forall>tgt \<in> set (pv_TargetMigrationPVCs x). dp_Name (tp_DestinationPVC tgt) \<noteq> None)"

lemma createStatusVM_gives: "gives (createStatusVM cl vm plan) (\<lambda>x. x = emptyStatusVM \<or> statusEntry vm x)"
  unfolding createStatusVM_def
proof (rule gives_bind[OF gives_any], rule gives_bind)
  fix v
  have start: "resolved (pv_TargetMigrationPVCs vm) (pv_TargetMigrationPVCs vm) ([], [])" by (simp add: resolved_def)
  show "gives (loopE (resolveVolume cl v plan) (pv_TargetMigrationPVCs vm) ([], []))
      (\<lambda>f. case f of Next acc \<Rightarrow> resolved (pv_TargetMigrationPVCs vm) [] acc | Leave _ \<Rightarrow> True)"
    by (rule gives_loopE[where I = "resolved (pv_TargetMigrationPVCs vm)"]) (rule start, rule resolveVolume_gives)
next
  fix f :: "(SourcePVC list \<times> TargetMigrationPVC list, unit) flow"
  assume "case f of Next acc \<Rightarrow> resolved (pv_TargetMigrationPVCs vm) [] acc | Leave _ \<Rightarrow> True"
  then show "gives (case f of
       Next acc \<Rightarrow> ret \<lparr>pv_Name = pv_Name vm, pv_TargetMigrationPVCs = snd acc, sv_SourcePVCs = fst acc\<rparr>
     | Leave _ \<Rightarrow> ret emptyStatusVM) (\<lambda>x. x = emptyStatusVM \<or> statusEntry vm x)"
    by (cases f) (auto simp: resolved_def statusEntry_def intro!: gives_ret)
qed

section \<open>Recorded sources\<close>

text \<open>Every claim of the new entry is a recorded claim of the same volume, and none is missing.\<close>

definition sameClaims :: "StatusVM \<Rightarrow> StatusVM \<Rightarrow> bool" where
  "sameClaims e vm \<longleftrightarrow> length (sv_SourcePVCs vm) = length (sv_SourcePVCs e)
     \<and> (\<lambda>s. (sp_VolumeName s, sp_Name s)) ` set (sv_SourcePVCs vm) \<subseteq> (\<lambda>s. (sp_VolumeName s, sp_Name s)) ` set (sv_SourcePVCs e)"

lemma sameClaims_eq: "sv_SourcePVCs vm = sv_SourcePVCs e \<Longrightarrow> sameClaims e vm"
  by (simp add: sameClaims_def)

lemma not_swapped_claims:
  assumes "\<not> hasVMBeenSwapped (sv_SourcePVCs e) (sv_SourcePVCs vm)"
  shows "sameClaims e vm"
proof -
  have len: "length (sv_SourcePVCs e) = length (sv_SourcePVCs vm)"
    and all: "\<And>src. src \<in> set (sv_SourcePVCs vm) \<Longrightarrow>
      foldl (\<lambda>m src. m(sp_VolumeName src \<mapsto> sp_Name src)) Map.empty (sv_SourcePVCs e) (sp_VolumeName src) = Some (sp_Name src)"
    using assms by (auto simp: hasVMBeenSwapped_def Let_def list_ex_iff split: if_splits)
  have "(sp_VolumeName src, sp_Name src) \<in> (\<lambda>s. (sp_VolumeName s, sp_Name s)) ` set (sv_SourcePVCs e)"
    if src: "src \<in> set (sv_SourcePVCs vm)" for src
  proof -
    obtain p where "p \<in> set (sv_SourcePVCs e)" "sp_VolumeName p = sp_VolumeName src" "sp_Name p = sp_Name src"
      using foldl_upd_SomeD[OF all[OF src]] by blast
    then show ?thesis by (intro image_eqI[of _ _ p]) simp_all
  qed
  then show ?thesis using len by (auto simp: sameClaims_def)
qed

lemma keepUncorrupted_fields [simp]:
  "pv_Name (keepUncorrupted ex sv) = pv_Name sv"
  "pv_TargetMigrationPVCs (keepUncorrupted ex sv) = pv_TargetMigrationPVCs sv"
  by (simp_all add: keepUncorrupted_def split: option.splits)

lemma keepSwapped_fields [simp]:
  "pv_Name (keepSwapped ex sv) = pv_Name sv"
  "pv_TargetMigrationPVCs (keepSwapped ex sv) = pv_TargetMigrationPVCs sv"
  by (simp_all add: keepSwapped_def split: option.splits)

lemma keepSwapped_claims: "sv_SourcePVCs e \<noteq> [] \<Longrightarrow> sameClaims e (keepSwapped (Some e) sv)"
  using not_swapped_claims[of e sv] by (auto simp: keepSwapped_def hasSources_def intro: sameClaims_eq)

lemma keepUncorrupted_claims: "sameClaims e sv \<Longrightarrow> sameClaims e (keepUncorrupted (Some e) sv)"
  by (auto simp: keepUncorrupted_def intro: sameClaims_eq)

lemma mergeExisting_keeps:
  assumes "mergeExisting (Some e) sv = Some r" "sv_SourcePVCs e \<noteq> []"
  shows "sameClaims e r"
  using assms by (auto simp: mergeExisting_def intro!: keepUncorrupted_claims keepSwapped_claims split: if_splits)

lemma mergeExisting_name:
  assumes "mergeExisting ex sv = Some r" "sv = emptyStatusVM \<or> pv_Name sv = n" "\<And>e. ex = Some e \<Longrightarrow> pv_Name e = n"
  shows "pv_Name r = n"
proof (cases "sv_SourcePVCs sv = []")
  case True
  then show ?thesis using assms(1,3) by (auto simp: mergeExisting_def split: if_splits)
next
  case False
  then have "pv_Name sv = n" using assms(2) by (auto simp: emptyStatusVM_def)
  then show ?thesis using assms(1) False by (auto simp: mergeExisting_def)
qed

lemma existing_name: "getExistingStatusVMMap plan n = Some e \<Longrightarrow> pv_Name e = n \<and> e \<in> set (existingEntries (pl_Status plan))"
  by (auto simp: getExistingStatusVMMap_def dest!: foldl_upd_SomeD)

definition keptSources :: "(string \<rightharpoonup> StatusVM) \<Rightarrow> StatusVM \<Rightarrow> bool" where
  "keptSources existing vm \<longleftrightarrow> (\<forall>e. existing (pv_Name vm) = Some e \<and> sv_SourcePVCs e \<noteq> [] \<longrightarrow> sameClaims e vm)"

section \<open>Invariants of the entries\<close>

abbreviation entries :: "'w planning \<Rightarrow> StatusVM list" where
  "entries s \<equiv> existingEntries (pl_Status (r_Plan s))"

lemma onlyConditions_entries: "onlyConditions p q \<Longrightarrow> existingEntries (pl_Status q) = existingEntries (pl_Status p)"
  by (auto simp: onlyConditions_def existingEntries_def)

lemma validate_recomputes:
  fixes s :: "'w planning"
  assumes "fst (getMigrationStatus cl (r_Plan s) s) \<noteq> Ok completed"
  obtains ms s' u where "getMigrationStatus cl (r_Plan s) s = (Ok ms, s')" "ms \<noteq> completed"
    "validateStorageMigrationPossible cl s =
      recompute cl (getExistingStatusVMMap (r_Plan s)) ms (spec_VirtualMachines (pl_Spec (r_Plan s))) u"
    "u = s'\<lparr>r_Plan := (r_Plan s)\<lparr>pl_Status := clearLists (pl_Status (r_Plan s))\<rparr>\<rparr>" "entries u = []"
proof -
  obtain q s' where q: "getMigrationStatus cl (r_Plan s) s = (q, s')" by fastforce
  have plan: "r_Plan s' = r_Plan s" using plan_kept.frame_getMigrationStatus q by (rule frameD)
  obtain ms where ms: "q = Ok ms"
    using q by (auto simp: getMigrationStatus_def run split: prod.splits sum.splits)
  then have *: "ms \<noteq> completed" using q assms by simp
  let ?u = "s'\<lparr>r_Plan := (r_Plan s)\<lparr>pl_Status := clearLists (pl_Status (r_Plan s))\<rparr>\<rparr>"
  have run: "validateStorageMigrationPossible cl s =
      recompute cl (getExistingStatusVMMap (r_Plan s)) ms (spec_VirtualMachines (pl_Spec (r_Plan s))) ?u"
    unfolding validateStorageMigrationPossible_def bind_gets
    using * by (simp add: run_bind[of "getMigrationStatus cl (r_Plan s)"] q ms bind_onPlanStatus plan)
  have "entries ?u = []" by (simp add: clearLists_def existingEntries_def)
  then show thesis by (rule that[OF q[unfolded ms] * run refl])
qed

text \<open>
  A property of single entries that storage classes do not matter for and that every entry
  recorded by the loop has.  All entries have it after the validation, whether it succeeds,
  fails or panics.
\<close>

locale entry_invariant =
  fixes existing :: "string \<rightharpoonup> StatusVM" and spec :: "PlanVM list" and G :: "StatusVM \<Rightarrow> bool"
  assumes blind: "classed a b \<Longrightarrow> G a \<Longrightarrow> G b"
    and merged: "vm \<in> set spec \<Longrightarrow> sv = emptyStatusVM \<or> statusEntry vm sv \<Longrightarrow>
      mergeExisting (existing (pv_Name vm)) sv = Some r \<Longrightarrow> G r"
begin

abbreviation holds :: "'w planning \<Rightarrow> 'w planning \<Rightarrow> bool" where
  "holds s t \<equiv> (\<forall>vm \<in> set (entries s). G vm) \<longrightarrow> (\<forall>vm \<in> set (entries t). G vm)"

lemma preorder_holds: "preorder_rel holds"
  by (rule preorder_inv)

lemma reader: "frame (\<lambda>s t. r_Plan t = r_Plan s) m \<Longrightarrow> frame holds m"
  by (erule frame_weaken) simp

lemma conditions: "frame (\<lambda>s t. onlyConditions (r_Plan s) (r_Plan t)) m \<Longrightarrow> frame holds m"
  by (erule frame_weaken) (simp add: onlyConditions_entries)

lemma recorded: "G sv \<Longrightarrow> frame holds (onPlanStatus (recordVM ms sv))"
  by (auto simp: frame_def onPlanStatus_def run recordVM_def existingEntries_def split: migrationStatus.splits)

lemma classifyVM_holds:
  assumes "vm \<in> set spec"
  shows "frame holds (classifyVM cl existing ms vm u)"
  unfolding classifyVM_def
proof (rule frame_bind[OF preorder_holds frame_gets[OF preorder_holds]],
    rule frame_bind[OF preorder_holds reader[OF plan_kept.frame_ValidatePossible]],
    intro frame_case_prod frame_if conditions[OF lists_kept.frame_setCond]
      frame_bind_result[OF preorder_holds reader[OF plan_kept.frame_createStatusVM]])
  fix plan s sv t
  assume "createStatusVM cl vm plan s = (Ok sv, t :: 'a planning)"
  with createStatusVM_gives have "sv = emptyStatusVM \<or> statusEntry vm sv" by (rule givesD)
  then show "frame holds (case mergeExisting (existing (pv_Name vm)) sv of
      None \<Rightarrow> ret () | Some r \<Rightarrow> onPlanStatus (recordVM ms r))"
    using merged[OF assms] by (intro frame_case_option frame_ret preorder_holds recorded) blast
qed

lemma pvcs_hold: "frame holds (validatePVCs cl)"
proof (rule frameI)
  fix s r t
  assume "validatePVCs cl s = (r, t :: 'a planning)"
  with validatePVCs_wp have checked: "pvcsChecked cl s r t" by (rule wp_run)
  have carry: "\<forall>vm \<in> set vms'. G vm" if "list_all2 classed vms vms'" "\<forall>vm \<in> set vms. G vm" for vms vms'
    using that by (induction rule: list_all2_induct) (auto intro: blind)
  show "holds s t"
  proof (cases r)
    case (Ok x)
    then obtain ms w where w: "verdict cl ms (st_ReadyMigrations (pl_Status (r_Plan s))) w" "r_Plan t = withVerdict w (r_Plan s)"
      using checked by (auto simp: pvcsChecked_def split: prod.splits)
    then obtain vms' where v: "list_all2 classed (st_ReadyMigrations (pl_Status (r_Plan s))) vms'"
        "mset (pw_Ready w @ pw_Invalid w) = mset vms'"
      by (auto simp: verdict_def elim: sortedOut_classed)
    have "set (pw_Ready w) \<union> set (pw_Invalid w) = set vms'" using v(2) by (metis set_append set_mset_mset)
    with carry[OF v(1)] w(2) show ?thesis by (auto simp: withVerdict_def existingEntries_def)
  qed (use checked carry in \<open>fastforce simp: pvcsChecked_def onlyClasses_def existingEntries_def\<close>)+
qed

lemma recompute_holds: "frame holds (recompute cl existing ms spec)"
  unfolding recompute_def
  by (intro frame_bind frame_foldE frame_case_prod frame_if preorder_holds classifyVM_holds pvcs_hold
      conditions[OF lists_kept.frame_setCond] conditions[OF lists_kept.frame_delCond] conditions[OF lists_kept.frame_summarize])

lemma validate_holds:
  assumes "existing = getExistingStatusVMMap (r_Plan s)" "spec = spec_VirtualMachines (pl_Spec (r_Plan s))"
    "validateStorageMigrationPossible cl s = (r, t)" "fst (getMigrationStatus cl (r_Plan s) s) \<noteq> Ok completed"
  shows "\<forall>vm \<in> set (entries t). G vm"
proof -
  obtain ms s' u where u: "validateStorageMigrationPossible cl s =
      recompute cl (getExistingStatusVMMap (r_Plan s)) ms (spec_VirtualMachines (pl_Spec (r_Plan s))) u" "entries u = []"
    by (rule validate_recomputes[OF assms(4)]) simp
  have "recompute cl existing ms spec u = (r, t)" using u(1) assms(1-3) by simp
  with recompute_holds have "holds u t" by (rule frameD)
  then show ?thesis using u(2) by simp
qed

end

text \<open>Recorded sources are kept.\<close>

interpretation kept: entry_invariant "getExistingStatusVMMap p" vms "keptSources (getExistingStatusVMMap p)"
proof unfold_locales
  show "classed a b \<Longrightarrow> keptSources (getExistingStatusVMMap p) a \<Longrightarrow> keptSources (getExistingStatusVMMap p) b" for a b
    by (simp add: classed_def keptSources_def sameClaims_def)
next
  fix vm sv r
  assume sv: "sv = emptyStatusVM \<or> statusEntry vm sv"
    and r: "mergeExisting (getExistingStatusVMMap p (pv_Name vm)) sv = Some r"
  have "pv_Name r = pv_Name vm"
    using r sv existing_name by (intro mergeExisting_name[OF r]) (auto simp: statusEntry_def)
  then show "keptSources (getExistingStatusVMMap p) r"
    using r by (auto simp: keptSources_def intro: mergeExisting_keeps)
qed

text \<open>
  The entries fit the spec: sources and targets cover the volumes of a VM of the spec in the
  same order, and every target has a name.
\<close>

definition fitting :: "Plan \<Rightarrow> bool" where
  "fitting p \<longleftrightarrow> distinct (map pv_Name (spec_VirtualMachines (pl_Spec p)))
     \<and> (\<forall>e \<in> set (existingEntries (pl_Status p)). \<exists>vm \<in> set (spec_VirtualMachines (pl_Spec p)). statusEntry vm e)"

lemma statusEntry_sources:
  "statusEntry vm a \<Longrightarrow> statusEntry vm b \<Longrightarrow> statusEntry vm (a\<lparr>sv_SourcePVCs := sv_SourcePVCs b\<rparr>)"
  by (simp add: statusEntry_def)

lemma mergeExisting_statusEntry:
  assumes "mergeExisting ex sv = Some r" "sv = emptyStatusVM \<or> statusEntry vm sv" "\<And>e. ex = Some e \<Longrightarrow> statusEntry vm e"
  shows "statusEntry vm r"
proof -
  have keep: "statusEntry vm (keepUncorrupted ex (keepSwapped ex x))" if "statusEntry vm x" for x
    using that assms(3)
    by (auto simp: keepUncorrupted_def keepSwapped_def split: option.splits intro!: statusEntry_sources)
  obtain x where x: "r = keepUncorrupted ex (keepSwapped ex x)" "sv_SourcePVCs sv = [] \<and> ex = Some x \<or> sv_SourcePVCs sv \<noteq> [] \<and> x = sv"
    using assms(1) by (auto simp: mergeExisting_def split: if_splits)
  have "statusEntry vm x" using x(2) assms(2,3) by (auto simp: emptyStatusVM_def)
  then show ?thesis using keep x(1) by simp
qed

interpretation fits: entry_invariant "getExistingStatusVMMap p" "spec_VirtualMachines (pl_Spec p)"
  "\<lambda>e. fitting p \<longrightarrow> (\<exists>vm \<in> set (spec_VirtualMachines (pl_Spec p)). statusEntry vm e)"
proof unfold_locales
  have "statusEntry vm a \<Longrightarrow> classed a b \<Longrightarrow> statusEntry vm b" for vm a b
  proof -
    assume a: "statusEntry vm a" "classed a b"
    have "list_all2 sameTarget (pv_TargetMigrationPVCs a) (pv_TargetMigrationPVCs b)" using a(2) by (simp add: classed_def)
    then have "map tp_VolumeName (pv_TargetMigrationPVCs b) = map tp_VolumeName (pv_TargetMigrationPVCs a)
       \<and> ((\<forall>tgt \<in> set (pv_TargetMigrationPVCs a). dp_Name (tp_DestinationPVC tgt) \<noteq> None) \<longrightarrow>
          (\<forall>tgt \<in> set (pv_TargetMigrationPVCs b). dp_Name (tp_DestinationPVC tgt) \<noteq> None))"
      by (induction rule: list_all2_induct) (auto simp: sameTarget_def)
    then show "statusEntry vm b" using a by (simp add: statusEntry_def classed_def)
  qed
  then show "classed a b \<Longrightarrow> fitting p \<longrightarrow> (\<exists>vm \<in> set (spec_VirtualMachines (pl_Spec p)). statusEntry vm a) \<Longrightarrow>
    fitting p \<longrightarrow> (\<exists>vm \<in> set (spec_VirtualMachines (pl_Spec p)). statusEntry vm b)" for a b
    by blast
next
  fix vm sv r
  assume vm: "vm \<in> set (spec_VirtualMachines (pl_Spec p))" and sv: "sv = emptyStatusVM \<or> statusEntry vm sv"
    and r: "mergeExisting (getExistingStatusVMMap p (pv_Name vm)) sv = Some r"
  have ex: "statusEntry vm e" if fit: "fitting p" and e: "getExistingStatusVMMap p (pv_Name vm) = Some e" for e
  proof -
    obtain vm' where v: "vm' \<in> set (spec_VirtualMachines (pl_Spec p))" "statusEntry vm' e"
      using existing_name[OF e] fit by (auto simp: fitting_def)
    have "pv_Name vm' = pv_Name vm" using v(2) existing_name[OF e] by (simp add: statusEntry_def)
    then have "vm' = vm" using v(1) vm fit by (auto simp: fitting_def distinct_map inj_on_def)
    then show ?thesis using v(2) by simp
  qed
  show "fitting p \<longrightarrow> (\<exists>vm \<in> set (spec_VirtualMachines (pl_Spec p)). statusEntry vm r)"
    using mergeExisting_statusEntry[OF r sv ex] vm by blast
qed

section \<open>Counting the entries\<close>




lemma list_all2_names: "list_all2 classed vms vms' \<Longrightarrow> map pv_Name vms' = map pv_Name vms"
  by (induction rule: list_all2_induct) (auto simp: classed_def)




section \<open>VMs that keep an entry\<close>

text \<open>
  The VMs that a validation passes over: the API server said that the VM is not there, or showed
  a running VM that is not ready or has a condition that rules a storage migration out.
\<close>

definition turnedAway :: "'w client \<Rightarrow> string \<Rightarrow> string \<Rightarrow> bool" where
  "turnedAway cl ns n \<longleftrightarrow> (\<exists>e w w'. c_GetVM cl ns n w = (Inl e, w') \<and> IsNotFound e)
     \<or> (\<exists>vm w w'. c_GetVM cl ns n w = (Inr vm, w') \<and> (\<not> vm_Ready vm \<or> list_ex blockingVMCondition (vm_Conditions vm)))
       \<and> (\<exists>vmi w w'. c_GetVMI cl ns n w = (Inr vmi, w') \<and> VMI_IsRunning vmi)"

lemma possible_gives:
  "gives (ValidateStorageMigrationPossibleForVM cl n ns) (\<lambda>(reason, message). message \<noteq> [] \<or> reason \<noteq> [] \<longrightarrow> turnedAway cl ns n)"
proof -
  have got: "gives (attempt (query (c_GetVM cl ns n))) (\<lambda>r. \<exists>w w'. c_GetVM cl ns n w = (r, w'))"
    by (auto simp: gives_def run split: prod.splits sum.splits)
  have running: "gives (IsVMRunning cl n ns) (\<lambda>b. b \<longrightarrow> (\<exists>vmi v v'. c_GetVMI cl ns n v = (Inr vmi, v') \<and> VMI_IsRunning vmi))"
    by (auto simp: gives_def IsVMRunning_def run split: prod.splits sum.splits if_splits)
  have blocked: "find blockingVMCondition cs = Some c \<Longrightarrow> list_ex blockingVMCondition cs" for cs c
    by (auto simp: find_Some_iff list_ex_length)
  have vm: "gives (bind (IsVMRunning cl n ns) (\<lambda>running.
           if \<not> running then ret ([], [])
           else if \<not> vm_Ready vm then ret (NotReady, ''virtual machine is not ready'')
           else (case find blockingVMCondition (vm_Conditions vm) of
               Some c \<Rightarrow> ret (vc_Reason c, vc_Message c)
             | None \<Rightarrow> ret ([], [])))) (\<lambda>(reason, message). message \<noteq> [] \<or> reason \<noteq> [] \<longrightarrow> turnedAway cl ns n)"
    if "c_GetVM cl ns n w = (Inr vm, w')" for vm w w'
  proof (rule gives_bind[OF running])
    fix b
    assume b: "b \<longrightarrow> (\<exists>vmi v v'. c_GetVMI cl ns n v = (Inr vmi, v') \<and> VMI_IsRunning vmi)"
    have "turnedAway cl ns n" if "b" "\<not> vm_Ready vm \<or> list_ex blockingVMCondition (vm_Conditions vm)"
      using b that \<open>c_GetVM cl ns n w = (Inr vm, w')\<close> unfolding turnedAway_def by blast
    then show "gives (if \<not> b then ret ([], [])
       else if \<not> vm_Ready vm then ret (NotReady, ''virtual machine is not ready'')
       else (case find blockingVMCondition (vm_Conditions vm) of
           Some c \<Rightarrow> ret (vc_Reason c, vc_Message c)
         | None \<Rightarrow> ret ([], []))) (\<lambda>(reason, message). message \<noteq> [] \<or> reason \<noteq> [] \<longrightarrow> turnedAway cl ns n)"
      using blocked[of "vm_Conditions vm"]
      by (cases "find blockingVMCondition (vm_Conditions vm)") (simp_all add: gives_def run)
  qed
  have missing: "turnedAway cl ns n" if "c_GetVM cl ns n w = (Inl e, w')" "IsNotFound e" for e w w'
    using that unfolding turnedAway_def by blast
  show ?thesis
    unfolding ValidateStorageMigrationPossibleForVM_def
  proof (rule gives_bind[OF got], split sum.split, intro conjI allI impI)
    fix r e
    assume "\<exists>w w'. c_GetVM cl ns n w = (r, w')" "r = Inl e"
    then show "gives (if IsNotFound e then ret (NotFound, ''virtual machine not found'') else throw e)
        (\<lambda>(reason, message). message \<noteq> [] \<or> reason \<noteq> [] \<longrightarrow> turnedAway cl ns n)"
      using missing by (simp add: gives_def run) blast
  qed (elim exE, rule vm, simp)
qed

text \<open>The VM has an entry, or had none with sources, or was passed over.\<close>

definition accounted :: "'w client \<Rightarrow> (string \<rightharpoonup> StatusVM) \<Rightarrow> Plan \<Rightarrow> PlanVM \<Rightarrow> bool" where
  "accounted cl existing p vm \<longleftrightarrow> hasSources (existing (pv_Name vm)) \<longrightarrow>
     pv_Name vm \<in> pv_Name ` set (existingEntries (pl_Status p)) \<or> turnedAway cl (om_Namespace (pl_Meta p)) (pv_Name vm)"

definition growing :: "Plan \<Rightarrow> Plan \<Rightarrow> bool" where
  "growing p q \<longleftrightarrow> pl_Meta q = pl_Meta p \<and> st_InvalidMigrations (pl_Status q) = st_InvalidMigrations (pl_Status p)
     \<and> pv_Name ` set (existingEntries (pl_Status p)) \<subseteq> pv_Name ` set (existingEntries (pl_Status q))"

lemma growing_accounted: "growing p q \<Longrightarrow> accounted cl existing p vm \<Longrightarrow> accounted cl existing q vm"
  by (auto simp: growing_def accounted_def)

lemma growing_conditions: "onlyConditions p q \<Longrightarrow> growing p q"
  by (auto simp: growing_def onlyConditions_def existingEntries_def)

lemma classifyVM_covers:
  fixes s :: "'w planning"
  assumes "\<And>e. existing (pv_Name vm) = Some e \<Longrightarrow> pv_Name e = pv_Name vm"
  shows "wp (classifyVM cl existing ms vm u) (\<lambda>r t. growing (r_Plan s) (r_Plan t) \<and> (r = Ok () \<longrightarrow> accounted cl existing (r_Plan t) vm)) s"
  unfolding classifyVM_def wp_gets_bind
proof (rule wp_reader_bind[OF plan_kept.frame_ValidatePossible], goal_cases)
  case (1 x t)
  let ?Q = "\<lambda>r t. growing (r_Plan s) (r_Plan t) \<and> (r = Ok () \<longrightarrow> accounted cl existing (r_Plan t) vm)"
  obtain reason message where x: "x = (reason, message)" by (cases x)
  have cond: "wp (setCond cl c) ?Q t" if "message \<noteq> [] \<or> reason \<noteq> []" for c
  proof (rule wp_mono[OF frame_wp[OF lists_kept.frame_setCond]])
    fix r and v :: "'w planning"
    assume "onlyConditions (r_Plan t) (r_Plan v)"
    then have g: "growing (r_Plan s) (r_Plan v)" using 1(2) growing_conditions by simp
    have "turnedAway cl (om_Namespace (pl_Meta (r_Plan s))) (pv_Name vm)"
      using givesD[OF possible_gives 1(1)] that x by simp
    with g show "?Q r v" by (simp add: accounted_def growing_def)
  qed
  have entry: "wp (bind (createStatusVM cl vm (r_Plan s)) (\<lambda>statusVM. case mergeExisting (existing (pv_Name vm)) statusVM of
      None \<Rightarrow> ret () | Some sv \<Rightarrow> onPlanStatus (recordVM ms sv))) ?Q t"
  proof (rule wp_reader_bind[OF plan_kept.frame_createStatusVM], goal_cases)
    case sub: (1 sv t')
    have "sv = emptyStatusVM \<or> pv_Name sv = pv_Name vm"
      using givesD[OF createStatusVM_gives sub(1)] by (auto simp: statusEntry_def)
    then have name: "mergeExisting (existing (pv_Name vm)) sv = Some r \<Longrightarrow> pv_Name r = pv_Name vm" for r
      using mergeExisting_name[of "existing (pv_Name vm)" sv r "pv_Name vm"] assms by auto
    have none: "mergeExisting (existing (pv_Name vm)) sv = None \<Longrightarrow> \<not> hasSources (existing (pv_Name vm))"
      by (auto simp: mergeExisting_def hasSources_def split: if_splits option.splits)
    show ?case
      using sub(2) 1(2) name none
      by (auto simp: wp growing_def accounted_def recordVM_def existingEntries_def split: option.splits migrationStatus.splits)
  qed (use 1 in \<open>simp_all add: growing_def\<close>)
  show ?case using cond entry x by (simp add: wp_if)
qed (simp_all add: growing_def)

text \<open>The loop covers all VMs and leaves the list of invalid ones empty.\<close>

definition allCovered :: "'w client \<Rightarrow> (string \<rightharpoonup> StatusVM) \<Rightarrow> PlanVM list \<Rightarrow> PlanVM list \<Rightarrow> Plan \<Rightarrow> bool" where
  "allCovered cl existing vms ys p \<longleftrightarrow> st_InvalidMigrations (pl_Status p) = []
     \<and> (\<forall>vm \<in> set vms. vm \<in> set ys \<or> accounted cl existing p vm)"

lemma classifyVMs_cover:
  fixes s :: "'w planning"
  assumes "\<And>n e. existing n = Some e \<Longrightarrow> pv_Name e = n" "st_InvalidMigrations (pl_Status (r_Plan s)) = []"
  shows "wp (foldE (classifyVM cl existing ms) vms ()) (\<lambda>r t. r = Ok () \<longrightarrow> allCovered cl existing vms [] (r_Plan t)) s"
proof (rule wp_foldE[where I = "\<lambda>ys _ t. allCovered cl existing vms ys (r_Plan t)"])
  fix vm ys b and t :: "'w planning"
  assume I: "allCovered cl existing vms (vm # ys) (r_Plan t)"
  show "wp (classifyVM cl existing ms vm b) (next_wp (\<lambda>c u. allCovered cl existing vms ys (r_Plan u))
    (\<lambda>r t. r = Ok () \<longrightarrow> allCovered cl existing vms [] (r_Plan t))) t"
  proof (rule wp_mono[OF classifyVM_covers[OF assms(1)]])
    fix r :: "unit result" and u :: "'w planning"
    assume *: "growing (r_Plan t) (r_Plan u) \<and> (r = Ok () \<longrightarrow> accounted cl existing (r_Plan u) vm)"
    then have "v \<in> set ys \<or> accounted cl existing (r_Plan u) v" if "r = Ok ()" "v \<in> set vms" for v
      using I that growing_accounted[of "r_Plan t" "r_Plan u" cl existing v] by (auto simp: allCovered_def)
    with * I show "next_wp (\<lambda>c u. allCovered cl existing vms ys (r_Plan u))
      (\<lambda>r t. r = Ok () \<longrightarrow> allCovered cl existing vms [] (r_Plan t)) r u"
      by (cases r) (auto simp: allCovered_def growing_def)
  qed
qed (use assms(2) in \<open>auto simp: allCovered_def\<close>)

lemma validatePVCs_covers:
  fixes s :: "'w planning"
  assumes "st_InvalidMigrations (pl_Status (r_Plan s)) = []" "validatePVCs cl s = (Ok x, t)" "accounted cl existing (r_Plan s) vm"
  shows "accounted cl existing (r_Plan t) vm"
proof -
  obtain ms w vms' where w: "r_Plan t = withVerdict w (r_Plan s)"
      "list_all2 classed (st_ReadyMigrations (pl_Status (r_Plan s))) vms'" "mset (pw_Ready w @ pw_Invalid w) = mset vms'"
    using wp_run[OF validatePVCs_wp assms(2)] by (auto simp: pvcsChecked_def verdict_def split: prod.splits elim: sortedOut_classed)
  have "set (pw_Ready w) \<union> set (pw_Invalid w) = set vms'" using w(3) by (metis set_append set_mset_mset)
  then have "pv_Name ` (set (pw_Ready w) \<union> set (pw_Invalid w)) = pv_Name ` set (st_ReadyMigrations (pl_Status (r_Plan s)))"
    using list_all2_names[OF w(2)] by (metis list.set_map)
  then show ?thesis using w(1) assms(1,3) by (auto simp: accounted_def withVerdict_def existingEntries_def image_Un)
qed

lemma recompute_covers:
  fixes s :: "'w planning"
  assumes "\<And>n e. existing n = Some e \<Longrightarrow> pv_Name e = n" "st_InvalidMigrations (pl_Status (r_Plan s)) = []"
    "recompute cl existing ms vms s = (Ok (), t)" "vm \<in> set vms"
  shows "accounted cl existing (r_Plan t) vm"
proof -
  obtain u v reason message where loop: "foldE (classifyVM cl existing ms) vms () s = (Ok (), u)"
    and pvcs: "validatePVCs cl u = (Ok (reason, message), v)"
    and rest: "(if message \<noteq> [] then setCond cl (mkCondition InvalidPVCsType ConditionTrue reason Critical message)
      else bind (delCond InvalidPVCsType) (\<lambda>_. summarize cl)) v = (Ok (), t)"
    using assms(3) by (auto simp: recompute_def run_bind split: prod.splits result.splits)
  have u: "allCovered cl existing vms [] (r_Plan u)" using wp_run[OF classifyVMs_cover[OF assms(1,2)] loop] by simp
  then have "accounted cl existing (r_Plan v) vm"
    using assms(4) by (auto simp: allCovered_def intro: validatePVCs_covers[OF _ pvcs])
  moreover have conds: "frame (\<lambda>s t. onlyConditions (r_Plan s) (r_Plan t))
      (if message \<noteq> [] then setCond cl (mkCondition InvalidPVCsType ConditionTrue reason Critical message)
      else bind (delCond InvalidPVCsType) (\<lambda>_. summarize cl))"
    by (intro frame_if frame_bind lists_kept.preorder lists_kept.frame_setCond lists_kept.frame_delCond lists_kept.frame_summarize)
  ultimately show ?thesis using frameD[OF conds rest] by (blast intro: growing_accounted growing_conditions)
qed

lemma reverted_entry_paired: "entry_paired p \<Longrightarrow> entry_paired (reverted p)"
  by (auto simp: entry_paired_def reverted_def list_all2_conv_all_nth paired_def)

section \<open>Properties\<close>

text \<open>
  C4. Source claims, once recorded, survive a validation of a plan that is not completed.  Every
  entry there is afterwards, whatever the API server answers and however the validation ends, has
  the sources that were recorded before for the VM, if any were: as many, each of them a source
  recorded for the same volume.  And a validation that succeeds drops no VM of the spec whose
  sources were recorded, unless the API server said that the VM is not there, or showed it running
  and not ready or with a condition that rules a storage migration out.  (A validation that fails
  may drop entries: \<open>failed_validation_forgets_entries\<close>.)  This is what cancelling relies on to
  find the way back.
\<close>

theorem recorded_sources_survive:
  assumes "validateStorageMigrationPossible cl s = (r, t)" "fst (getMigrationStatus cl (r_Plan s) s) \<noteq> Ok completed"
  shows "\<forall>n e. getExistingStatusVMMap (r_Plan s) n = Some e \<and> sv_SourcePVCs e \<noteq> [] \<longrightarrow>
      (\<forall>vm \<in> set (entries t). pv_Name vm = n \<longrightarrow> sameClaims e vm)
      \<and> (r = Ok () \<and> n \<in> pv_Name ` set (spec_VirtualMachines (pl_Spec (r_Plan s))) \<longrightarrow>
          n \<in> pv_Name ` set (entries t) \<or> turnedAway cl (om_Namespace (pl_Meta (r_Plan s))) n)"
proof (intro allI impI, elim conjE)
  fix n e
  assume e: "getExistingStatusVMMap (r_Plan s) n = Some e" "sv_SourcePVCs e \<noteq> []"
  have keep: "\<forall>vm \<in> set (entries t). pv_Name vm = n \<longrightarrow> sameClaims e vm"
    using kept.validate_holds[OF refl refl assms] e by (auto simp: keptSources_def)
  have "n \<in> pv_Name ` set (entries t) \<or> turnedAway cl (om_Namespace (pl_Meta (r_Plan s))) n"
    if ok: "r = Ok ()" and n: "n \<in> pv_Name ` set (spec_VirtualMachines (pl_Spec (r_Plan s)))"
  proof -
    let ?ex = "getExistingStatusVMMap (r_Plan s)" and ?vms = "spec_VirtualMachines (pl_Spec (r_Plan s))"
    obtain ms s' u where u: "validateStorageMigrationPossible cl s = recompute cl ?ex ms ?vms u" "entries u = []"
      by (rule validate_recomputes[OF assms(2)]) simp
    obtain vm where vm: "vm \<in> set ?vms" "n = pv_Name vm" using n by auto
    have "accounted cl ?ex (r_Plan t) vm"
      by (rule recompute_covers[OF _ _ _ vm(1)]) (use u assms(1) ok existing_name in \<open>auto simp: existingEntries_def\<close>)
    moreover have "sameIdentity (r_Plan s) (r_Plan t)"
      using validation_identity.frame_validateStorageMigrationPossible assms(1) by (rule frameD)
    ultimately show ?thesis using e vm(2) by (auto simp: accounted_def hasSources_def sameIdentity_def)
  qed
  with keep show "(\<forall>vm \<in> set (entries t). pv_Name vm = n \<longrightarrow> sameClaims e vm)
      \<and> (r = Ok () \<and> n \<in> pv_Name ` set (spec_VirtualMachines (pl_Spec (r_Plan s))) \<longrightarrow>
          n \<in> pv_Name ` set (entries t) \<or> turnedAway cl (om_Namespace (pl_Meta (r_Plan s))) n)" by blast
qed



text \<open>
  C23. The check of the claims sorts the ready VMs, in their order, into ready and invalid ones,
  unchanged but for storage classes.  Every target of a VM that stays ready has a storage class,
  the one it names, which the API server has answered for, or the default class of the cluster
  when it names none; and if it has a name then the VM has a source at its position, of a
  different name unless volumes are already being moved.  Every VM that becomes invalid has a
  target whose class the API server said is not there, or for which there is no default class,
  or, before any volume has moved, that has the name of its source.  A message is reported exactly
  when a VM is invalid.
\<close>

theorem validatePVCs_sorts_vms:
  assumes "validatePVCs cl s = (Ok (reason, message), t)" "getMigrationStatus cl (r_Plan s) s = (Ok ms, s')"
  shows "sortedOut cl ms (st_ReadyMigrations (pl_Status (r_Plan s)))
      (st_ReadyMigrations (pl_Status (r_Plan t))) (st_InvalidMigrations (pl_Status (r_Plan t)))
    \<and> (message = [] \<longleftrightarrow> st_InvalidMigrations (pl_Status (r_Plan t)) = [])"
  using wp_run[OF validatePVCs_wp assms(1)] assms(2) by (auto simp: pvcsChecked_def verdict_def withVerdict_def)

text \<open>
  C24. A VM that validation leaves ready before the migration has started can be cancelled later:
  in a plan whose entries fit its spec, and while no volume is being moved (the status is
  \<open>notStarted\<close>; later the code no longer compares the names), a ready entry that passed the check
  of the claims pairs every source with a target of the same volume and another name, which is
  what reverting an entry needs, and the reverted entry is paired again.
\<close>

theorem ready_entries_revertible:
  assumes "validatePVCs cl s = (Ok (reason, message), t)" "getMigrationStatus cl (r_Plan s) s = (Ok notStarted, s')"
    "fitting (r_Plan s)" "vm \<in> set (st_ReadyMigrations (pl_Status (r_Plan t)))"
  shows "entry_paired vm \<and> (\<exists>q. revertPlanVolumes vm = Ok q \<and> entry_paired q)"
proof -
  obtain vm0 where ok: "usable cl notStarted vm0 vm"
    using wp_run[OF validatePVCs_wp assms(1)] assms(2,4)
    by (auto simp: pvcsChecked_def verdict_def withVerdict_def dest: sortedOut_ready)
  have mem: "vm \<in> set (entries t)" using assms(4) by (simp add: existingEntries_def)
  have "\<forall>e \<in> set (entries s). fitting (r_Plan s) \<longrightarrow> (\<exists>v \<in> set (spec_VirtualMachines (pl_Spec (r_Plan s))). statusEntry v e)"
    unfolding fitting_def by blast
  with frameD[OF fits.pvcs_hold assms(1), of "r_Plan s"] mem assms(3)
  obtain v where v: "statusEntry v vm" by blast
  have maps: "map sp_VolumeName (sv_SourcePVCs vm) = map tp_VolumeName (pv_TargetMigrationPVCs vm)"
    and named: "\<forall>tgt \<in> set (pv_TargetMigrationPVCs vm). dp_Name (tp_DestinationPVC tgt) \<noteq> None"
    using v by (simp_all add: statusEntry_def)
  have len: "length (sv_SourcePVCs vm) = length (pv_TargetMigrationPVCs vm)"
    using maps by (rule map_eq_imp_length_eq)
  have "paired (sv_SourcePVCs vm ! i) (pv_TargetMigrationPVCs vm ! i)" if i: "i < length (sv_SourcePVCs vm)" for i
  proof -
    have "sp_VolumeName (sv_SourcePVCs vm ! i) = tp_VolumeName (pv_TargetMigrationPVCs vm ! i)"
      using arg_cong[OF maps, of "\<lambda>l. l ! i"] i len by simp
    moreover have "dp_Name (tp_DestinationPVC (pv_TargetMigrationPVCs vm ! i)) \<noteq> None"
      using named i len by simp
    moreover have "usableAt cl notStarted vm0 vm i" using ok i len by (simp add: usable_def)
    ultimately show ?thesis by (auto simp: paired_def named_def targetOf_def usableAt_def)
  qed
  then have "entry_paired vm" using len by (simp add: entry_paired_def list_all2_conv_all_nth)
  then show ?thesis using revert_paired reverted_entry_paired by blast
qed

text \<open>
  A failing lookup wipes the records.  If the API server fails on the first VM of the spec
  the validation ends with that error, and every list of the status is empty, whatever was
  recorded in them; the reconciler then writes this status back.
\<close>

theorem failed_validation_forgets_entries:
  assumes "getMigrationStatus cl (r_Plan s) s = (Ok ms, s')" "ms \<noteq> completed"
    "spec_VirtualMachines (pl_Spec (r_Plan s)) = vm # vms"
    "c_GetVM cl (om_Namespace (pl_Meta (r_Plan s))) (pv_Name vm) (world s') = (Inl e, w)" "\<not> IsNotFound e"
  shows "\<exists>t. validateStorageMigrationPossible cl s = (Err e, t) \<and> entries t = []"
proof -
  obtain ms' s'' u where u: "getMigrationStatus cl (r_Plan s) s = (Ok ms', s'')"
      "validateStorageMigrationPossible cl s =
      recompute cl (getExistingStatusVMMap (r_Plan s)) ms' (spec_VirtualMachines (pl_Spec (r_Plan s))) u"
      "u = s''\<lparr>r_Plan := (r_Plan s)\<lparr>pl_Status := clearLists (pl_Status (r_Plan s))\<rparr>\<rparr>" "entries u = []"
    by (rule validate_recomputes[of cl s]) (use assms(1,2) in auto)
  have "classifyVM cl existing ms vm () u = (Err e, u\<lparr>world := w\<rparr>)" for existing
    using assms u(1,3) by (simp add: classifyVM_def ValidateStorageMigrationPossibleForVM_def run)
  then have "validateStorageMigrationPossible cl s = (Err e, u\<lparr>world := w\<rparr>)"
    using u(1,2) assms(1,3) by (simp add: recompute_def run_bind)
  moreover have "entries (u\<lparr>world := w\<rparr>) = []" using u(4) by simp
  ultimately show ?thesis by blast
qed

section \<open>A concrete plan\<close>

text \<open>
  A plan with one VM whose claims are recorded, on a server that has the VM, stopped, and every
  storage class, but no longer has the source claim.
\<close>

definition fixturePlan :: Plan where
  "fixturePlan = emptyPlan\<lparr>pl_Spec := \<lparr>spec_VirtualMachines = [\<lparr>pv_Name = ''vm'', pv_TargetMigrationPVCs = [sampleTarget]\<rparr>],
       spec_RetentionPolicy = None\<rparr>,
     pl_Status := emptyPlanStatus\<lparr>st_InProgressMigrations := [sampleEntry]\<rparr>\<rparr>"

definition fixtureClient :: "unit client" where
  "fixtureClient = emptyClient\<lparr>c_GetVM := (\<lambda>ns n. yields sampleVM),
     c_GetStorageClass := (\<lambda>n. yields \<lparr>sc_Name = n, sc_Annotations = Map.empty\<rparr>)\<rparr>"

definition fixture :: "Plan \<Rightarrow> unit planning" where
  "fixture p = \<lparr>world = (), trace = [], r_Plan = p\<rparr>"

definition readyPlan :: Plan where
  "readyPlan = fixturePlan\<lparr>pl_Status := emptyPlanStatus\<lparr>st_ReadyMigrations := [sampleEntry]\<rparr>\<rparr>"

lemma fixture_client [simp]:
  "c_GetVM fixtureClient ns n = yields sampleVM" "c_GetVMI fixtureClient ns n = missing" "c_GetPVC fixtureClient ns n = missing"
  "c_GetStorageClass fixtureClient n = yields \<lparr>sc_Name = n, sc_Annotations = Map.empty\<rparr>"
  "c_ListMigsInNamespace fixtureClient ns = yields []" "c_RangeOrder fixtureClient = Pair" "c_Now fixtureClient = Pair 0"
  by (simp_all add: fixtureClient_def emptyClient_def)

lemmas fixture_defs = fixturePlan_def fixture_def readyPlan_def sample_defs empty_defs

lemma fixture_status:
  "getMigrationStatus fixtureClient p s = (Ok notStarted, s)"
  by (cases s) (simp add: getMigrationStatus_def run)

lemma fixture_fits: "fitting (r_Plan (fixture fixturePlan))" "fitting (r_Plan (fixture readyPlan))"
  by (simp_all add: fitting_def statusEntry_def existingEntries_def fixture_defs)

lemma fixture_pvcs: "validatePVCs fixtureClient (fixture readyPlan) = (Ok ([], []), fixture readyPlan)"
  by (simp add: validatePVCs_def fixture_status checkVM_def checkTarget_def checkClass_def validateStorageClassExists_def
      onPlanStatus_def index_def run fixture_defs)

lemma fixture_classify:
  "classifyVM fixtureClient (getExistingStatusVMMap fixturePlan) notStarted \<lparr>pv_Name = ''vm'', pv_TargetMigrationPVCs = [sampleTarget]\<rparr> ()
     (fixture (fixturePlan\<lparr>pl_Status := emptyPlanStatus\<rparr>)) = (Ok (), fixture readyPlan)"
  by (simp add: classifyVM_def ValidateStorageMigrationPossibleForVM_def IsVMRunning_def createStatusVM_def
      GetVirtualMachineFromName_def resolveVolume_def getSourcePVC_def fixture_status mergeExisting_def keepSwapped_def
      keepUncorrupted_def hasSources_def hasVMBeenSwapped_def sourcesMatchTargets_def getExistingStatusVMMap_def
      existingEntries_def recordVM_def onPlanStatus_def deref_def Let_def run emptyStatusVM_def fixture_defs)

lemma fixture_validate:
  "st_ReadyMigrations (pl_Status (r_Plan (snd (validateStorageMigrationPossible fixtureClient (fixture fixturePlan))))) = [sampleEntry]"
proof -
  have "frame (\<lambda>s t. onlyConditions (r_Plan s) (r_Plan t)) (bind (delCond InvalidPVCsType) (\<lambda>_. summarize fixtureClient))"
    by (intro frame_bind lists_kept.preorder lists_kept.frame_delCond lists_kept.frame_summarize)
  from frameD2[OF this, of "fixture readyPlan"]
  have "st_ReadyMigrations (pl_Status (r_Plan (snd (bind (delCond InvalidPVCsType) (\<lambda>_. summarize fixtureClient) (fixture readyPlan))))) = [sampleEntry]"
    by (auto simp: onlyConditions_def fixture_def readyPlan_def)
  moreover have "validateStorageMigrationPossible fixtureClient (fixture fixturePlan) =
      bind (delCond InvalidPVCsType) (\<lambda>_. summarize fixtureClient) (fixture readyPlan)"
  proof -
    have "validateStorageMigrationPossible fixtureClient (fixture fixturePlan) =
        recompute fixtureClient (getExistingStatusVMMap fixturePlan) notStarted
          [\<lparr>pv_Name = ''vm'', pv_TargetMigrationPVCs = [sampleTarget]\<rparr>] (fixture (fixturePlan\<lparr>pl_Status := emptyPlanStatus\<rparr>))"
      unfolding validateStorageMigrationPossible_def bind_gets run_bind[of "getMigrationStatus c p" for c p] fixture_status
      by (simp add: bind_onPlanStatus clearLists_def fixture_def fixturePlan_def emptyPlanStatus_def)
    then show ?thesis by (simp add: recompute_def run_bind run_ret fixture_classify fixture_pvcs)
  qed
  ultimately show ?thesis by simp
qed

lemma fixture_entry: "sampleEntry \<in> set (entries (snd (validateStorageMigrationPossible fixtureClient (fixture fixturePlan))))"
  using fixture_validate by (simp add: existingEntries_def)

lemma fixture_existing: "getExistingStatusVMMap (r_Plan (fixture fixturePlan)) (pv_Name sampleEntry) = Some sampleEntry"
  by (simp add: getExistingStatusVMMap_def existingEntries_def fixture_defs)

lemma fixture_not_completed: "fst (getMigrationStatus fixtureClient p s) \<noteq> Ok completed"
  by (simp add: fixture_status)

theorem recorded_sources_survive_witness:
  "\<exists>vm. vm \<in> set (entries (snd (validateStorageMigrationPossible fixtureClient (fixture fixturePlan))))
     \<and> sv_SourcePVCs sampleEntry \<noteq> [] \<and> sameClaims sampleEntry vm"
  using recorded_sources_survive[OF surjective_pairing fixture_not_completed, of "fixture fixturePlan"] fixture_existing fixture_entry
  by (auto simp: sampleEntry_def)



theorem validatePVCs_sorts_vms_witness:
  "sortedOut fixtureClient notStarted [sampleEntry] [sampleEntry] []"
  using validatePVCs_sorts_vms[OF fixture_pvcs fixture_status]
  by (simp add: fixture_def readyPlan_def emptyPlanStatus_def)

theorem ready_entries_revertible_witness:
  "sampleEntry \<in> set (st_ReadyMigrations (pl_Status readyPlan)) \<and> entry_paired sampleEntry"
proof -
  have m: "sampleEntry \<in> set (st_ReadyMigrations (pl_Status (r_Plan (fixture readyPlan))))"
    by (simp add: fixture_def readyPlan_def)
  show ?thesis
    using ready_entries_revertible[OF fixture_pvcs fixture_status fixture_fits(2) m] m by (simp add: fixture_def)
qed

definition brokenClient :: "unit client" where
  "brokenClient = fixtureClient\<lparr>c_GetVM := (\<lambda>ns n w. (Inl (ApiErr ''timeout''), w))\<rparr>"

theorem failed_validation_forgets_entries_witness:
  "entries (fixture fixturePlan) = [sampleEntry]
   \<and> (\<exists>t. validateStorageMigrationPossible brokenClient (fixture fixturePlan) = (Err (ApiErr ''timeout''), t) \<and> entries t = [])"
proof -
  have ms: "getMigrationStatus brokenClient (r_Plan (fixture fixturePlan)) (fixture fixturePlan) = (Ok notStarted, fixture fixturePlan)"
    by (simp add: getMigrationStatus_def brokenClient_def fixture_def run)
  have vm: "c_GetVM brokenClient (om_Namespace (pl_Meta (r_Plan (fixture fixturePlan)))) n (world (fixture fixturePlan)) = (Inl (ApiErr ''timeout''), ())" for n
    by (simp add: brokenClient_def fixture_def)
  have spec: "spec_VirtualMachines (pl_Spec (r_Plan (fixture fixturePlan))) = \<lparr>pv_Name = ''vm'', pv_TargetMigrationPVCs = [sampleTarget]\<rparr> # []"
    by (simp add: fixture_def fixturePlan_def)
  show ?thesis
    using failed_validation_forgets_entries[OF ms _ spec vm] by (simp add: existingEntries_def fixture_def fixturePlan_def emptyPlanStatus_def)
qed

end
