(* ===== verification/PlanReconcile.thy ===== *)
theory PlanReconcile
  imports PlanController PlanClaims "HOL-Library.Product_Lexorder"
begin

text \<open>
  What the plan reconciler promises: which objects it writes and how they relate to the plan it
  read, when it lets a plan go, what a ready plan is, which migration decides about completed
  VMs, and the refresh handshake with the migration task.
\<close>

section \<open>Frames of the controller\<close>

context cond_steps
begin

lemma frame_setReadiness: "frame R (setReadiness cl)"
  unfolding setReadiness_def by (intro steps frame_setCond)

lemma frame_listMigrations: "frame R (hasActiveMigrations cl plan)"
  unfolding hasActiveMigrations_def listMigrationsForPlan_def by (intro steps)

end

context plan_steps
begin

lemma frame_updateReadyCompleted: "frame R (onPlanStatus (updateReadyCompletedMigrations m))"
  by (rule frame_onPlanStatus) (simp add: updateReadyCompletedMigrations_def Let_def)

lemma frame_processMigrations: "frame R (processMigrations cl)"
  unfolding processMigrations_def Let_def by (intro steps frame_setCond frame_updateReadyCompleted)

lemma frame_countCompleted: "frame R countCompleted"
  unfolding countCompleted_def by (rule frame_onPlan) (simp add: sameIdentity_def)

end

text \<open>
  A reconcile of a plan that is not being deleted sends nothing before it persists the plan, and
  keeps the spec, the names, the finalizer and a suffix once chosen.
\<close>

definition liveKeeps :: "Plan \<Rightarrow> Plan \<Rightarrow> bool" where
  "liveKeeps p q \<longleftrightarrow> pl_Spec q = pl_Spec p \<and> om_Name (pl_Meta q) = om_Name (pl_Meta p)
     \<and> om_Namespace (pl_Meta q) = om_Namespace (pl_Meta p)
     \<and> om_DeletionTimestamp (pl_Meta q) = om_DeletionTimestamp (pl_Meta p)
     \<and> om_UID (pl_Meta q) = om_UID (pl_Meta p) \<and> om_Labels (pl_Meta q) = om_Labels (pl_Meta p)
     \<and> om_OwnerReferences (pl_Meta q) = om_OwnerReferences (pl_Meta p)
     \<and> (\<forall>k. k \<noteq> RefreshEndTimeAnnotation \<longrightarrow> om_Annotations (pl_Meta q) k = om_Annotations (pl_Meta p) k)
     \<and> set (om_Finalizers (pl_Meta p)) \<subseteq> set (om_Finalizers (pl_Meta q))
     \<and> (\<forall>x. st_Suffix (pl_Status p) = Some x \<longrightarrow> st_Suffix (pl_Status q) = Some x)"

lemma liveKeeps_refl [simp]: "liveKeeps p p"
  by (simp add: liveKeeps_def)

interpretation live: plan_steps "\<lambda>s t. trace t = trace s \<and> liveKeeps (r_Plan s) (r_Plan t)"
proof unfold_locales
  show "preorder_rel (\<lambda>s t. trace t = trace s \<and> liveKeeps (r_Plan s) (r_Plan t))"
    by (rule preorder_relI) (auto simp: liveKeeps_def)
qed (auto simp: sameIdentity_def liveKeeps_def)

lemma live_onPlan:
  "(\<And>p. liveKeeps p (f p)) \<Longrightarrow> frame (\<lambda>s t. trace t = trace s \<and> liveKeeps (r_Plan s) (r_Plan t)) (onPlan f)"
  unfolding onPlan_def by (rule frame_modify) simp

lemma live_ensureSuffix: "frame (\<lambda>s t. trace t = trace s \<and> liveKeeps (r_Plan s) (r_Plan t)) (ensureSuffix cl)"
  by (auto simp: frame_def ensureSuffix_def onPlanStatus_def run liveKeeps_def split: option.splits prod.splits)

lemma live_setRefreshAnnotations: "frame (\<lambda>s t. trace t = trace s \<and> liveKeeps (r_Plan s) (r_Plan t)) (setRefreshAnnotations cl)"
  unfolding setRefreshAnnotations_def by (intro live.steps live_onPlan) (simp add: liveKeeps_def)

lemma live_reconcileLive: "frame (\<lambda>s t. trace t = trace s \<and> liveKeeps (r_Plan s) (r_Plan t)) (reconcileLive cl)"
  unfolding reconcileLive_def
  by (intro live.steps live_onPlan live_ensureSuffix live.frame_Plan_validate live.frame_onConditions live.frame_delCond
      live.frame_setReadiness live.frame_processMigrations live.frame_countCompleted live_setRefreshAnnotations)
    (auto simp: liveKeeps_def Plan_AddFinalizer_def addFinalizer_def)

text \<open>A suffix once chosen is kept, and a live plan without one gets one from the random generator.\<close>

interpretation suffix_kept: plan_steps "\<lambda>s t. st_Suffix (pl_Status (r_Plan t)) = st_Suffix (pl_Status (r_Plan s))"
  by unfold_locales (simp_all add: preorder_eq sameIdentity_def)

definition suffixed :: "'w client \<Rightarrow> Plan \<Rightarrow> Plan \<Rightarrow> bool" where
  "suffixed cl p q \<longleftrightarrow> (case st_Suffix (pl_Status p) of
       Some x \<Rightarrow> st_Suffix (pl_Status q) = Some x
     | None \<Rightarrow> if om_DeletionTimestamp (pl_Meta p) \<noteq> None then st_Suffix (pl_Status q) = None
         else \<exists>w w' x. c_RandString cl 4 w = (x, w') \<and> st_Suffix (pl_Status q) = Some x)"

lemma suffixed_cong: "st_Suffix (pl_Status q) = st_Suffix (pl_Status q') \<Longrightarrow> suffixed cl p q = suffixed cl p q'"
  by (simp only: suffixed_def)

lemma ensureSuffix_chooses:
  assumes "ensureSuffix cl s = (r, t)"
  shows "case st_Suffix (pl_Status (r_Plan s)) of
      Some x \<Rightarrow> st_Suffix (pl_Status (r_Plan t)) = Some x
    | None \<Rightarrow> \<exists>w w' x. c_RandString cl 4 w = (x, w') \<and> st_Suffix (pl_Status (r_Plan t)) = Some x"
  using assms
  by (cases "st_Suffix (pl_Status (r_Plan s))")
    (auto simp: ensureSuffix_def run onPlanStatus_def split: prod.splits, blast)

lemma reconcileLive_suffixed:
  fixes s :: "'w planning"
  assumes "om_DeletionTimestamp (pl_Meta (r_Plan s)) = None" "reconcileLive cl s = (Ok (), t)"
  shows "suffixed cl (r_Plan s) (r_Plan t)"
proof -
  define rest where "rest = bind (attempt (Plan_validate cl)) (\<lambda>r.
     bind (case r of
         Inl e \<Rightarrow> bind (draw (c_Now cl)) (\<lambda>now. onConditions (SetReconcileFailed now e))
       | Inr _ \<Rightarrow> delCond ReconcileFailed) (\<lambda>_.
     bind (setReadiness cl) (\<lambda>_.
     bind (processMigrations cl) (\<lambda>_.
     bind countCompleted (\<lambda>_.
     bind (gets r_Plan) (\<lambda>plan.
     if shouldUpdateRefresh cl plan then setRefreshAnnotations cl else ret ()))))))"
  have annotate: "frame (\<lambda>s t. st_Suffix (pl_Status (r_Plan t)) = st_Suffix (pl_Status (r_Plan s))) (setRefreshAnnotations cl)"
    by (auto simp: frame_def setRefreshAnnotations_def run split: prod.splits)
  have rest: "frame (\<lambda>s t. st_Suffix (pl_Status (r_Plan t)) = st_Suffix (pl_Status (r_Plan s))) rest"
    unfolding rest_def
    by (intro suffix_kept.steps suffix_kept.frame_Plan_validate suffix_kept.frame_onConditions suffix_kept.frame_delCond
        suffix_kept.frame_setReadiness suffix_kept.frame_processMigrations suffix_kept.frame_countCompleted annotate)
  let ?p = "r_Plan s"
  let ?f = "if \<not> HasFinalizer (pl_Meta ?p) PlanFinalizer then Plan_AddFinalizer PlanFinalizer ?p else ?p"
  have st: "pl_Status ?f = pl_Status ?p" by (simp add: Plan_AddFinalizer_def)
  have run: "bind (ensureSuffix cl) (\<lambda>_. rest) (s\<lparr>r_Plan := ?f\<rparr>) = (Ok (), t)"
    using assms(2) by (simp add: reconcileLive_def rest_def run_bind[of "onPlan f" for f] run_onPlan)
  then obtain u where u: "ensureSuffix cl (s\<lparr>r_Plan := ?f\<rparr>) = (Ok (), u)" "rest u = (Ok (), t)"
    by (auto simp: bind_Ok)
  have "suffixed cl ?p (r_Plan u)"
    using ensureSuffix_chooses[OF u(1)] st assms(1) by (simp add: suffixed_def)
  then show ?thesis by (simp only: suffixed_cong[OF frameD[OF rest u(2)]])
qed

section \<open>Writing the plan back\<close>

text \<open>
  The status is written with the object at hand: the reconciled plan, or the answer of the server
  to the update of the metadata, with the reconciled status put back.
\<close>

definition atHand :: "'w client \<Rightarrow> Plan \<Rightarrow> Plan \<Rightarrow> bool" where
  "atHand cl p q \<longleftrightarrow> q = p \<or> (\<exists>p' w w'. c_UpdatePlan cl p w = (Inr p', w') \<and> q = p'\<lparr>pl_Status := pl_Status p\<rparr>)"

lemma persistPlan_emits:
  fixes s :: "'w planning"
  assumes "\<And>q. q = r_Plan s \<Longrightarrow> P (UpdatePlan q)"
    "\<And>q. atHand cl (r_Plan s) q \<Longrightarrow> P (UpdatePlanStatus q)"
  shows "emits P s (snd (persistPlan cl orig s))"
proof -
  have status: "emits P t (snd ((if b then bind (request (UpdatePlanStatus q) (c_UpdatePlanStatus cl q)) (\<lambda>_. ret ()) else ret ()) t))"
    if "atHand cl (r_Plan s) q" for b q and t :: "'w planning"
    by (rule frameD2) (intro frame emits_preorder assms(2) that)
  show ?thesis
  proof (cases "pl_Meta orig = pl_Meta (r_Plan s)")
    case True
    then show ?thesis using status[of "r_Plan s"] by (simp add: persistPlan_def bind_gets Let_def atHand_def)
  next
    case False
    obtain v w where v: "c_UpdatePlan cl (r_Plan s) (world s) = (v, w)" by fastforce
    let ?t = "s\<lparr>world := w, trace := trace s @ [(UpdatePlan (r_Plan s), None)]\<rparr>"
    have sent: "emits P s (s\<lparr>world := w, trace := trace s @ [(UpdatePlan (r_Plan s), e)]\<rparr>)" for e
      using assms(1) by (simp add: emits_def)
    show ?thesis
    proof (cases v)
      case (Inl e)
      then show ?thesis using False v sent by (simp add: persistPlan_def bind_gets Let_def run)
    next
      case (Inr p)
      let ?u = "?t\<lparr>r_Plan := p\<lparr>pl_Status := pl_Status (r_Plan s)\<rparr>\<rparr>"
      have "persistPlan cl orig s =
        (if PlanStatus_CopyTimestamps (pl_Status orig) (Some (pl_Status (r_Plan s))) \<noteq> pl_Status (r_Plan s)
         then bind (request (UpdatePlanStatus (p\<lparr>pl_Status := pl_Status (r_Plan s)\<rparr>))
           (c_UpdatePlanStatus cl (p\<lparr>pl_Status := pl_Status (r_Plan s)\<rparr>))) (\<lambda>_. ret ()) else ret ()) ?u"
        using False v Inr
        by (simp add: persistPlan_def bind_gets Let_def run_bind[of "bind m f" for m f] run_bind[of "request a f" for a f]
            run_request run_onPlan)
      moreover have "emits P s ?u" using sent[of None] by (simp add: emits_def)
      moreover have hand: "atHand cl (r_Plan s) (p\<lparr>pl_Status := pl_Status (r_Plan s)\<rparr>)" using v Inr unfolding atHand_def by blast
      ultimately show ?thesis
        using preorder_trans[OF emits_preorder _ status[OF hand], of s] by simp
    qed
  qed
qed

section \<open>Letting a plan go\<close>

text \<open>A plan may lose its finalizer: it is being deleted and a listing showed no active migration.\<close>

definition released :: "'w client \<Rightarrow> Plan \<Rightarrow> bool" where
  "released cl p \<longleftrightarrow> om_DeletionTimestamp (pl_Meta p) \<noteq> None
     \<and> (\<exists>w ms w'. c_ListMigsByPlanName cl (om_Name (pl_Meta p)) w = (Inr ms, w') \<and> \<not> list_ex activeMigration ms)"

definition writable :: "'w client \<Rightarrow> Plan \<Rightarrow> Plan \<Rightarrow> bool" where
  "writable cl p q \<longleftrightarrow> pl_Spec q = pl_Spec p \<and> om_Name (pl_Meta q) = om_Name (pl_Meta p)
     \<and> om_Namespace (pl_Meta q) = om_Namespace (pl_Meta p)
     \<and> om_UID (pl_Meta q) = om_UID (pl_Meta p) \<and> om_Labels (pl_Meta q) = om_Labels (pl_Meta p)
     \<and> om_OwnerReferences (pl_Meta q) = om_OwnerReferences (pl_Meta p)
     \<and> (\<forall>k. k \<noteq> RefreshEndTimeAnnotation \<longrightarrow> om_Annotations (pl_Meta q) k = om_Annotations (pl_Meta p) k)
     \<and> (PlanFinalizer \<in> set (om_Finalizers (pl_Meta p)) \<and> PlanFinalizer \<notin> set (om_Finalizers (pl_Meta q)) \<longrightarrow> released cl p)"

fun planWrite :: "'w client \<Rightarrow> Plan \<Rightarrow> act \<Rightarrow> bool" where
  "planWrite cl p (UpdatePlan q) = (writable cl p q \<and> suffixed cl p q)"
| "planWrite cl p (UpdatePlanStatus q) = (suffixed cl p q \<and> (\<exists>q0. writable cl p q0 \<and> suffixed cl p q0 \<and> atHand cl q0 q))"
| "planWrite cl p (Event ty reason message) = (reason = ''DeletionBlocked'' \<and> om_DeletionTimestamp (pl_Meta p) \<noteq> None)"
| "planWrite cl p _ = False"

lemma liveKeeps_writable: "liveKeeps p q \<Longrightarrow> writable cl p q"
  by (auto simp: liveKeeps_def writable_def)

lemma onlyConditions_writable: "onlyConditions p q \<Longrightarrow> writable cl p q"
  by (auto simp: onlyConditions_def writable_def)

lemma reconcileDeleted_keeps:
  fixes s :: "'w planning"
  assumes "r_Plan s = p" "om_DeletionTimestamp (pl_Meta p) \<noteq> None" "reconcileDeleted cl s = (r, t)"
  shows "emits (planWrite cl p) s t \<and> writable cl p (r_Plan t) \<and> suffixed cl p (r_Plan t)"
proof -
  obtain v w where v: "c_ListMigsByPlanName cl (om_Name (pl_Meta p)) (world s) = (v, w)" by fastforce
  have keep: "writable cl p p" by (simp add: writable_def)
  have same: "suffixed cl p q" if "st_Suffix (pl_Status q) = st_Suffix (pl_Status p)" for q
    using that assms(2) by (auto simp: suffixed_def split: option.splits)
  show ?thesis
  proof (cases v)
    case (Inl e)
    then show ?thesis
      using assms v keep same
      by (auto simp: reconcileDeleted_def hasActiveMigrations_def listMigrationsForPlan_def run emits_def)
  next
    case (Inr ms)
    note start = reconcileDeleted_def hasActiveMigrations_def listMigrationsForPlan_def bind_gets run_bind run_query run_ret
    show ?thesis
    proof (cases "list_ex activeMigration ms")
      case False
      then have "released cl p" using v Inr assms(2) by (auto simp: released_def)
      then have "writable cl p (Plan_RemoveFinalizer PlanFinalizer p)" "suffixed cl p (Plan_RemoveFinalizer PlanFinalizer p)"
        using same by (simp_all add: writable_def Plan_RemoveFinalizer_def removeFinalizer_def)
      then show ?thesis using assms v Inr False by (auto simp: start run emits_def)
    next
      case True
      have "writable cl p (p\<lparr>pl_Status := (pl_Status p)\<lparr>st_Conditions := cs\<rparr>\<rparr>)" for cs
        by (rule onlyConditions_writable) (auto simp: onlyConditions_def)
      then show ?thesis
        using assms v Inr True keep same
        by (auto simp: start run setCond_def onConditions_def onPlanStatus_def emits_def split: prod.splits if_splits)
    qed
  qed
qed

lemma persist_planWrite:
  assumes "writable cl p (r_Plan s)" "suffixed cl p (r_Plan s)"
  shows "emits (planWrite cl p) s (snd (persistPlan cl orig s))"
proof (rule persistPlan_emits)
  show "planWrite cl p (UpdatePlanStatus q)" if "atHand cl (r_Plan s) q" for q
  proof -
    have "pl_Status q = pl_Status (r_Plan s)" using that by (auto simp: atHand_def)
    then have "suffixed cl p q" using assms(2) suffixed_cong[of q "r_Plan s" cl p] by simp
    then show ?thesis using assms that by auto
  qed
qed (use assms in simp)

lemma withPlan_emits:
  assumes "emits P (planStart s p) (snd (m (planStart s p)))"
  shows "emits P s (snd (withPlan p m s))"
  using assms by (auto simp: withPlan_def emits_def planStart_def split: prod.splits)

lemma Plan_Reconcile_run:
  assumes "c_GetPlan cl ns name (world s) = (Inr p, w)"
  shows "Plan_Reconcile cl ns name s =
    (if om_DeletionTimestamp (pl_Meta p) = None \<and> planCompletedByStatus p then (Ok (), s\<lparr>world := w\<rparr>)
     else withPlan p (bind (if om_DeletionTimestamp (pl_Meta p) \<noteq> None then reconcileDeleted cl else reconcileLive cl)
       (\<lambda>_. persistPlan cl p)) (s\<lparr>world := w\<rparr>))"
  using assms by (simp add: Plan_Reconcile_def run)

text \<open>
  C17. One reconcile writes nothing but the plan it read and the event about a blocked deletion.
  The plan it updates has the spec, names, UID, labels and owner references of the one read, and
  its annotations but for the time of the last refresh.  A suffix once chosen is kept, so the
  target names are stable; a plan without one gets a random one, unless it is being deleted.  The
  finalizer goes only if the plan is being deleted and a listing showed no active migration.  The
  status is written with the plan so changed, or with the answer of the server to the update of
  that plan, and with the same suffix.
\<close>

theorem plan_reconcile_writes:
  assumes "c_GetPlan cl ns name (world s) = (Inr p, w)"
  shows "emits (planWrite cl p) s (snd (Plan_Reconcile cl ns name s))"
proof -
  define body where "body = (if om_DeletionTimestamp (pl_Meta p) \<noteq> None then reconcileDeleted cl else reconcileLive cl)"
  let ?u = "planStart (s\<lparr>world := w\<rparr>) p"
  have u: "r_Plan ?u = p" by (simp add: planStart_def)
  obtain r t where t: "body ?u = (r, t)" by fastforce
  have keeps: "emits (planWrite cl p) ?u t \<and> writable cl p (r_Plan t) \<and> (r = Ok () \<longrightarrow> suffixed cl p (r_Plan t))"
  proof (cases "om_DeletionTimestamp (pl_Meta p) = None")
    case True
    then have "trace t = trace ?u \<and> liveKeeps p (r_Plan t)"
      using frameD[OF live_reconcileLive, of cl ?u r t] t u by (simp add: body_def)
    moreover have "r = Ok () \<longrightarrow> suffixed cl p (r_Plan t)"
      using reconcileLive_suffixed[of ?u cl t] True t u by (simp add: body_def)
    ultimately show ?thesis by (auto intro: emits_same_trace liveKeeps_writable)
  next
    case False
    then show ?thesis using reconcileDeleted_keeps[OF u False, of cl r t] t by (simp add: body_def)
  qed
  have "emits (planWrite cl p) ?u (snd (bind body (\<lambda>_. persistPlan cl p) ?u))"
  proof (cases r)
    case (Ok x)
    have "emits (planWrite cl p) t (snd (persistPlan cl p t))" using keeps Ok by (intro persist_planWrite) auto
    then have "emits (planWrite cl p) ?u (snd (persistPlan cl p t))"
      by (rule preorder_trans[OF emits_preorder conjunct1[OF keeps]])
    then show ?thesis using t Ok by (simp add: run_bind)
  qed (use keeps t in \<open>simp_all add: run_bind\<close>)
  then have "emits (planWrite cl p) (s\<lparr>world := w\<rparr>) (snd (withPlan p (bind body (\<lambda>_. persistPlan cl p)) (s\<lparr>world := w\<rparr>)))"
    by (rule withPlan_emits)
  then have "emits (planWrite cl p) s (snd (withPlan p (bind body (\<lambda>_. persistPlan cl p)) (s\<lparr>world := w\<rparr>)))"
    by (simp add: emits_def)
  then show ?thesis
    unfolding Plan_Reconcile_run[OF assms] body_def by (simp add: emits_def)
qed

section \<open>Readiness\<close>

definition readyOk :: "PlanStatus \<Rightarrow> bool" where
  "readyOk st \<longleftrightarrow> (HasCondition [Ready] (st_Conditions st) \<longrightarrow> \<not> HasCriticalCondition (st_Conditions st))"

lemma SetCondition_mem:
  assumes "x \<in> set (SetCondition now c l)"
  shows "x \<in> set l \<or> Condition_Equal x c"
proof -
  have upd: "x \<in> set (update_first f t l) \<Longrightarrow> x \<in> set l \<or> (\<exists>d \<in> set l. x = f d \<and> cnd_Type d = t)" for f t
    by (induction l) (auto split: if_splits)
  have "Condition_Equal (c\<lparr>cnd_LastTransitionTime := now\<rparr>) c" by (simp add: Condition_Equal_def)
  moreover have "Condition_Equal (Condition_Update now d c) c" for d
    by (auto simp: Condition_Update_def Condition_Equal_def)
  ultimately show ?thesis
    using assms upd by (fastforce simp: SetCondition_def split: option.splits)
qed

lemma SetCondition_critical:
  assumes "cnd_Category c \<noteq> Critical" "HasCriticalCondition (SetCondition now c l)"
  shows "HasCriticalCondition l"
  using assms SetCondition_mem[of _ now c l]
  by (fastforce simp: HasCriticalCondition_def HasConditionCategory_def list_ex_iff Condition_Equal_def)

lemma readyOk_set:
  assumes "cnd_Category c = Required" "cnd_Type c = Ready \<longrightarrow> cnd_Status c \<noteq> ConditionTrue"
  shows "readyOk st \<Longrightarrow> readyOk (st\<lparr>st_Conditions := SetCondition now c (st_Conditions st)\<rparr>)"
proof (cases "cnd_Type c = Ready")
  case True
  then have "\<not> HasCondition [Ready] (SetCondition now c (st_Conditions st))"
    using assms(2) conds.put_status[of now c "st_Conditions st"] by (simp add: HasCondition_single)
  then show ?thesis by (simp add: readyOk_def)
next
  case False
  assume "readyOk st"
  moreover have "HasCondition [Ready] (SetCondition now c (st_Conditions st)) = HasCondition [Ready] (st_Conditions st)"
    using conds.lookup_put_other[of Ready c now "st_Conditions st"] False by (simp add: HasCondition_single)
  ultimately show ?thesis
    using SetCondition_critical[of c now "st_Conditions st"] assms(1) by (auto simp: readyOk_def)
qed

abbreviation stillOk :: "'w planning \<Rightarrow> 'w planning \<Rightarrow> bool" where
  "stillOk s t \<equiv> readyOk (pl_Status (r_Plan s)) \<longrightarrow> readyOk (pl_Status (r_Plan t))"

lemma stillOk_setCond:
  assumes "cnd_Category c = Required" "cnd_Type c = Ready \<longrightarrow> cnd_Status c \<noteq> ConditionTrue"
  shows "frame stillOk (setCond cl c)"
  using readyOk_set[OF assms]
  by (auto simp: frame_def setCond_def onConditions_def onPlanStatus_def run split: prod.splits)

lemma stillOk_progress: "frame stillOk (setCond cl (progressCondition b m))"
  by (rule stillOk_setCond) (simp_all add: progressCondition_def mkCondition_def)

lemma stillOk_notReady: "frame stillOk (setCond cl (readyCondition ConditionFalse m))"
  by (rule stillOk_setCond) (simp_all add: readyCondition_def mkCondition_def)

lemma stillOk_lists:
  "(\<And>st. st_Conditions (f st) = st_Conditions st) \<Longrightarrow> frame stillOk (onPlanStatus f)"
  by (simp add: frame_def onPlanStatus_def run readyOk_def)

lemma stillOk_onPlan:
  "(\<And>p. st_Conditions (pl_Status (f p)) = st_Conditions (pl_Status p)) \<Longrightarrow> frame stillOk (onPlan f)"
  by (simp add: frame_def run readyOk_def)

lemma stillOk_world: "stillOk s (s\<lparr>world := w\<rparr>)"
  by simp

lemmas stillOk_steps = frame_bind frame_if frame_case_sum frame_attempt frame_gets frame_ret frame_throw frame_query frame_draw
  frame_Let preorder_inv stillOk_world stillOk_progress stillOk_notReady

lemma stillOk_processMigrations: "frame stillOk (processMigrations cl)"
  unfolding processMigrations_def
  by (intro stillOk_steps stillOk_lists) (simp add: updateReadyCompletedMigrations_def Let_def)

lemma stillOk_countCompleted: "frame stillOk countCompleted"
  unfolding countCompleted_def by (rule stillOk_onPlan) simp

lemma stillOk_setRefresh: "frame stillOk (setRefreshAnnotations cl)"
  unfolding setRefreshAnnotations_def by (intro stillOk_steps stillOk_onPlan) simp

lemma setReadiness_readyOk: "readyOk (pl_Status (r_Plan (snd (setReadiness cl s))))"
proof -
  let ?l = "st_Conditions (pl_Status (r_Plan s))"
  have set: "\<exists>now. st_Conditions (pl_Status (r_Plan (snd (setCond cl c s)))) = SetCondition now c ?l" for c
    by (auto simp: setCond_def onConditions_def onPlanStatus_def run split: prod.splits)
  have no: "readyOk (pl_Status (r_Plan (snd (setCond cl (readyCondition ConditionFalse m) s))))" for m
    using set[of "readyCondition ConditionFalse m"] conds.put_status[of _ "readyCondition ConditionFalse m" ?l]
    by (auto simp: readyOk_def HasCondition_single readyCondition_def mkCondition_def)
  have yes: "readyOk (pl_Status (r_Plan (snd (setCond cl (readyCondition ConditionTrue m) s))))"
    if "\<not> HasCriticalCondition ?l" for m
    using set[of "readyCondition ConditionTrue m"] that SetCondition_critical[of "readyCondition ConditionTrue m" _ ?l]
    by (auto simp: readyOk_def readyCondition_def mkCondition_def)
  show ?thesis using no yes by (simp add: setReadiness_def bind_gets)
qed

lemma wp_any_bind:
  "(\<And>x t. wp (f x) Q t) \<Longrightarrow> (\<And>e t. Q (Err e) t) \<Longrightarrow> (\<And>p t. Q (Panic p) t) \<Longrightarrow> wp (bind m f) Q s"
  by (cases "m s"; rename_tac r t; case_tac r) (simp_all add: wp_def run_bind)

lemma reconcileLive_readyOk: "reconcileLive cl s = (Ok (), t) \<Longrightarrow> readyOk (pl_Status (r_Plan t))"
proof -
  let ?Q = "\<lambda>(r :: unit result) t. r = Ok () \<longrightarrow> readyOk (pl_Status (r_Plan t))"
  have post: "frame stillOk (bind (processMigrations cl) (\<lambda>_. bind countCompleted (\<lambda>_. bind (gets r_Plan) (\<lambda>plan.
     if shouldUpdateRefresh cl plan then setRefreshAnnotations cl else ret ()))))"
    by (intro stillOk_steps stillOk_processMigrations stillOk_countCompleted stillOk_setRefresh)
  have "wp (bind (setReadiness cl) (\<lambda>_. bind (processMigrations cl) (\<lambda>_. bind countCompleted (\<lambda>_. bind (gets r_Plan) (\<lambda>plan.
     if shouldUpdateRefresh cl plan then setRefreshAnnotations cl else ret ()))))) ?Q u" for u
    unfolding wp_bind[of "setReadiness cl"]
  proof (rule wpI)
    fix q v
    assume "setReadiness cl u = (q, v)"
    then have v: "readyOk (pl_Status (r_Plan v))" using setReadiness_readyOk[of cl u] by simp
    with frameD[OF post, of v] show "next_wp (\<lambda>_. wp (bind (processMigrations cl) (\<lambda>_. bind countCompleted (\<lambda>_. bind (gets r_Plan) (\<lambda>plan.
       if shouldUpdateRefresh cl plan then setRefreshAnnotations cl else ret ())))) ?Q) ?Q q v"
      by (cases q) (auto intro!: wpI)
  qed
  note body = this
  have "wp (reconcileLive cl) ?Q s"
    unfolding reconcileLive_def
    by (rule wp_any_bind, rule wp_any_bind, rule wp_any_bind, rule wp_any_bind) (simp_all add: body)
  then show "reconcileLive cl s = (Ok (), t) \<Longrightarrow> readyOk (pl_Status (r_Plan t))" by (drule_tac wp_run) auto
qed

text \<open>
  C18. A plan is never advertised as ready while it has a critical condition: every status that a
  reconcile of a plan not being deleted writes has no true critical condition if its ready
  condition is true.  A validation that failed is one such critical condition.
\<close>

fun readyStatus :: "act \<Rightarrow> bool" where
  "readyStatus (UpdatePlanStatus q) = readyOk (pl_Status q)"
| "readyStatus _ = True"

theorem ready_plans_not_critical:
  assumes "c_GetPlan cl ns name (world s) = (Inr p, w)" "om_DeletionTimestamp (pl_Meta p) = None"
  shows "emits readyStatus s (snd (Plan_Reconcile cl ns name s))"
proof -
  let ?u = "planStart (s\<lparr>world := w\<rparr>) p"
  obtain r t where t: "reconcileLive cl ?u = (r, t)" by fastforce
  have tr: "emits readyStatus ?u t" using frameD[OF live_reconcileLive t] by (auto intro: emits_same_trace)
  have "emits readyStatus ?u (snd (bind (reconcileLive cl) (\<lambda>_. persistPlan cl p) ?u))"
  proof (cases r)
    case (Ok x)
    then have "readyOk (pl_Status (r_Plan t))" using t reconcileLive_readyOk by auto
    then have "emits readyStatus t (snd (persistPlan cl p t))" by (intro persistPlan_emits) (auto simp: atHand_def)
    then have "emits readyStatus ?u (snd (persistPlan cl p t))" by (rule preorder_trans[OF emits_preorder tr])
    then show ?thesis using t Ok by (simp add: run_bind)
  qed (use tr t in \<open>simp_all add: run_bind\<close>)
  then have "emits readyStatus (s\<lparr>world := w\<rparr>) (snd (withPlan p (bind (reconcileLive cl) (\<lambda>_. persistPlan cl p)) (s\<lparr>world := w\<rparr>)))"
    by (rule withPlan_emits)
  then show ?thesis
    unfolding Plan_Reconcile_run[OF assms(1)] using assms(2) by (simp add: emits_def)
qed

section \<open>Completed VMs\<close>

text \<open>The order of the migrations: completed ones first, then by creation.\<close>

definition migrationKey :: "Migration \<Rightarrow> int \<times> int" where
  "migrationKey m = (if ms_Phase (mg_Status m) = Completed then 0 else 1, om_CreationTimestamp (mg_Meta m))"

lemma compare_key: "compareStorageMigrations a b < 0 \<longleftrightarrow> migrationKey a < migrationKey b"
  by (auto simp: compareStorageMigrations_def migrationKey_def Let_def less_prod_def)

lemma updateReadyCompleted_mset:
  "mset (st_ReadyMigrations (updateReadyCompletedMigrations m st)) + mset (st_InProgressMigrations (updateReadyCompletedMigrations m st))
     + mset (st_CompletedMigrations (updateReadyCompletedMigrations m st))
   = mset (st_ReadyMigrations st) + mset (st_InProgressMigrations st) + mset (st_CompletedMigrations st)"
proof -
  have "mset (filter P xs) + mset (filter (\<lambda>x. \<not> P x) xs) = mset xs" for P and xs :: "StatusVM list"
    by (metis mset_filter multiset_partition)
  from this[of "\<lambda>vm. pv_Name vm \<in> set (ms_CompletedMigrations (mg_Status m))" "st_ReadyMigrations st"]
    this[of "\<lambda>vm. pv_Name vm \<in> set (ms_CompletedMigrations (mg_Status m))" "st_InProgressMigrations st"]
  show ?thesis by (simp add: updateReadyCompletedMigrations_def Let_def ac_simps flip: mset_filter)
qed


lemma updateReadyCompleted_lists:
  "set (st_CompletedMigrations (updateReadyCompletedMigrations m st)) = set (st_CompletedMigrations st)
     \<union> {v \<in> set (st_ReadyMigrations st) \<union> set (st_InProgressMigrations st). pv_Name v \<in> set (ms_CompletedMigrations (mg_Status m))}"
  by (auto simp: updateReadyCompletedMigrations_def Let_def)

lemma processMigrations_listed:
  fixes s :: "'w planning"
  assumes "c_ListMigsByPlanName cl (om_Name (pl_Meta (r_Plan s))) (world s) = (Inr items, w)" "items \<noteq> []"
    "processMigrations cl s = (r, t)"
  shows "r = Ok () \<and> (pl_Status (r_Plan t))\<lparr>st_Conditions := []\<rparr> =
    (updateReadyCompletedMigrations (last (SortFunc compareStorageMigrations items)) (pl_Status (r_Plan s)))\<lparr>st_Conditions := []\<rparr>"
  using assms
  by (auto simp: processMigrations_def Let_def run setCond_def onConditions_def onPlanStatus_def updateReadyCompletedMigrations_def
      split: prod.splits if_splits)

text \<open>
  C27. Which VMs of a plan count as completed is decided by one migration among those listed for
  the plan: the newest of the unfinished ones (a cancelled migration counts as unfinished), or
  the newest of all when every one is completed.  Exactly its completed VMs move from the ready
  and in-progress lists to the completed list, and no entry is lost or duplicated.
\<close>

theorem processMigrations_follows_newest:
  fixes s :: "'w planning"
  assumes "c_ListMigsByPlanName cl (om_Name (pl_Meta (r_Plan s))) (world s) = (Inr items, w)" "items \<noteq> []"
    "processMigrations cl s = (r, t)"
  shows "r = Ok () \<and> (\<exists>m \<in> set items.
    (\<forall>x \<in> set items. ms_Phase (mg_Status x) \<noteq> Completed \<longrightarrow> ms_Phase (mg_Status m) \<noteq> Completed
       \<and> om_CreationTimestamp (mg_Meta x) \<le> om_CreationTimestamp (mg_Meta m))
    \<and> ((\<forall>x \<in> set items. ms_Phase (mg_Status x) = Completed) \<longrightarrow>
       (\<forall>x \<in> set items. om_CreationTimestamp (mg_Meta x) \<le> om_CreationTimestamp (mg_Meta m)))
    \<and> set (st_CompletedMigrations (pl_Status (r_Plan t))) = set (st_CompletedMigrations (pl_Status (r_Plan s)))
       \<union> {v \<in> set (st_ReadyMigrations (pl_Status (r_Plan s))) \<union> set (st_InProgressMigrations (pl_Status (r_Plan s))).
          pv_Name v \<in> set (ms_CompletedMigrations (mg_Status m))}
    \<and> mset (st_ReadyMigrations (pl_Status (r_Plan t))) + mset (st_InProgressMigrations (pl_Status (r_Plan t)))
       + mset (st_CompletedMigrations (pl_Status (r_Plan t)))
     = mset (st_ReadyMigrations (pl_Status (r_Plan s))) + mset (st_InProgressMigrations (pl_Status (r_Plan s)))
       + mset (st_CompletedMigrations (pl_Status (r_Plan s))))"
proof -
  let ?m = "last (SortFunc compareStorageMigrations items)"
  have r: "r = Ok ()" using processMigrations_listed[OF assms] by simp
  let ?st = "updateReadyCompletedMigrations ?m (pl_Status (r_Plan s))"
  have "f (pl_Status (r_Plan t)) = f ?st" if "\<And>st. f (st\<lparr>st_Conditions := []\<rparr>) = f st" for f :: "PlanStatus \<Rightarrow> StatusVM list"
    using processMigrations_listed[OF assms] that by metis
  from this[of st_ReadyMigrations] this[of st_InProgressMigrations] this[of st_CompletedMigrations]
  have t: "st_ReadyMigrations (pl_Status (r_Plan t)) = st_ReadyMigrations ?st"
    "st_InProgressMigrations (pl_Status (r_Plan t)) = st_InProgressMigrations ?st"
    "st_CompletedMigrations (pl_Status (r_Plan t)) = st_CompletedMigrations ?st" by simp_all
  have key: "migrationKey x \<le> migrationKey ?m" if "x \<in> set items" for x
    by (rule last_SortFunc_max[OF compare_key that])
  have "?m \<in> set items" using assms(2) by (rule last_SortFunc_in)
  moreover have "ms_Phase (mg_Status x) \<noteq> Completed \<longrightarrow> ms_Phase (mg_Status ?m) \<noteq> Completed
       \<and> om_CreationTimestamp (mg_Meta x) \<le> om_CreationTimestamp (mg_Meta ?m)" if "x \<in> set items" for x
    using key[OF that] by (auto simp: migrationKey_def less_eq_prod_def split: if_splits)
  moreover have "om_CreationTimestamp (mg_Meta x) \<le> om_CreationTimestamp (mg_Meta ?m)"
    if "\<forall>x \<in> set items. ms_Phase (mg_Status x) = Completed" "x \<in> set items" for x
    using key[OF that(2)] that calculation(1) by (auto simp: migrationKey_def less_eq_prod_def)
  ultimately show ?thesis
    unfolding r t using updateReadyCompleted_lists[of ?m "pl_Status (r_Plan s)"] updateReadyCompleted_mset[of ?m "pl_Status (r_Plan s)"]
    by (intro conjI refl bexI[of _ ?m]) simp_all
qed

text \<open>
  A list call that fails leaves the plan as it was, and the error reaches the caller only if
  it is a not-found error: any other failure of the API server is taken for an empty result.
\<close>

theorem processMigrations_list_errors:
  fixes s :: "'w planning"
  assumes "c_ListMigsByPlanName cl (om_Name (pl_Meta (r_Plan s))) (world s) = (Inl e, w)"
  shows "processMigrations cl s = (if IsNotFound e then Err e else Ok (), s\<lparr>world := w\<rparr>)"
  using assms by (simp add: processMigrations_def run)

section \<open>The refresh handshake\<close>

text \<open>
  A migration asks for a refresh by writing the start time and removing the end time; the plan
  controller answers with an end time, and the migration waits until it is after the start.
\<close>

lemma refresh_pending:
  "\<not> shouldUpdateRefresh cl p \<Longrightarrow> om_Annotations (pl_Meta p) RefreshStartTimeAnnotation = Some x \<Longrightarrow> c_ParseTime cl x = Inr a \<Longrightarrow>
   \<exists>y b. om_Annotations (pl_Meta p) RefreshEndTimeAnnotation = Some y \<and> c_ParseTime cl y = Inr b \<and> a < b"
  by (auto simp: shouldUpdateRefresh_def split: option.splits sum.splits)

lemma refresh_seen:
  assumes "GetStorageMigrationPlan cl (mg_PlanRef (t_Owner u)) u = (Ok (Some q), u')"
    "om_Annotations (pl_Meta q) RefreshStartTimeAnnotation = Some x" "c_ParseTime cl x = Inr a" "\<not> shouldUpdateRefresh cl q"
  shows "refreshCompletedVirtualMachines cl u = (Ok True, u')"
  using assms(1) refresh_pending[OF assms(4,2,3)] assms(2,3)
  by (auto simp: refreshCompletedVirtualMachines_def run liftSum_def deref_def)

lemma shouldUpdateRefresh_cong: "pl_Meta q = pl_Meta p \<Longrightarrow> shouldUpdateRefresh cl q = shouldUpdateRefresh cl p"
  unfolding shouldUpdateRefresh_def by metis

lemma reconcileLive_refreshes:
  assumes "\<And>n. c_ParseTime cl (c_FormatTime cl n) = Inr n" "c_ParseTime cl x = Inr a" "\<And>w. a < fst (c_Now cl w)"
    "reconcileLive cl s = (Ok (), t)" "om_Annotations (pl_Meta (r_Plan t)) RefreshStartTimeAnnotation = Some x"
  shows "\<not> shouldUpdateRefresh cl (r_Plan t)"
proof -
  let ?Q = "\<lambda>(r :: unit result) t. r = Ok () \<and> om_Annotations (pl_Meta (r_Plan t)) RefreshStartTimeAnnotation = Some x
    \<longrightarrow> \<not> shouldUpdateRefresh cl (r_Plan t)"
  have final: "wp (bind (gets r_Plan) (\<lambda>plan. if shouldUpdateRefresh cl plan then setRefreshAnnotations cl else ret ())) ?Q u" for u
  proof -
    obtain n w where "c_Now cl (world u) = (n, w)" by fastforce
    moreover from this have "a < n" using assms(3)[of "world u"] by simp
    ultimately show ?thesis
      using assms(1,2) by (auto simp: wp_def bind_gets setRefreshAnnotations_def run shouldUpdateRefresh_def)
  qed
  have "wp (reconcileLive cl) ?Q s"
    unfolding reconcileLive_def
    by (rule wp_any_bind, rule wp_any_bind, rule wp_any_bind, rule wp_any_bind, rule wp_any_bind, rule wp_any_bind,
        rule wp_any_bind) (simp_all add: final)
  from wp_run[OF this assms(4)] assms(5) show ?thesis by simp
qed

text \<open>
  A refresh request is answered: whenever a reconcile of the plan succeeds, at a clock after
  the requested start, the plan it leaves makes the waiting migration see its refresh completed.
  The hypotheses on the time format are that a formatted instant parses back and that the start
  time is a formatted instant.
\<close>

theorem refresh_answered:
  assumes "\<And>n. c_ParseTime cl (c_FormatTime cl n) = Inr n" "\<And>w. a < fst (c_Now cl w)"
    "om_Annotations (pl_Meta (r_Plan s)) RefreshStartTimeAnnotation = Some (c_FormatTime cl a)"
    "reconcileLive cl s = (Ok (), t)"
    "GetStorageMigrationPlan cl (mg_PlanRef (t_Owner u)) u = (Ok (Some q), u')" "pl_Meta q = pl_Meta (r_Plan t)"
  shows "refreshCompletedVirtualMachines cl u = (Ok True, u')"
proof -
  have start: "om_Annotations (pl_Meta (r_Plan t)) RefreshStartTimeAnnotation = Some (c_FormatTime cl a)"
    using frameD[OF live_reconcileLive assms(4)] assms(3) by (simp add: liveKeeps_def)
  have "\<not> shouldUpdateRefresh cl q"
    unfolding shouldUpdateRefresh_cong[OF assms(6)]
    by (rule reconcileLive_refreshes[OF assms(1) assms(1) assms(2) assms(4) start])
  moreover have "om_Annotations (pl_Meta q) RefreshStartTimeAnnotation = Some (c_FormatTime cl a)"
    unfolding assms(6) by (rule start)
  ultimately show ?thesis by (intro refresh_seen[OF assms(5) _ assms(1)])
qed

text \<open>
  A refresh request is pending until it is answered: the plan a migration patches to ask for
  a refresh is one the plan controller must update, and one whose refresh the migration sees as
  not completed.
\<close>

theorem refresh_requested:
  assumes "\<And>n. c_ParseTime cl (c_FormatTime cl n) = Inr n"
  shows "emits (\<lambda>a. case a of PatchPlan p q \<Rightarrow> shouldUpdateRefresh cl q
      \<and> (\<forall>u u'. GetStorageMigrationPlan cl (mg_PlanRef (t_Owner u)) u = (Ok (Some q), u')
          \<longrightarrow> refreshCompletedVirtualMachines cl u = (Ok False, u')) | _ \<Rightarrow> False)
    s (snd (refreshReadyVirtualMachines cl s))"
    (is "emits ?P s _")
proof -
  have "?P (PatchPlan p (p\<lparr>pl_Meta := (pl_Meta p)\<lparr>om_Annotations :=
      ((om_Annotations (pl_Meta p))(RefreshStartTimeAnnotation \<mapsto> c_FormatTime cl now))(RefreshEndTimeAnnotation := None)\<rparr>\<rparr>))" for p now
    using assms by (auto simp: shouldUpdateRefresh_def refreshCompletedVirtualMachines_def run liftSum_def deref_def)
  then have "frame (emits ?P) (refreshReadyVirtualMachines cl)"
    unfolding refreshReadyVirtualMachines_def Let_def
    by (intro emits_intros emits_obs.frame_GetStorageMigrationPlan frame_request emits_preorder) (simp_all add: emits_def)
  then show ?thesis by (rule frameD2)
qed


section \<open>Witnesses\<close>

definition planClient :: "Migration list \<Rightarrow> unit client" where
  "planClient ms = fixtureClient\<lparr>c_GetPlan := (\<lambda>ns n. yields readyPlan), c_ListMigsByPlanName := (\<lambda>n. yields ms)\<rparr>"

lemma planClient_get: "c_GetPlan (planClient ms) ns n (world idle) = (Inr readyPlan, ())"
  by (simp add: planClient_def yields_def)

theorem plan_reconcile_writes_witness:
  "emits (planWrite (planClient []) readyPlan) idle (snd (Plan_Reconcile (planClient []) ''ns'' ''p'' idle))"
  by (rule plan_reconcile_writes[OF planClient_get])

theorem ready_plans_not_critical_witness:
  "emits readyStatus idle (snd (Plan_Reconcile (planClient []) ''ns'' ''p'' idle))"
  by (rule ready_plans_not_critical[OF planClient_get]) (simp add: fixture_defs)

definition doneMigration :: Migration where
  "doneMigration = emptyMigration\<lparr>mg_Status := emptyMigStatus\<lparr>ms_Phase := Completed, ms_CompletedMigrations := [''vm'']\<rparr>\<rparr>"

theorem processMigrations_follows_newest_witness:
  "sampleEntry \<in> set (st_CompletedMigrations (pl_Status (r_Plan (snd (processMigrations (planClient [doneMigration]) (fixture readyPlan))))))"
proof -
  have l: "c_ListMigsByPlanName (planClient [doneMigration]) (om_Name (pl_Meta (r_Plan (fixture readyPlan)))) (world (fixture readyPlan))
      = (Inr [doneMigration], ())"
    by (simp add: planClient_def yields_def)
  have "sampleEntry \<in> set (st_ReadyMigrations (pl_Status (r_Plan (fixture readyPlan))))" "pv_Name sampleEntry = ''vm''"
    by (simp_all add: fixture_def readyPlan_def sampleEntry_def)
  then show ?thesis
    using processMigrations_follows_newest[OF l _ surjective_pairing] by (auto simp: doneMigration_def)
qed

definition downClient :: "unit client" where
  "downClient = fixtureClient\<lparr>c_ListMigsByPlanName := (\<lambda>n w. (Inl (ApiErr ''timeout''), w))\<rparr>"

theorem processMigrations_list_errors_witness:
  "processMigrations downClient (fixture readyPlan) = (Ok (), fixture readyPlan)"
  using processMigrations_list_errors[of downClient "fixture readyPlan" "ApiErr ''timeout''" "()"]
  by (simp add: downClient_def fixture_def)

text \<open>A client whose time format is unary and whose world is the stored plan.\<close>

definition refreshClient :: "Plan client" where
  "refreshClient = emptyClient\<lparr>c_Now := (\<lambda>w. (1, w)),
     c_FormatTime := (\<lambda>t. replicate (nat t) CHR ''I'' @ replicate (nat (- t)) CHR ''J''),
     c_ParseTime := (\<lambda>s. Inr (int (length (filter (\<lambda>c. c = CHR ''I'') s)) - int (length (filter (\<lambda>c. c = CHR ''J'') s)))),
     c_ListKubeVirts := missing, c_GetPlan := (\<lambda>ns n w. (Inr w, w))\<rparr>"

definition asked :: "Plan planning" where
  "asked = \<lparr>world = emptyPlan, trace = [], r_Plan = emptyPlan\<lparr>pl_Meta := emptyMeta\<lparr>om_Annotations :=
     [RefreshStartTimeAnnotation \<mapsto> c_FormatTime refreshClient 0]\<rparr>\<rparr>\<rparr>"

definition waiting :: "Plan \<Rightarrow> Plan task" where
  "waiting p = \<lparr>world = p, trace = [], t_Owner = emptyMigration\<lparr>mg_PlanRef := Some \<lparr>ref_Namespace = ''ns'', ref_Name = ''p'', ref_UID = []\<rparr>\<rparr>,
     t_Plan = None, t_Requeue = 0\<rparr>"

lemma refreshClient_time: "c_ParseTime refreshClient (c_FormatTime refreshClient n) = Inr n"
  by (simp add: refreshClient_def)

lemma refreshClient_simps:
  "c_ListKubeVirts refreshClient = missing" "c_ListMigsByPlanName refreshClient n = yields []" "c_Now refreshClient w = (1, w)"
  by (simp_all add: refreshClient_def emptyClient_def)

lemma refreshClient_get:
  "\<exists>q. GetStorageMigrationPlan refreshClient (mg_PlanRef (t_Owner (waiting p))) (waiting p) = (Ok (Some q), waiting p) \<and> pl_Meta q = pl_Meta p"
  by (simp add: GetStorageMigrationPlan_def waiting_def refreshClient_def run RefSet_def Let_def)

text \<open>Computations that return a value from every state.\<close>

definition always :: "('s, 'a) go \<Rightarrow> bool" where
  "always m \<longleftrightarrow> (\<forall>s. \<exists>x t. m s = (Ok x, t))"

lemma always_bind: "always m \<Longrightarrow> (\<And>x. always (f x)) \<Longrightarrow> always (bind m f)"
  unfolding always_def run_bind by (metis (mono_tags, lifting) case_prod_conv result.case(1))

lemma always_basic:
  "always (ret x)" "always (gets g)" "always (onPlan h)" "always (draw d)"
  by (auto simp: always_def run split: prod.splits)

lemma always_conditions: "always (onPlanStatus f)" "always (onConditions k)" "always (delCond n)" "always (setCond cl c)"
  by (simp_all add: onPlanStatus_def delCond_def setCond_def onConditions_def always_basic always_bind)

lemma always_case_sum: "(\<And>e. always (f e)) \<Longrightarrow> (\<And>y. always (g y)) \<Longrightarrow> always (case v of Inl e \<Rightarrow> f e | Inr y \<Rightarrow> g y)"
  by (cases v) simp_all

lemmas always_rules = always_bind always_basic always_conditions always_case_sum

lemma refresh_validate: "always (attempt (Plan_validate refreshClient))"
  by (auto simp: always_def Plan_validate_def validateLiveMigrationPossible_def validateKubeVirtInstalled_def delCond_def onConditions_def
      onPlanStatus_def run refreshClient_simps)

lemma refresh_process: "always (processMigrations refreshClient)"
  unfolding processMigrations_def using always_conditions(4)
  by (auto simp: always_def run refreshClient_simps)

lemma refresh_reconciles: "always (reconcileLive refreshClient)"
  unfolding reconcileLive_def ensureSuffix_def setReadiness_def setRefreshAnnotations_def countCompleted_def
  by (intro always_rules refresh_validate refresh_process) (simp_all add: always_rules split: option.splits)

theorem refresh_answered_witness:
  "refreshCompletedVirtualMachines refreshClient (waiting (r_Plan (snd (reconcileLive refreshClient asked))))
   = (Ok True, waiting (r_Plan (snd (reconcileLive refreshClient asked))))"
proof -
  obtain t where t: "reconcileLive refreshClient asked = (Ok (), t)"
    using refresh_reconciles by (auto simp: always_def)
  obtain q where q: "GetStorageMigrationPlan refreshClient (mg_PlanRef (t_Owner (waiting (r_Plan t)))) (waiting (r_Plan t)) = (Ok (Some q), waiting (r_Plan t))"
    "pl_Meta q = pl_Meta (r_Plan t)"
    using refreshClient_get by blast
  have "0 < fst (c_Now refreshClient w)" for w by (simp add: refreshClient_simps)
  moreover have "om_Annotations (pl_Meta (r_Plan asked)) RefreshStartTimeAnnotation = Some (c_FormatTime refreshClient 0)"
    by (simp add: asked_def)
  ultimately show ?thesis using refresh_answered[OF refreshClient_time _ _ t q, of 0] by (simp add: t)
qed

theorem refresh_requested_witness:
  "emits (\<lambda>a. case a of PatchPlan p q \<Rightarrow> shouldUpdateRefresh refreshClient q | _ \<Rightarrow> False)
     (waiting emptyPlan) (snd (refreshReadyVirtualMachines refreshClient (waiting emptyPlan)))
   \<and> trace (snd (refreshReadyVirtualMachines refreshClient (waiting emptyPlan))) \<noteq> []"
proof
  show "trace (snd (refreshReadyVirtualMachines refreshClient (waiting emptyPlan))) \<noteq> []"
    using refreshClient_get[of emptyPlan] by (auto simp: refreshReadyVirtualMachines_def run Let_def split: prod.splits sum.splits)
qed (rule emits_mono[OF refresh_requested[OF refreshClient_time]], auto split: act.splits)

end
