(* ===== verification/Cascade.thy ===== *)
theory Cascade
  imports Helpers
begin

text \<open>
  What the two multi-namespace controllers share.  Each owns child objects in other namespaces,
  marked with the UID of the parent in a label, and holds the parent with a finalizer until the
  children are gone.  The locale \<open>cascade\<close> states that deletion protocol once; the controllers
  interpret it with their own listing, deletion and update.
\<close>

section \<open>Shared constants and helpers\<close>

text \<open>The requeue interval of both controllers, in nanoseconds.\<close>

abbreviation finalizerRequeueInterval :: int where "finalizerRequeueInterval \<equiv> 2000000000"

text \<open>The UID label of a child.\<close>

definition labelledWith :: "string \<Rightarrow> string \<Rightarrow> ObjectMeta \<Rightarrow> bool" where
  "labelledWith key uid meta \<longleftrightarrow> om_Labels meta key = Some uid"

text \<open>Metadata of a new child: its name, its namespace, one label and two annotations.\<close>

definition childMeta :: "string \<Rightarrow> string \<Rightarrow> strmap \<Rightarrow> strmap \<Rightarrow> ObjectMeta" where
  "childMeta name ns labels annotations = \<lparr>om_Name = name, om_Namespace = ns, om_UID = [], om_ResourceVersion = [],
     om_Labels = labels, om_Annotations = annotations, om_Finalizers = [], om_OwnerReferences = [],
     om_CreationTimestamp = 0, om_DeletionTimestamp = None\<rparr>"

text \<open>Lookup of the parent from a child: labels first, then annotations.\<close>

definition parentOf :: "string \<Rightarrow> string \<Rightarrow> string \<Rightarrow> string \<Rightarrow> ObjectMeta \<Rightarrow> string \<times> string" where
  "parentOf nameLabel namespaceLabel nameAnnotation namespaceAnnotation meta =
     (let n = mget (om_Labels meta) [] nameLabel; ns = mget (om_Labels meta) [] namespaceLabel in
      if n = [] \<or> ns = [] then (mget (om_Annotations meta) [] namespaceAnnotation, mget (om_Annotations meta) [] nameAnnotation)
      else (ns, n))"

section \<open>Cascading deletion\<close>

locale cascade =
  fixes listOwned :: "'p \<Rightarrow> ('w sys, 'c list) go"
    and deleting :: "'c \<Rightarrow> bool"
    and deleteChild :: "'c \<Rightarrow> ('w sys, unit) go"
    and deleteAct :: "'c \<Rightarrow> act"
    and release :: "'p \<Rightarrow> 'p"
    and store :: "'p \<Rightarrow> ('w sys, unit) go"
    and finalize :: "'p \<Rightarrow> ('w sys, int) go"
  assumes protocol: "finalize p =
      bind (listOwned p) (\<lambda>children.
      bind (foldE (\<lambda>child _. if deleting child then ret () else deleteChild child) children ()) (\<lambda>_.
      bind (listOwned p) (\<lambda>rest.
        if length rest > 0 then ret finalizerRequeueInterval
        else bind (store (release p)) (\<lambda>_. ret 0))))"
    and list_silent: "frame (emits (\<lambda>_. False)) (listOwned p)"
    and delete_only: "frame (emits (\<lambda>a. a = deleteAct c)) (deleteChild c)"
begin

text \<open>The deletions a run may send: of children it listed that are not already being deleted.\<close>

definition dropsListed :: "'p \<Rightarrow> act \<Rightarrow> bool" where
  "dropsListed p a \<longleftrightarrow> (\<exists>c cs u v. listOwned p u = (Ok cs, v) \<and> c \<in> set cs \<and> \<not> deleting c \<and> a = deleteAct c)"

lemma drops_deletes:
  assumes "listOwned p u = (Ok cs, v)"
  shows "frame (emits (dropsListed p)) (foldE (\<lambda>child _. if deleting child then ret () else deleteChild child) cs ())"
proof (rule frame_foldE[OF emits_preorder])
  fix c and x :: unit
  assume "c \<in> set cs"
  with assms have "\<not> deleting c \<Longrightarrow> dropsListed p (deleteAct c)" by (auto simp: dropsListed_def)
  then have "frame (emits (dropsListed p)) (deleteChild c)" if "\<not> deleting c"
    using that by (auto intro: frame_weaken[OF delete_only] emits_mono)
  then show "frame (emits (dropsListed p)) (if deleting c then ret () else deleteChild c)"
    by (simp add: frame_ret emits_preorder)
qed

lemma list_drops: "frame (emits (dropsListed p)) (listOwned p)"
  by (rule frame_weaken[OF list_silent]) (auto elim: emits_mono)

text \<open>
  A run only deletes listed children, except that it may end with the release of the parent,
  directly after a listing that found no child.
\<close>

lemma finalize_runs:
  assumes "finalize p s = (r, t)"
  shows "(\<exists>u v x. emits (dropsListed p) s u \<and> listOwned p u = (Ok [], v) \<and> store (release p) v = (x, t)
       \<and> (r = Ok 0 \<longleftrightarrow> x = Ok ()))
    \<or> emits (dropsListed p) s t \<and> r \<noteq> Ok 0"
proof -
  note trans = preorder_trans[OF emits_preorder]
  obtain q u where q: "listOwned p s = (q, u)" by fastforce
  then have su: "emits (dropsListed p) s u" by (rule frameD[OF list_drops])
  show ?thesis
  proof (cases q)
    case (Ok cs)
    obtain q' u' where q': "foldE (\<lambda>child _. if deleting child then ret () else deleteChild child) cs () u = (q', u')" by fastforce
    have su': "emits (dropsListed p) s u'"
      using drops_deletes[of p s cs u] q Ok q' by (auto intro: trans[OF su] dest: frameD)
    show ?thesis
    proof (cases q')
      case (Ok _)
      obtain q2 v where q2: "listOwned p u' = (q2, v)" by fastforce
      have sv: "emits (dropsListed p) s v" by (rule trans[OF su' frameD[OF list_drops q2]])
      show ?thesis
      proof (cases q2)
        case (Ok rest)
        obtain x t' where x: "store (release p) v = (x, t')" by fastforce
        show ?thesis
        proof (cases rest)
          case Nil
          then have "t = t' \<and> (r = Ok 0 \<longleftrightarrow> x = Ok ())"
            using assms q \<open>q = Ok cs\<close> q' \<open>q' = Ok _\<close> q2 Ok x
            by (cases x) (auto simp: protocol run_bind run_ret)
          then show ?thesis using su' q2 Ok Nil x by blast
        next
          case (Cons a as)
          then show ?thesis
            using assms q \<open>q = Ok cs\<close> q' \<open>q' = Ok _\<close> q2 Ok sv by (auto simp: protocol run_bind run_ret)
        qed
      qed (use assms q \<open>q = Ok cs\<close> q' \<open>q' = Ok _\<close> q2 sv in \<open>auto simp: protocol run_bind\<close>)
    qed (use assms q \<open>q = Ok cs\<close> q' su' in \<open>auto simp: protocol run_bind\<close>)
  qed (use assms q su in \<open>auto simp: protocol run_bind\<close>)
qed

text \<open>
  What a whole run sends: anything that the deletions of listed children and the release of the
  parent satisfy.
\<close>

lemma finalize_emits:
  assumes drops: "\<And>a. dropsListed p a \<Longrightarrow> P a" and released: "frame (emits P) (store (release p))"
  shows "frame (emits P) (finalize p)"
proof (rule frameI)
  fix s r t
  assume run: "finalize p s = (r, t)"
  have weaken: "emits (dropsListed p) a b \<Longrightarrow> emits P a b" for a b by (erule emits_mono) (rule drops)
  from finalize_runs[OF run] show "emits P s t"
  proof (elim disjE exE conjE)
    fix u v x
    assume "emits (dropsListed p) s u" "listOwned p u = (Ok [], v)" "store (release p) v = (x, t)"
    then show "emits P s t"
      by (meson weaken frameD[OF list_drops] frameD[OF released] preorder_trans[OF emits_preorder])
  qed (rule weaken)
qed

text \<open>While children remain, the parent is kept and looked at again.\<close>

lemma finalize_waits:
  "finalize p s = (Ok x, t) \<Longrightarrow> x = 0 \<or> x = finalizerRequeueInterval"
  by (auto simp: protocol run_bind run_ret split: prod.splits result.splits if_splits)

end

end
