(* ===== verification/MultiPlanController.thy ===== *)
theory MultiPlanController
  imports Cascade
begin

text \<open>
  The reconciler of MultiNamespaceVirtualMachineStorageMigrationPlan objects
  (\<open>src/internal/controller/multinamespacestoragemigplan/controller.go\<close>): one child plan per
  namespace of the spec, owned through a UID label, its status copied into the parent, and
  cascading deletion.
\<close>

section \<open>Definitions\<close>

abbreviation multiNamespaceStorageMigPlanNameLabel :: string where
  "multiNamespaceStorageMigPlanNameLabel \<equiv> ''migration.kubevirt.io/multi-namespace-storage-mig-plan-name''"
abbreviation multiNamespaceStorageMigPlanNamespaceLabel :: string where
  "multiNamespaceStorageMigPlanNamespaceLabel \<equiv> ''migration.kubevirt.io/multi-namespace-storage-mig-plan-namespace''"
abbreviation multiNamespaceStorageMigPlanUIDLabel :: string where
  "multiNamespaceStorageMigPlanUIDLabel \<equiv> ''migration.kubevirt.io/multi-namespace-storage-mig-plan-uid''"
abbreviation multiNamespaceStorageMigPlanNameAnnotation :: string where
  "multiNamespaceStorageMigPlanNameAnnotation \<equiv> ''migration.kubevirt.io/multi-namespace-storage-mig-plan-name''"
abbreviation multiNamespaceStorageMigPlanNamespaceAnnotation :: string where
  "multiNamespaceStorageMigPlanNamespaceAnnotation \<equiv> ''migration.kubevirt.io/multi-namespace-storage-mig-plan-namespace''"
abbreviation multiNamespaceStorageMigPlanFinalizer :: string where
  "multiNamespaceStorageMigPlanFinalizer \<equiv> ''migrations.kubevirt.io/multinamespace-storage-mig-plan-finalizer''"
abbreviation InvalidNamespace :: string where "InvalidNamespace \<equiv> ''InvalidNamespace''"

text \<open>The reconciler works on its local copy of the plan.\<close>

record 'w multiPlanning = "'w sys" +
  q_Plan :: MultiPlan

definition onMultiPlan :: "(MultiPlan \<Rightarrow> MultiPlan) \<Rightarrow> ('w multiPlanning, unit) go" where
  "onMultiPlan f = modify (\<lambda>s. s\<lparr>q_Plan := f (q_Plan s)\<rparr>)"

definition onMultiConditions :: "(Condition list \<Rightarrow> Condition list) \<Rightarrow> ('w multiPlanning, unit) go" where
  "onMultiConditions f = onMultiPlan (\<lambda>p. p\<lparr>mp_Status := (mp_Status p)\<lparr>mps_Conditions := f (mps_Conditions (mp_Status p))\<rparr>\<rparr>)"

definition updateNamespacePlanStatus :: "Plan \<Rightarrow> MultiPlan \<Rightarrow> MultiPlan" where
  "updateNamespacePlanStatus namespacedPlan plan =
     (let cmp = (\<lambda>a b. Compare (nst_Name a) (nst_Name b));
          name = om_Namespace (pl_Meta namespacedPlan);
          entry = \<lparr>nst_Name = name, nst_Status = Some (pl_Status namespacedPlan)\<rparr>;
          sorted = SortFunc cmp (mps_Namespaces (mp_Status plan));
          replaced = map (\<lambda>n. if nst_Name n = name then entry else n) sorted;
          found = list_ex (\<lambda>n. nst_Name n = name) sorted;
          updated = (if found then replaced else replaced @ [entry])
      in plan\<lparr>mp_Status := (mp_Status plan)\<lparr>mps_Namespaces := SortFunc cmp updated\<rparr>\<rparr>)"

definition getNamespacePlan :: "'w client \<Rightarrow> string \<Rightarrow> NamespaceSpec \<Rightarrow> (('w, 'z) sys_scheme, Plan option) go" where
  "getNamespacePlan cl planName namespace =
     bind (attempt (query (c_GetPlan cl (nsp_Name namespace) (GetNamespacedPlanName planName (nsp_Name namespace))))) (\<lambda>r. case r of
       Inl e \<Rightarrow> if IsNotFound e then ret None else throw e
     | Inr p \<Rightarrow> ret (Some p))"

definition listOwnedChildPlans :: "'w client \<Rightarrow> MultiPlan \<Rightarrow> (('w, 'z) sys_scheme, Plan list) go" where
  "listOwnedChildPlans cl plan = query (c_ListPlansByLabel cl multiNamespaceStorageMigPlanUIDLabel (om_UID (mp_Meta plan)))"

definition isChildOwnedByPlan :: "Plan \<Rightarrow> MultiPlan \<Rightarrow> bool" where
  "isChildOwnedByPlan child plan = labelledWith multiNamespaceStorageMigPlanUIDLabel (om_UID (mp_Meta plan)) (pl_Meta child)"

definition deleteChildPlan :: "'w client \<Rightarrow> Plan \<Rightarrow> (('w, 'z) sys_scheme, unit) go" where
  "deleteChildPlan cl child =
     bind (attempt (request (DeletePlan child) (c_DeletePlan cl child))) (\<lambda>r. case r of
       Inl e \<Rightarrow> if \<not> IsNotFound e then throw e else ret ()
     | Inr _ \<Rightarrow> ret ())"

definition MultiPlan_RemoveFinalizer :: "MultiPlan \<Rightarrow> MultiPlan" where
  "MultiPlan_RemoveFinalizer plan = plan\<lparr>mp_Meta := (mp_Meta plan)\<lparr>om_Finalizers :=
     filter (\<lambda>s. s \<noteq> multiNamespaceStorageMigPlanFinalizer) (om_Finalizers (mp_Meta plan))\<rparr>\<rparr>"

definition MultiPlan_runFinalizer :: "'w client \<Rightarrow> MultiPlan \<Rightarrow> ('w sys, int) go" where
  "MultiPlan_runFinalizer cl plan =
     bind (listOwnedChildPlans cl plan) (\<lambda>children.
     bind (foldE (\<lambda>child _.
         if om_DeletionTimestamp (pl_Meta child) \<noteq> None then ret () else deleteChildPlan cl child) children ()) (\<lambda>_.
     bind (listOwnedChildPlans cl plan) (\<lambda>rest.
       if length rest > 0 then ret finalizerRequeueInterval
       else
         let released = MultiPlan_RemoveFinalizer plan in
         bind (request (UpdateMultiPlan released) (c_UpdateMultiPlan cl released)) (\<lambda>_. ret 0))))"

text \<open>The empty message stands for a valid namespace.\<close>

definition validateNamespace :: "'w client \<Rightarrow> NamespaceSpec \<Rightarrow> (('w, 'z) sys_scheme, string) go" where
  "validateNamespace cl planNamespace =
     (if nsp_Spec planNamespace = None then ret (''namespace '' @ nsp_Name planNamespace @ '' has no plan'')
      else bind (attempt (query (c_GetNamespace cl (nsp_Name planNamespace)))) (\<lambda>r. case r of
        Inl e \<Rightarrow> if IsNotFound e then ret (''namespace '' @ nsp_Name planNamespace @ '' not found'') else throw e
      | Inr namespace \<Rightarrow>
          if kns_DeletionTimestamp namespace \<noteq> None
          then ret (''namespace '' @ nsp_Name planNamespace @ '' is being deleted'') else ret []))"

definition inheritedPolicy :: "RetentionPolicy option \<Rightarrow> RetentionPolicy option \<Rightarrow> RetentionPolicy option" where
  "inheritedPolicy parent own =
     (if parent \<noteq> None \<and> parent \<noteq> Some RetentionPolicyKeepSource
      then (if own = None \<or> own = Some RetentionPolicyKeepSource then parent else own)
      else own)"

definition namespacePlanFor :: "MultiPlan \<Rightarrow> NamespaceSpec \<Rightarrow> PlanSpec \<Rightarrow> Plan" where
  "namespacePlanFor plan namespace spec = \<lparr>pl_Kind = [], pl_APIVersion = [],
     pl_Meta = childMeta (GetNamespacedPlanName (om_Name (mp_Meta plan)) (nsp_Name namespace)) (nsp_Name namespace)
       [multiNamespaceStorageMigPlanUIDLabel \<mapsto> om_UID (mp_Meta plan)]
       [multiNamespaceStorageMigPlanNameAnnotation \<mapsto> om_Name (mp_Meta plan),
        multiNamespaceStorageMigPlanNamespaceAnnotation \<mapsto> om_Namespace (mp_Meta plan)],
     pl_Spec = spec\<lparr>spec_RetentionPolicy := inheritedPolicy (mp_RetentionPolicy plan) (spec_RetentionPolicy spec)\<rparr>,
     pl_Status = emptyPlanStatus\<rparr>"

definition createNamespacePlan :: "'w client \<Rightarrow> MultiPlan \<Rightarrow> NamespaceSpec \<Rightarrow> (('w, 'z) sys_scheme, unit) go" where
  "createNamespacePlan cl plan namespace =
     bind (liftR (deref (nsp_Spec namespace))) (\<lambda>spec.
     let namespacePlan = namespacePlanFor plan namespace spec in
     bind (attempt (request (CreatePlan namespacePlan) (c_CreatePlan cl namespacePlan))) (\<lambda>r. case r of
       Inr _ \<Rightarrow> ret ()
     | Inl e \<Rightarrow>
         if \<not> IsAlreadyExists e then throw e
         else bind (getNamespacePlan cl (om_Name (mp_Meta plan)) namespace) (\<lambda>x. case x of
           None \<Rightarrow> request (CreatePlan namespacePlan) (c_CreatePlan cl namespacePlan)
         | Some existing \<Rightarrow>
             if isChildOwnedByPlan existing plan then ret ()
             else bind (deleteChildPlan cl existing) (\<lambda>_.
               request (CreatePlan namespacePlan) (c_CreatePlan cl namespacePlan)))))"

definition namespacePlanStatusCompleted :: "PlanSpec option \<Rightarrow> PlanStatus option \<Rightarrow> bool" where
  "namespacePlanStatusCompleted spec status =
     (case (spec, status) of (Some sp, Some st) \<Rightarrow> PlanStatusShowsCompleted (spec_VirtualMachines sp) (Some st) | _ \<Rightarrow> False)"

definition statusByNamespace :: "NamespaceStatus list \<Rightarrow> (string \<rightharpoonup> PlanStatus)" where
  "statusByNamespace nss = foldl (\<lambda>m n. case nst_Status n of None \<Rightarrow> m | Some st \<Rightarrow> m(nst_Name n \<mapsto> st)) Map.empty nss"

definition multiPlanCompletedByStatus :: "MultiPlan \<Rightarrow> bool" where
  "multiPlanCompletedByStatus plan \<longleftrightarrow> mp_Namespaces plan \<noteq> [] \<and>
     list_all (\<lambda>specNs. nsp_Spec specNs \<noteq> None \<and>
       (case statusByNamespace (mps_Namespaces (mp_Status plan)) (nsp_Name specNs) of
          None \<Rightarrow> False
        | Some nsStatus \<Rightarrow> namespacePlanStatusCompleted (nsp_Spec specNs) (Some nsStatus))) (mp_Namespaces plan)"

definition isMultiPlanCompleted :: "'w client \<Rightarrow> MultiPlan \<Rightarrow> (('w, 'z) sys_scheme, bool) go" where
  "isMultiPlanCompleted cl plan =
     (if \<not> multiPlanCompletedByStatus plan then ret False
      else bind (loopE (\<lambda>namespace _.
          bind (getNamespacePlan cl (om_Name (mp_Meta plan)) namespace) (\<lambda>x. case x of
            None \<Rightarrow> ret (Leave ())
          | Some p \<Rightarrow>
              if \<not> namespacePlanStatusCompleted (nsp_Spec namespace) (Some (pl_Status p)) then ret (Leave ()) else ret (Next ())))
        (mp_Namespaces plan) ()) (\<lambda>v. case v of Leave _ \<Rightarrow> ret False | Next _ \<Rightarrow> ret True))"

text \<open>One iteration of the loop over the namespaces; the accumulator is \<open>invalidNamespaceFound\<close>.\<close>

definition reconcileNamespace :: "'w client \<Rightarrow> NamespaceSpec \<Rightarrow> bool \<Rightarrow> ('w multiPlanning, bool) go" where
  "reconcileNamespace cl namespace invalidFound =
     bind (validateNamespace cl namespace) (\<lambda>message.
     bind (if message \<noteq> []
           then bind (draw (c_Now cl)) (\<lambda>now. onMultiConditions (SetCondition now (mkCondition InvalidNamespace ConditionTrue [] [] message)))
           else ret ()) (\<lambda>_.
     bind (gets q_Plan) (\<lambda>plan.
     bind (getNamespacePlan cl (om_Name (mp_Meta plan)) namespace) (\<lambda>x.
     bind (case x of
         None \<Rightarrow> createNamespacePlan cl plan namespace
       | Some namespacedPlan \<Rightarrow>
           if \<not> isChildOwnedByPlan namespacedPlan plan
           then bind (deleteChildPlan cl namespacedPlan) (\<lambda>_. createNamespacePlan cl plan namespace)
           else onMultiPlan (updateNamespacePlanStatus namespacedPlan)) (\<lambda>_.
     ret (invalidFound \<or> message \<noteq> []))))))"

text \<open>From the loop to the end: the status, then the metadata if it differs from the copy.\<close>

definition persistMultiPlan :: "'w client \<Rightarrow> MultiPlan \<Rightarrow> ('w multiPlanning, unit) go" where
  "persistMultiPlan cl originalPlan =
     bind (gets q_Plan) (\<lambda>plan.
     let compareStatus = MultiPlanStatus_CopyTimestamps (mp_Status originalPlan) (Some (mp_Status plan)) in
     bind (if compareStatus \<noteq> mp_Status plan
           then bind (request (UpdateMultiPlanStatus plan) (c_UpdateMultiPlanStatus cl plan)) (\<lambda>p. onMultiPlan (\<lambda>_. p))
           else ret ()) (\<lambda>_.
     bind (onMultiPlan (\<lambda>p. p\<lparr>mp_Status := mp_Status plan\<rparr>)) (\<lambda>_.
     bind (gets q_Plan) (\<lambda>plan1.
       if mp_Meta originalPlan \<noteq> mp_Meta plan1
       then bind (request (UpdateMultiPlan plan1) (c_UpdateMultiPlan cl plan1)) (\<lambda>_. ret ())
       else ret ()))))"

definition reconcileMultiPlan :: "'w client \<Rightarrow> ('w multiPlanning, int) go" where
  "reconcileMultiPlan cl =
     bind (gets q_Plan) (\<lambda>plan.
     bind (if multiNamespaceStorageMigPlanFinalizer \<notin> set (om_Finalizers (mp_Meta plan)) then
             let held = plan\<lparr>mp_Meta := (mp_Meta plan)\<lparr>om_Finalizers :=
               om_Finalizers (mp_Meta plan) @ [multiNamespaceStorageMigPlanFinalizer]\<rparr>\<rparr> in
             bind (request (UpdateMultiPlan held) (c_UpdateMultiPlan cl held)) (\<lambda>p. onMultiPlan (\<lambda>_. p))
           else ret ()) (\<lambda>_.
     bind (gets q_Plan) (\<lambda>originalPlan.
     bind (if om_DeletionTimestamp (mp_Meta originalPlan) = None then isMultiPlanCompleted cl originalPlan else ret False) (\<lambda>done.
       if done then ret 0
       else bind (foldE (reconcileNamespace cl) (mp_Namespaces originalPlan) False) (\<lambda>invalidNamespaceFound.
         bind (if \<not> invalidNamespaceFound then onMultiConditions (DeleteCondition [InvalidNamespace]) else ret ()) (\<lambda>_.
         bind (persistMultiPlan cl originalPlan) (\<lambda>_. ret 0)))))))"

definition multiStart :: "'w sys \<Rightarrow> MultiPlan \<Rightarrow> 'w multiPlanning" where
  "multiStart s plan = \<lparr>world = world s, trace = trace s, q_Plan = plan\<rparr>"

definition withMultiPlan :: "MultiPlan \<Rightarrow> ('w multiPlanning, 'a) go \<Rightarrow> ('w sys, 'a) go" where
  "withMultiPlan plan m = (\<lambda>s. case m (multiStart s plan) of (r, t) \<Rightarrow> (r, s\<lparr>world := world t, trace := trace t\<rparr>))"

definition MultiPlan_Reconcile :: "'w client \<Rightarrow> string \<Rightarrow> string \<Rightarrow> ('w sys, int) go" where
  "MultiPlan_Reconcile cl ns name =
     bind (attempt (query (c_GetMultiPlan cl ns name))) (\<lambda>r. case r of
       Inl e \<Rightarrow> if IsNotFound e then ret 0 else throw e
     | Inr plan \<Rightarrow>
         if om_DeletionTimestamp (mp_Meta plan) \<noteq> None then MultiPlan_runFinalizer cl plan
         else withMultiPlan plan (reconcileMultiPlan cl))"

definition getMultiNamespaceVirtualMachineStorageMigrationsPlanForStorageMigration ::
  "'w client \<Rightarrow> Plan \<Rightarrow> (('w, 'z) sys_scheme, (string \<times> string) list) go"
where
  "getMultiNamespaceVirtualMachineStorageMigrationsPlanForStorageMigration cl plan =
     (case parentOf multiNamespaceStorageMigPlanNameLabel multiNamespaceStorageMigPlanNamespaceLabel
         multiNamespaceStorageMigPlanNameAnnotation multiNamespaceStorageMigPlanNamespaceAnnotation (pl_Meta plan) of
       (ns, name) \<Rightarrow> bind (attempt (query (c_GetMultiPlan cl ns name))) (\<lambda>r. case r of
         Inl _ \<Rightarrow> ret []
       | Inr p \<Rightarrow> ret [(om_Namespace (mp_Meta p), om_Name (mp_Meta p))]))"


section \<open>Frames\<close>

lemma run_onMultiPlan [run]: "onMultiPlan f s = (Ok (), s\<lparr>q_Plan := f (q_Plan s)\<rparr>)"
  by (simp add: onMultiPlan_def run)

lemma emits_onMultiPlan: "frame (emits P) (onMultiPlan f)"
  by (simp add: frame_def run emits_def)

lemma emits_onMultiConditions: "frame (emits P) (onMultiConditions f)"
  unfolding onMultiConditions_def by (rule emits_onMultiPlan)

lemma emits_getNamespacePlan: "frame (emits P) (getNamespacePlan cl planName ns)"
  unfolding getNamespacePlan_def by (intro emits_obs.steps)

lemma emits_deleteChildPlan: "P (DeletePlan child) \<Longrightarrow> frame (emits P) (deleteChildPlan cl child)"
  unfolding deleteChildPlan_def by (intro emits_obs.steps)

lemma emits_validateNamespace: "frame (emits P) (validateNamespace cl ns)"
  unfolding validateNamespace_def by (intro emits_obs.steps)

lemma emits_isMultiPlanCompleted: "frame (emits P) (isMultiPlanCompleted cl plan)"
  unfolding isMultiPlanCompleted_def by (intro emits_obs.steps emits_getNamespacePlan)

section \<open>Cascading deletion\<close>

interpretation plans: cascade "listOwnedChildPlans cl" "\<lambda>child. om_DeletionTimestamp (pl_Meta child) \<noteq> None"
  "deleteChildPlan cl" DeletePlan MultiPlan_RemoveFinalizer
  "\<lambda>p. bind (request (UpdateMultiPlan p) (c_UpdateMultiPlan cl p)) (\<lambda>_. ret ())" "MultiPlan_runFinalizer cl"
proof unfold_locales
  show "frame (emits (\<lambda>_. False)) (listOwnedChildPlans cl p)" for p
    unfolding listOwnedChildPlans_def by (intro emits_obs.steps)
  show "frame (emits (\<lambda>a. a = DeletePlan c)) (deleteChildPlan cl c)" for c
    by (intro emits_deleteChildPlan) simp
qed (simp add: MultiPlan_runFinalizer_def Let_def bind_assoc cong: if_cong)

section \<open>Children\<close>

text \<open>
  A well-formed child plan of a parent: it lives in a namespace of the spec under the derived
  name, carries the UID of the parent, moves the VMs that the spec names for the namespace, and
  deletes the sources exactly when the parent or the namespace asks for it.
\<close>

definition properChild :: "MultiPlan \<Rightarrow> Plan \<Rightarrow> bool" where
  "properChild p q \<longleftrightarrow> (\<exists>ns \<in> set (mp_Namespaces p). \<exists>spec. nsp_Spec ns = Some spec
     \<and> om_Namespace (pl_Meta q) = nsp_Name ns
     \<and> om_Name (pl_Meta q) = GetNamespacedPlanName (om_Name (mp_Meta p)) (nsp_Name ns)
     \<and> isChildOwnedByPlan q p
     \<and> spec_VirtualMachines (pl_Spec q) = spec_VirtualMachines spec
     \<and> (spec_RetentionPolicy (pl_Spec q) = Some RetentionPolicyDeleteSource \<longleftrightarrow>
         mp_RetentionPolicy p = Some RetentionPolicyDeleteSource \<or> spec_RetentionPolicy spec = Some RetentionPolicyDeleteSource))"

lemma inheritedPolicy_delete:
  "inheritedPolicy parent own = Some RetentionPolicyDeleteSource \<longleftrightarrow>
   parent = Some RetentionPolicyDeleteSource \<or> own = Some RetentionPolicyDeleteSource"
proof -
  have "x = Some RetentionPolicyDeleteSource \<longleftrightarrow> x \<noteq> None \<and> x \<noteq> Some RetentionPolicyKeepSource" for x :: "RetentionPolicy option"
    using RetentionPolicy.exhaust by (metis option.exhaust option.inject option.distinct(1) RetentionPolicy.distinct(1))
  then show ?thesis by (simp add: inheritedPolicy_def)
qed

lemma namespacePlanFor_proper:
  "ns \<in> set (mp_Namespaces p) \<Longrightarrow> nsp_Spec ns = Some spec \<Longrightarrow> properChild p (namespacePlanFor p ns spec)"
  unfolding properChild_def
  by (intro bexI[of _ ns] exI[of _ spec])
    (simp_all add: namespacePlanFor_def childMeta_def isChildOwnedByPlan_def labelledWith_def inheritedPolicy_delete)


text \<open>The same parent, up to its status and the metadata that the API server manages.\<close>

definition sameParent :: "MultiPlan \<Rightarrow> MultiPlan \<Rightarrow> bool" where
  "sameParent p q \<longleftrightarrow> om_Name (mp_Meta q) = om_Name (mp_Meta p) \<and> om_UID (mp_Meta q) = om_UID (mp_Meta p)
     \<and> mp_Namespaces q = mp_Namespaces p \<and> mp_RetentionPolicy q = mp_RetentionPolicy p"

text \<open>What a reconcile of a parent that is not being deleted may ask for.\<close>

fun parentAct :: "MultiPlan \<Rightarrow> act \<Rightarrow> bool" where
  "parentAct p (CreatePlan q) = properChild p q"
| "parentAct p (DeletePlan q) = (\<not> isChildOwnedByPlan q p)"
| "parentAct p (UpdateMultiPlan q) = sameParent p q"
| "parentAct p (UpdateMultiPlanStatus q) = sameParent p q"
| "parentAct p _ = False"

lemma sameParent_owned: "sameParent p q \<Longrightarrow> isChildOwnedByPlan c q = isChildOwnedByPlan c p"
  by (simp add: sameParent_def isChildOwnedByPlan_def)

lemma sameParent_act: "sameParent p q \<Longrightarrow> parentAct q a = parentAct p a"
  by (cases a) (auto simp: properChild_def isChildOwnedByPlan_def sameParent_def)

lemma emits_createNamespacePlan:
  assumes "ns \<in> set (mp_Namespaces p)"
  shows "frame (emits (parentAct p)) (createNamespacePlan cl p ns)"
  unfolding createNamespacePlan_def
proof (rule frame_bind_result[OF emits_preorder frame_liftR[OF emits_preorder]])
  fix s :: "('a, 'b) sys_scheme" and spec t
  assume "liftR (deref (nsp_Spec ns)) s = (Ok spec, t)"
  then have "nsp_Spec ns = Some spec" by (simp add: run deref_eq_Ok)
  then have "parentAct p (CreatePlan (namespacePlanFor p ns spec))" by (simp add: namespacePlanFor_proper assms)
  then show "frame (emits (parentAct p)) (let namespacePlan = namespacePlanFor p ns spec in
     bind (attempt (request (CreatePlan namespacePlan) (c_CreatePlan cl namespacePlan))) (\<lambda>r. case r of
       Inr _ \<Rightarrow> ret ()
     | Inl e \<Rightarrow>
         if \<not> IsAlreadyExists e then throw e
         else bind (getNamespacePlan cl (om_Name (mp_Meta p)) ns) (\<lambda>x. case x of
           None \<Rightarrow> request (CreatePlan namespacePlan) (c_CreatePlan cl namespacePlan)
         | Some existing \<Rightarrow>
             if isChildOwnedByPlan existing p then ret ()
             else bind (deleteChildPlan cl existing) (\<lambda>_.
               request (CreatePlan namespacePlan) (c_CreatePlan cl namespacePlan)))))"
    unfolding Let_def by (intro emits_obs.steps emits_getNamespacePlan emits_deleteChildPlan; simp)
qed


text \<open>The local copy stays a copy of the parent, and every request is admitted for it.\<close>

definition tends :: "MultiPlan \<Rightarrow> 'w multiPlanning \<Rightarrow> 'w multiPlanning \<Rightarrow> bool" where
  "tends p s t \<longleftrightarrow> (sameParent p (q_Plan s) \<longrightarrow> sameParent p (q_Plan t) \<and> emits (parentAct p) s t)"

interpretation tends: observer "tends p"
proof unfold_locales
  show "preorder_rel (tends p)"
    by (rule preorder_relI) (auto simp: tends_def intro: preorder_refl[OF emits_preorder] preorder_trans[OF emits_preorder])
qed (simp add: tends_def emits_world)

lemma tends_gets: "(\<And>plan. sameParent p plan \<Longrightarrow> frame (tends p) (k plan)) \<Longrightarrow> frame (tends p) (bind (gets q_Plan) k)"
  by (auto simp: frame_def run tends_def)

lemma tends_onMultiPlan: "(\<And>q. sameParent q (f q)) \<Longrightarrow> frame (tends p) (onMultiPlan f)"
  by (auto simp: frame_def run tends_def emits_def sameParent_def)

lemma tends_onMultiConditions: "frame (tends p) (onMultiConditions f)"
  unfolding onMultiConditions_def by (rule tends_onMultiPlan) (simp add: sameParent_def)

lemma tends_silent: "frame (emits (parentAct p)) m \<Longrightarrow> (\<And>s. q_Plan (snd (m s)) = q_Plan s) \<Longrightarrow> frame (tends p) m"
  by (simp add: frame_def tends_def)

lemma tends_request: "parentAct p a \<Longrightarrow> frame (tends p) (request a f)"
  by (rule frame_request) (simp add: tends_def emits_def)

lemma tends_getNamespacePlan: "frame (tends p) (getNamespacePlan cl planName ns)"
  unfolding getNamespacePlan_def by (intro tends.steps)

lemma tends_deleteChildPlan: "\<not> isChildOwnedByPlan child p \<Longrightarrow> frame (tends p) (deleteChildPlan cl child)"
  unfolding deleteChildPlan_def by (intro tends.steps tends_request) simp_all

lemma tends_createNamespacePlan:
  fixes cl :: "'w client"
  assumes "sameParent p plan" "ns \<in> set (mp_Namespaces p)"
  shows "frame (tends p) (createNamespacePlan cl plan ns)"
proof (rule tends_silent)
  have "ns \<in> set (mp_Namespaces plan)" using assms by (simp add: sameParent_def)
  then show "frame (emits (parentAct p)) (createNamespacePlan cl plan ns)"
    by (rule frame_weaken[OF emits_createNamespacePlan]) (auto elim!: emits_mono simp: sameParent_act[OF assms(1)])
  have "frame (\<lambda>(s :: 'w multiPlanning) t. q_Plan t = q_Plan s) (createNamespacePlan cl plan ns)"
    unfolding createNamespacePlan_def getNamespacePlan_def deleteChildPlan_def Let_def
    by (intro frame frame_request) simp_all
  then show "q_Plan (snd (createNamespacePlan cl plan ns s)) = q_Plan s" for s :: "'w multiPlanning" by (simp add: frame_def)
qed

lemma tends_reconcileNamespace:
  assumes "ns \<in> set (mp_Namespaces p)"
  shows "frame (tends p) (reconcileNamespace cl ns b)"
proof -
  have status: "sameParent q (updateNamespacePlanStatus c q)" for c q
    by (simp add: updateNamespacePlanStatus_def sameParent_def Let_def)
  show ?thesis
    unfolding reconcileNamespace_def validateNamespace_def
    by (intro tends_gets tends_onMultiConditions tends_getNamespacePlan tends_createNamespacePlan assms tends_onMultiPlan status
        tends.steps tends_deleteChildPlan; simp add: sameParent_owned)
qed


lemma tends_store:
  assumes "\<And>w q w'. f w = (Inr q, w') \<Longrightarrow> sameParent p q" "parentAct p a"
  shows "frame (tends p) (bind (request a f) (\<lambda>q. onMultiPlan (\<lambda>_. q)))"
  using assms by (auto simp: frame_def tends_def run emits_def split: prod.splits sum.splits)

lemma sameParent_trans: "sameParent p q \<Longrightarrow> sameParent q r \<Longrightarrow> sameParent p r"
  by (simp add: sameParent_def)

lemma tends_reconcileMultiPlan:
  assumes "\<And>h w q w'. c_UpdateMultiPlan cl h w = (Inr q, w') \<Longrightarrow> sameParent h q"
    "\<And>h w q w'. c_UpdateMultiPlanStatus cl h w = (Inr q, w') \<Longrightarrow> sameParent h q"
  shows "frame (tends p) (reconcileMultiPlan cl)"
proof -
  have hold: "frame (tends p) (let held = plan\<lparr>mp_Meta := (mp_Meta plan)\<lparr>om_Finalizers :=
      om_Finalizers (mp_Meta plan) @ [multiNamespaceStorageMigPlanFinalizer]\<rparr>\<rparr> in
    bind (request (UpdateMultiPlan held) (c_UpdateMultiPlan cl held)) (\<lambda>p. onMultiPlan (\<lambda>_. p)))" if "sameParent p plan" for plan
    unfolding Let_def using that assms(1) by (intro tends_store) (fastforce simp: sameParent_def)+
  have status: "frame (tends p) (bind (request (UpdateMultiPlanStatus plan) (c_UpdateMultiPlanStatus cl plan)) (\<lambda>p. onMultiPlan (\<lambda>_. p)))"
    if "sameParent p plan" for plan
    using that assms(2) by (intro tends_store) (auto intro: sameParent_trans)
  have persist: "frame (tends p) (persistMultiPlan cl orig)" for orig
    unfolding persistMultiPlan_def
    by (intro tends_gets frame_Let frame_bind frame_if tends.preorder frame_ret status tends_onMultiPlan tends_request)
      (simp_all add: sameParent_def)
  have fin: "frame (tends p) (isMultiPlanCompleted cl q)" for q
    unfolding isMultiPlanCompleted_def by (intro tends_getNamespacePlan tends.steps)
  show ?thesis
    unfolding reconcileMultiPlan_def
    by (intro tends_gets hold frame_bind frame_if frame_foldE tends.preorder frame_ret fin persist tends_onMultiConditions
        tends_reconcileNamespace) (simp_all add: sameParent_def)
qed

text \<open>
  What a whole reconcile may ask for.  A plan that is being deleted drops its own children that
  are not already on their way, and is released; one that is not tends its children.
\<close>

definition multiPlanAct :: "MultiPlan \<Rightarrow> act \<Rightarrow> bool" where
  "multiPlanAct p a \<longleftrightarrow> (if om_DeletionTimestamp (mp_Meta p) = None then parentAct p a
     else (\<exists>q. a = DeletePlan q \<and> isChildOwnedByPlan q p \<and> om_DeletionTimestamp (pl_Meta q) = None)
       \<or> a = UpdateMultiPlan (MultiPlan_RemoveFinalizer p))"

lemma listed_plan_owned:
  assumes "\<And>k v w cs w' c. c_ListPlansByLabel cl k v w = (Inr cs, w') \<Longrightarrow> c \<in> set cs \<Longrightarrow> om_Labels (pl_Meta c) k = Some v"
    "listOwnedChildPlans cl p u = (Ok cs, t)" "c \<in> set cs"
  shows "isChildOwnedByPlan c p"
proof -
  obtain w where "c_ListPlansByLabel cl multiNamespaceStorageMigPlanUIDLabel (om_UID (mp_Meta p)) (world u) = (Inr cs, w)"
    using assms(2) by (auto simp: listOwnedChildPlans_def run split: prod.splits sum.splits)
  from assms(1)[OF this assms(3)] show ?thesis by (simp add: isChildOwnedByPlan_def labelledWith_def)
qed

lemma plan_finalizer_acts:
  fixes cl :: "'w client"
  assumes "\<And>k v w cs w' c. c_ListPlansByLabel cl k v w = (Inr cs, w') \<Longrightarrow> c \<in> set cs \<Longrightarrow> om_Labels (pl_Meta c) k = Some v"
    "om_DeletionTimestamp (mp_Meta p) \<noteq> None"
  shows "frame (emits (multiPlanAct p)) (MultiPlan_runFinalizer cl p)"
proof (rule plans.finalize_emits)
  show "frame (emits (multiPlanAct p)) (bind (request (UpdateMultiPlan (MultiPlan_RemoveFinalizer p))
      (c_UpdateMultiPlan cl (MultiPlan_RemoveFinalizer p))) (\<lambda>_. ret ()))"
    using assms(2) by (intro emits_obs.steps) (auto simp: multiPlanAct_def)
  fix a
  assume "plans.dropsListed TYPE('w) cl p a"
  then show "multiPlanAct p a"
    unfolding plans.dropsListed_def using assms(2) listed_plan_owned[OF assms(1)] by (auto simp: multiPlanAct_def)
qed

lemma reconcileMultiPlan_acts:
  assumes "\<And>h w q w'. c_UpdateMultiPlan cl h w = (Inr q, w') \<Longrightarrow> sameParent h q"
    "\<And>h w q w'. c_UpdateMultiPlanStatus cl h w = (Inr q, w') \<Longrightarrow> sameParent h q"
  shows "emits (parentAct p) s (snd (withMultiPlan p (reconcileMultiPlan cl) s))"
proof -
  let ?u = "multiStart s p"
  have "tends p ?u (snd (reconcileMultiPlan cl ?u))"
    by (rule frameD2[OF tends_reconcileMultiPlan[OF assms]])
  then have "emits (parentAct p) ?u (snd (reconcileMultiPlan cl ?u))"
    by (simp add: tends_def multiStart_def sameParent_def)
  then show ?thesis by (auto simp: withMultiPlan_def emits_def multiStart_def split: prod.splits)
qed

text \<open>
  C29. What a multi-namespace plan does to plans.  A whole reconcile of a plan that could be read
  and is not being deleted creates only proper child plans of the plan it read, deletes only
  plans that are not its own, and otherwise only writes the parent; one of a plan that is being
  deleted deletes only its own children, and otherwise only takes the finalizer off.  When the
  plan cannot be read nothing is sent.  The hypotheses are that the API server answers an update
  with the object it was sent, up to the fields it manages, and that a listing by a label shows
  only objects with that label.
\<close>

theorem multi_plan_tends_children:
  assumes "\<And>h w q w'. c_UpdateMultiPlan cl h w = (Inr q, w') \<Longrightarrow> sameParent h q"
    "\<And>h w q w'. c_UpdateMultiPlanStatus cl h w = (Inr q, w') \<Longrightarrow> sameParent h q"
    "\<And>k v w cs w' c. c_ListPlansByLabel cl k v w = (Inr cs, w') \<Longrightarrow> c \<in> set cs \<Longrightarrow> om_Labels (pl_Meta c) k = Some v"
  shows "case fst (c_GetMultiPlan cl ns name (world s)) of
      Inl e \<Rightarrow> trace (snd (MultiPlan_Reconcile cl ns name s)) = trace s
    | Inr p \<Rightarrow> emits (multiPlanAct p) s (snd (MultiPlan_Reconcile cl ns name s))"
proof (cases "c_GetMultiPlan cl ns name (world s)")
  case (Pair r w)
  show ?thesis
  proof (cases r)
    case (Inr p)
    let ?s = "s\<lparr>world := w\<rparr>"
    have "emits (multiPlanAct p) ?s (snd (MultiPlan_Reconcile cl ns name s))"
    proof (cases "om_DeletionTimestamp (mp_Meta p) = None")
      case True
      then show ?thesis
        using reconcileMultiPlan_acts[where cl = cl and p = p and s = ?s, OF assms(1,2)] Pair Inr
        by (auto simp: MultiPlan_Reconcile_def run multiPlanAct_def emits_def split: prod.splits result.splits)
    next
      case False
      then show ?thesis
        using frameD2[OF plan_finalizer_acts[where cl = cl and p = p, OF assms(3) False], where s = ?s] Pair Inr by (simp add: MultiPlan_Reconcile_def run)
    qed
    then show ?thesis using Pair Inr by (simp add: emits_def)
  qed (use Pair in \<open>simp add: MultiPlan_Reconcile_def run\<close>)
qed

text \<open>The deletion of a child that a listing by the UID of the parent showed.\<close>

definition dropsChildPlan :: "'w client \<Rightarrow> MultiPlan \<Rightarrow> act \<Rightarrow> bool" where
  "dropsChildPlan cl p a \<longleftrightarrow> (\<exists>c cs w w'. c_ListPlansByLabel cl multiNamespaceStorageMigPlanUIDLabel (om_UID (mp_Meta p)) w = (Inr cs, w')
     \<and> c \<in> set cs \<and> om_DeletionTimestamp (pl_Meta c) = None \<and> a = DeletePlan c)"

lemma plans_drops:
  fixes s :: "'w sys"
  shows "emits (plans.dropsListed TYPE('w) cl p) s t \<Longrightarrow> emits (dropsChildPlan cl p) s t"
  unfolding plans.dropsListed_def
  by (erule emits_mono) (fastforce simp: dropsChildPlan_def listOwnedChildPlans_def run split: prod.splits sum.splits)

text \<open>
  C30. The finalizer of a multi-namespace plan.  A run over a plan being deleted only deletes
  children it listed, except that it may end with the release of the plan, and then directly
  after a listing that found no child left; only then it reports that it is done.
\<close>

theorem multi_plan_released_childless:
  assumes "MultiPlan_runFinalizer cl p s = (r, t)"
  shows "(\<exists>u v x. emits (dropsChildPlan cl p) s u \<and> listOwnedChildPlans cl p u = (Ok [], v)
       \<and> request (UpdateMultiPlan (MultiPlan_RemoveFinalizer p)) (c_UpdateMultiPlan cl (MultiPlan_RemoveFinalizer p)) v = (x, t)
       \<and> (r = Ok 0 \<longleftrightarrow> (\<exists>q. x = Ok q)))
    \<or> emits (dropsChildPlan cl p) s t \<and> r \<noteq> Ok 0"
  using plans.finalize_runs[OF assms]
  by (fastforce simp: run_bind run_ret dest: plans_drops split: prod.splits result.splits)

section \<open>The status of the namespaces\<close>

lemma Compare_less: "Compare a b < 0 \<longleftrightarrow> a < b"
  by (simp add: Compare_def)

lemma keyed_perm:
  assumes "mset xs = mset ys" "distinct (map key ys)"
  shows "keyed key xs = keyed key ys"
proof
  fix k
  have d: "distinct (map key xs)" using assms by (metis mset_eq_imp_distinct_iff mset_map)
  have e: "set xs = set ys" using assms(1) by (rule mset_eq_setD)
  show "keyed key xs k = keyed key ys k"
  proof (cases "k \<in> key ` set ys")
    case True
    then obtain x where "x \<in> set ys" "key x = k" by blast
    then show ?thesis using keyed_distinct[OF d] keyed_distinct[OF assms(2)] e by auto
  next
    case False
    then show ?thesis using e by (simp add: keyed_None[THEN iffD2])
  qed
qed

lemma keyed_replace_at:
  "keyed key (map (\<lambda>x. if key x = key e then e else x) xs) k =
   (if k = key e \<and> list_ex (\<lambda>x. key x = key e) xs then Some e else keyed key xs k)"
  by (induction xs) auto

lemma keyed_replace:
  "list_ex (\<lambda>x. key x = key e) xs \<Longrightarrow> keyed key (map (\<lambda>x. if key x = key e then e else x) xs) = (keyed key xs)(key e \<mapsto> e)"
  by (rule ext) (simp add: keyed_replace_at)

text \<open>
  C31. The status of a multi-namespace plan refines a map from namespaces to child statuses: for
  a list without duplicates, recording a child overwrites the entry of its namespace and no
  other, adds it if there is none, and leaves the list sorted by name and free of duplicates.
\<close>

theorem namespace_status_refines_map:
  assumes "distinct (map nst_Name (mps_Namespaces (mp_Status p)))"
    "nss = mps_Namespaces (mp_Status (updateNamespacePlanStatus c p))" "n = om_Namespace (pl_Meta c)"
  shows "keyed nst_Name nss = (keyed nst_Name (mps_Namespaces (mp_Status p)))(n \<mapsto> \<lparr>nst_Name = n, nst_Status = Some (pl_Status c)\<rparr>)
    \<and> distinct (map nst_Name nss) \<and> sorted (map nst_Name nss)"
proof -
  let ?cmp = "\<lambda>a b. Compare (nst_Name a) (nst_Name b)"
  let ?e = "\<lparr>nst_Name = n, nst_Status = Some (pl_Status c)\<rparr>"
  define old where "old = SortFunc ?cmp (mps_Namespaces (mp_Status p))"
  define new where "new = (let r = map (\<lambda>x. if nst_Name x = n then ?e else x) old in
    if list_ex (\<lambda>x. nst_Name x = n) old then r else r @ [?e])"
  have nss: "nss = SortFunc ?cmp new"
    by (simp add: assms(2) updateNamespacePlanStatus_def old_def new_def Let_def flip: assms(3))
  have old: "distinct (map nst_Name old)" "keyed nst_Name old = keyed nst_Name (mps_Namespaces (mp_Status p))"
    using assms(1) unfolding old_def by (simp, intro keyed_perm mset_SortFunc)
  have names: "map nst_Name (map (\<lambda>x. if nst_Name x = n then ?e else x) old) = map nst_Name old" by simp
  have absent: "map (\<lambda>x. if nst_Name x = n then ?e else x) old = old" if "\<not> list_ex (\<lambda>x. nst_Name x = n) old"
    using that by (intro map_idI) (auto simp: list_ex_iff)
  have new: "distinct (map nst_Name new)"
  proof (cases "list_ex (\<lambda>x. nst_Name x = n) old")
    case True
    then show ?thesis unfolding new_def Let_def using old(1) names by (simp only: if_True)
  next
    case False
    then show ?thesis unfolding new_def Let_def using old(1) absent by (auto simp: list_ex_iff)
  qed
  have "keyed nst_Name new = (keyed nst_Name old)(n \<mapsto> ?e)"
  proof (cases "list_ex (\<lambda>x. nst_Name x = n) old")
    case True
    then show ?thesis using keyed_replace[of nst_Name ?e old] by (simp add: new_def)
  next
    case False
    then have "keyed nst_Name old n = None" by (auto simp: keyed_None list_ex_iff)
    then show ?thesis using keyed_append_new[of nst_Name old ?e] False absent by (simp add: new_def)
  qed
  moreover have "keyed nst_Name nss = keyed nst_Name new" unfolding nss by (rule keyed_perm) (simp_all add: new)
  moreover have "sorted (map nst_Name nss)" unfolding nss by (rule sorted_SortFunc) (rule Compare_less)
  ultimately show ?thesis using new old(2) by (simp add: nss)
qed


section \<open>Completed plans\<close>

lemma getNamespacePlan_some:
  "getNamespacePlan cl planName n s = (Ok (Some q), t) \<Longrightarrow>
   \<exists>w w'. c_GetPlan cl (nsp_Name n) (GetNamespacedPlanName planName (nsp_Name n)) w = (Inr q, w')"
  unfolding getNamespacePlan_def run by (cases "c_GetPlan cl (nsp_Name n) (GetNamespacedPlanName planName (nsp_Name n)) (world s)")
    (auto simp: run split: sum.splits if_splits)

lemma loopE_all:
  assumes "loopE f xs () s = (Ok (Next ()), t)" "\<And>x s t. f x () s = (Ok (Next ()), t) \<Longrightarrow> P x"
  shows "\<forall>x \<in> set xs. P x"
  using assms(1)
proof (induction xs arbitrary: s)
  case (Cons x xs)
  obtain r u where r: "f x () s = (r, u)" by fastforce
  with Cons.prems have "r = Ok (Next ()) \<and> loopE f xs () u = (Ok (Next ()), t)"
    by (auto simp: run_bind run_ret split: result.splits flow.splits)
  with r Cons.IH assms(2) show ?case by auto
qed simp

text \<open>
  A multi-namespace plan is left alone as completed only if it names a namespace and, for
  every namespace it names, both the recorded status and the status of the child plan just read
  show all VMs of the namespace as completed.
\<close>

theorem multi_plan_completed_sound:
  assumes "isMultiPlanCompleted cl p s = (Ok True, t)"
  shows "mp_Namespaces p \<noteq> [] \<and> (\<forall>n \<in> set (mp_Namespaces p). \<exists>spec st q w w'. nsp_Spec n = Some spec
    \<and> \<lparr>nst_Name = nsp_Name n, nst_Status = Some st\<rparr> \<in> set (mps_Namespaces (mp_Status p))
    \<and> PlanStatusShowsCompleted (spec_VirtualMachines spec) (Some st)
    \<and> c_GetPlan cl (nsp_Name n) (GetNamespacedPlanName (om_Name (mp_Meta p)) (nsp_Name n)) w = (Inr q, w')
    \<and> PlanStatusShowsCompleted (spec_VirtualMachines spec) (Some (pl_Status q)))"
proof -
  have recorded: "statusByNamespace nss k = Some st \<Longrightarrow> \<lparr>nst_Name = k, nst_Status = Some st\<rparr> \<in> set nss" for nss k st
  proof (induction nss rule: rev_induct)
    case (snoc x xs)
    then show ?case by (cases x) (auto simp: statusByNamespace_def split: option.splits if_splits)
  qed (simp add: statusByNamespace_def)
  have byStatus: "multiPlanCompletedByStatus p"
    using assms by (auto simp: isMultiPlanCompleted_def run split: if_splits)
  obtain u where loop: "loopE (\<lambda>namespace _.
      bind (getNamespacePlan cl (om_Name (mp_Meta p)) namespace) (\<lambda>x. case x of
        None \<Rightarrow> ret (Leave ())
      | Some c \<Rightarrow> if \<not> namespacePlanStatusCompleted (nsp_Spec namespace) (Some (pl_Status c)) then ret (Leave ()) else ret (Next ())))
    (mp_Namespaces p) () s = (Ok (Next ()), u)"
    using assms byStatus
    by (auto simp: isMultiPlanCompleted_def run_bind run_ret split: prod.splits result.splits flow.splits)
  have read: "\<forall>n \<in> set (mp_Namespaces p). \<exists>q w w'. c_GetPlan cl (nsp_Name n) (GetNamespacedPlanName (om_Name (mp_Meta p)) (nsp_Name n)) w = (Inr q, w')
    \<and> namespacePlanStatusCompleted (nsp_Spec n) (Some (pl_Status q))"
    by (rule loopE_all[OF loop])
      (auto simp: run_bind run_ret split: prod.splits result.splits option.splits if_splits, blast dest: getNamespacePlan_some)
  show ?thesis
  proof (intro conjI ballI)
    show "mp_Namespaces p \<noteq> []" using byStatus by (simp add: multiPlanCompletedByStatus_def)
    fix n
    assume n: "n \<in> set (mp_Namespaces p)"
    with byStatus have "nsp_Spec n \<noteq> None \<and> (case statusByNamespace (mps_Namespaces (mp_Status p)) (nsp_Name n) of
        None \<Rightarrow> False | Some st \<Rightarrow> namespacePlanStatusCompleted (nsp_Spec n) (Some st))"
      unfolding multiPlanCompletedByStatus_def list_all_iff by blast
    then obtain spec st where "nsp_Spec n = Some spec"
      "statusByNamespace (mps_Namespaces (mp_Status p)) (nsp_Name n) = Some st" "namespacePlanStatusCompleted (Some spec) (Some st)"
      by (auto split: option.splits)
    with read n recorded show "\<exists>spec st q w w'. nsp_Spec n = Some spec
      \<and> \<lparr>nst_Name = nsp_Name n, nst_Status = Some st\<rparr> \<in> set (mps_Namespaces (mp_Status p))
      \<and> PlanStatusShowsCompleted (spec_VirtualMachines spec) (Some st)
      \<and> c_GetPlan cl (nsp_Name n) (GetNamespacedPlanName (om_Name (mp_Meta p)) (nsp_Name n)) w = (Inr q, w')
      \<and> PlanStatusShowsCompleted (spec_VirtualMachines spec) (Some (pl_Status q))"
      by (fastforce simp: namespacePlanStatusCompleted_def)
  qed
qed

section \<open>Invalid namespaces\<close>

text \<open>
  An invalid namespace is not reported.  When the first namespace of the spec has no plan
  spec and no child yet, the reconcile panics; when the namespace does not exist and creating
  the child in it fails, the reconcile returns that error.  Either way it ends before the status
  with the condition \<open>InvalidNamespace\<close> is written.
\<close>

theorem invalid_namespace_unreported:
  assumes "c_GetMultiPlan cl ns name (world s) = (Inr p, w)" "om_DeletionTimestamp (mp_Meta p) = None"
    "multiNamespaceStorageMigPlanFinalizer \<in> set (om_Finalizers (mp_Meta p))" "\<not> multiPlanCompletedByStatus p"
    "mp_Namespaces p = n # rest"
    "\<And>w. c_GetPlan cl (nsp_Name n) (GetNamespacedPlanName (om_Name (mp_Meta p)) (nsp_Name n)) w = (Inl (NotFoundErr x), w)"
    "\<And>w. c_GetNamespace cl (nsp_Name n) w = (Inl (NotFoundErr y), w)"
    "\<And>q w. c_CreatePlan cl q w = (Inl e, w)" "\<not> IsAlreadyExists e"
    "MultiPlan_Reconcile cl ns name s = (r, t)"
  shows "case nsp_Spec n of
      None \<Rightarrow> (\<exists>msg. r = Panic msg) \<and> trace t = trace s
    | Some spec \<Rightarrow> r = Err e \<and> trace t = trace s @ [(CreatePlan (namespacePlanFor p n spec), Some e)]"
proof -
  let ?u = "multiStart (s\<lparr>world := w\<rparr>) p"
  obtain now w' where now: "c_Now cl w = (now, w')" by fastforce
  have created: "namespacePlanFor (p\<lparr>mp_Status := st\<rparr>) n spec = namespacePlanFor p n spec" for st spec
    by (simp add: namespacePlanFor_def)
  note body = reconcileNamespace_def validateNamespace_def getNamespacePlan_def createNamespacePlan_def onMultiConditions_def
    deref_def Let_def multiStart_def created
  obtain q v where q: "reconcileNamespace cl n False ?u = (q, v)" by fastforce
  have v: "case nsp_Spec n of
      None \<Rightarrow> (\<exists>msg. q = Panic msg) \<and> trace v = trace s
    | Some spec \<Rightarrow> q = Err e \<and> trace v = trace s @ [(CreatePlan (namespacePlanFor p n spec), Some e)]"
    using q now assms(6-9) by (cases "nsp_Spec n") (auto simp: body run split: prod.splits)
  have "reconcileMultiPlan cl ?u = bind (foldE (reconcileNamespace cl) (n # rest) False) (\<lambda>invalidNamespaceFound.
         bind (if \<not> invalidNamespaceFound then onMultiConditions (DeleteCondition [InvalidNamespace]) else ret ()) (\<lambda>_.
         bind (persistMultiPlan cl p) (\<lambda>_. ret 0))) ?u"
    using assms(2-5) by (simp add: reconcileMultiPlan_def isMultiPlanCompleted_def run_bind[of "gets g" for g] run_gets multiStart_def)
  with q v have "case nsp_Spec n of
      None \<Rightarrow> (\<exists>msg. fst (reconcileMultiPlan cl ?u) = Panic msg) \<and> trace (snd (reconcileMultiPlan cl ?u)) = trace s
    | Some spec \<Rightarrow> fst (reconcileMultiPlan cl ?u) = Err e
        \<and> trace (snd (reconcileMultiPlan cl ?u)) = trace s @ [(CreatePlan (namespacePlanFor p n spec), Some e)]"
    by (cases "nsp_Spec n") (auto simp: run_bind)
  then show ?thesis
    using assms(1,2,10) by (auto simp: MultiPlan_Reconcile_def run withMultiPlan_def split: prod.splits option.splits)
qed


section \<open>Two parents of one name\<close>

text \<open>
  The name of a child does not depend on the namespace of its parent, so two plans of the
  same name in different namespaces share the child of a namespace they both name: the
  reconcile of either first deletes the child the other has made.
\<close>

theorem same_named_parents_fight:
  assumes "om_Name (mp_Meta (q_Plan s)) = om_Name (mp_Meta p)" "om_UID (mp_Meta (q_Plan s)) \<noteq> om_UID (mp_Meta p)"
    "nsp_Spec n = Some spec" "c_GetNamespace cl (nsp_Name n) (world s) = (Inr k, w)" "kns_DeletionTimestamp k = None"
    "c_GetPlan cl (nsp_Name n) (om_Name (pl_Meta (namespacePlanFor p n spec'))) w = (Inr (namespacePlanFor p n spec'), w')"
  shows "\<exists>e rest. trace (snd (reconcileNamespace cl n b s)) = trace s @ (DeletePlan (namespacePlanFor p n spec'), e) # rest"
proof -
  let ?c = "namespacePlanFor p n spec'"
  have name: "om_Name (pl_Meta ?c) = GetNamespacedPlanName (om_Name (mp_Meta (q_Plan s))) (nsp_Name n)"
    by (simp add: namespacePlanFor_def childMeta_def assms(1))
  have "\<not> isChildOwnedByPlan ?c (q_Plan s)"
    using assms(2) by (auto simp: isChildOwnedByPlan_def labelledWith_def namespacePlanFor_def childMeta_def)
  then have steps: "reconcileNamespace cl n b s =
      bind (bind (deleteChildPlan cl ?c) (\<lambda>_. createNamespacePlan cl (q_Plan s) n)) (\<lambda>_. ret b) (s\<lparr>world := w'\<rparr>)"
    using assms(3-6) name
    by (simp add: reconcileNamespace_def validateNamespace_def getNamespacePlan_def run_bind[of "bind m f" for m f]
        run_bind[of "attempt m" for m] run_bind[of "gets g" for g] run_attempt run_query run_gets run_ret)
  obtain x v where v: "deleteChildPlan cl ?c (s\<lparr>world := w'\<rparr>) = (x, v)" by fastforce
  then have del: "\<exists>e. trace v = trace s @ [(DeletePlan ?c, e)]"
    by (auto simp: deleteChildPlan_def run split: prod.splits sum.splits if_splits)
  have "emits (\<lambda>_. True) v (snd (bind (createNamespacePlan cl (q_Plan s) n) (\<lambda>_. ret b) v))"
    by (rule frameD2) (unfold createNamespacePlan_def Let_def, intro emits_obs.steps emits_getNamespacePlan emits_deleteChildPlan TrueI)
  with v del show ?thesis
    unfolding steps by (cases x) (auto simp: run_bind emits_def split: prod.splits result.splits)
qed

section \<open>Witnesses\<close>

definition demoSpec :: PlanSpec where
  "demoSpec = \<lparr>spec_VirtualMachines = [], spec_RetentionPolicy = None\<rparr>"

definition demoMultiPlan :: "string \<Rightarrow> NamespaceSpec list \<Rightarrow> MultiPlan" where
  "demoMultiPlan uid nss = \<lparr>mp_Kind = [], mp_APIVersion = [],
     mp_Meta = emptyMeta\<lparr>om_Name := ''p'', om_Namespace := uid, om_UID := uid, om_Finalizers := [multiNamespaceStorageMigPlanFinalizer]\<rparr>,
     mp_Namespaces = nss, mp_RetentionPolicy = Some RetentionPolicyDeleteSource,
     mp_Status = \<lparr>mps_Namespaces = [], mps_Conditions = []\<rparr>\<rparr>"

definition demoNamespace :: "PlanSpec option \<Rightarrow> NamespaceSpec" where
  "demoNamespace spec = \<lparr>nsp_Name = ''x'', nsp_Spec = spec\<rparr>"

definition multiClient :: "MultiPlan \<Rightarrow> unit client" where
  "multiClient p = emptyClient\<lparr>c_GetMultiPlan := (\<lambda>ns n. yields p), c_CreatePlan := (\<lambda>q. missing)\<rparr>"

lemma multiClient_simps:
  "c_GetMultiPlan (multiClient p) ns n = yields p" "c_UpdateMultiPlan (multiClient p) = yields" "c_UpdateMultiPlanStatus (multiClient p) = yields"
  "c_GetPlan (multiClient p) ns n = missing" "c_GetNamespace (multiClient p) n = missing" "c_CreatePlan (multiClient p) q = missing"
  "c_ListPlansByLabel (multiClient p) k v = yields []"
  by (simp_all add: multiClient_def emptyClient_def)

definition demoStart :: "unit sys" where
  "demoStart = \<lparr>world = (), trace = []\<rparr>"

lemma multiClient_kept:
  "c_UpdateMultiPlan (multiClient p) h w = (Inr q, w') \<Longrightarrow> sameParent h q"
  "c_UpdateMultiPlanStatus (multiClient p) h w = (Inr q, w') \<Longrightarrow> sameParent h q"
  by (simp_all add: multiClient_simps run sameParent_def)

lemma multiClient_read:
  "c_GetMultiPlan (multiClient p) ns n (world demoStart) = (Inr p, ())"
  by (simp add: multiClient_simps yields_def)

text \<open>A plan on its way out with one child left.\<close>

definition goneMultiPlan :: MultiPlan where
  "goneMultiPlan = (demoMultiPlan ''u'' [])\<lparr>mp_Meta := (mp_Meta (demoMultiPlan ''u'' []))\<lparr>om_DeletionTimestamp := Some 5\<rparr>\<rparr>"

definition goneClient :: "unit client" where
  "goneClient = (multiClient goneMultiPlan)\<lparr>
     c_ListPlansByLabel := (\<lambda>k v. yields [emptyPlan\<lparr>pl_Meta := emptyMeta\<lparr>om_Labels := [k \<mapsto> v]\<rparr>\<rparr>]),
     c_DeletePlan := (\<lambda>q. yields ())\<rparr>"

theorem multi_plan_tends_children_witness:
  "emits (multiPlanAct goneMultiPlan) demoStart (snd (MultiPlan_Reconcile goneClient ''u'' ''p'' demoStart))
   \<and> trace (snd (MultiPlan_Reconcile goneClient ''u'' ''p'' demoStart)) =
       [(DeletePlan (emptyPlan\<lparr>pl_Meta := emptyMeta\<lparr>om_Labels := [multiNamespaceStorageMigPlanUIDLabel \<mapsto> ''u'']\<rparr>\<rparr>), None)]"
proof
  have get: "c_GetMultiPlan goneClient ns n w = (Inr goneMultiPlan, ())" for ns n w
    by (simp add: goneClient_def multiClient_simps yields_def)
  have upd: "c_UpdateMultiPlan goneClient = yields" "c_UpdateMultiPlanStatus goneClient = yields"
    by (simp_all add: goneClient_def multiClient_simps)
  have lst: "c_ListPlansByLabel goneClient k v = yields [emptyPlan\<lparr>pl_Meta := emptyMeta\<lparr>om_Labels := [k \<mapsto> v]\<rparr>\<rparr>]" for k v
    by (simp add: goneClient_def)
  have "case fst (c_GetMultiPlan goneClient ''u'' ''p'' (world demoStart)) of
      Inl e \<Rightarrow> trace (snd (MultiPlan_Reconcile goneClient ''u'' ''p'' demoStart)) = trace demoStart
    | Inr p \<Rightarrow> emits (multiPlanAct p) demoStart (snd (MultiPlan_Reconcile goneClient ''u'' ''p'' demoStart))"
    by (rule multi_plan_tends_children) (auto simp: upd lst yields_def sameParent_def)
  then show "emits (multiPlanAct goneMultiPlan) demoStart (snd (MultiPlan_Reconcile goneClient ''u'' ''p'' demoStart))"
    by (simp add: get)
  have del: "c_DeletePlan goneClient q = yields ()" for q
    by (simp add: goneClient_def multiClient_def emptyClient_def)
  show "trace (snd (MultiPlan_Reconcile goneClient ''u'' ''p'' demoStart)) =
       [(DeletePlan (emptyPlan\<lparr>pl_Meta := emptyMeta\<lparr>om_Labels := [multiNamespaceStorageMigPlanUIDLabel \<mapsto> ''u'']\<rparr>\<rparr>), None)]"
    by (simp add: MultiPlan_Reconcile_def MultiPlan_runFinalizer_def listOwnedChildPlans_def deleteChildPlan_def get lst del run
        yields_def demoStart_def goneMultiPlan_def demoMultiPlan_def emptyMeta_def Let_def)
qed

theorem multi_plan_released_childless_witness:
  "trace (snd (MultiPlan_runFinalizer (multiClient (demoMultiPlan ''u'' [])) (demoMultiPlan ''u'' []) demoStart))
     = [(UpdateMultiPlan (MultiPlan_RemoveFinalizer (demoMultiPlan ''u'' [])), None)]"
proof -
  let ?p = "demoMultiPlan ''u'' []" and ?c = "multiClient (demoMultiPlan ''u'' [])"
  obtain t where t: "MultiPlan_runFinalizer ?c ?p demoStart = (Ok 0, t)"
    by (simp add: MultiPlan_runFinalizer_def listOwnedChildPlans_def multiClient_simps run Let_def)
  from multi_plan_released_childless[OF t]
  obtain u v x where r: "emits (dropsChildPlan ?c ?p) demoStart u" "listOwnedChildPlans ?c ?p u = (Ok [], v)"
    "request (UpdateMultiPlan (MultiPlan_RemoveFinalizer ?p)) (c_UpdateMultiPlan ?c (MultiPlan_RemoveFinalizer ?p)) v = (x, t)"
    by blast
  have "\<not> dropsChildPlan ?c ?p a" for a by (simp add: dropsChildPlan_def multiClient_simps yields_def)
  then have "trace u = []" using r(1) by (cases "trace u") (auto simp: emits_def demoStart_def)
  then have "trace v = []" using r(2) by (auto simp: listOwnedChildPlans_def multiClient_simps run)
  with r(3) show ?thesis by (auto simp: t multiClient_simps run)
qed

theorem namespace_status_refines_map_witness:
  "keyed nst_Name (mps_Namespaces (mp_Status (updateNamespacePlanStatus (emptyPlan\<lparr>pl_Meta := emptyMeta\<lparr>om_Namespace := ''x''\<rparr>\<rparr>) (demoMultiPlan ''u'' []))))
     = [''x'' \<mapsto> \<lparr>nst_Name = ''x'', nst_Status = Some (pl_Status emptyPlan)\<rparr>]"
  using namespace_status_refines_map[OF _ refl refl, of "demoMultiPlan ''u'' []" "emptyPlan\<lparr>pl_Meta := emptyMeta\<lparr>om_Namespace := ''x''\<rparr>\<rparr>"]
  by (simp add: demoMultiPlan_def)

definition finishedStatus :: PlanStatus where
  "finishedStatus = emptyPlanStatus\<lparr>st_CompletedMigrations := [\<lparr>pv_Name = ''vm'', pv_TargetMigrationPVCs = [], sv_SourcePVCs = []\<rparr>]\<rparr>"

definition finishedPlan :: MultiPlan where
  "finishedPlan = (demoMultiPlan ''u'' [demoNamespace (Some (demoSpec\<lparr>spec_VirtualMachines := [\<lparr>pv_Name = ''vm'', pv_TargetMigrationPVCs = []\<rparr>]\<rparr>))])
     \<lparr>mp_Status := \<lparr>mps_Namespaces = [\<lparr>nst_Name = ''x'', nst_Status = Some finishedStatus\<rparr>], mps_Conditions = []\<rparr>\<rparr>"

definition finishedClient :: "unit client" where
  "finishedClient = emptyClient\<lparr>c_GetPlan := (\<lambda>ns n. yields (emptyPlan\<lparr>pl_Status := finishedStatus\<rparr>))\<rparr>"

theorem multi_plan_completed_sound_witness:
  "\<exists>q w w'. c_GetPlan finishedClient ''x'' (GetNamespacedPlanName ''p'' ''x'') w = (Inr q, w')
     \<and> PlanStatusShowsCompleted [\<lparr>pv_Name = ''vm'', pv_TargetMigrationPVCs = []\<rparr>] (Some (pl_Status q))"
proof -
  have fin: "PlanStatusShowsCompleted [\<lparr>pv_Name = ''vm'', pv_TargetMigrationPVCs = []\<rparr>] (Some finishedStatus)"
    by code_simp
  have "isMultiPlanCompleted finishedClient finishedPlan demoStart = (Ok True, demoStart)"
    using fin by (simp add: isMultiPlanCompleted_def multiPlanCompletedByStatus_def statusByNamespace_def namespacePlanStatusCompleted_def
        getNamespacePlan_def finishedPlan_def finishedClient_def demoMultiPlan_def demoNamespace_def demoSpec_def run demoStart_def)
  from multi_plan_completed_sound[OF this] show ?thesis
    by (fastforce simp: finishedPlan_def demoMultiPlan_def demoNamespace_def demoSpec_def)
qed

theorem invalid_namespace_unreported_witness:
  "\<exists>msg t. MultiPlan_Reconcile (multiClient (demoMultiPlan ''u'' [demoNamespace None])) ''ns'' ''p'' demoStart = (Panic msg, t) \<and> trace t = []"
proof -
  let ?p = "demoMultiPlan ''u'' [demoNamespace None]"
  obtain r t where t: "MultiPlan_Reconcile (multiClient ?p) ''ns'' ''p'' demoStart = (r, t)" by fastforce
  have "case nsp_Spec (demoNamespace None) of
      None \<Rightarrow> (\<exists>msg. r = Panic msg) \<and> trace t = trace demoStart
    | Some spec \<Rightarrow> r = Err (NotFoundErr ''not found'') \<and> trace t = trace demoStart @ [(CreatePlan (namespacePlanFor ?p (demoNamespace None) spec),
        Some (NotFoundErr ''not found''))]"
    by (rule invalid_namespace_unreported[OF multiClient_read _ _ _ _ _ _ _ _ t, where rest = "[]" and x = "''not found''" and y = "''not found''"])
      (simp_all add: multiClient_simps missing_def demoMultiPlan_def demoNamespace_def emptyMeta_def multiPlanCompletedByStatus_def)
  then show ?thesis using t by (auto simp: demoNamespace_def demoStart_def)
qed

definition rivalClient :: "unit client" where
  "rivalClient = emptyClient\<lparr>c_GetNamespace := (\<lambda>n. yields \<lparr>kns_Name = n, kns_DeletionTimestamp = None\<rparr>),
     c_GetPlan := (\<lambda>ns n. yields (namespacePlanFor (demoMultiPlan ''u'' []) (demoNamespace (Some demoSpec)) demoSpec))\<rparr>"

theorem same_named_parents_fight_witness:
  "\<exists>e rest. trace (snd (reconcileNamespace rivalClient (demoNamespace (Some demoSpec)) False (multiStart demoStart (demoMultiPlan ''v'' []))))
     = (DeletePlan (namespacePlanFor (demoMultiPlan ''u'' []) (demoNamespace (Some demoSpec)) demoSpec), e) # rest"
  using same_named_parents_fight[of "multiStart demoStart (demoMultiPlan ''v'' [])" "demoMultiPlan ''u'' []" "demoNamespace (Some demoSpec)" demoSpec
      rivalClient "\<lparr>kns_Name = ''x'', kns_DeletionTimestamp = None\<rparr>" "()" demoSpec "()" False]
  by (simp add: multiStart_def demoStart_def demoMultiPlan_def demoNamespace_def rivalClient_def yields_def)

end
