(* ===== verification/MultiMigController.thy ===== *)
theory MultiMigController
  imports Cascade
begin

text \<open>
  The reconciler of MultiNamespaceVirtualMachineStorageMigration objects
  (\<open>src/internal/controller/multinamespacestoragemig/controller.go\<close>): one child migration per
  namespace of the referenced multi-namespace plan, created one at a time, with protection of
  migrations that no multi-namespace controller made.
\<close>

section \<open>Definitions\<close>

abbreviation multiNamespaceStorageMigrationNameLabel :: string where
  "multiNamespaceStorageMigrationNameLabel \<equiv> ''migrations.kubevirt.io/multi-namespace-storage-mig-name''"
abbreviation multiNamespaceStorageMigrationNamespaceLabel :: string where
  "multiNamespaceStorageMigrationNamespaceLabel \<equiv> ''migrations.kubevirt.io/multi-namespace-storage-mig-namespace''"
abbreviation multiNamespaceStorageMigrationUIDLabel :: string where
  "multiNamespaceStorageMigrationUIDLabel \<equiv> ''migration.kubevirt.io/multi-namespace-storage-mig-uid''"
abbreviation multiNamespaceStorageMigrationNameAnnotation :: string where
  "multiNamespaceStorageMigrationNameAnnotation \<equiv> ''migration.kubevirt.io/multi-namespace-storage-mig-name''"
abbreviation multiNamespaceStorageMigrationNamespaceAnnotation :: string where
  "multiNamespaceStorageMigrationNamespaceAnnotation \<equiv> ''migration.kubevirt.io/multi-namespace-storage-mig-namespace''"
abbreviation multiNamespaceStorageMigrationFinalizer :: string where
  "multiNamespaceStorageMigrationFinalizer \<equiv> ''migrations.kubevirt.io/multinamespace-storage-migration-finalizer''"

record 'w multiMigrating = "'w sys" +
  g_Mig :: MultiMig

definition onMultiMig :: "(MultiMig \<Rightarrow> MultiMig) \<Rightarrow> ('w multiMigrating, unit) go" where
  "onMultiMig f = modify (\<lambda>s. s\<lparr>g_Mig := f (g_Mig s)\<rparr>)"

definition onMultiMigConditions :: "(Condition list \<Rightarrow> Condition list) \<Rightarrow> ('w multiMigrating, unit) go" where
  "onMultiMigConditions f = onMultiMig (\<lambda>m. m\<lparr>mm_Status := (mm_Status m)\<lparr>mms_Conditions := f (mms_Conditions (mm_Status m))\<rparr>\<rparr>)"

definition onMultiMigNamespaces ::
  "(MultiMigNamespaceStatus list \<Rightarrow> MultiMigNamespaceStatus list) \<Rightarrow> ('w multiMigrating, unit) go" where
  "onMultiMigNamespaces f = onMultiMig (\<lambda>m. m\<lparr>mm_Status := (mm_Status m)\<lparr>mms_Namespaces := f (mms_Namespaces (mm_Status m))\<rparr>\<rparr>)"

definition setMultiMigCondition :: "'w client \<Rightarrow> Condition \<Rightarrow> ('w multiMigrating, unit) go" where
  "setMultiMigCondition cl c = bind (draw (c_Now cl)) (\<lambda>now. onMultiMigConditions (SetCondition now c))"

definition updateNamespaceMigrationStatus :: "Migration \<Rightarrow> string \<Rightarrow> ('w multiMigrating, unit) go" where
  "updateNamespaceMigrationStatus child namespace =
     onMultiMigNamespaces (\<lambda>nss. nss @ [\<lparr>mmn_Name = namespace, mmn_Status = Some (mg_Status child)\<rparr>])"

definition getVirtualMachineStorageMigration ::
  "'w client \<Rightarrow> MultiPlan \<Rightarrow> NamespaceSpec \<Rightarrow> (('w, 'z) sys_scheme, Migration option) go"
where
  "getVirtualMachineStorageMigration cl plan namespace =
     bind (attempt (query (c_GetMig cl (nsp_Name namespace) (GetNamespacedPlanName (om_Name (mp_Meta plan)) (nsp_Name namespace))))) (\<lambda>r. case r of
       Inl e \<Rightarrow> if IsNotFound e then ret None else throw e
     | Inr m \<Rightarrow> ret (Some m))"

definition listOwnedChildMigrations :: "'w client \<Rightarrow> MultiMig \<Rightarrow> (('w, 'z) sys_scheme, Migration list) go" where
  "listOwnedChildMigrations cl m = query (c_ListMigsByLabel cl multiNamespaceStorageMigrationUIDLabel (om_UID (mm_Meta m)))"

definition isChildOwnedByMigration :: "Migration \<Rightarrow> MultiMig \<Rightarrow> bool" where
  "isChildOwnedByMigration child m = labelledWith multiNamespaceStorageMigrationUIDLabel (om_UID (mm_Meta m)) (mg_Meta child)"

definition isOwnedByAnyMultiNamespaceMigration :: "Migration \<Rightarrow> bool" where
  "isOwnedByAnyMultiNamespaceMigration child \<longleftrightarrow> om_Labels (mg_Meta child) multiNamespaceStorageMigrationUIDLabel \<noteq> None"

definition deleteChildMigration :: "'w client \<Rightarrow> Migration \<Rightarrow> (('w, 'z) sys_scheme, unit) go" where
  "deleteChildMigration cl child =
     bind (attempt (request (DeleteMig child) (c_DeleteMig cl child))) (\<lambda>r. case r of
       Inl e \<Rightarrow> if \<not> IsNotFound e then throw e else ret ()
     | Inr _ \<Rightarrow> ret ())"

definition MultiMig_RemoveFinalizer :: "MultiMig \<Rightarrow> MultiMig" where
  "MultiMig_RemoveFinalizer m = m\<lparr>mm_Meta := (mm_Meta m)\<lparr>om_Finalizers :=
     filter (\<lambda>s. s \<noteq> multiNamespaceStorageMigrationFinalizer) (om_Finalizers (mm_Meta m))\<rparr>\<rparr>"

definition MultiMig_runFinalizer :: "'w client \<Rightarrow> MultiMig \<Rightarrow> ('w sys, int) go" where
  "MultiMig_runFinalizer cl m =
     bind (listOwnedChildMigrations cl m) (\<lambda>children.
     bind (foldE (\<lambda>child _.
         if om_DeletionTimestamp (mg_Meta child) \<noteq> None then ret () else deleteChildMigration cl child) children ()) (\<lambda>_.
     bind (listOwnedChildMigrations cl m) (\<lambda>rest.
       if length rest > 0 then ret finalizerRequeueInterval
       else
         let released = MultiMig_RemoveFinalizer m in
         bind (request (UpdateMultiMig released) (c_UpdateMultiMig cl released)) (\<lambda>_. ret 0))))"

definition conflictMessage :: "string \<Rightarrow> string \<Rightarrow> string" where
  "conflictMessage name ns = ''A VirtualMachineStorageMigration '' @ quoteGo name @ '' already exists in namespace '' @
     quoteGo ns @ '' and was not created by this controller.''"

definition setConflict :: "'w client \<Rightarrow> string \<Rightarrow> string \<Rightarrow> ('w multiMigrating, unit) go" where
  "setConflict cl name ns = setMultiMigCondition cl
     (mkCondition ConflictingMigration ConditionTrue Conflict Critical (conflictMessage name ns))"

definition namespacedMigrationFor :: "string \<Rightarrow> MultiMig \<Rightarrow> NamespaceSpec \<Rightarrow> Migration" where
  "namespacedMigrationFor planName m namespacePlan =
     (let name = GetNamespacedPlanName planName (nsp_Name namespacePlan) in
      \<lparr>mg_Meta = childMeta name (nsp_Name namespacePlan)
         [multiNamespaceStorageMigrationUIDLabel \<mapsto> om_UID (mm_Meta m)]
         [multiNamespaceStorageMigrationNameAnnotation \<mapsto> om_Name (mm_Meta m),
          multiNamespaceStorageMigrationNamespaceAnnotation \<mapsto> om_Namespace (mm_Meta m)],
       mg_PlanRef = Some \<lparr>ref_Namespace = nsp_Name namespacePlan, ref_Name = name, ref_UID = []\<rparr>,
       mg_Status = emptyMigStatus\<rparr>)"

definition createNamespacedMigration :: "'w client \<Rightarrow> string \<Rightarrow> NamespaceSpec \<Rightarrow> ('w multiMigrating, unit) go" where
  "createNamespacedMigration cl planName namespacePlan =
     bind (gets g_Mig) (\<lambda>m.
     let child = namespacedMigrationFor planName m namespacePlan in
     bind (attempt (request (CreateMig child) (c_CreateMig cl child))) (\<lambda>r. case r of
       Inr _ \<Rightarrow> ret ()
     | Inl e \<Rightarrow>
         if \<not> IsAlreadyExists e then throw e
         else bind (query (c_GetMig cl (om_Namespace (mg_Meta child)) (om_Name (mg_Meta child)))) (\<lambda>existing.
           if isChildOwnedByMigration existing m then ret ()
           else if \<not> isOwnedByAnyMultiNamespaceMigration existing
           then bind (setConflict cl (om_Name (mg_Meta existing)) (om_Namespace (mg_Meta existing))) (\<lambda>_.
             throw ConflictingMigrationErr)
           else bind (deleteChildMigration cl existing) (\<lambda>_.
             request (CreateMig child) (c_CreateMig cl child)))))"

text \<open>\<open>errors.Is(err, errConflictingMigration)\<close>.\<close>

fun IsConflictingMigration :: "goerr \<Rightarrow> bool" where
  "IsConflictingMigration ConflictingMigrationErr = True"
| "IsConflictingMigration (WrapErr _ e) = IsConflictingMigration e"
| "IsConflictingMigration _ = False"

text \<open>
  The loop ends early in two ways: \<open>Leave True\<close> is the \<open>return\<close> after a creation, which skips
  the status update, and \<open>Leave False\<close> the \<open>break\<close> on a conflict, which does not.
\<close>

definition createOrConflict :: "'w client \<Rightarrow> string \<Rightarrow> NamespaceSpec \<Rightarrow> ('w multiMigrating, (unit, bool) flow) go" where
  "createOrConflict cl planName namespacePlan =
     bind (attempt (createNamespacedMigration cl planName namespacePlan)) (\<lambda>r. case r of
       Inl e \<Rightarrow> if \<not> IsConflictingMigration e then throw e else ret (Leave False)
     | Inr _ \<Rightarrow> ret (Leave True))"

definition migrateNamespace :: "'w client \<Rightarrow> MultiPlan \<Rightarrow> NamespaceSpec \<Rightarrow> unit \<Rightarrow> ('w multiMigrating, (unit, bool) flow) go" where
  "migrateNamespace cl plan namespacePlan _ =
     bind (getVirtualMachineStorageMigration cl plan namespacePlan) (\<lambda>x. case x of
       None \<Rightarrow> createOrConflict cl (om_Name (mp_Meta plan)) namespacePlan
     | Some child \<Rightarrow>
         bind (gets g_Mig) (\<lambda>m.
         if \<not> isChildOwnedByMigration child m then
           (if isOwnedByAnyMultiNamespaceMigration child
            then bind (deleteChildMigration cl child) (\<lambda>_. createOrConflict cl (om_Name (mp_Meta plan)) namespacePlan)
            else bind (setConflict cl (om_Name (mg_Meta child)) (nsp_Name namespacePlan)) (\<lambda>_. ret (Leave False)))
         else bind (updateNamespaceMigrationStatus child (nsp_Name namespacePlan)) (\<lambda>_. ret (Next ()))))"

definition migrateNamespaces :: "'w client \<Rightarrow> MultiPlan \<Rightarrow> ('w multiMigrating, (unit, bool) flow) go" where
  "migrateNamespaces cl plan =
     bind (onMultiMigNamespaces (\<lambda>_. [])) (\<lambda>_. loopE (migrateNamespace cl plan) (mp_Namespaces plan) ())"

definition persistMultiMig :: "'w client \<Rightarrow> MultiMig \<Rightarrow> ('w multiMigrating, unit) go" where
  "persistMultiMig cl orig =
     bind (gets g_Mig) (\<lambda>m.
       if mm_Status m \<noteq> mm_Status orig
       then bind (request (UpdateMultiMigStatus m) (c_UpdateMultiMigStatus cl m)) (\<lambda>_. ret ())
       else ret ())"

definition planRefMessage :: "ObjectReference \<Rightarrow> string" where
  "planRefMessage ref = ''The referenced `multiNamespaceVirtualMachineStorageMigrationPlanRef` does not exist, subject: '' @
     pathJoin [ref_Namespace ref, ref_Name ref] @ ''.''"

definition reconcileMultiMig :: "'w client \<Rightarrow> ('w multiMigrating, unit) go" where
  "reconcileMultiMig cl =
     bind (gets g_Mig) (\<lambda>m.
     bind (if multiNamespaceStorageMigrationFinalizer \<notin> set (om_Finalizers (mm_Meta m)) then
             let held = m\<lparr>mm_Meta := (mm_Meta m)\<lparr>om_Finalizers := om_Finalizers (mm_Meta m) @ [multiNamespaceStorageMigrationFinalizer]\<rparr>\<rparr> in
             bind (request (UpdateMultiMig held) (c_UpdateMultiMig cl held)) (\<lambda>m'. onMultiMig (\<lambda>_. m'))
           else ret ()) (\<lambda>_.
     bind (gets g_Mig) (\<lambda>orig. case mm_PlanRef orig of
       None \<Rightarrow> ret ()
     | Some ref0 \<Rightarrow>
         let ref = ref0\<lparr>ref_Namespace := om_Namespace (mm_Meta orig)\<rparr> in
         bind (onMultiMig (\<lambda>m. m\<lparr>mm_PlanRef := Some ref\<rparr>)) (\<lambda>_.
         bind (GetMultiNamespaceStorageMigrationPlan cl (Some ref)) (\<lambda>p.
         bind (case p of
             Some _ \<Rightarrow> onMultiMigConditions (\<lambda>cs. DeleteCondition [ConflictingMigration] (DeleteCondition [InvalidPlanRef] cs))
           | None \<Rightarrow> setMultiMigCondition cl (mkCondition InvalidPlanRef ConditionTrue NotFound Critical (planRefMessage ref))) (\<lambda>_.
         bind (gets g_Mig) (\<lambda>m1. case p of
           None \<Rightarrow> persistMultiMig cl orig
         | Some plan \<Rightarrow>
             if HasBlockerCondition (mms_Conditions (mm_Status m1)) then persistMultiMig cl orig
             else bind (migrateNamespaces cl plan) (\<lambda>v.
               if v = Leave True then ret ()
               else bind (onMultiMigNamespaces (SortFunc (\<lambda>a b. Compare (mmn_Name a) (mmn_Name b)))) (\<lambda>_.
                 persistMultiMig cl orig)))))))))"

definition multiMigStart :: "'w sys \<Rightarrow> MultiMig \<Rightarrow> 'w multiMigrating" where
  "multiMigStart s m = \<lparr>world = world s, trace = trace s, g_Mig = m\<rparr>"

definition withMultiMig :: "MultiMig \<Rightarrow> ('w multiMigrating, 'a) go \<Rightarrow> ('w sys, 'a) go" where
  "withMultiMig m body = (\<lambda>s. case body (multiMigStart s m) of (r, t) \<Rightarrow> (r, s\<lparr>world := world t, trace := trace t\<rparr>))"

definition MultiMig_Reconcile :: "'w client \<Rightarrow> string \<Rightarrow> string \<Rightarrow> ('w sys, int) go" where
  "MultiMig_Reconcile cl ns name =
     bind (attempt (query (c_GetMultiMig cl ns name))) (\<lambda>r. case r of
       Inl e \<Rightarrow> if IsNotFound e then ret 0 else throw e
     | Inr m \<Rightarrow>
         if om_DeletionTimestamp (mm_Meta m) \<noteq> None then MultiMig_runFinalizer cl m
         else bind (withMultiMig m (reconcileMultiMig cl)) (\<lambda>_. ret 0))"

definition getVirtualMachineStorageMigrationsForMultiNamespaceStorageMigration ::
  "'w client \<Rightarrow> Migration \<Rightarrow> (('w, 'z) sys_scheme, (string \<times> string) list) go"
where
  "getVirtualMachineStorageMigrationsForMultiNamespaceStorageMigration cl m =
     (case parentOf multiNamespaceStorageMigrationNameLabel multiNamespaceStorageMigrationNamespaceLabel
         multiNamespaceStorageMigrationNameAnnotation multiNamespaceStorageMigrationNamespaceAnnotation (mg_Meta m) of
       (ns, name) \<Rightarrow> bind (attempt (query (c_GetMultiMig cl ns name))) (\<lambda>r. case r of
         Inl _ \<Rightarrow> ret []
       | Inr p \<Rightarrow> ret [(om_Namespace (mm_Meta p), om_Name (mm_Meta p))]))"


section \<open>Cascading deletion\<close>

lemma run_onMultiMig [run]: "onMultiMig f s = (Ok (), s\<lparr>g_Mig := f (g_Mig s)\<rparr>)"
  by (simp add: onMultiMig_def run)

interpretation migs: cascade "listOwnedChildMigrations cl" "\<lambda>child. om_DeletionTimestamp (mg_Meta child) \<noteq> None"
  "deleteChildMigration cl" DeleteMig MultiMig_RemoveFinalizer
  "\<lambda>m. bind (request (UpdateMultiMig m) (c_UpdateMultiMig cl m)) (\<lambda>_. ret ())" "MultiMig_runFinalizer cl"
proof unfold_locales
  show "frame (emits (\<lambda>_. False)) (listOwnedChildMigrations cl m)" for m
    unfolding listOwnedChildMigrations_def by (intro emits_obs.steps)
  show "frame (emits (\<lambda>a. a = DeleteMig c)) (deleteChildMigration cl c)" for c
    unfolding deleteChildMigration_def by (intro emits_obs.steps) simp_all
qed (simp add: MultiMig_runFinalizer_def Let_def bind_assoc cong: if_cong)

text \<open>The deletion of a child that a listing by the UID of the parent showed.\<close>

definition dropsChildMig :: "'w client \<Rightarrow> MultiMig \<Rightarrow> act \<Rightarrow> bool" where
  "dropsChildMig cl m a \<longleftrightarrow> (\<exists>c cs w w'. c_ListMigsByLabel cl multiNamespaceStorageMigrationUIDLabel (om_UID (mm_Meta m)) w = (Inr cs, w')
     \<and> c \<in> set cs \<and> om_DeletionTimestamp (mg_Meta c) = None \<and> a = DeleteMig c)"

lemma migs_drops:
  fixes s :: "'w sys"
  shows "emits (migs.dropsListed TYPE('w) cl m) s t \<Longrightarrow> emits (dropsChildMig cl m) s t"
  unfolding migs.dropsListed_def
  by (erule emits_mono) (fastforce simp: dropsChildMig_def listOwnedChildMigrations_def run split: prod.splits sum.splits)

text \<open>
  The finalizer of a multi-namespace migration.  A run over a migration being deleted only
  deletes children it listed, except that it may end with the release of the migration, and then
  directly after a listing that found no child left; only then it reports that it is done.
\<close>

theorem multi_mig_released_childless:
  assumes "MultiMig_runFinalizer cl m s = (r, t)"
  shows "(\<exists>u v x. emits (dropsChildMig cl m) s u \<and> listOwnedChildMigrations cl m u = (Ok [], v)
       \<and> request (UpdateMultiMig (MultiMig_RemoveFinalizer m)) (c_UpdateMultiMig cl (MultiMig_RemoveFinalizer m)) v = (x, t)
       \<and> (r = Ok 0 \<longleftrightarrow> (\<exists>q. x = Ok q)))
    \<or> emits (dropsChildMig cl m) s t \<and> r \<noteq> Ok 0"
  using migs.finalize_runs[OF assms]
  by (fastforce simp: run_bind run_ret dest: migs_drops split: prod.splits result.splits)

section \<open>Children\<close>

text \<open>
  A well-formed child migration: it carries the UID of the parent and refers to the plan of its
  own name in its own namespace.
\<close>

definition properMigration :: "MultiMig \<Rightarrow> Migration \<Rightarrow> bool" where
  "properMigration m q \<longleftrightarrow> isChildOwnedByMigration q m
     \<and> (\<exists>planName. om_Name (mg_Meta q) = GetNamespacedPlanName planName (om_Namespace (mg_Meta q)))
     \<and> mg_PlanRef q = Some \<lparr>ref_Namespace = om_Namespace (mg_Meta q), ref_Name = om_Name (mg_Meta q), ref_UID = []\<rparr>"

fun migrationAct :: "MultiMig \<Rightarrow> act \<Rightarrow> bool" where
  "migrationAct m (CreateMig q) = properMigration m q"
| "migrationAct m (DeleteMig q) = (isOwnedByAnyMultiNamespaceMigration q \<and> \<not> isChildOwnedByMigration q m)"
| "migrationAct m (UpdateMultiMig q) = (om_UID (mm_Meta q) = om_UID (mm_Meta m))"
| "migrationAct m (UpdateMultiMigStatus q) = (om_UID (mm_Meta q) = om_UID (mm_Meta m))"
| "migrationAct m _ = False"

lemma namespacedMigrationFor_proper:
  "om_UID (mm_Meta m') = om_UID (mm_Meta m) \<Longrightarrow> properMigration m (namespacedMigrationFor planName m' n)"
  by (auto simp: properMigration_def namespacedMigrationFor_def childMeta_def isChildOwnedByMigration_def labelledWith_def Let_def)

text \<open>The local copy keeps the UID of the parent, and every request is admitted for it.\<close>

definition runs :: "MultiMig \<Rightarrow> 'w multiMigrating \<Rightarrow> 'w multiMigrating \<Rightarrow> bool" where
  "runs m s t \<longleftrightarrow> (om_UID (mm_Meta (g_Mig s)) = om_UID (mm_Meta m) \<longrightarrow>
     om_UID (mm_Meta (g_Mig t)) = om_UID (mm_Meta m) \<and> emits (migrationAct m) s t)"

interpretation runs: observer "runs m"
proof unfold_locales
  show "preorder_rel (runs m)"
    by (rule preorder_relI) (auto simp: runs_def intro: preorder_refl[OF emits_preorder] preorder_trans[OF emits_preorder])
qed (simp add: runs_def emits_world)

lemma runs_gets: "(\<And>m'. om_UID (mm_Meta m') = om_UID (mm_Meta m) \<Longrightarrow> frame (runs m) (k m')) \<Longrightarrow> frame (runs m) (bind (gets g_Mig) k)"
  by (auto simp: frame_def run runs_def)

lemma runs_request: "migrationAct m a \<Longrightarrow> frame (runs m) (request a f)"
  by (rule frame_request) (simp add: runs_def emits_def)

lemma runs_onMultiMig: "(\<And>q. om_UID (mm_Meta (f q)) = om_UID (mm_Meta q)) \<Longrightarrow> frame (runs m) (onMultiMig f)"
  by (auto simp: frame_def run runs_def emits_def)

lemma runs_status: "frame (runs m) (onMultiMigConditions f)" "frame (runs m) (onMultiMigNamespaces g)"
  unfolding onMultiMigConditions_def onMultiMigNamespaces_def by (rule runs_onMultiMig; simp)+

lemma runs_setConflict: "frame (runs m) (setConflict cl name ns)"
  unfolding setConflict_def setMultiMigCondition_def by (intro runs.steps runs_status)

lemma runs_delete:
  "isOwnedByAnyMultiNamespaceMigration q \<Longrightarrow> \<not> isChildOwnedByMigration q m \<Longrightarrow> frame (runs m) (deleteChildMigration cl q)"
  unfolding deleteChildMigration_def by (intro runs.steps runs_request) simp_all

lemma runs_create: "frame (runs m) (createOrConflict cl planName n)"
proof -
  have "frame (runs m) (createNamespacedMigration cl planName n)"
    unfolding createNamespacedMigration_def Let_def
    by (intro runs_gets runs_request runs_setConflict runs_delete runs.steps)
      (simp_all add: namespacedMigrationFor_proper isChildOwnedByMigration_def)
  then show ?thesis unfolding createOrConflict_def by (intro runs.steps)
qed

lemma runs_migrateNamespaces: "frame (runs m) (migrateNamespaces cl plan)"
proof -
  have "frame (runs m) (migrateNamespace cl plan n x)" for n x
    unfolding migrateNamespace_def getVirtualMachineStorageMigration_def updateNamespaceMigrationStatus_def
    by (intro runs_gets runs_create runs_delete runs_setConflict runs_status runs.steps)
      (simp_all add: isChildOwnedByMigration_def)
  then show ?thesis unfolding migrateNamespaces_def by (intro runs.steps runs_status)
qed


lemma runs_reconcileMultiMig:
  assumes "\<And>h w q w'. c_UpdateMultiMig cl h w = (Inr q, w') \<Longrightarrow> om_UID (mm_Meta q) = om_UID (mm_Meta h)"
  shows "frame (runs m) (reconcileMultiMig cl)"
proof -
  have hold: "frame (runs m) (let held = m'\<lparr>mm_Meta := (mm_Meta m')\<lparr>om_Finalizers := om_Finalizers (mm_Meta m') @ [multiNamespaceStorageMigrationFinalizer]\<rparr>\<rparr> in
      bind (request (UpdateMultiMig held) (c_UpdateMultiMig cl held)) (\<lambda>q. onMultiMig (\<lambda>_. q)))"
    if "om_UID (mm_Meta m') = om_UID (mm_Meta m)" for m'
    unfolding Let_def using that
    by (auto simp: frame_def runs_def run emits_def dest: assms split: prod.splits sum.splits)
  have persist: "frame (runs m) (persistMultiMig cl orig)" for orig
    unfolding persistMultiMig_def by (intro runs_gets runs.steps runs_request) simp_all
  show ?thesis
    unfolding reconcileMultiMig_def setMultiMigCondition_def
    by (intro runs_gets hold frame_bind frame_if frame_case_option frame_Let runs.preorder frame_ret frame_draw runs.blind runs_status persist
        runs.frame_GetMultiNamespaceStorageMigrationPlan runs_migrateNamespaces runs_onMultiMig) simp_all
qed

text \<open>
  What a whole reconcile may ask for.  A migration that is being deleted drops its own children
  that are not already on their way, and is released; one that is not tends its children.
\<close>

definition multiMigAct :: "MultiMig \<Rightarrow> act \<Rightarrow> bool" where
  "multiMigAct m a \<longleftrightarrow> (if om_DeletionTimestamp (mm_Meta m) = None then migrationAct m a
     else (\<exists>q. a = DeleteMig q \<and> isChildOwnedByMigration q m \<and> om_DeletionTimestamp (mg_Meta q) = None)
       \<or> a = UpdateMultiMig (MultiMig_RemoveFinalizer m))"

lemma listed_mig_owned:
  assumes "\<And>k v w cs w' c. c_ListMigsByLabel cl k v w = (Inr cs, w') \<Longrightarrow> c \<in> set cs \<Longrightarrow> om_Labels (mg_Meta c) k = Some v"
    "listOwnedChildMigrations cl m u = (Ok cs, t)" "c \<in> set cs"
  shows "isChildOwnedByMigration c m"
proof -
  obtain w where "c_ListMigsByLabel cl multiNamespaceStorageMigrationUIDLabel (om_UID (mm_Meta m)) (world u) = (Inr cs, w)"
    using assms(2) by (auto simp: listOwnedChildMigrations_def run split: prod.splits sum.splits)
  from assms(1)[OF this assms(3)] show ?thesis by (simp add: isChildOwnedByMigration_def labelledWith_def)
qed

lemma mig_finalizer_acts:
  fixes cl :: "'w client"
  assumes "\<And>k v w cs w' c. c_ListMigsByLabel cl k v w = (Inr cs, w') \<Longrightarrow> c \<in> set cs \<Longrightarrow> om_Labels (mg_Meta c) k = Some v"
    "om_DeletionTimestamp (mm_Meta m) \<noteq> None"
  shows "frame (emits (multiMigAct m)) (MultiMig_runFinalizer cl m)"
proof (rule migs.finalize_emits)
  show "frame (emits (multiMigAct m)) (bind (request (UpdateMultiMig (MultiMig_RemoveFinalizer m))
      (c_UpdateMultiMig cl (MultiMig_RemoveFinalizer m))) (\<lambda>_. ret ()))"
    using assms(2) by (intro emits_obs.steps) (auto simp: multiMigAct_def)
  fix a
  assume "migs.dropsListed TYPE('w) cl m a"
  then show "multiMigAct m a"
    unfolding migs.dropsListed_def using assms(2) listed_mig_owned[OF assms(1)] by (auto simp: multiMigAct_def)
qed

lemma reconcileMultiMig_acts:
  assumes "\<And>h w q w'. c_UpdateMultiMig cl h w = (Inr q, w') \<Longrightarrow> om_UID (mm_Meta q) = om_UID (mm_Meta h)"
  shows "emits (migrationAct m) s (snd (withMultiMig m (reconcileMultiMig cl) s))"
proof -
  let ?u = "multiMigStart s m"
  have "runs m ?u (snd (reconcileMultiMig cl ?u))" by (rule frameD2[OF runs_reconcileMultiMig[OF assms]])
  then have "emits (migrationAct m) ?u (snd (reconcileMultiMig cl ?u))" by (simp add: runs_def multiMigStart_def)
  then show ?thesis by (auto simp: withMultiMig_def emits_def multiMigStart_def split: prod.splits)
qed

text \<open>
  C28. What a multi-namespace migration does to migrations.  A whole reconcile of a migration that
  could be read and is not being deleted creates only migrations that carry its UID and refer to
  the plan of their own name, and deletes only migrations that carry the UID of another parent;
  one of a migration that is being deleted deletes only migrations that carry its own UID, and
  otherwise only takes the finalizer off.  When the migration cannot be read nothing is sent.  So
  a migration that no multi-namespace controller has made is never deleted.  The hypotheses are
  that the API server answers an update with an object of the same UID, and that a listing by a
  label shows only objects with that label.
\<close>

theorem unowned_migrations_untouched:
  assumes "\<And>h w q w'. c_UpdateMultiMig cl h w = (Inr q, w') \<Longrightarrow> om_UID (mm_Meta q) = om_UID (mm_Meta h)"
    "\<And>k v w cs w' c. c_ListMigsByLabel cl k v w = (Inr cs, w') \<Longrightarrow> c \<in> set cs \<Longrightarrow> om_Labels (mg_Meta c) k = Some v"
  shows "case fst (c_GetMultiMig cl ns name (world s)) of
      Inl e \<Rightarrow> trace (snd (MultiMig_Reconcile cl ns name s)) = trace s
    | Inr m \<Rightarrow> emits (multiMigAct m) s (snd (MultiMig_Reconcile cl ns name s))"
proof (cases "c_GetMultiMig cl ns name (world s)")
  case (Pair r w)
  show ?thesis
  proof (cases r)
    case (Inr m)
    let ?s = "s\<lparr>world := w\<rparr>"
    have "emits (multiMigAct m) ?s (snd (MultiMig_Reconcile cl ns name s))"
    proof (cases "om_DeletionTimestamp (mm_Meta m) = None")
      case True
      then show ?thesis
        using reconcileMultiMig_acts[where cl = cl and m = m and s = ?s, OF assms(1)] Pair Inr
        by (auto simp: MultiMig_Reconcile_def run multiMigAct_def emits_def split: prod.splits result.splits)
    next
      case False
      then show ?thesis
        using frameD2[OF mig_finalizer_acts[where cl = cl and m = m, OF assms(2) False], where s = ?s] Pair Inr by (simp add: MultiMig_Reconcile_def run)
    qed
    then show ?thesis using Pair Inr by (simp add: emits_def)
  qed (use Pair in \<open>simp add: MultiMig_Reconcile_def run\<close>)
qed

section \<open>One child at a time\<close>

fun created :: "act \<times> goerr option \<Rightarrow> bool" where
  "created (CreateMig q, None) = True"
| "created _ = False"

definition creations :: "('w, 'z) sys_scheme \<Rightarrow> nat" where
  "creations s = length (filter created (trace s))"

lemma creations_world [simp]: "creations (s\<lparr>world := w\<rparr>) = creations s"
  by (simp add: creations_def)

lemma creations_object [simp]: "creations (s\<lparr>g_Mig := m\<rparr>) = creations s"
  by (simp add: creations_def)

lemma creations_sent [simp]:
  "creations (s\<lparr>world := w, trace := trace s @ [x]\<rparr>) = creations s + (if created x then 1 else 0)"
  by (simp add: creations_def)

interpretation still: observer "\<lambda>s t. creations t = creations s"
  by unfold_locales (simp_all add: preorder_eq)

lemma still_request: "(\<And>e. \<not> created (a, e)) \<Longrightarrow> frame (\<lambda>s t. creations t = creations s) (request a f)"
  by (rule frame_request) simp

lemma still_onMultiMig: "frame (\<lambda>s t. creations t = creations s) (onMultiMig f)"
  by (simp add: frame_def run)

lemma still_status:
  "frame (\<lambda>s t. creations t = creations s) (onMultiMigConditions f)" "frame (\<lambda>s t. creations t = creations s) (onMultiMigNamespaces g)"
  "frame (\<lambda>s t. creations t = creations s) (setMultiMigCondition cl c)" "frame (\<lambda>s t. creations t = creations s) (setConflict cl x y)"
  unfolding onMultiMigConditions_def onMultiMigNamespaces_def setMultiMigCondition_def setConflict_def
  by (intro still_onMultiMig still.steps)+

lemma still_delete: "frame (\<lambda>s t. creations t = creations s) (deleteChildMigration cl q)"
  unfolding deleteChildMigration_def by (intro still.steps still_request) simp_all

lemma still_persist: "frame (\<lambda>s t. creations t = creations s) (persistMultiMig cl orig)"
  unfolding persistMultiMig_def by (intro still.steps still_request) simp_all


text \<open>Computations that create at most one child.\<close>

definition once :: "('w multiMigrating, 'a) go \<Rightarrow> bool" where
  "once m \<longleftrightarrow> (\<forall>s. creations (snd (m s)) \<le> creations s + 1)"

lemma once_still: "frame (\<lambda>s t. creations t = creations s) m \<Longrightarrow> once m"
  by (simp add: frame_def once_def)

lemma once_request: "once (request a f)"
  by (auto simp: once_def run split: prod.splits sum.splits)

lemma once_bind:
  assumes "frame (\<lambda>s t. creations t = creations s) m" "\<And>x. once (f x)"
  shows "once (bind m f)"
  unfolding once_def
proof
  fix s
  obtain r t where m: "m s = (r, t)" by fastforce
  then have t: "creations t = creations s" by (rule frameD[OF assms(1)])
  show "creations (snd (bind m f s)) \<le> creations s + 1"
    using assms(2) m t by (cases r) (auto simp: run_bind once_def, metis)
qed

lemma once_tail:
  assumes "once m" "\<And>x. frame (\<lambda>s t. creations t = creations s) (f x)"
  shows "once (bind m f)"
  unfolding once_def
proof
  fix s
  obtain r t where m: "m s = (r, t)" by fastforce
  then have t: "creations t \<le> creations s + 1" using assms(1) by (metis once_def snd_conv)
  show "creations (snd (bind m f s)) \<le> creations s + 1"
    using frameD2[OF assms(2), of _ t] m t by (cases r) (auto simp: run_bind)
qed

lemma once_if: "once m \<Longrightarrow> once m' \<Longrightarrow> once (if b then m else m')"
  by simp

lemma once_case_option: "once m \<Longrightarrow> (\<And>x. once (f x)) \<Longrightarrow> once (case v of None \<Rightarrow> m | Some x \<Rightarrow> f x)"
  by (cases v) simp_all

lemma once_first:
  assumes "\<And>e. once (k (Inl e))" "\<And>x. frame (\<lambda>s t. creations t = creations s) (k (Inr x))"
  shows "once (bind (attempt (request (CreateMig c) f)) k)"
  unfolding once_def
proof
  fix s :: "'a multiMigrating"
  obtain v w where v: "f (world s) = (v, w)" by fastforce
  show "creations (snd (bind (attempt (request (CreateMig c) f)) k s)) \<le> creations s + 1"
  proof (cases v)
    case (Inl e)
    then have "bind (attempt (request (CreateMig c) f)) k s = k (Inl e) (s\<lparr>world := w, trace := trace s @ [(CreateMig c, Some e)]\<rparr>)"
      using v by (simp add: run)
    moreover have "creations (snd (k (Inl e) u)) \<le> creations u + 1" for u using assms(1)[of e] by (simp add: once_def)
    from this[of "s\<lparr>world := w, trace := trace s @ [(CreateMig c, Some e)]\<rparr>"] have
      "creations (snd (k (Inl e) (s\<lparr>world := w, trace := trace s @ [(CreateMig c, Some e)]\<rparr>))) \<le> creations s + 1" by simp
    ultimately show ?thesis by simp
  next
    case (Inr x)
    then have "bind (attempt (request (CreateMig c) f)) k s = k (Inr x) (s\<lparr>world := w, trace := trace s @ [(CreateMig c, None)]\<rparr>)"
      using v by (simp add: run)
    then show ?thesis using frameD2[OF assms(2)[of x], of "s\<lparr>world := w, trace := trace s @ [(CreateMig c, None)]\<rparr>"] by simp
  qed
qed

lemma once_create: "once (createOrConflict cl planName n)"
proof -
  have "once (createNamespacedMigration cl planName n)"
    unfolding createNamespacedMigration_def Let_def
    by (rule once_bind, (intro still.steps)[1], rule once_first)
      (auto intro!: once_if once_still[OF frame_throw] once_bind still.steps once_request still_delete still_status
        once_still[OF frame_ret] once_still[OF frame_bind])
  then show ?thesis
    unfolding createOrConflict_def bind_def[of "attempt m" for m]
    by (simp add: once_def run split: prod.splits result.splits) (metis snd_conv)
qed


lemma create_leaves: "createOrConflict cl planName n s \<noteq> (Ok (Next ()), t)"
  by (auto simp: createOrConflict_def run split: prod.splits result.splits if_splits)

lemma once_migrateNamespace: "once (migrateNamespace cl plan n x)"
  unfolding migrateNamespace_def getVirtualMachineStorageMigration_def updateNamespaceMigrationStatus_def
  by (intro once_bind once_case_option once_if once_create still_delete still.steps still_status; intro once_still still.steps still_status)

lemma migrateNamespace_next:
  assumes "migrateNamespace cl plan n x s = (Ok (Next y), t)"
  shows "creations t = creations s"
proof -
  have get: "frame (\<lambda>s t. creations t = creations s) (getVirtualMachineStorageMigration cl plan n)"
    unfolding getVirtualMachineStorageMigration_def by (intro still.steps)
  obtain q u where q: "getVirtualMachineStorageMigration cl plan n s = (q, u)" by fastforce
  have u: "creations u = creations s" using frameD[OF get q] .
  show ?thesis
    using assms q u
    by (auto simp: create_leaves migrateNamespace_def run updateNamespaceMigrationStatus_def onMultiMigNamespaces_def
        split: result.splits option.splits if_splits prod.splits)
qed

lemma once_loop: "once (loopE (migrateNamespace cl plan) ns ())"
proof (induction ns)
  case Nil
  then show ?case by (simp add: once_def run)
next
  case (Cons n ns)
  show ?case
    unfolding once_def
  proof
    fix s :: "'a multiMigrating"
    obtain r t where r: "migrateNamespace cl plan n () s = (r, t)" by fastforce
    have t: "creations t \<le> creations s + 1" using once_migrateNamespace[of cl plan n "()"] r by (metis once_def snd_conv)
    show "creations (snd (loopE (migrateNamespace cl plan) (n # ns) () s)) \<le> creations s + 1"
    proof (cases "r = Ok (Next ())")
      case True
      then have "creations t = creations s" using r migrateNamespace_next by blast
      moreover have "creations (snd (loopE (migrateNamespace cl plan) ns () t)) \<le> creations t + 1" using Cons by (simp add: once_def)
      ultimately show ?thesis using r True by (simp add: run_bind)
    next
      case False
      then show ?thesis using r t by (cases r) (auto simp: run_bind run_ret split: flow.splits)
    qed
  qed
qed

text \<open>
  Children are created one at a time: whatever the API server answers, one reconcile of a
  multi-namespace migration has at most one successful creation of a child.
\<close>

theorem one_child_per_reconcile:
  "creations (snd (MultiMig_Reconcile cl ns name s)) \<le> creations s + 1"
proof -
  have body: "once (reconcileMultiMig cl)"
    unfolding reconcileMultiMig_def migrateNamespaces_def Let_def setMultiMigCondition_def
    by (intro once_bind once_case_option once_if once_tail[OF once_bind[OF _ once_loop]] still.steps still_status still_onMultiMig still_request
        still_persist still.frame_GetMultiNamespaceStorageMigrationPlan
        once_still[OF still_persist] once_still[OF frame_ret[OF still.preorder]]) simp_all
  have start: "creations (snd (withMultiMig m (reconcileMultiMig cl) u)) \<le> creations u + 1" for m u
    using body[unfolded once_def, rule_format, of "multiMigStart u m"]
    by (cases "reconcileMultiMig cl (multiMigStart u m)") (simp add: withMultiMig_def multiMigStart_def creations_def)
  have final: "creations (snd (MultiMig_runFinalizer cl m u)) = creations u" for m and u :: "'a sys"
  proof -
    have "frame (\<lambda>s t. creations t = creations s) (MultiMig_runFinalizer cl m)"
      unfolding MultiMig_runFinalizer_def listOwnedChildMigrations_def Let_def
      by (intro still.steps still_delete still_request) simp_all
    then show ?thesis by (simp add: frame_def)
  qed
  obtain v w where "c_GetMultiMig cl ns name (world s) = (v, w)" by fastforce
  then show ?thesis
    using start[of _ "s\<lparr>world := w\<rparr>"] final[of _ "s\<lparr>world := w\<rparr>"]
    by (cases v) (auto simp: MultiMig_Reconcile_def run split: prod.splits result.splits, (metis snd_conv)+)
qed


section \<open>Conflicts\<close>

text \<open>The conflict condition, with the time of its last transition.\<close>

definition conflictCondition :: "int \<Rightarrow> string \<Rightarrow> string \<Rightarrow> Condition" where
  "conflictCondition now name ns =
     (mkCondition ConflictingMigration ConditionTrue Conflict Critical (conflictMessage name ns))\<lparr>cnd_LastTransitionTime := now\<rparr>"

text \<open>
  An unresolved conflict rewrites the status for ever.  Suppose the status of a
  multi-namespace migration already reports the conflict, and nothing changed since but the
  clock.  The reconcile drops the condition before it finds the conflict again, so the new
  condition has a new transition time, the status differs, and it is sent again; the update is
  an event for the controller itself.
\<close>

theorem conflict_rewrites_status:
  assumes "c_GetMultiMig cl ns name (world s) = (Inr m, w)" "om_DeletionTimestamp (mm_Meta m) = None"
    "multiNamespaceStorageMigrationFinalizer \<in> set (om_Finalizers (mm_Meta m))" "mm_PlanRef m = Some ref"
    "mm_Status m = \<lparr>mms_Conditions = [conflictCondition before (om_Name (mg_Meta child)) (nsp_Name n)], mms_Namespaces = []\<rparr>"
    "\<And>w. c_GetMultiPlan cl (om_Namespace (mm_Meta m)) (ref_Name ref) w = (Inr plan, w)" "mp_Namespaces plan = n # rest"
    "\<And>w. c_GetMig cl (nsp_Name n) (GetNamespacedPlanName (om_Name (mp_Meta plan)) (nsp_Name n)) w = (Inr child, w)"
    "\<not> isOwnedByAnyMultiNamespaceMigration child"
    "c_Now cl w = (now, w')" "now \<noteq> before"
  shows "\<exists>e m'. trace (snd (MultiMig_Reconcile cl ns name s)) = trace s @ [(UpdateMultiMigStatus m', e)]
    \<and> mm_Meta m' = mm_Meta m
    \<and> mm_Status m' = (mm_Status m)\<lparr>mms_Conditions := [conflictCondition now (om_Name (mg_Meta child)) (nsp_Name n)]\<rparr>"
proof -
  let ?u = "multiMigStart (s\<lparr>world := w\<rparr>) m"
  let ?m = "m\<lparr>mm_PlanRef := Some (ref\<lparr>ref_Namespace := om_Namespace (mm_Meta m)\<rparr>),
    mm_Status := (mm_Status m)\<lparr>mms_Conditions := [conflictCondition now (om_Name (mg_Meta child)) (nsp_Name n)]\<rparr>\<rparr>"
  have notOwned: "\<not> isChildOwnedByMigration child x" for x
    using assms(9) by (simp add: isOwnedByAnyMultiNamespaceMigration_def isChildOwnedByMigration_def labelledWith_def)
  let ?ref = "ref\<lparr>ref_Namespace := om_Namespace (mm_Meta m)\<rparr>"
  let ?cleared = "m\<lparr>mm_PlanRef := Some ?ref, mm_Status := \<lparr>mms_Conditions = [], mms_Namespaces = []\<rparr>\<rparr>"
  obtain plan' where plan': "mp_Namespaces plan' = n # rest" "mp_Meta plan' = mp_Meta plan"
    and get: "\<And>t :: 'a multiMigrating. GetMultiNamespaceStorageMigrationPlan cl (Some ?ref) t = (Ok (Some plan'), t)"
  proof
    show "mp_Namespaces (plan\<lparr>mp_Kind := k, mp_APIVersion := v\<rparr>) = n # rest" "mp_Meta (plan\<lparr>mp_Kind := k, mp_APIVersion := v\<rparr>) = mp_Meta plan"
      for k v using assms(7) by simp_all
    show "GetMultiNamespaceStorageMigrationPlan cl (Some ?ref) t = (Ok (Some (plan\<lparr>mp_Kind := if mp_Kind plan = [] then MultiPlanKind else mp_Kind plan,
        mp_APIVersion := if mp_APIVersion plan = [] then GroupVersion else mp_APIVersion plan\<rparr>)), t)" for t :: "'a multiMigrating"
      using assms(6) by (simp add: GetMultiNamespaceStorageMigrationPlan_def run Let_def)
  qed
  have migrate: "migrateNamespaces cl plan' (multiMigStart (s\<lparr>world := w\<rparr>) ?cleared) = (Ok (Leave False), multiMigStart (s\<lparr>world := w'\<rparr>) ?m)"
    using plan' assms(5,8-10) notOwned
    by (simp add: migrateNamespaces_def migrateNamespace_def getVirtualMachineStorageMigration_def setConflict_def setMultiMigCondition_def
        onMultiMigConditions_def onMultiMigNamespaces_def SetCondition_def conflictCondition_def multiMigStart_def run)
  have none: "\<not> HasBlockerCondition []" by code_simp
  have persist: "reconcileMultiMig cl ?u = persistMultiMig cl m (multiMigStart (s\<lparr>world := w'\<rparr>) ?m)"
    using assms(3-5) get migrate none
    by (simp add: reconcileMultiMig_def run Let_def multiMigStart_def onMultiMigConditions_def onMultiMigNamespaces_def
        conflictCondition_def mkCondition_def DeleteCondition_def SortFunc_def)
  have differ: "mm_Status ?m \<noteq> mm_Status m"
    using assms(5,11) by (simp add: conflictCondition_def mkCondition_def)
  then have "\<exists>e. trace (snd (reconcileMultiMig cl ?u)) = trace s @ [(UpdateMultiMigStatus ?m, e)]"
    unfolding persist by (auto simp: persistMultiMig_def run multiMigStart_def split: prod.splits sum.splits)
  moreover have "trace (snd (MultiMig_Reconcile cl ns name s)) = trace (snd (reconcileMultiMig cl ?u))"
    using assms(1,2) by (auto simp: MultiMig_Reconcile_def run withMultiMig_def split: prod.splits result.splits)
  ultimately show ?thesis by (auto intro!: exI[of _ ?m])
qed


section \<open>Witnesses\<close>

definition demoMultiMig :: "Condition list \<Rightarrow> MultiMig" where
  "demoMultiMig cs = \<lparr>mm_Meta = emptyMeta\<lparr>om_Name := ''m'', om_Namespace := ''ns'', om_UID := ''u'',
       om_Finalizers := [multiNamespaceStorageMigrationFinalizer]\<rparr>,
     mm_PlanRef = Some \<lparr>ref_Namespace = [], ref_Name = ''p'', ref_UID = []\<rparr>,
     mm_Status = \<lparr>mms_Conditions = cs, mms_Namespaces = []\<rparr>\<rparr>"

definition demoParentPlan :: MultiPlan where
  "demoParentPlan = \<lparr>mp_Kind = [], mp_APIVersion = [], mp_Meta = emptyMeta\<lparr>om_Name := ''p''\<rparr>,
     mp_Namespaces = [\<lparr>nsp_Name = ''x'', nsp_Spec = None\<rparr>], mp_RetentionPolicy = None,
     mp_Status = \<lparr>mps_Namespaces = [], mps_Conditions = []\<rparr>\<rparr>"

definition multiMigClient :: "MultiMig \<Rightarrow> unit client" where
  "multiMigClient m = emptyClient\<lparr>c_Now := (\<lambda>w. (7, w)), c_GetMultiMig := (\<lambda>ns n. yields m),
     c_GetMultiPlan := (\<lambda>ns n. yields demoParentPlan), c_GetMig := (\<lambda>ns n. yields emptyMigration)\<rparr>"

lemma multiMigClient_simps:
  "c_GetMultiMig (multiMigClient m) ns n = yields m" "c_UpdateMultiMig (multiMigClient m) = yields"
  "c_GetMultiPlan (multiMigClient m) ns n = yields demoParentPlan" "c_GetMig (multiMigClient m) ns n = yields emptyMigration"
  "c_Now (multiMigClient m) w = (7, w)" "c_ListMigsByLabel (multiMigClient m) k v = yields []"
  by (simp_all add: multiMigClient_def emptyClient_def)

definition atRest :: "unit sys" where
  "atRest = \<lparr>world = (), trace = []\<rparr>"

lemma multiMigClient_read: "c_GetMultiMig (multiMigClient m) ns n (world atRest) = (Inr m, ())"
  by (simp add: multiMigClient_simps yields_def)

theorem multi_mig_released_childless_witness:
  "trace (snd (MultiMig_runFinalizer (multiMigClient (demoMultiMig [])) (demoMultiMig []) atRest))
     = [(UpdateMultiMig (MultiMig_RemoveFinalizer (demoMultiMig [])), None)]"
proof -
  let ?m = "demoMultiMig []" and ?c = "multiMigClient (demoMultiMig [])"
  obtain t where t: "MultiMig_runFinalizer ?c ?m atRest = (Ok 0, t)"
    by (simp add: MultiMig_runFinalizer_def listOwnedChildMigrations_def multiMigClient_simps run Let_def)
  from multi_mig_released_childless[OF t]
  obtain u v x where r: "emits (dropsChildMig ?c ?m) atRest u" "listOwnedChildMigrations ?c ?m u = (Ok [], v)"
    "request (UpdateMultiMig (MultiMig_RemoveFinalizer ?m)) (c_UpdateMultiMig ?c (MultiMig_RemoveFinalizer ?m)) v = (x, t)"
    by blast
  have "\<not> dropsChildMig ?c ?m a" for a by (simp add: dropsChildMig_def multiMigClient_simps yields_def)
  then have "trace u = []" using r(1) by (cases "trace u") (auto simp: emits_def atRest_def)
  then have "trace v = []" using r(2) by (auto simp: listOwnedChildMigrations_def multiMigClient_simps run)
  with r(3) show ?thesis by (auto simp: t multiMigClient_simps run)
qed

text \<open>A migration on its way out with one child left.\<close>

definition goneMultiMig :: MultiMig where
  "goneMultiMig = (demoMultiMig [])\<lparr>mm_Meta := (mm_Meta (demoMultiMig []))\<lparr>om_DeletionTimestamp := Some 5\<rparr>\<rparr>"

definition orphaningClient :: "unit client" where
  "orphaningClient = (multiMigClient goneMultiMig)\<lparr>
     c_ListMigsByLabel := (\<lambda>k v. yields [emptyMigration\<lparr>mg_Meta := emptyMeta\<lparr>om_Labels := [k \<mapsto> v]\<rparr>\<rparr>]),
     c_DeleteMig := (\<lambda>q. yields ())\<rparr>"

theorem unowned_migrations_untouched_witness:
  "emits (multiMigAct goneMultiMig) atRest (snd (MultiMig_Reconcile orphaningClient ''ns'' ''m'' atRest))
   \<and> trace (snd (MultiMig_Reconcile orphaningClient ''ns'' ''m'' atRest)) =
       [(DeleteMig (emptyMigration\<lparr>mg_Meta := emptyMeta\<lparr>om_Labels := [multiNamespaceStorageMigrationUIDLabel \<mapsto> ''u'']\<rparr>\<rparr>), None)]"
proof
  have get: "c_GetMultiMig orphaningClient ns n w = (Inr goneMultiMig, ())" for ns n w
    by (simp add: orphaningClient_def multiMigClient_simps yields_def)
  have upd: "c_UpdateMultiMig orphaningClient = yields" by (simp add: orphaningClient_def multiMigClient_simps)
  have lst: "c_ListMigsByLabel orphaningClient k v = yields [emptyMigration\<lparr>mg_Meta := emptyMeta\<lparr>om_Labels := [k \<mapsto> v]\<rparr>\<rparr>]" for k v
    by (simp add: orphaningClient_def)
  have "case fst (c_GetMultiMig orphaningClient ''ns'' ''m'' (world atRest)) of
      Inl e \<Rightarrow> trace (snd (MultiMig_Reconcile orphaningClient ''ns'' ''m'' atRest)) = trace atRest
    | Inr m \<Rightarrow> emits (multiMigAct m) atRest (snd (MultiMig_Reconcile orphaningClient ''ns'' ''m'' atRest))"
    by (rule unowned_migrations_untouched) (auto simp: upd lst yields_def)
  then show "emits (multiMigAct goneMultiMig) atRest (snd (MultiMig_Reconcile orphaningClient ''ns'' ''m'' atRest))"
    by (simp add: get)
  have del: "c_DeleteMig orphaningClient q = yields ()" for q
    by (simp add: orphaningClient_def multiMigClient_def emptyClient_def)
  show "trace (snd (MultiMig_Reconcile orphaningClient ''ns'' ''m'' atRest)) =
       [(DeleteMig (emptyMigration\<lparr>mg_Meta := emptyMeta\<lparr>om_Labels := [multiNamespaceStorageMigrationUIDLabel \<mapsto> ''u'']\<rparr>\<rparr>), None)]"
    by (simp add: MultiMig_Reconcile_def MultiMig_runFinalizer_def listOwnedChildMigrations_def deleteChildMigration_def get lst del run
        yields_def atRest_def goneMultiMig_def demoMultiMig_def emptyMeta_def Let_def)
qed

theorem conflict_rewrites_status_witness:
  "\<exists>e m'. trace (snd (MultiMig_Reconcile (multiMigClient (demoMultiMig [conflictCondition 3 [] ''x''])) ''ns'' ''m'' atRest))
     = [(UpdateMultiMigStatus m', e)] \<and> mms_Conditions (mm_Status m') = [conflictCondition 7 [] ''x'']"
proof -
  let ?m = "demoMultiMig [conflictCondition 3 [] ''x'']"
  have "\<exists>e m'. trace (snd (MultiMig_Reconcile (multiMigClient ?m) ''ns'' ''m'' atRest)) = trace atRest @ [(UpdateMultiMigStatus m', e)]
    \<and> mm_Meta m' = mm_Meta ?m
    \<and> mm_Status m' = (mm_Status ?m)\<lparr>mms_Conditions := [conflictCondition 7 (om_Name (mg_Meta emptyMigration)) (nsp_Name \<lparr>nsp_Name = ''x'', nsp_Spec = None\<rparr>)]\<rparr>"
    by (rule conflict_rewrites_status[OF multiMigClient_read, where before = 3 and plan = demoParentPlan and rest = "[]" and w' = "()"])
      (simp_all add: multiMigClient_simps yields_def demoMultiMig_def demoParentPlan_def empty_defs isOwnedByAnyMultiNamespaceMigration_def)
  then show ?thesis by (auto simp: atRest_def empty_defs)
qed

end
