(* ===== verification/Watches.thy ===== *)
theory Watches
  imports GoPath PlanReconcile MultiPlanController MultiMigController
begin

text \<open>
  The registrations of the four controllers (\<open>SetupWithManager\<close> and \<open>IndexFields\<close>) and what they
  are for: which reconcile a change of an object leads to.  The manager belongs to
  controller-runtime: it is the argument \<open>reg\<close>, which performs one registration and may refuse
  it.  What it does with a watch is documented: every event of an object of the watched kind goes
  to the handler, and the requests the handler answers are queued for the controller.  None of
  the watches has a predicate, so an update of status or metadata is an event as well.
\<close>

section \<open>Registrations\<close>

datatype kind = KPlan | KMigration | KVM | KVMIM | KMultiPlan | KMultiMig

datatype indexFn = PlanNameIndex | VMIndex | MigrationNameIndex

text \<open>\<open>handler.TypedEnqueueRequestForObject\<close> and the map functions of the reconcilers.\<close>

datatype eventHandler =
    EnqueueRequestForObject
  | GetMigMigrationsForPlan
  | GetMigMigrationsForVMIM
  | GetPlansForVM
  | GetPlanForStorageMigration
  | GetMultiPlanForPlan
  | GetMultiMigForMigration

datatype setupAct =
    NewController string
  | Watch string kind eventHandler
  | IndexField kind string indexFn

abbreviation planController :: string where "planController \<equiv> ''kubevirt-storage-migplan-controller''"
abbreviation migController :: string where "migController \<equiv> ''kubevirt-storage-migration-controller''"
abbreviation multiPlanController :: string where "multiPlanController \<equiv> ''kubevirt-multinamespace-storage-migplan-controller''"
abbreviation multiMigController :: string where "multiMigController \<equiv> ''kubevirt-multinamespace-storage-migration-controller''"

abbreviation planNameIndexKey :: string where "planNameIndexKey \<equiv> ''spec.virtualMachineStorageMigrationPlanRef''"
abbreviation vmIndexKey :: string where "vmIndexKey \<equiv> ''spec.virtualMachines.name''"
abbreviation migrationNameIndexKey :: string where "migrationNameIndexKey \<equiv> ''spec.virtualMachineStorageMigrationPlanRef.name''"

definition Mig_SetupWithManager :: "(setupAct \<Rightarrow> ('s, unit) go) \<Rightarrow> ('s, unit) go" where
  "Mig_SetupWithManager reg =
     bind (reg (NewController migController)) (\<lambda>_.
     bind (reg (Watch migController KMigration EnqueueRequestForObject)) (\<lambda>_.
     bind (reg (IndexField KMigration planNameIndexKey PlanNameIndex)) (\<lambda>_.
     bind (reg (Watch migController KPlan GetMigMigrationsForPlan)) (\<lambda>_.
     reg (Watch migController KVMIM GetMigMigrationsForVMIM)))))"

definition IndexFields :: "(setupAct \<Rightarrow> ('s, unit) go) \<Rightarrow> ('s, unit) go" where
  "IndexFields reg =
     bind (reg (IndexField KPlan vmIndexKey VMIndex)) (\<lambda>_.
     reg (IndexField KMigration migrationNameIndexKey MigrationNameIndex))"

definition Plan_SetupWithManager :: "(setupAct \<Rightarrow> ('s, unit) go) \<Rightarrow> ('s, unit) go" where
  "Plan_SetupWithManager reg =
     bind (reg (NewController planController)) (\<lambda>_.
     bind (reg (Watch planController KPlan EnqueueRequestForObject)) (\<lambda>_.
     bind (IndexFields reg) (\<lambda>_.
     bind (reg (Watch planController KVM GetPlansForVM)) (\<lambda>_.
     reg (Watch planController KMigration GetPlanForStorageMigration)))))"

definition MultiPlan_SetupWithManager :: "(setupAct \<Rightarrow> ('s, unit) go) \<Rightarrow> ('s, unit) go" where
  "MultiPlan_SetupWithManager reg =
     bind (reg (NewController multiPlanController)) (\<lambda>_.
     bind (reg (Watch multiPlanController KMultiPlan EnqueueRequestForObject)) (\<lambda>_.
     reg (Watch multiPlanController KPlan GetMultiPlanForPlan)))"

definition MultiMig_SetupWithManager :: "(setupAct \<Rightarrow> ('s, unit) go) \<Rightarrow> ('s, unit) go" where
  "MultiMig_SetupWithManager reg =
     bind (reg (NewController multiMigController)) (\<lambda>_.
     bind (reg (Watch multiMigController KMultiMig EnqueueRequestForObject)) (\<lambda>_.
     reg (Watch multiMigController KMigration GetMultiMigForMigration)))"

text \<open>What the four perform, in the order of \<open>main\<close>, with a manager that notes and refuses nothing.\<close>

definition noting :: "setupAct \<Rightarrow> (setupAct list, unit) go" where
  "noting a = modify (\<lambda>l. l @ [a])"

definition registrations :: "setupAct list" where
  "registrations = snd (bind (Plan_SetupWithManager noting) (\<lambda>_. bind (Mig_SetupWithManager noting) (\<lambda>_.
     bind (MultiPlan_SetupWithManager noting) (\<lambda>_. MultiMig_SetupWithManager noting))) [])"

lemma registrations_list:
  "registrations = [
     NewController planController,
     Watch planController KPlan EnqueueRequestForObject,
     IndexField KPlan vmIndexKey VMIndex,
     IndexField KMigration migrationNameIndexKey MigrationNameIndex,
     Watch planController KVM GetPlansForVM,
     Watch planController KMigration GetPlanForStorageMigration,
     NewController migController,
     Watch migController KMigration EnqueueRequestForObject,
     IndexField KMigration planNameIndexKey PlanNameIndex,
     Watch migController KPlan GetMigMigrationsForPlan,
     Watch migController KVMIM GetMigMigrationsForVMIM,
     NewController multiPlanController,
     Watch multiPlanController KMultiPlan EnqueueRequestForObject,
     Watch multiPlanController KPlan GetMultiPlanForPlan,
     NewController multiMigController,
     Watch multiMigController KMultiMig EnqueueRequestForObject,
     Watch multiMigController KMigration GetMultiMigForMigration]"
  by (simp add: registrations_def noting_def run Plan_SetupWithManager_def Mig_SetupWithManager_def IndexFields_def
      MultiPlan_SetupWithManager_def MultiMig_SetupWithManager_def)

text \<open>No two indexes of a kind share a key: the indexer would refuse the second.\<close>

lemma indexes_distinct: "distinct [(k, n). IndexField k n f \<leftarrow> registrations]"
  by (simp add: registrations_list)

section \<open>Events\<close>

datatype object =
    PlanObject Plan
  | MigObject Migration
  | VMObject VirtualMachine
  | VMIMObject VMIM
  | MultiPlanObject MultiPlan
  | MultiMigObject MultiMig

fun kindOf :: "object \<Rightarrow> kind" where
  "kindOf (PlanObject _) = KPlan"
| "kindOf (MigObject _) = KMigration"
| "kindOf (VMObject _) = KVM"
| "kindOf (VMIMObject _) = KVMIM"
| "kindOf (MultiPlanObject _) = KMultiPlan"
| "kindOf (MultiMigObject _) = KMultiMig"

fun objectKey :: "object \<Rightarrow> string \<times> string" where
  "objectKey (PlanObject p) = (om_Namespace (pl_Meta p), om_Name (pl_Meta p))"
| "objectKey (MigObject m) = (om_Namespace (mg_Meta m), om_Name (mg_Meta m))"
| "objectKey (VMObject v) = (vm_Namespace v, vm_Name v)"
| "objectKey (VMIMObject v) = (vmim_Namespace v, vmim_Name v)"
| "objectKey (MultiPlanObject p) = (om_Namespace (mp_Meta p), om_Name (mp_Meta p))"
| "objectKey (MultiMigObject m) = (om_Namespace (mm_Meta m), om_Name (mm_Meta m))"

text \<open>The typed handlers never see an object of another kind.\<close>

fun handleEvent :: "'w client \<Rightarrow> eventHandler \<Rightarrow> object \<Rightarrow> (('w, 'z) sys_scheme, (string \<times> string) list) go" where
  "handleEvent cl EnqueueRequestForObject ob = ret [objectKey ob]"
| "handleEvent cl GetMigMigrationsForPlan (PlanObject p) = getMigMigrationsForPlan cl p"
| "handleEvent cl GetMigMigrationsForVMIM (VMIMObject v) = getMigMigrationsForVMIM cl v"
| "handleEvent cl GetPlansForVM (VMObject v) = getVirtualMachineMigrationPlansForVM cl v"
| "handleEvent cl GetPlanForStorageMigration (MigObject m) = ret (getVirtualMachineStorageMigrationsPlanForStorageMigration m)"
| "handleEvent cl GetMultiPlanForPlan (PlanObject p) = getMultiNamespaceVirtualMachineStorageMigrationsPlanForStorageMigration cl p"
| "handleEvent cl GetMultiMigForMigration (MigObject m) = getVirtualMachineStorageMigrationsForMultiNamespaceStorageMigration cl m"
| "handleEvent cl _ _ = ret []"

text \<open>The requests queued by one event, each with the controller it is queued for.\<close>

fun deliver :: "'w client \<Rightarrow> setupAct list \<Rightarrow> object \<Rightarrow> (('w, 'z) sys_scheme, (string \<times> string \<times> string) list) go" where
  "deliver cl [] ob = ret []"
| "deliver cl (Watch c k f # as) ob =
     (if k = kindOf ob
      then bind (handleEvent cl f ob) (\<lambda>rs. bind (deliver cl as ob) (\<lambda>qs. ret (map (Pair c) rs @ qs)))
      else deliver cl as ob)"
| "deliver cl (_ # as) ob = deliver cl as ob"

section \<open>Properties\<close>

text \<open>A migration refers to a plan: by name, in its own namespace.\<close>

definition refersTo :: "Migration \<Rightarrow> Plan \<Rightarrow> bool" where
  "refersTo m p \<longleftrightarrow> om_Namespace (mg_Meta m) = om_Namespace (pl_Meta p)
     \<and> (\<exists>ref. mg_PlanRef m = Some ref \<and> ref_Name ref = om_Name (pl_Meta p))"

definition plainMigration :: "Migration \<Rightarrow> bool" where
  "plainMigration m \<longleftrightarrow> plainName (om_Namespace (mg_Meta m)) \<and> (\<forall>ref. mg_PlanRef m = Some ref \<longrightarrow> plainName (ref_Name ref))"

lemma planNameIndex_refersTo:
  assumes "plainMigration m" "plainName (om_Namespace (pl_Meta p))" "plainName (om_Name (pl_Meta p))"
  shows "pathJoin [om_Namespace (pl_Meta p), om_Name (pl_Meta p)] \<in> set (planNameIndex m) \<longleftrightarrow> refersTo m p"
  using assms pathJoin_inj by (cases "mg_PlanRef m") (auto simp: planNameIndex_def plainMigration_def refersTo_def)

text \<open>
  C19. A change of a plan wakes everybody who waits for it: the controller of the plan, the
  controller of migrations for exactly the migrations that refer to the plan, and, where the plan
  is the child of a multi-namespace plan, the controller of its parent.  So the request of a task
  for a refresh reaches the plan, and the answer of the plan reaches the task.  The server is
  asked to answer a listing by index with the objects whose index value matches.
\<close>

theorem plan_change_wakes:
  fixes s :: "('w, 'z) sys_scheme"
  assumes "\<And>k w. c_ListMigsByPlanKey cl k w = (Inr (filter (\<lambda>m. k \<in> set (planNameIndex m)) ms), w)"
    and "\<And>w. c_GetMultiPlan cl ns name w = (case parent of None \<Rightarrow> (Inl (NotFoundErr e), w) | Some q \<Rightarrow> (Inr q, w))"
    and "parentOf multiNamespaceStorageMigPlanNameLabel multiNamespaceStorageMigPlanNamespaceLabel
       multiNamespaceStorageMigPlanNameAnnotation multiNamespaceStorageMigPlanNamespaceAnnotation (pl_Meta p) = (ns, name)"
    and "plainName (om_Namespace (pl_Meta p))" "plainName (om_Name (pl_Meta p))" "list_all plainMigration ms"
  shows "fst (deliver cl registrations (PlanObject p) s) =
    Ok ((planController, objectKey (PlanObject p)) #
        map (\<lambda>m. (migController, objectKey (MigObject m))) (filter (\<lambda>m. refersTo m p) ms) @
        (case parent of None \<Rightarrow> [] | Some q \<Rightarrow> [(multiPlanController, objectKey (MultiPlanObject q))]))"
proof -
  have "filter (\<lambda>m. pathJoin [om_Namespace (pl_Meta p), om_Name (pl_Meta p)] \<in> set (planNameIndex m)) ms = filter (\<lambda>m. refersTo m p) ms"
    using assms(4-6) by (auto simp: list_all_iff planNameIndex_refersTo intro!: filter_cong)
  then show ?thesis using assms(1-3)
    by (simp add: registrations_list getMigMigrationsForPlan_def requestFor_def query_def run comp_def
        getMultiNamespaceVirtualMachineStorageMigrationsPlanForStorageMigration_def split: option.splits)
qed

definition namedMeta :: "string \<Rightarrow> string \<Rightarrow> ObjectMeta" where
  "namedMeta ns n = emptyMeta\<lparr>om_Namespace := ns, om_Name := n\<rparr>"

definition waitingMigration :: Migration where
  "waitingMigration = emptyMigration\<lparr>mg_Meta := namedMeta ''ns'' ''mig'',
     mg_PlanRef := Some \<lparr>ref_Namespace = ''ns'', ref_Name = ''plan'', ref_UID = []\<rparr>\<rparr>"

definition watchedPlan :: Plan where
  "watchedPlan = emptyPlan\<lparr>pl_Meta := namedMeta ''ns'' ''plan''\<rparr>"

definition indexClient :: "unit client" where
  "indexClient = emptyClient\<lparr>c_ListMigsByPlanKey := \<lambda>k w. (Inr (filter (\<lambda>m. k \<in> set (planNameIndex m)) [waitingMigration]), w)\<rparr>"

lemmas watch_examples = namedMeta_def waitingMigration_def watchedPlan_def indexClient_def emptyClient_def empty_defs
  plainName_def plainMigration_def refersTo_def parentOf_def

theorem plan_change_wakes_witness:
  "fst (deliver indexClient registrations (PlanObject watchedPlan) \<lparr>world = (), trace = []\<rparr>) =
     Ok [(planController, ''ns'', ''plan''), (migController, ''ns'', ''mig'')]"
proof -
  have "c_GetMultiPlan indexClient (fst (parentOf multiNamespaceStorageMigPlanNameLabel multiNamespaceStorageMigPlanNamespaceLabel
       multiNamespaceStorageMigPlanNameAnnotation multiNamespaceStorageMigPlanNamespaceAnnotation (pl_Meta watchedPlan))) n w
     = (case None of None \<Rightarrow> (Inl (NotFoundErr ''not found''), w) | Some q \<Rightarrow> (Inr q, w))" for n w
    by (simp add: indexClient_def emptyClient_def run)
  from plan_change_wakes[of indexClient "[waitingMigration]", OF _ this surjective_pairing] show ?thesis
    by (simp add: watch_examples)
qed

text \<open>
  A change of a migration wakes its own controller, so that a phase written to its status is
  acted on; the controller of the plan it names in its namespace, which follows the progress of
  its VMs; and the controller of the multi-namespace migration it was made for.  A migration
  without a plan wakes no plan.
\<close>

theorem migration_change_wakes:
  fixes s :: "('w, 'z) sys_scheme"
  assumes "\<And>w. c_GetMultiMig cl ns name w = (case parent of None \<Rightarrow> (Inl (NotFoundErr e), w) | Some q \<Rightarrow> (Inr q, w))"
    and "parentOf multiNamespaceStorageMigrationNameLabel multiNamespaceStorageMigrationNamespaceLabel
       multiNamespaceStorageMigrationNameAnnotation multiNamespaceStorageMigrationNamespaceAnnotation (mg_Meta m) = (ns, name)"
  shows "fst (deliver cl registrations (MigObject m) s) =
    Ok ((case mg_PlanRef m of
           None \<Rightarrow> []
         | Some ref \<Rightarrow> if ref_Name ref = [] then [] else [(planController, om_Namespace (mg_Meta m), ref_Name ref)]) @
        (migController, objectKey (MigObject m)) #
        (case parent of None \<Rightarrow> [] | Some q \<Rightarrow> [(multiMigController, objectKey (MultiMigObject q))]))"
  using assms
  by (simp add: registrations_list query_def run getVirtualMachineStorageMigrationsPlanForStorageMigration_def
      getVirtualMachineStorageMigrationsForMultiNamespaceStorageMigration_def split: option.splits)

theorem migration_change_wakes_witness:
  "fst (deliver indexClient registrations (MigObject waitingMigration) \<lparr>world = (), trace = []\<rparr>) =
     Ok [(planController, ''ns'', ''plan''), (migController, ''ns'', ''mig'')]"
proof -
  have "c_GetMultiMig indexClient (fst (parentOf multiNamespaceStorageMigrationNameLabel multiNamespaceStorageMigrationNamespaceLabel
       multiNamespaceStorageMigrationNameAnnotation multiNamespaceStorageMigrationNamespaceAnnotation (mg_Meta waitingMigration))) n w
     = (case None of None \<Rightarrow> (Inl (NotFoundErr ''not found''), w) | Some q \<Rightarrow> (Inr q, w))" for n w
    by (simp add: indexClient_def emptyClient_def run)
  from migration_change_wakes[of indexClient, OF this surjective_pairing] show ?thesis
    by (simp add: watch_examples)
qed

end
