(* ===== verification/TlsWatcher.thy ===== *)
theory TlsWatcher
  imports Client
begin

text \<open>
  The TLS settings of the servers (\<open>src/pkg/component-helpers/tls_watcher.go\<close> and the option
  \<open>cryptoPolicyOpt\<close> of \<open>src/cmd/main.go\<close>): the profile of the first MigController object
  chooses the minimal protocol version and the cipher suites of every handshake.  Versions and
  suites are the 16-bit numbers of \<open>crypto/tls\<close>; the profiles are those of the vendored
  operator API.
\<close>

section \<open>Profiles\<close>

abbreviation VersionTLS10 :: "16 word" where "VersionTLS10 \<equiv> 0x0301"
abbreviation VersionTLS11 :: "16 word" where "VersionTLS11 \<equiv> 0x0302"
abbreviation VersionTLS12 :: "16 word" where "VersionTLS12 \<equiv> 0x0303"
abbreviation VersionTLS13 :: "16 word" where "VersionTLS13 \<equiv> 0x0304"

record TLSProfileSpec =
  tps_Ciphers :: "string list"
  tps_MinTLSVersion :: string

text \<open>Of the four optional sections of a profile only \<open>Custom\<close> is ever read.\<close>

record TLSSecurityProfile =
  tsp_Type :: string
  tsp_Custom :: "TLSProfileSpec option"

record cryptoConfig =
  cc_CipherSuites :: "16 word list"
  cc_MinVersion :: "16 word"

definition tlsVersionMap :: "string \<rightharpoonup> 16 word" where
  "tlsVersionMap = map_of [(''VersionTLS10'', VersionTLS10), (''VersionTLS11'', VersionTLS11),
     (''VersionTLS12'', VersionTLS12), (''VersionTLS13'', VersionTLS13)]"

text \<open>\<open>tls.CipherSuites()\<close> of the Go version of the module: the suites without known weaknesses.\<close>

definition goCipherSuites :: "(string \<times> 16 word) list" where
  "goCipherSuites = [
     (''TLS_AES_128_GCM_SHA256'', 0x1301), (''TLS_AES_256_GCM_SHA384'', 0x1302), (''TLS_CHACHA20_POLY1305_SHA256'', 0x1303),
     (''TLS_ECDHE_ECDSA_WITH_AES_128_CBC_SHA'', 0xc009), (''TLS_ECDHE_ECDSA_WITH_AES_256_CBC_SHA'', 0xc00a),
     (''TLS_ECDHE_RSA_WITH_AES_128_CBC_SHA'', 0xc013), (''TLS_ECDHE_RSA_WITH_AES_256_CBC_SHA'', 0xc014),
     (''TLS_ECDHE_ECDSA_WITH_AES_128_GCM_SHA256'', 0xc02b), (''TLS_ECDHE_ECDSA_WITH_AES_256_GCM_SHA384'', 0xc02c),
     (''TLS_ECDHE_RSA_WITH_AES_128_GCM_SHA256'', 0xc02f), (''TLS_ECDHE_RSA_WITH_AES_256_GCM_SHA384'', 0xc030),
     (''TLS_ECDHE_RSA_WITH_CHACHA20_POLY1305_SHA256'', 0xcca8), (''TLS_ECDHE_ECDSA_WITH_CHACHA20_POLY1305_SHA256'', 0xcca9)]"

definition extraCipherSuites :: "(string \<times> 16 word) list" where
  "extraCipherSuites = [
     (''ECDHE-ECDSA-AES128-GCM-SHA256'', 0xc02b), (''ECDHE-RSA-AES128-GCM-SHA256'', 0xc02f),
     (''ECDHE-ECDSA-AES256-GCM-SHA384'', 0xc02c), (''ECDHE-RSA-AES256-GCM-SHA384'', 0xc030),
     (''ECDHE-ECDSA-CHACHA20-POLY1305'', 0xcca9), (''ECDHE-RSA-CHACHA20-POLY1305'', 0xcca8),
     (''ECDHE-ECDSA-AES128-SHA256'', 0xc023), (''ECDHE-RSA-AES128-SHA256'', 0xc027),
     (''ECDHE-ECDSA-AES128-SHA'', 0xc009), (''ECDHE-RSA-AES128-SHA'', 0xc013),
     (''ECDHE-ECDSA-AES256-SHA'', 0xc00a), (''ECDHE-RSA-AES256-SHA'', 0xc014),
     (''AES128-GCM-SHA256'', 0x009c), (''AES256-GCM-SHA384'', 0x009d), (''AES128-SHA256'', 0x003c),
     (''AES128-SHA'', 0x002f), (''AES256-SHA'', 0x0035), (''DES-CBC3-SHA'', 0x000a)]"

text \<open>The suites of the library are entered last.\<close>

definition cipherNameToID :: "string \<rightharpoonup> 16 word" where
  "cipherNameToID = map_of extraCipherSuites ++ map_of goCipherSuites"

definition TLSProfiles :: "string \<rightharpoonup> TLSProfileSpec" where
  "TLSProfiles = [
     ''Old'' \<mapsto> \<lparr>tps_Ciphers = [''TLS_AES_128_GCM_SHA256'', ''TLS_AES_256_GCM_SHA384'', ''TLS_CHACHA20_POLY1305_SHA256'',
       ''ECDHE-ECDSA-AES128-GCM-SHA256'', ''ECDHE-RSA-AES128-GCM-SHA256'', ''ECDHE-ECDSA-AES256-GCM-SHA384'',
       ''ECDHE-RSA-AES256-GCM-SHA384'', ''ECDHE-ECDSA-CHACHA20-POLY1305'', ''ECDHE-RSA-CHACHA20-POLY1305'',
       ''DHE-RSA-AES128-GCM-SHA256'', ''DHE-RSA-AES256-GCM-SHA384'', ''DHE-RSA-CHACHA20-POLY1305'',
       ''ECDHE-ECDSA-AES128-SHA256'', ''ECDHE-RSA-AES128-SHA256'', ''ECDHE-ECDSA-AES128-SHA'', ''ECDHE-RSA-AES128-SHA'',
       ''ECDHE-ECDSA-AES256-SHA384'', ''ECDHE-RSA-AES256-SHA384'', ''ECDHE-ECDSA-AES256-SHA'', ''ECDHE-RSA-AES256-SHA'',
       ''DHE-RSA-AES128-SHA256'', ''DHE-RSA-AES256-SHA256'', ''AES128-GCM-SHA256'', ''AES256-GCM-SHA384'', ''AES128-SHA256'',
       ''AES256-SHA256'', ''AES128-SHA'', ''AES256-SHA'', ''DES-CBC3-SHA''], tps_MinTLSVersion = ''VersionTLS10''\<rparr>,
     ''Intermediate'' \<mapsto> \<lparr>tps_Ciphers = [''TLS_AES_128_GCM_SHA256'', ''TLS_AES_256_GCM_SHA384'', ''TLS_CHACHA20_POLY1305_SHA256'',
       ''ECDHE-ECDSA-AES128-GCM-SHA256'', ''ECDHE-RSA-AES128-GCM-SHA256'', ''ECDHE-ECDSA-AES256-GCM-SHA384'',
       ''ECDHE-RSA-AES256-GCM-SHA384'', ''ECDHE-ECDSA-CHACHA20-POLY1305'', ''ECDHE-RSA-CHACHA20-POLY1305'',
       ''DHE-RSA-AES128-GCM-SHA256'', ''DHE-RSA-AES256-GCM-SHA384''], tps_MinTLSVersion = ''VersionTLS12''\<rparr>,
     ''Modern'' \<mapsto> \<lparr>tps_Ciphers = [''TLS_AES_128_GCM_SHA256'', ''TLS_AES_256_GCM_SHA384'', ''TLS_CHACHA20_POLY1305_SHA256''],
       tps_MinTLSVersion = ''VersionTLS13''\<rparr>]"

section \<open>From a profile to a configuration\<close>

definition cipherSuitesIDs :: "string list \<Rightarrow> 16 word list" where
  "cipherSuitesIDs names = List.map_filter cipherNameToID names"

text \<open>\<open>TLSProfiles\<close> holds pointers: the entry of a missing type is nil, and its fields are read.\<close>

definition selectCipherSuitesAndMinTLSVersion :: "TLSSecurityProfile option \<Rightarrow> (string list \<times> string) result" where
  "selectCipherSuitesAndMinTLSVersion profile =
     (let p = (case profile of None \<Rightarrow> \<lparr>tsp_Type = ''Intermediate'', tsp_Custom = None\<rparr> | Some q \<Rightarrow> q) in
      case tsp_Custom p of
        Some spec \<Rightarrow> Ok (tps_Ciphers spec, tps_MinTLSVersion spec)
      | None \<Rightarrow> bindR (deref (TLSProfiles (tsp_Type p))) (\<lambda>spec. Ok (tps_Ciphers spec, tps_MinTLSVersion spec)))"

definition cryptoConfigFromSpec :: "TLSSecurityProfile option \<Rightarrow> cryptoConfig result" where
  "cryptoConfigFromSpec profile =
     bindR (selectCipherSuitesAndMinTLSVersion profile) (\<lambda>(cipherNames, version).
       Ok \<lparr>cc_CipherSuites = cipherSuitesIDs cipherNames,
         cc_MinVersion = (case tlsVersionMap version of Some v \<Rightarrow> v | None \<Rightarrow> VersionTLS12)\<rparr>)"

section \<open>The watcher\<close>

text \<open>
  The cache is an API whose listing answers with the profiles of the MigController objects.  The
  lock makes every access to the fields atomic; the critical sections are the steps below, and
  what happens between them is any other step.
\<close>

record 'w ManagedTLSWatcher =
  tw_cache :: "('w, TLSSecurityProfile option list) api option"
  tw_default :: cryptoConfig
  tw_ready :: bool

definition NewManagedTLSWatcher :: "'w ManagedTLSWatcher result" where
  "NewManagedTLSWatcher = bindR (cryptoConfigFromSpec None) (\<lambda>c.
     Ok \<lparr>tw_cache = None, tw_default = c, tw_ready = False\<rparr>)"

definition SetCache :: "('w, TLSSecurityProfile option list) api \<Rightarrow> 'w ManagedTLSWatcher \<Rightarrow> 'w ManagedTLSWatcher" where
  "SetCache c m = m\<lparr>tw_cache := Some c\<rparr>"

text \<open>
  \<open>Start\<close>: the snapshot of the cache, the wait (which answers whether the caches have synced),
  the listing, and the critical section that sets \<open>ready\<close>.
\<close>

definition TLS_Start :: "bool \<Rightarrow> 'w ManagedTLSWatcher \<Rightarrow> 'w \<Rightarrow> unit result \<times> 'w ManagedTLSWatcher \<times> 'w" where
  "TLS_Start synced m w = (case tw_cache m of
       None \<Rightarrow> (Err (PlainErr ''no cache provided for tls watcher''), m, w)
     | Some c \<Rightarrow>
         if \<not> synced then (Err (PlainErr ''failed to wait for caches to sync''), m, w)
         else (case c w of
             (Inl _, w') \<Rightarrow> (Ok (), m, w')
           | (Inr _, w') \<Rightarrow> (Ok (), m\<lparr>tw_ready := True\<rparr>, w')))"

definition GetTLSConfig :: "'w ManagedTLSWatcher \<Rightarrow> 'w \<Rightarrow> cryptoConfig result \<times> 'w" where
  "GetTLSConfig m w =
     (if \<not> tw_ready m then (Ok (tw_default m), w)
      else case tw_cache m of
        None \<Rightarrow> (Ok (tw_default m), w)
      | Some c \<Rightarrow> (case c w of
            (Inl _, w') \<Rightarrow> (Ok (tw_default m), w')
          | (Inr [], w') \<Rightarrow> (Ok (tw_default m), w')
          | (Inr (profile # _), w') \<Rightarrow> (cryptoConfigFromSpec profile, w')))"

text \<open>What a handshake uses: the suites of the base configuration are kept from TLS 1.3 on.\<close>

definition cryptoPolicyOpt :: "cryptoConfig \<Rightarrow> 'w ManagedTLSWatcher \<Rightarrow> 'w \<Rightarrow> cryptoConfig result \<times> 'w" where
  "cryptoPolicyOpt base m w = (case GetTLSConfig m w of (r, w') \<Rightarrow>
     (bindR r (\<lambda>cc. Ok \<lparr>cc_CipherSuites = (if cc_MinVersion cc < VersionTLS13 then cc_CipherSuites cc else cc_CipherSuites base),
        cc_MinVersion = cc_MinVersion cc\<rparr>), w'))"

section \<open>Properties\<close>

definition builtinProfiles :: "string set" where
  "builtinProfiles = {''Old'', ''Intermediate'', ''Modern''}"

text \<open>
  The specification: which profile is in force, what it asks for, and which number a version name
  stands for.
\<close>

definition servedProfile :: "'w ManagedTLSWatcher \<Rightarrow> 'w \<Rightarrow> TLSSecurityProfile option" where
  "servedProfile m w = (case (tw_ready m, tw_cache m) of
       (True, Some c) \<Rightarrow> (case fst (c w) of Inr (profile # _) \<Rightarrow> profile | _ \<Rightarrow> None)
     | _ \<Rightarrow> None)"

definition profileSpec :: "TLSSecurityProfile option \<Rightarrow> TLSProfileSpec option" where
  "profileSpec profile = (case profile of
       None \<Rightarrow> TLSProfiles ''Intermediate''
     | Some p \<Rightarrow> (case tsp_Custom p of Some c \<Rightarrow> Some c | None \<Rightarrow> TLSProfiles (tsp_Type p)))"

definition namedVersion :: "string \<Rightarrow> 16 word" where
  "namedVersion v = (if v = ''VersionTLS10'' then 0x0301 else if v = ''VersionTLS11'' then 0x0302
     else if v = ''VersionTLS13'' then 0x0304 else 0x0303)"

lemma namedVersion_map: "(case tlsVersionMap v of Some x \<Rightarrow> x | None \<Rightarrow> VersionTLS12) = namedVersion v"
  by (simp add: tlsVersionMap_def namedVersion_def)

lemma namedVersion_below: "namedVersion v < VersionTLS13 \<longleftrightarrow> namedVersion v \<noteq> VersionTLS13"
  by (simp add: namedVersion_def)

lemma profileSpec_None:
  "profileSpec profile = None \<longleftrightarrow> (\<exists>p. profile = Some p \<and> tsp_Custom p = None \<and> tsp_Type p \<notin> builtinProfiles)"
  by (auto simp: profileSpec_def builtinProfiles_def TLSProfiles_def split: option.splits if_splits)

lemma cryptoConfigFromSpec_eq:
  "cryptoConfigFromSpec profile = bindR (deref (profileSpec profile)) (\<lambda>sp.
     Ok \<lparr>cc_CipherSuites = cipherSuitesIDs (tps_Ciphers sp), cc_MinVersion = namedVersion (tps_MinTLSVersion sp)\<rparr>)"
  by (cases profile)
    (simp_all add: cryptoConfigFromSpec_def selectCipherSuitesAndMinTLSVersion_def profileSpec_def namedVersion_map
      Let_def deref_def split: option.splits)

text \<open>The watchers a process can have: made, given a cache, started.\<close>

inductive watcher :: "'w ManagedTLSWatcher \<Rightarrow> bool" where
  new: "NewManagedTLSWatcher = Ok m \<Longrightarrow> watcher m"
| cache: "watcher m \<Longrightarrow> watcher (SetCache c m)"
| start: "watcher m \<Longrightarrow> TLS_Start synced m w = (r, m', w') \<Longrightarrow> watcher m'"

lemma watcher_default: "watcher m \<Longrightarrow> cryptoConfigFromSpec None = Ok (tw_default m)"
proof (induction rule: watcher.induct)
  case (new m)
  then show ?case by (auto simp: NewManagedTLSWatcher_def bindR_eq_Ok)
next
  case (start m synced w r m' w')
  then show ?case by (auto simp: TLS_Start_def split: option.splits prod.splits sum.splits if_splits)
qed (simp add: SetCache_def)

lemma GetTLSConfig_profile: "watcher m \<Longrightarrow> fst (GetTLSConfig m w) = cryptoConfigFromSpec (servedProfile m w)"
  using watcher_default[of m]
  by (auto simp: GetTLSConfig_def servedProfile_def split: option.splits prod.splits sum.splits list.splits bool.splits)

text \<open>
  C40. Every handshake is negotiated under the profile in force: that of the first MigController
  object once the watcher is ready and as long as the listing succeeds, the intermediate profile
  otherwise.  The minimal version is the one the profile names, TLS 1.2 for an unknown name; below
  TLS 1.3 the suites are those of the ciphers the profile names, in its order and without the
  unknown ones, from TLS 1.3 on those of the server.  The built-in profiles \<open>Old\<close>,
  \<open>Intermediate\<close> and \<open>Modern\<close> ask for TLS 1.0, 1.2 and 1.3.  A profile of another type without a
  custom section makes the handshake panic, and nothing else does.
\<close>

theorem tls_handshake_follows_profile:
  assumes "watcher m"
  shows "(case profileSpec (servedProfile m w) of
      Some sp \<Rightarrow> fst (cryptoPolicyOpt base m w) = Ok
        \<lparr>cc_CipherSuites = (if namedVersion (tps_MinTLSVersion sp) = 0x0304 then cc_CipherSuites base
           else List.map_filter cipherNameToID (tps_Ciphers sp)),
         cc_MinVersion = namedVersion (tps_MinTLSVersion sp)\<rparr>
    | None \<Rightarrow> \<exists>msg. fst (cryptoPolicyOpt base m w) = Panic msg)
   \<and> (profileSpec (servedProfile m w) = None \<longleftrightarrow>
       (\<exists>p. servedProfile m w = Some p \<and> tsp_Custom p = None \<and> tsp_Type p \<notin> builtinProfiles))
   \<and> map_option (\<lambda>sp. namedVersion (tps_MinTLSVersion sp)) (profileSpec None) = Some 0x0303
   \<and> (\<forall>p. tsp_Custom p = None \<longrightarrow>
       map_option (\<lambda>sp. namedVersion (tps_MinTLSVersion sp)) (profileSpec (Some p)) =
         [''Old'' \<mapsto> 0x0301, ''Intermediate'' \<mapsto> 0x0303, ''Modern'' \<mapsto> 0x0304] (tsp_Type p))"
proof (intro conjI allI impI profileSpec_None)
  have "fst (cryptoPolicyOpt base m w) = bindR (fst (GetTLSConfig m w)) (\<lambda>cc. Ok
      \<lparr>cc_CipherSuites = (if cc_MinVersion cc < VersionTLS13 then cc_CipherSuites cc else cc_CipherSuites base),
       cc_MinVersion = cc_MinVersion cc\<rparr>)"
    by (simp add: cryptoPolicyOpt_def split: prod.splits)
  then show "case profileSpec (servedProfile m w) of
      Some sp \<Rightarrow> fst (cryptoPolicyOpt base m w) = Ok
        \<lparr>cc_CipherSuites = (if namedVersion (tps_MinTLSVersion sp) = 0x0304 then cc_CipherSuites base
           else List.map_filter cipherNameToID (tps_Ciphers sp)),
         cc_MinVersion = namedVersion (tps_MinTLSVersion sp)\<rparr>
    | None \<Rightarrow> \<exists>msg. fst (cryptoPolicyOpt base m w) = Panic msg"
    by (simp add: GetTLSConfig_profile[OF assms] cryptoConfigFromSpec_eq deref_def cipherSuitesIDs_def namedVersion_below
        split: option.splits)
qed (auto simp: profileSpec_def TLSProfiles_def namedVersion_def)

definition brokenProfile :: TLSSecurityProfile where
  "brokenProfile = \<lparr>tsp_Type = ''Custom'', tsp_Custom = None\<rparr>"

lemma watcher_ready:
  obtains m :: "unit ManagedTLSWatcher" where "watcher m" "tw_ready m" "tw_cache m = Some (yields ps)"
proof -
  obtain m0 :: "unit ManagedTLSWatcher" where m0: "NewManagedTLSWatcher = Ok m0"
    by (auto simp: NewManagedTLSWatcher_def cryptoConfigFromSpec_def selectCipherSuitesAndMinTLSVersion_def deref_def TLSProfiles_def)
  let ?m = "(SetCache (yields ps) m0)\<lparr>tw_ready := True\<rparr>"
  have "TLS_Start True (SetCache (yields ps) m0) () = (Ok (), ?m, ())"
    by (simp add: TLS_Start_def SetCache_def yields_def)
  then have "watcher ?m" using m0 by (blast intro: watcher.intros)
  then show thesis by (rule that) (simp_all add: SetCache_def)
qed

theorem tls_handshake_follows_profile_witness:
  "\<exists>m m' :: unit ManagedTLSWatcher. watcher m \<and> watcher m'
     \<and> fst (cryptoPolicyOpt \<lparr>cc_CipherSuites = [1], cc_MinVersion = 0\<rparr> m ()) = Ok \<lparr>cc_CipherSuites = [1], cc_MinVersion = 0x0304\<rparr>
     \<and> (\<exists>msg. fst (cryptoPolicyOpt \<lparr>cc_CipherSuites = [1], cc_MinVersion = 0\<rparr> m' ()) = Panic msg)"
proof -
  let ?b = "\<lparr>cc_CipherSuites = [1], cc_MinVersion = 0\<rparr>" and ?p = "\<lparr>tsp_Type = ''Modern'', tsp_Custom = None\<rparr>"
  obtain m :: "unit ManagedTLSWatcher" where m: "watcher m" "tw_ready m" "tw_cache m = Some (yields [Some ?p])"
    by (rule watcher_ready)
  obtain m' :: "unit ManagedTLSWatcher" where m': "watcher m'" "tw_ready m'" "tw_cache m' = Some (yields [Some brokenProfile])"
    by (rule watcher_ready)
  have s: "servedProfile m () = Some ?p" "servedProfile m' () = Some brokenProfile"
    using m m' by (simp_all add: servedProfile_def yields_def)
  have "fst (cryptoPolicyOpt ?b m ()) = Ok \<lparr>cc_CipherSuites = [1], cc_MinVersion = 0x0304\<rparr>"
    using tls_handshake_follows_profile[OF m(1), where w = "()" and base = ?b]
    by (simp add: s profileSpec_def TLSProfiles_def namedVersion_def)
  moreover have "\<exists>msg. fst (cryptoPolicyOpt ?b m' ()) = Panic msg"
    using tls_handshake_follows_profile[OF m'(1), where w = "()" and base = ?b]
    by (simp add: s profileSpec_def TLSProfiles_def brokenProfile_def)
  ultimately show ?thesis using m(1) m'(1) by blast
qed

end
