(* ===== verification/Startup.thy ===== *)
theory Startup
  imports Watches TlsWatcher GoHeap
begin

text \<open>
  The start of the manager (\<open>src/cmd/main.go\<close>).  The libraries it calls are the fields of the
  record \<open>platform\<close>.  \<open>os.Exit(1)\<close> is an error that nothing catches: a run of \<open>main\<close> that
  ends in \<open>Err\<close> is a process that exits with status 1, one that ends in \<open>Ok\<close> a manager that
  was stopped.  The TLS options of the two servers are slices built by \<open>append\<close> from a common
  prefix, so they are modelled in the heap.
\<close>

section \<open>Flags\<close>

record flags =
  fl_metricsAddr :: string
  fl_probeAddr :: string
  fl_enableLeaderElection :: bool
  fl_secureMetrics :: bool
  fl_webhookCertPath :: string
  fl_webhookCertName :: string
  fl_webhookCertKey :: string
  fl_metricsCertPath :: string
  fl_metricsCertName :: string
  fl_metricsCertKey :: string
  fl_enableHTTP2 :: bool

definition defaultFlags :: flags where
  "defaultFlags = \<lparr>fl_metricsAddr = ''0'', fl_probeAddr = '':8081'', fl_enableLeaderElection = False, fl_secureMetrics = True,
     fl_webhookCertPath = [], fl_webhookCertName = ''tls.crt'', fl_webhookCertKey = ''tls.key'',
     fl_metricsCertPath = [], fl_metricsCertName = ''tls.crt'', fl_metricsCertKey = ''tls.key'', fl_enableHTTP2 = False\<rparr>"

section \<open>The platform\<close>

text \<open>
  The TLS options as values; a certificate option names the watcher whose certificate it serves.
  \<open>NilFunc\<close> is the zero value that fills the unused part of an array.
\<close>

datatype tlsOpt = NilFunc | DisableHTTP2 | CryptoPolicy | CertificateOf nat

datatype runnable = TLSWatcherRunnable | MetricsCertWatcher nat | WebhookCertWatcher nat

datatype cachedKind = ConfigMapKind | RouteKind

record ManagerOptions =
  mo_ByObject :: "(cachedKind \<times> (string \<times> string) list) list"
  mo_MetricsBindAddress :: string
  mo_SecureServing :: bool
  mo_WithAuthenticationAndAuthorization :: bool
  mo_MetricsTLSOpts :: "slice option"
  mo_WebhookTLSOpts :: "slice option"
  mo_HealthProbeBindAddress :: string
  mo_LeaderElection :: bool
  mo_LeaderElectionID :: string
  mo_LeaderElectionReleaseOnCancel :: bool

datatype bootAct =
    NewCertWatcher string string
  | GetConfig
  | NewClient
  | NewManager
  | Setup setupAct
  | AddTLSWatcher
  | AddMetricsCertWatcher
  | AddWebhookCertWatcher
  | AddHealthzCheck string
  | AddReadyzCheck string
  | StartManager

record 'w platform =
  pf_NewCertWatcher :: "string \<Rightarrow> string \<Rightarrow> ('w, nat) api"
  pf_GetConfig :: "('w, unit) api"
  pf_NewClient :: "('w, unit) api"
  pf_GetClusterVersion :: "('w, unit) api"
  pf_ReadFile :: "string \<Rightarrow> ('w, string) api"
  pf_NewManager :: "ManagerOptions \<Rightarrow> ('w, unit) api"
  pf_Setup :: "setupAct \<Rightarrow> ('w, unit) api"
  pf_Cache :: "('w, TLSSecurityProfile option list) api"
  pf_Add :: "runnable \<Rightarrow> ('w, unit) api"
  pf_AddHealthzCheck :: "string \<Rightarrow> ('w, unit) api"
  pf_AddReadyzCheck :: "string \<Rightarrow> ('w, unit) api"
  pf_Start :: "('w, unit) api"
  pf_grow :: "nat \<Rightarrow> nat \<Rightarrow> nat"

text \<open>The process: the world, what it has set up so far and whether that succeeded, and its memory.\<close>

record 'w boot =
  b_world :: 'w
  b_log :: "(bootAct \<times> bool) list"
  b_heap :: "tlsOpt heap"
  b_watcher :: "'w ManagedTLSWatcher option"
  b_options :: "ManagerOptions option"

definition perform :: "bootAct \<Rightarrow> ('w, 'r) api \<Rightarrow> ('w boot, 'r) go" where
  "perform a f = (\<lambda>s. case f (b_world s) of
      (Inl e, w) \<Rightarrow> (Err e, s\<lparr>b_world := w, b_log := b_log s @ [(a, False)]\<rparr>)
    | (Inr r, w) \<Rightarrow> (Ok r, s\<lparr>b_world := w, b_log := b_log s @ [(a, True)]\<rparr>))"

definition ask :: "('w, 'r) api \<Rightarrow> ('w boot, 'r) go" where
  "ask f = (\<lambda>s. case f (b_world s) of
      (Inl e, w) \<Rightarrow> (Err e, s\<lparr>b_world := w\<rparr>)
    | (Inr r, w) \<Rightarrow> (Ok r, s\<lparr>b_world := w\<rparr>))"

definition appendOpt :: "'w platform \<Rightarrow> slice option \<Rightarrow> tlsOpt \<Rightarrow> ('w boot, slice option) go" where
  "appendOpt pf sl opt = (\<lambda>s. case goAppend (pf_grow pf) NilFunc sl opt (b_heap s) of
      (sl', h') \<Rightarrow> (Ok sl', s\<lparr>b_heap := h'\<rparr>))"

section \<open>main.go\<close>

text \<open>\<open>strings.TrimSpace\<close> on the bytes that are white space in ASCII.\<close>

definition asciiSpace :: "char \<Rightarrow> bool" where
  "asciiSpace c \<longleftrightarrow> c \<in> {CHR '' '', CHR 0x09, CHR 0x0A, CHR 0x0B, CHR 0x0C, CHR 0x0D}"

definition TrimSpace :: "string \<Rightarrow> string" where
  "TrimSpace t = rev (dropWhile asciiSpace (rev (dropWhile asciiSpace t)))"

definition getNamespace :: "'w platform \<Rightarrow> string \<Rightarrow> ('w boot, string) go" where
  "getNamespace pf path =
     bind (attempt (ask (pf_ReadFile pf path))) (\<lambda>r. case r of
       Inr data \<Rightarrow> ret (if TrimSpace data \<noteq> [] then TrimSpace data else ''kubevirt-migration'')
     | Inl _ \<Rightarrow> ret ''kubevirt-migration'')"

definition isOpenShift :: "'w platform \<Rightarrow> ('w boot, bool) go" where
  "isOpenShift pf =
     bind (attempt (ask (pf_GetClusterVersion pf))) (\<lambda>r. case r of
       Inl e \<Rightarrow> if \<not> IsNoMatchError e then throw e else ret False
     | Inr _ \<Rightarrow> ret True)"

definition getCacheOptions :: "'w platform \<Rightarrow> ('w boot, (cachedKind \<times> (string \<times> string) list) list) go" where
  "getCacheOptions pf =
     bind (getNamespace pf ''/var/run/secrets/kubernetes.io/serviceaccount/namespace'') (\<lambda>ns.
     bind (isOpenShift pf) (\<lambda>openshift.
     ret ((ConfigMapKind, [(''metadata.namespace'', ns), (''metadata.name'', ''migration-controller'')]) #
       (if openshift then [(RouteKind, [(''metadata.namespace'', ''openshift-monitoring''), (''metadata.name'', ''prometheus-k8s'')])]
        else []))))"

text \<open>The options both servers start from.\<close>

definition commonTLSOpts :: "'w platform \<Rightarrow> flags \<Rightarrow> ('w boot, slice option) go" where
  "commonTLSOpts pf fl =
     bind (if \<not> fl_enableHTTP2 fl then appendOpt pf None DisableHTTP2 else ret None) (\<lambda>tlsOpts.
     bind (liftR NewManagedTLSWatcher) (\<lambda>m.
     bind (modify (\<lambda>s. s\<lparr>b_watcher := Some m\<rparr>)) (\<lambda>_.
     appendOpt pf tlsOpts CryptoPolicy)))"

text \<open>A server with its own certificate files gets a watcher for them and one more option.\<close>

definition withCertificate ::
  "'w platform \<Rightarrow> string \<Rightarrow> string \<Rightarrow> string \<Rightarrow> slice option \<Rightarrow> ('w boot, nat option \<times> slice option) go"
where
  "withCertificate pf path name key tlsOpts =
     (if path \<noteq> [] then
        bind (perform (NewCertWatcher (pathJoin [path, name]) (pathJoin [path, key]))
                (pf_NewCertWatcher pf (pathJoin [path, name]) (pathJoin [path, key]))) (\<lambda>w.
        bind (appendOpt pf tlsOpts (CertificateOf w)) (\<lambda>opts. ret (Some w, opts)))
      else ret (None, tlsOpts))"

definition serverOptions ::
  "'w platform \<Rightarrow> flags \<Rightarrow> ('w boot, (nat option \<times> slice option) \<times> (nat option \<times> slice option)) go"
where
  "serverOptions pf fl =
     bind (commonTLSOpts pf fl) (\<lambda>tlsOpts.
     bind (withCertificate pf (fl_webhookCertPath fl) (fl_webhookCertName fl) (fl_webhookCertKey fl) tlsOpts) (\<lambda>webhook.
     bind (withCertificate pf (fl_metricsCertPath fl) (fl_metricsCertName fl) (fl_metricsCertKey fl) tlsOpts) (\<lambda>metrics.
     ret (webhook, metrics))))"

definition managerOptions ::
  "flags \<Rightarrow> slice option \<Rightarrow> slice option \<Rightarrow> (cachedKind \<times> (string \<times> string) list) list \<Rightarrow> ManagerOptions"
where
  "managerOptions fl webhookTLSOpts metricsTLSOpts cache =
     \<lparr>mo_ByObject = cache, mo_MetricsBindAddress = fl_metricsAddr fl, mo_SecureServing = fl_secureMetrics fl,
      mo_WithAuthenticationAndAuthorization = fl_secureMetrics fl, mo_MetricsTLSOpts = metricsTLSOpts,
      mo_WebhookTLSOpts = webhookTLSOpts, mo_HealthProbeBindAddress = fl_probeAddr fl,
      mo_LeaderElection = fl_enableLeaderElection fl, mo_LeaderElectionID = ''0f145542.kubevirt.io'',
      mo_LeaderElectionReleaseOnCancel = True\<rparr>"

definition newManager ::
  "'w platform \<Rightarrow> flags \<Rightarrow> slice option \<Rightarrow> slice option \<Rightarrow> ('w boot, unit) go"
where
  "newManager pf fl webhookTLSOpts metricsTLSOpts =
     bind (perform GetConfig (pf_GetConfig pf)) (\<lambda>_.
     bind (perform NewClient (pf_NewClient pf)) (\<lambda>_.
     bind (getCacheOptions pf) (\<lambda>cache.
       let opts = managerOptions fl webhookTLSOpts metricsTLSOpts cache
       in bind (modify (\<lambda>s. s\<lparr>b_options := Some opts\<rparr>)) (\<lambda>_. perform NewManager (pf_NewManager pf opts)))))"

definition setupControllers :: "'w platform \<Rightarrow> ('w boot, unit) go" where
  "setupControllers pf =
     (let reg = (\<lambda>a. perform (Setup a) (pf_Setup pf a)) in
     bind (Plan_SetupWithManager reg) (\<lambda>_.
     bind (Mig_SetupWithManager reg) (\<lambda>_.
     bind (MultiPlan_SetupWithManager reg) (\<lambda>_.
     MultiMig_SetupWithManager reg))))"

definition addRunnables :: "'w platform \<Rightarrow> nat option \<Rightarrow> nat option \<Rightarrow> ('w boot, unit) go" where
  "addRunnables pf metricsCertWatcher webhookCertWatcher =
     bind (modify (\<lambda>s. s\<lparr>b_watcher := map_option (SetCache (pf_Cache pf)) (b_watcher s)\<rparr>)) (\<lambda>_.
     bind (perform AddTLSWatcher (pf_Add pf TLSWatcherRunnable)) (\<lambda>_.
     bind (case metricsCertWatcher of
             Some w \<Rightarrow> perform AddMetricsCertWatcher (pf_Add pf (MetricsCertWatcher w)) | None \<Rightarrow> ret ()) (\<lambda>_.
     case webhookCertWatcher of
       Some w \<Rightarrow> perform AddWebhookCertWatcher (pf_Add pf (WebhookCertWatcher w)) | None \<Rightarrow> ret ())))"

definition addChecksAndStart :: "'w platform \<Rightarrow> ('w boot, unit) go" where
  "addChecksAndStart pf =
     bind (perform (AddHealthzCheck ''healthz'') (pf_AddHealthzCheck pf ''healthz'')) (\<lambda>_.
     bind (perform (AddReadyzCheck ''readyz'') (pf_AddReadyzCheck pf ''readyz'')) (\<lambda>_.
     perform StartManager (pf_Start pf)))"

definition main :: "'w platform \<Rightarrow> flags \<Rightarrow> ('w boot, unit) go" where
  "main pf fl =
     bind (serverOptions pf fl) (\<lambda>(webhook, metrics).
     bind (newManager pf fl (snd webhook) (snd metrics)) (\<lambda>_.
     bind (setupControllers pf) (\<lambda>_.
     bind (addRunnables pf (fst metrics) (fst webhook)) (\<lambda>_.
     addChecksAndStart pf))))"

section \<open>The servers\<close>

text \<open>
  What the options do to the configuration of a server, and the configuration of a handshake.
  The hook reads the configuration through its pointer at the time of the handshake, so it sees
  the options that were applied after it.
\<close>

record tlsConfig =
  tc_NextProtos :: "string list"
  tc_PolicyHook :: bool
  tc_GetCertificate :: "nat option"
  tc_Crypto :: cryptoConfig

fun applyOpt :: "tlsOpt \<Rightarrow> tlsConfig \<Rightarrow> tlsConfig result" where
  "applyOpt NilFunc c = Panic ''nil pointer dereference''"
| "applyOpt DisableHTTP2 c = Ok (c\<lparr>tc_NextProtos := [''http/1.1'']\<rparr>)"
| "applyOpt CryptoPolicy c = Ok (c\<lparr>tc_PolicyHook := True\<rparr>)"
| "applyOpt (CertificateOf w) c = Ok (c\<lparr>tc_GetCertificate := Some w\<rparr>)"

primrec applyOpts :: "tlsOpt list \<Rightarrow> tlsConfig \<Rightarrow> tlsConfig result" where
  "applyOpts [] c = Ok c"
| "applyOpts (x # xs) c = bindR (applyOpt x c) (applyOpts xs)"

definition GetConfigForClient :: "tlsConfig \<Rightarrow> 'w ManagedTLSWatcher \<Rightarrow> 'w \<Rightarrow> tlsConfig result \<times> 'w" where
  "GetConfigForClient c m w =
     (if tc_PolicyHook c
      then case cryptoPolicyOpt (tc_Crypto c) m w of (r, w') \<Rightarrow> (bindR r (\<lambda>cc. Ok (c\<lparr>tc_Crypto := cc\<rparr>)), w')
      else (Ok c, w))"

section \<open>The cache\<close>

lemma dropWhile_hd: "dropWhile P t \<noteq> [] \<Longrightarrow> \<not> P (hd (dropWhile P t))"
  by (induction t) auto

lemma TrimSpace_trims:
  assumes "TrimSpace t \<noteq> []"
  shows "\<not> asciiSpace (hd (TrimSpace t)) \<and> \<not> asciiSpace (last (TrimSpace t))"
proof -
  let ?u = "dropWhile asciiSpace t" and ?v = "dropWhile asciiSpace (rev (dropWhile asciiSpace t))"
  have v: "?v \<noteq> []" using assms by (simp add: TrimSpace_def)
  obtain ws where ws: "rev ?u = ws @ ?v" by (metis takeWhile_dropWhile_id)
  then have "?u = rev ?v @ rev ws" by (metis rev_append rev_rev_ident)
  then have "hd (rev ?v) = hd ?u" "?u \<noteq> []" using v by (metis hd_append2 rev_is_Nil_conv append_is_Nil_conv)+
  with dropWhile_hd[of asciiSpace t] dropWhile_hd[of asciiSpace "rev ?u"] v show ?thesis
    by (simp add: TrimSpace_def last_rev)
qed

text \<open>
  The cache is restricted to one config map, in a namespace whose name is never empty and never
  begins or ends with white space, and on OpenShift to one route.  A cluster is taken for
  OpenShift exactly when it has the version object; an error other than an unknown kind ends the
  process.
\<close>

theorem cache_restricted:
  assumes "getCacheOptions pf s = (r, t)"
  shows "case r of
      Ok c \<Rightarrow> \<exists>ns route. c = (ConfigMapKind, [(''metadata.namespace'', ns), (''metadata.name'', ''migration-controller'')]) # route
        \<and> ns \<noteq> [] \<and> \<not> asciiSpace (hd ns) \<and> \<not> asciiSpace (last ns)
        \<and> (\<exists>w. (case pf_GetClusterVersion pf w of (Inr _, _) \<Rightarrow> map fst route = [RouteKind] | (Inl e, _) \<Rightarrow> IsNoMatchError e \<and> route = []))
    | Err e \<Rightarrow> \<not> IsNoMatchError e \<and> (\<exists>w. fst (pf_GetClusterVersion pf w) = Inl e)
    | Panic p \<Rightarrow> False"
proof -
  have sp: "\<not> asciiSpace (hd ''kubevirt-migration'') \<and> \<not> asciiSpace (last ''kubevirt-migration'')" by (simp add: asciiSpace_def)
  obtain ns u where ns: "getNamespace pf ''/var/run/secrets/kubernetes.io/serviceaccount/namespace'' s = (Ok ns, u)"
    and ok: "ns \<noteq> [] \<and> \<not> asciiSpace (hd ns) \<and> \<not> asciiSpace (last ns)"
    using TrimSpace_trims sp
    by (cases "pf_ReadFile pf ''/var/run/secrets/kubernetes.io/serviceaccount/namespace'' (b_world s)"; cases "fst (pf_ReadFile pf ''/var/run/secrets/kubernetes.io/serviceaccount/namespace'' (b_world s))")
      (auto simp: getNamespace_def ask_def run)
  obtain v w' where v: "pf_GetClusterVersion pf (b_world u) = (v, w')" by fastforce
  then show ?thesis using assms ns ok
    by (cases v) (auto simp: getCacheOptions_def isOpenShift_def ask_def run split: if_splits intro!: exI[of _ "b_world u"])
qed

section \<open>What is set up, in which order\<close>

text \<open>
  \<open>along acts m\<close>: a run of \<open>m\<close> performs \<open>acts\<close> in order, each only after the one before has
  succeeded; a run that fails stops at an act that was refused, or between two acts.
\<close>

definition done_all :: "bootAct list \<Rightarrow> (bootAct \<times> bool) list" where
  "done_all acts = map (\<lambda>a. (a, True)) acts"

fun stopped :: "bootAct list \<Rightarrow> (bootAct \<times> bool) list \<Rightarrow> bool" where
  "stopped acts [] \<longleftrightarrow> True"
| "stopped [] (x # l) \<longleftrightarrow> False"
| "stopped (a # acts) ((b, ok) # l) \<longleftrightarrow> b = a \<and> (if ok then stopped acts l else l = [])"

definition along :: "bootAct list \<Rightarrow> ('w boot, 'a) go \<Rightarrow> bool" where
  "along acts m \<longleftrightarrow> (\<forall>s. case m s of
      (Ok x, t) \<Rightarrow> b_log t = b_log s @ done_all acts
    | (Err e, t) \<Rightarrow> \<exists>l. b_log t = b_log s @ l \<and> stopped acts l
    | (Panic p, t) \<Rightarrow> False)"

lemma done_all_append [simp]: "done_all (as @ bs) = done_all as @ done_all bs" "done_all [] = []"
  by (simp_all add: done_all_def)

lemma stopped_done: "stopped bs l \<Longrightarrow> stopped (as @ bs) (done_all as @ l)"
  by (induction as) (simp_all add: done_all_def)

lemma stopped_append: "stopped as l \<Longrightarrow> stopped (as @ bs) l"
  by (induction as l rule: stopped.induct) auto

lemma alongI:
  "(\<And>s r t. m s = (r, t) \<Longrightarrow> (case r of Ok x \<Rightarrow> b_log t = b_log s @ done_all acts
     | Err e \<Rightarrow> (\<exists>l. b_log t = b_log s @ l \<and> stopped acts l) | Panic p \<Rightarrow> False)) \<Longrightarrow> along acts m"
  unfolding along_def by (auto split: prod.splits)

lemma alongD:
  "along acts m \<Longrightarrow> m s = (r, t) \<Longrightarrow> (case r of Ok x \<Rightarrow> b_log t = b_log s @ done_all acts
     | Err e \<Rightarrow> (\<exists>l. b_log t = b_log s @ l \<and> stopped acts l) | Panic p \<Rightarrow> False)"
  unfolding along_def by (auto dest: spec[of _ s])

lemma along_bind:
  assumes "along as m" "\<And>s x t. m s = (Ok x, t) \<Longrightarrow> along bs (f x)"
  shows "along (as @ bs) (bind m f)"
proof (rule alongI)
  fix s r u
  assume go: "bind m f s = (r, u)"
  obtain q t where m: "m s = (q, t)" by fastforce
  note a = alongD[OF assms(1) m]
  show "case r of Ok x \<Rightarrow> b_log u = b_log s @ done_all (as @ bs)
     | Err e \<Rightarrow> (\<exists>l. b_log u = b_log s @ l \<and> stopped (as @ bs) l) | Panic p \<Rightarrow> False"
  proof (cases q)
    case (Ok x)
    then have "f x t = (r, u)" "along bs (f x)" using go m assms(2)[of s x t] by (simp_all add: run_bind)
    from alongD[OF this(2,1)] a Ok show ?thesis by (cases r) (auto intro: stopped_done)
  next
    case (Err e)
    then show ?thesis using a go m by (auto simp: run_bind intro: stopped_append)
  next
    case (Panic p)
    then show ?thesis using a by simp
  qed
qed

lemma along_first:
  assumes "along as m" "\<And>x. along bs (f x)" "cs = as @ bs"
  shows "along cs (bind m f)"
  unfolding assms(3) by (rule along_bind[OF assms(1)]) (rule assms(2))

lemma along_ret: "along [] (ret x)"
  by (simp add: along_def run)

lemma along_throw: "along [] (throw e)"
  by (simp add: along_def run)

lemma along_modify: "(\<And>s. b_log (f s) = b_log s) \<Longrightarrow> along [] (modify f)"
  by (simp add: along_def run)

lemma along_perform: "along [a] (perform a f)"
  by (auto simp: along_def perform_def done_all_def split: prod.splits sum.splits result.splits intro!: exI[of _ "[(a, False)]"])

lemma along_ask: "along [] (ask f)"
  by (auto simp: along_def ask_def split: prod.splits sum.splits result.splits)

lemma along_attempt_ask: "along [] (attempt (ask f))"
  by (rule alongI) (auto simp: run_attempt ask_def split: prod.splits sum.splits result.splits)

lemma along_appendOpt: "along [] (appendOpt pf sl opt)"
  by (auto simp: along_def appendOpt_def split: prod.splits)

lemma along_watcher: "along [] (liftR NewManagedTLSWatcher)"
  by (rule alongI) (auto simp: run NewManagedTLSWatcher_def cryptoConfigFromSpec_def selectCipherSuitesAndMinTLSVersion_def
      deref_def TLSProfiles_def)

text \<open>The plan of \<open>main\<close>.\<close>

definition certActs :: "string \<Rightarrow> string \<Rightarrow> string \<Rightarrow> bootAct list" where
  "certActs path name key = (if path \<noteq> [] then [NewCertWatcher (pathJoin [path, name]) (pathJoin [path, key])] else [])"

definition preparations :: "flags \<Rightarrow> bootAct list" where
  "preparations fl =
     certActs (fl_webhookCertPath fl) (fl_webhookCertName fl) (fl_webhookCertKey fl) @
     certActs (fl_metricsCertPath fl) (fl_metricsCertName fl) (fl_metricsCertKey fl) @
     [GetConfig, NewClient, NewManager] @ map Setup registrations @ [AddTLSWatcher] @
     (if fl_metricsCertPath fl \<noteq> [] then [AddMetricsCertWatcher] else []) @
     (if fl_webhookCertPath fl \<noteq> [] then [AddWebhookCertWatcher] else []) @
     [AddHealthzCheck ''healthz'', AddReadyzCheck ''readyz'']"

lemma along_commonTLSOpts: "along [] (commonTLSOpts pf fl)"
  unfolding commonTLSOpts_def
  by (auto intro!: along_first[of "[]" _ "[]"] along_appendOpt along_ret along_watcher along_modify)

lemma along_withCertificate: "along (certActs path name key) (withCertificate pf path name key opts)"
  unfolding withCertificate_def certActs_def
  by (auto intro!: along_ret along_first[OF along_perform] along_first[OF along_appendOpt])

lemma along_getCacheOptions: "along [] (getCacheOptions pf)"
  unfolding getCacheOptions_def getNamespace_def isOpenShift_def
  by (auto intro!: along_first[of "[]" _ "[]"] along_attempt_ask along_ret along_throw split: sum.split)

lemma along_newManager: "along [GetConfig, NewClient, NewManager] (newManager pf fl w m)"
  unfolding newManager_def Let_def
  by (auto intro!: along_first[OF along_perform] along_first[OF along_getCacheOptions] along_first[OF along_modify] along_perform)

lemma withCertificate_handle: "withCertificate pf path name key opts s = (Ok (w, o'), t) \<Longrightarrow> (w = None) = (path = [])"
  by (auto simp: withCertificate_def run split: if_splits prod.splits result.splits)

lemma along_serverOptions:
  "along (certActs (fl_webhookCertPath fl) (fl_webhookCertName fl) (fl_webhookCertKey fl) @
     certActs (fl_metricsCertPath fl) (fl_metricsCertName fl) (fl_metricsCertKey fl)) (serverOptions pf fl)"
  unfolding serverOptions_def
  by (rule along_first[OF along_commonTLSOpts], rule along_first[OF along_withCertificate], rule along_first[OF along_withCertificate])
    (auto intro: along_ret)

lemma serverOptions_handles:
  "serverOptions pf fl s = (Ok ((wc, wo), (mc, mo)), t) \<Longrightarrow> (wc = None) = (fl_webhookCertPath fl = []) \<and> (mc = None) = (fl_metricsCertPath fl = [])"
  by (auto simp: serverOptions_def run dest!: withCertificate_handle split: prod.splits result.splits)

lemma along_setup:
  fixes pf :: "'w platform"
  defines "reg \<equiv> \<lambda>a. perform (Setup a) (pf_Setup pf a)"
  shows "along (map Setup [NewController planController, Watch planController KPlan EnqueueRequestForObject,
      IndexField KPlan vmIndexKey VMIndex, IndexField KMigration migrationNameIndexKey MigrationNameIndex,
      Watch planController KVM GetPlansForVM, Watch planController KMigration GetPlanForStorageMigration]) (Plan_SetupWithManager reg)"
    and "along (map Setup [NewController migController, Watch migController KMigration EnqueueRequestForObject,
      IndexField KMigration planNameIndexKey PlanNameIndex, Watch migController KPlan GetMigMigrationsForPlan,
      Watch migController KVMIM GetMigMigrationsForVMIM]) (Mig_SetupWithManager reg)"
    and "along (map Setup [NewController multiPlanController, Watch multiPlanController KMultiPlan EnqueueRequestForObject,
      Watch multiPlanController KPlan GetMultiPlanForPlan]) (MultiPlan_SetupWithManager reg)"
    and "along (map Setup [NewController multiMigController, Watch multiMigController KMultiMig EnqueueRequestForObject,
      Watch multiMigController KMigration GetMultiMigForMigration]) (MultiMig_SetupWithManager reg)"
proof -
  have step: "along (Setup a # as) (bind (reg a) f)" if "\<And>x. along as (f x)" for a as f
    unfolding reg_def by (rule along_first[OF along_perform]) (use that in auto)
  have one: "along [Setup a] (reg a)" for a unfolding reg_def by (rule along_perform)
  have idx: "along [Setup (IndexField KPlan vmIndexKey VMIndex), Setup (IndexField KMigration migrationNameIndexKey MigrationNameIndex)] (IndexFields reg)"
    unfolding IndexFields_def by (intro step one)
  have idx_then: "along (Setup (IndexField KPlan vmIndexKey VMIndex) # Setup (IndexField KMigration migrationNameIndexKey MigrationNameIndex) # as)
      (bind (IndexFields reg) f)" if "\<And>x. along as (f x)" for as f
    by (rule along_first[OF idx]) (use that in auto)
  show "along (map Setup [NewController planController, Watch planController KPlan EnqueueRequestForObject,
      IndexField KPlan vmIndexKey VMIndex, IndexField KMigration migrationNameIndexKey MigrationNameIndex,
      Watch planController KVM GetPlansForVM, Watch planController KMigration GetPlanForStorageMigration]) (Plan_SetupWithManager reg)"
    unfolding Plan_SetupWithManager_def list.map by (intro step idx_then one)
  show "along (map Setup [NewController migController, Watch migController KMigration EnqueueRequestForObject,
      IndexField KMigration planNameIndexKey PlanNameIndex, Watch migController KPlan GetMigMigrationsForPlan,
      Watch migController KVMIM GetMigMigrationsForVMIM]) (Mig_SetupWithManager reg)"
    unfolding Mig_SetupWithManager_def list.map by (intro step one)
  show "along (map Setup [NewController multiPlanController, Watch multiPlanController KMultiPlan EnqueueRequestForObject,
      Watch multiPlanController KPlan GetMultiPlanForPlan]) (MultiPlan_SetupWithManager reg)"
    unfolding MultiPlan_SetupWithManager_def list.map by (intro step one)
  show "along (map Setup [NewController multiMigController, Watch multiMigController KMultiMig EnqueueRequestForObject,
      Watch multiMigController KMigration GetMultiMigForMigration]) (MultiMig_SetupWithManager reg)"
    unfolding MultiMig_SetupWithManager_def list.map by (intro step one)
qed

lemma along_setupControllers: "along (map Setup registrations) (setupControllers pf)"
  unfolding setupControllers_def Let_def
  by (rule along_first[OF along_setup(1)], rule along_first[OF along_setup(2)],
      rule along_first[OF along_setup(3)], rule along_setup(4)) (auto simp: registrations_list)

lemma along_option: "along (if v = None then [] else [a]) (case v of Some w \<Rightarrow> perform a (f w) | None \<Rightarrow> ret ())"
  by (auto intro: along_perform along_ret split: option.split)

lemma along_addRunnables:
  "along (AddTLSWatcher # (if mc = None then [] else [AddMetricsCertWatcher]) @ (if wc = None then [] else [AddWebhookCertWatcher]))
     (addRunnables pf mc wc)"
  unfolding addRunnables_def
  by (rule along_first[OF along_modify], simp, rule along_first[OF along_perform], rule along_first[OF along_option],
      rule along_option) auto

lemma along_addChecksAndStart: "along [AddHealthzCheck ''healthz'', AddReadyzCheck ''readyz'', StartManager] (addChecksAndStart pf)"
  unfolding addChecksAndStart_def
  by (rule along_first[OF along_perform], rule along_first[OF along_perform], rule along_perform) auto

lemma along_main: "along (preparations fl @ [StartManager]) (main pf fl)"
proof -
  have "along ((certActs (fl_webhookCertPath fl) (fl_webhookCertName fl) (fl_webhookCertKey fl) @
     certActs (fl_metricsCertPath fl) (fl_metricsCertName fl) (fl_metricsCertKey fl)) @
     [GetConfig, NewClient, NewManager] @ map Setup registrations @
     (AddTLSWatcher # (if fl_metricsCertPath fl = [] then [] else [AddMetricsCertWatcher]) @
       (if fl_webhookCertPath fl = [] then [] else [AddWebhookCertWatcher])) @
     [AddHealthzCheck ''healthz'', AddReadyzCheck ''readyz'', StartManager]) (main pf fl)"
    unfolding main_def
  proof (rule along_bind[OF along_serverOptions])
    fix s t :: "'a boot" and x
    assume ok: "serverOptions pf fl s = (Ok x, t)"
    obtain wc wo mc mo where x: "x = ((wc, wo), (mc, mo))" by (metis surj_pair)
    note h = serverOptions_handles[OF ok[unfolded x]]
    then have r: "along (AddTLSWatcher # (if fl_metricsCertPath fl = [] then [] else [AddMetricsCertWatcher]) @
       (if fl_webhookCertPath fl = [] then [] else [AddWebhookCertWatcher])) (addRunnables pf mc wc)"
      using along_addRunnables[of mc wc pf] by simp
    show "along ([GetConfig, NewClient, NewManager] @ map Setup registrations @
     (AddTLSWatcher # (if fl_metricsCertPath fl = [] then [] else [AddMetricsCertWatcher]) @
       (if fl_webhookCertPath fl = [] then [] else [AddWebhookCertWatcher])) @
     [AddHealthzCheck ''healthz'', AddReadyzCheck ''readyz'', StartManager])
      (case x of (webhook, metrics) \<Rightarrow>
        bind (newManager pf fl (snd webhook) (snd metrics)) (\<lambda>_.
        bind (setupControllers pf) (\<lambda>_.
        bind (addRunnables pf (fst metrics) (fst webhook)) (\<lambda>_.
        addChecksAndStart pf))))"
      unfolding x prod.case fst_conv snd_conv
      by (rule along_first[OF along_newManager], rule along_first[OF along_setupControllers], rule along_first[OF r],
          rule along_addChecksAndStart) auto
  qed
  then show ?thesis by (simp add: preparations_def split: if_splits)
qed

lemma stopped_last:
  "stopped (as @ [x]) l \<Longrightarrow> x \<notin> set as \<Longrightarrow> x \<in> fst ` set l \<Longrightarrow> \<exists>ok. l = done_all as @ [(x, ok)]"
proof (induction as arbitrary: l)
  case Nil
  then show ?case by (cases l) (auto simp: done_all_def split: if_splits elim: stopped.elims)
next
  case (Cons a as)
  then obtain b ok l' where l: "l = (b, ok) # l'" by (cases l) auto
  with Cons show ?case by (auto simp: done_all_def split: if_splits)
qed

section \<open>The options of the servers\<close>

text \<open>
  \<open>tlsOpts\<close> is built by one or two appends and is full afterwards when the runtime allocates
  exactly what these need.  Then the two later appends to it never share memory.
\<close>

definition exactGrowth :: "(nat \<Rightarrow> nat \<Rightarrow> nat) \<Rightarrow> bool" where
  "exactGrowth grow \<longleftrightarrow> grow 1 0 = 1 \<and> grow 2 1 = 2"

lemma goGrow_exact: "exactGrowth goGrow"
  by (simp add: exactGrowth_def goGrow_def)

definition fullSlice :: "tlsOpt list \<Rightarrow> tlsOpt heap \<Rightarrow> slice option \<Rightarrow> bool" where
  "fullSlice xs h sl \<longleftrightarrow> slice_ok h sl \<and> contents h sl = xs \<and> slcap h sl = slen sl"

lemma fullSlice_empty: "fullSlice [] h None"
  by (simp add: fullSlice_def slice_ok_def slen_def slcap_def contents_def)

lemma fullSlice_append:
  assumes "fullSlice xs h sl" "goAppend grow z sl x h = (sl', h')" "grow (length xs + 1) (length xs) = length xs + 1"
  shows "fullSlice (xs @ [x]) h' sl'"
proof -
  have ok: "slice_ok h sl" and c: "contents h sl = xs" and full: "slcap h sl = slen sl" using assms(1) by (simp_all add: fullSlice_def)
  have n: "slen sl = length xs" using contents_length[OF ok] c by simp
  show ?thesis using goAppend_contents[OF ok assms(2)] goAppend_full[OF ok full assms(2)] assms(3) c n
    by (simp add: fullSlice_def)
qed

lemma appendOpt_run:
  "appendOpt pf sl opt s = (r, t) \<Longrightarrow> \<exists>sl' h'. goAppend (pf_grow pf) NilFunc sl opt (b_heap s) = (sl', h') \<and> r = Ok sl' \<and> b_heap t = h'"
  by (auto simp: appendOpt_def split: prod.splits)

definition commonOpts :: "flags \<Rightarrow> tlsOpt list" where
  "commonOpts fl = (if fl_enableHTTP2 fl then [CryptoPolicy] else [DisableHTTP2, CryptoPolicy])"

lemma commonTLSOpts_full:
  assumes "exactGrowth (pf_grow pf)" "commonTLSOpts pf fl s = (Ok sl, t)"
  shows "fullSlice (commonOpts fl) (b_heap t) sl"
proof -
  have g: "pf_grow pf 1 0 = 1" "pf_grow pf 2 1 = 2" using assms(1) by (simp_all add: exactGrowth_def)
  obtain sl1 t1 m where 1: "(if \<not> fl_enableHTTP2 fl then appendOpt pf None DisableHTTP2 else ret None) s = (Ok sl1, t1)"
    and 2: "appendOpt pf sl1 CryptoPolicy (t1\<lparr>b_watcher := Some m\<rparr>) = (Ok sl, t)"
    using assms(2) by (auto simp: commonTLSOpts_def run_bind run_liftR run_modify split: prod.splits result.splits)
  have "fullSlice (if fl_enableHTTP2 fl then [] else [DisableHTTP2]) (b_heap t1) sl1"
    using 1 g fullSlice_append[OF fullSlice_empty, where grow = "pf_grow pf" and z = NilFunc and x = DisableHTTP2] fullSlice_empty
    by (auto simp: run split: if_splits dest!: appendOpt_run)
  then show ?thesis using appendOpt_run[OF 2] g fullSlice_append[of _ "b_heap t1" sl1 "pf_grow pf" NilFunc CryptoPolicy]
    by (fastforce simp: commonOpts_def numeral_2_eq_2 split: if_splits)
qed

text \<open>The certificate a server got for its files: none without files, otherwise what the library answered.\<close>

definition servesFiles :: "'w platform \<Rightarrow> string \<Rightarrow> string \<Rightarrow> string \<Rightarrow> nat option \<Rightarrow> bool" where
  "servesFiles pf path name key c \<longleftrightarrow>
     (if path = [] then c = None
      else \<exists>w x x'. c = Some w \<and> pf_NewCertWatcher pf (pathJoin [path, name]) (pathJoin [path, key]) x = (Inr w, x'))"

definition certOpts :: "nat option \<Rightarrow> tlsOpt list" where
  "certOpts c = (case c of None \<Rightarrow> [] | Some w \<Rightarrow> [CertificateOf w])"

lemma perform_Ok: "perform a f s = (Ok r, t) \<Longrightarrow> f (b_world s) = (Inr r, b_world t) \<and> b_heap t = b_heap s"
  by (auto simp: perform_def split: prod.splits sum.splits)

lemma withCertificate_result:
  assumes "fullSlice xs (b_heap s) sl" "withCertificate pf path name key sl s = (Ok (c, sl'), t)"
  shows "extends (b_heap s) (b_heap t) \<and> slice_ok (b_heap t) sl' \<and> contents (b_heap t) sl' = xs @ certOpts c \<and> servesFiles pf path name key c"
proof (cases "path = []")
  case True
  then show ?thesis using assms by (auto simp: withCertificate_def run fullSlice_def certOpts_def servesFiles_def)
next
  case False
  then obtain w u where pw: "perform (NewCertWatcher (pathJoin [path, name]) (pathJoin [path, key]))
       (pf_NewCertWatcher pf (pathJoin [path, name]) (pathJoin [path, key])) s = (Ok w, u)"
    and u: "appendOpt pf sl (CertificateOf w) u = (Ok sl', t)" "c = Some w"
    using assms(2) by (auto simp: withCertificate_def run split: prod.splits result.splits)
  note p = perform_Ok[OF pw]
  from appendOpt_run[OF u(1)] p have app: "goAppend (pf_grow pf) NilFunc sl (CertificateOf w) (b_heap s) = (sl', b_heap t)" by auto
  have ok: "slice_ok (b_heap s) sl" and full: "slcap (b_heap s) sl = slen sl" using assms(1) by (simp_all add: fullSlice_def)
  show ?thesis using goAppend_contents[OF ok app] goAppend_full[OF ok full app] assms(1) p u(2) False
    by (auto simp: fullSlice_def certOpts_def servesFiles_def)
qed

lemma commonTLSOpts_contents:
  assumes "commonTLSOpts pf fl s = (Ok sl, t)"
  shows "slice_ok (b_heap t) sl \<and> contents (b_heap t) sl = commonOpts fl"
proof -
  obtain sl1 t1 m where 1: "(if \<not> fl_enableHTTP2 fl then appendOpt pf None DisableHTTP2 else ret None) s = (Ok sl1, t1)"
    and 2: "appendOpt pf sl1 CryptoPolicy (t1\<lparr>b_watcher := Some m\<rparr>) = (Ok sl, t)"
    using assms by (auto simp: commonTLSOpts_def run_bind run_liftR run_modify split: prod.splits result.splits)
  have empty: "slice_ok h None" "contents h None = []" for h :: "tlsOpt heap"
    using fullSlice_empty[of h] by (simp_all add: fullSlice_def)
  have "slice_ok (b_heap t1) sl1 \<and> contents (b_heap t1) sl1 = (if fl_enableHTTP2 fl then [] else [DisableHTTP2])"
    using 1 goAppend_contents[OF empty(1), where grow = "pf_grow pf" and z = NilFunc and x = DisableHTTP2] empty
    by (auto simp: run split: if_splits dest!: appendOpt_run)
  then show ?thesis
    using appendOpt_run[OF 2] goAppend_contents[of "b_heap t1" sl1 "pf_grow pf" NilFunc CryptoPolicy]
    by (auto simp: commonOpts_def)
qed

text \<open>With room left in the slice an append writes behind its end, in place.\<close>

lemma withCertificate_roomy:
  assumes "slen (Some a) < slcap (b_heap s) (Some a)" "withCertificate pf path name key (Some a) s = (Ok (c, sl'), t)"
  shows "servesFiles pf path name key c \<and> (case c of
      None \<Rightarrow> sl' = Some a \<and> b_heap t = b_heap s
    | Some w \<Rightarrow> sl' = Some \<lparr>sl_arr = sl_arr a, sl_len = sl_len a + 1\<rparr> \<and> b_heap t = store (sl_arr a) (sl_len a) (CertificateOf w) (b_heap s))"
proof (cases "path = []")
  case True
  then show ?thesis using assms by (auto simp: withCertificate_def run servesFiles_def)
next
  case False
  then obtain w u where pw: "perform (NewCertWatcher (pathJoin [path, name]) (pathJoin [path, key]))
       (pf_NewCertWatcher pf (pathJoin [path, name]) (pathJoin [path, key])) s = (Ok w, u)"
    and u: "appendOpt pf (Some a) (CertificateOf w) u = (Ok sl', t)" "c = Some w"
    using assms(2) by (auto simp: withCertificate_def run split: prod.splits result.splits)
  note p = perform_Ok[OF pw]
  from appendOpt_run[OF u(1)] p have "goAppend (pf_grow pf) NilFunc (Some a) (CertificateOf w) (b_heap s) = (sl', b_heap t)" by auto
  then show ?thesis using assms(1) False p u(2) by (auto simp: goAppend_def servesFiles_def slen_def Let_def)
qed

text \<open>Two appends behind the same end write the same cell: the second one wins.\<close>

lemma serverOptions_roomy:
  assumes "slice_ok (b_heap t1) sl" "contents (b_heap t1) sl = xs" "slen sl < slcap (b_heap t1) sl"
    "withCertificate pf path name key sl t1 = (Ok (wc, wo), t2)" "withCertificate pf path' name' key' sl t2 = (Ok (mc, mo), t)"
  shows "contents (b_heap t) wo = xs @ certOpts (if wc \<noteq> None \<and> mc \<noteq> None then mc else wc)
    \<and> contents (b_heap t) mo = xs @ certOpts mc \<and> servesFiles pf path name key wc \<and> servesFiles pf path' name' key' mc"
proof -
  obtain a where a: "sl = Some a" using assms(3) by (cases sl) (auto simp: slen_def slcap_def)
  note r2 = withCertificate_roomy[OF assms(3)[unfolded a] assms(4)[unfolded a]]
  then have "slcap (b_heap t2) (Some a) = slcap (b_heap t1) (Some a)"
    by (auto simp: slcap_def store_def split: option.splits)
  then have "slen (Some a) < slcap (b_heap t2) (Some a)" using assms(3) a by simp
  note r3 = withCertificate_roomy[OF this assms(5)[unfolded a]]
  have room: "sl_len a < length (cells (b_heap t1) (sl_arr a))" using assms(3) a by (simp add: slen_def slcap_def)
  show ?thesis using r2 r3 assms(2) room a
    by (auto simp: contents_def store_def certOpts_def take_Suc_conv_app_nth split: option.splits)
qed

text \<open>
  The options of both servers, whatever room the runtime leaves.  Only when it leaves room and both
  servers have certificate files, the webhook gets the certificate of the metrics server.
\<close>

definition webhookCert :: "'w platform \<Rightarrow> nat option \<Rightarrow> nat option \<Rightarrow> nat option \<Rightarrow> bool" where
  "webhookCert pf wc mc c \<longleftrightarrow> c = wc \<or> \<not> exactGrowth (pf_grow pf) \<and> wc \<noteq> None \<and> mc \<noteq> None \<and> c = mc"

lemma serverOptions_result:
  assumes "serverOptions pf fl s = (Ok ((wc, wo), (mc, mo)), t)"
  shows "\<exists>c. contents (b_heap t) wo = commonOpts fl @ certOpts c \<and> webhookCert pf wc mc c
    \<and> contents (b_heap t) mo = commonOpts fl @ certOpts mc
    \<and> servesFiles pf (fl_webhookCertPath fl) (fl_webhookCertName fl) (fl_webhookCertKey fl) wc
    \<and> servesFiles pf (fl_metricsCertPath fl) (fl_metricsCertName fl) (fl_metricsCertKey fl) mc"
proof -
  obtain sl t1 t2 where 1: "commonTLSOpts pf fl s = (Ok sl, t1)"
    and 2: "withCertificate pf (fl_webhookCertPath fl) (fl_webhookCertName fl) (fl_webhookCertKey fl) sl t1 = (Ok (wc, wo), t2)"
    and 3: "withCertificate pf (fl_metricsCertPath fl) (fl_metricsCertName fl) (fl_metricsCertKey fl) sl t2 = (Ok (mc, mo), t)"
    using assms by (auto simp: serverOptions_def run_bind run_ret split: prod.splits result.splits)
  note c1 = commonTLSOpts_contents[OF 1]
  show ?thesis
  proof (cases "slcap (b_heap t1) sl = slen sl")
    case True
    with c1 have f1: "fullSlice (commonOpts fl) (b_heap t1) sl" by (simp add: fullSlice_def)
    note r2 = withCertificate_result[OF f1 2]
    have "fullSlice (commonOpts fl) (b_heap t2) sl"
      using f1 extends_contents[OF conjunct1[OF r2], of sl] by (simp add: fullSlice_def)
    note r3 = withCertificate_result[OF this 3]
    show ?thesis using r2 r3 extends_contents[OF conjunct1[OF r3], of wo] by (auto simp: webhookCert_def)
  next
    case False
    with c1 have room: "slen sl < slcap (b_heap t1) sl" by (simp add: slice_ok_def)
    have "\<not> exactGrowth (pf_grow pf)" using commonTLSOpts_full[OF _ 1] False by (auto simp: fullSlice_def)
    then show ?thesis using serverOptions_roomy[OF conjunct1[OF c1] conjunct2[OF c1] room 2 3]
      by (intro exI[of _ "if wc \<noteq> None \<and> mc \<noteq> None then mc else wc"]) (auto simp: webhookCert_def)
  qed
qed

text \<open>After that the options stay: the manager gets them as they are, and nothing else is written.\<close>

definition keeps :: "ManagerOptions set \<Rightarrow> 'w boot \<Rightarrow> 'w boot \<Rightarrow> bool" where
  "keeps Os s t \<longleftrightarrow> b_heap t = b_heap s \<and> (b_options t = b_options s \<or> b_options t \<in> Some ` Os)"

lemma keeps_preorder: "preorder_rel (keeps Os)"
  by (rule preorder_relI) (auto simp: keeps_def)

lemma keeps_perform: "frame (keeps Os) (perform a f)"
  by (rule frameI) (auto simp: perform_def keeps_def split: prod.splits sum.splits)

lemma keeps_ask: "frame (keeps Os) (ask f)"
  by (rule frameI) (auto simp: ask_def keeps_def split: prod.splits sum.splits)

lemma keeps_watcher: "frame (keeps Os) (modify (\<lambda>s. s\<lparr>b_watcher := g s\<rparr>))"
  by (rule frame_modify) (simp add: keeps_def)

lemmas keeps_steps = frame_bind[OF keeps_preorder] frame_ret[OF keeps_preorder] frame_throw[OF keeps_preorder] frame_attempt
  frame_if frame_case_option frame_case_sum keeps_perform keeps_ask keeps_watcher

lemma keeps_newManager: "frame (keeps (range (managerOptions fl w m))) (newManager pf fl w m)"
  unfolding newManager_def getCacheOptions_def getNamespace_def isOpenShift_def Let_def
  by (intro keeps_steps frame_modify) (auto simp: keeps_def)

lemma keeps_setup: "frame (keeps Os) (setupControllers pf)" "frame (keeps Os) (addRunnables pf c d)" "frame (keeps Os) (addChecksAndStart pf)"
  unfolding setupControllers_def addRunnables_def addChecksAndStart_def Plan_SetupWithManager_def Mig_SetupWithManager_def
    MultiPlan_SetupWithManager_def MultiMig_SetupWithManager_def IndexFields_def Let_def
  by (intro keeps_steps)+

lemma serverOptions_no_manager: "frame (\<lambda>s t. b_options t = b_options s) (serverOptions pf fl)"
proof -
  have pre: "preorder_rel (\<lambda>s t :: 'a boot. b_options t = b_options s)" by (rule preorder_relI) auto
  have "frame (\<lambda>s t. b_options t = b_options s) (perform a f)" for a and f :: "('a, 'b) api"
    by (rule frameI) (auto simp: perform_def split: prod.splits sum.splits)
  moreover have "frame (\<lambda>s t. b_options t = b_options s) (appendOpt pf sl x)" for sl x
    by (rule frameI) (auto simp: appendOpt_def split: prod.splits)
  ultimately show ?thesis
    unfolding serverOptions_def commonTLSOpts_def withCertificate_def
    by (intro frame_bind[OF pre] frame_ret[OF pre] frame_liftR[OF pre] frame_if frame_modify) auto
qed

lemma main_options:
  assumes "main pf fl s = (r, t)" "b_options s = None" "b_options t = Some opts"
  shows "\<exists>wc wo mc mo u cache. serverOptions pf fl s = (Ok ((wc, wo), (mc, mo)), u) \<and> b_heap t = b_heap u
    \<and> opts = managerOptions fl wo mo cache"
proof -
  obtain q u where so: "serverOptions pf fl s = (q, u)" by fastforce
  have none: "b_options u = None" using frameD[OF serverOptions_no_manager so] assms(2) by simp
  show ?thesis
  proof (cases q)
    case (Ok x)
    obtain wc wo mc mo where x: "x = ((wc, wo), (mc, mo))" by (metis surj_pair)
    have go: "bind (newManager pf fl wo mo) (\<lambda>_. bind (setupControllers pf) (\<lambda>_. bind (addRunnables pf mc wc) (\<lambda>_.
        addChecksAndStart pf))) u = (r, t)"
      using assms(1) so Ok x by (simp add: main_def run_bind)
    have "frame (keeps (range (managerOptions fl wo mo))) (bind (newManager pf fl wo mo) (\<lambda>_. bind (setupControllers pf) (\<lambda>_.
        bind (addRunnables pf mc wc) (\<lambda>_. addChecksAndStart pf))))"
      by (intro frame_bind[OF keeps_preorder] keeps_newManager keeps_setup)
    from frameD[OF this go] show ?thesis using none assms(3) so Ok x by (auto simp: keeps_def)
  qed (use assms so none in \<open>auto simp: main_def run_bind\<close>)
qed

lemma applyOpts_append: "applyOpts (xs @ ys) c = bindR (applyOpts xs c) (applyOpts ys)"
proof (induction xs arbitrary: c)
  case (Cons x xs)
  then show ?case by (cases "applyOpt x c") auto
qed simp

definition hardened :: "flags \<Rightarrow> nat option \<Rightarrow> tlsConfig \<Rightarrow> tlsConfig" where
  "hardened fl w c = c\<lparr>tc_NextProtos := (if fl_enableHTTP2 fl then tc_NextProtos c else [''http/1.1'']),
     tc_PolicyHook := True, tc_GetCertificate := (case w of None \<Rightarrow> tc_GetCertificate c | Some x \<Rightarrow> Some x)\<rparr>"

lemma hardened_sel [simp]:
  "tc_NextProtos (hardened fl w c) = (if fl_enableHTTP2 fl then tc_NextProtos c else [''http/1.1''])"
  "tc_PolicyHook (hardened fl w c)" "tc_Crypto (hardened fl w c) = tc_Crypto c"
  "tc_GetCertificate c = None \<Longrightarrow> tc_GetCertificate (hardened fl w c) = w"
  by (auto simp: hardened_def split: option.split)

lemma common_config: "applyOpts (commonOpts fl @ certOpts w) c = Ok (hardened fl w c)"
  by (simp add: commonOpts_def certOpts_def hardened_def split: option.split)

lemma hooked_handshake:
  "tc_PolicyHook c \<Longrightarrow> GetConfigForClient c m w = (Ok c', w') \<Longrightarrow>
   tc_NextProtos c' = tc_NextProtos c \<and> tc_GetCertificate c' = tc_GetCertificate c
   \<and> cryptoPolicyOpt (tc_Crypto c) m w = (Ok (tc_Crypto c'), w')"
  by (cases "cryptoPolicyOpt (tc_Crypto c) m w") (auto simp: GetConfigForClient_def bindR_eq_Ok)

section \<open>Properties\<close>

text \<open>
  C21. The manager is started last: whatever the libraries answer, \<open>main\<close> performs its
  preparations in order (certificates, clients, manager, the registrations of the four controllers,
  the TLS and certificate watchers, the two checks), each only after the one before it has
  succeeded; it starts the manager only when all of them have succeeded, and when it ends normally
  everything has succeeded.  It never panics.
\<close>

theorem main_starts_last:
  assumes "main pf fl s = (r, t)" "b_log s = []"
  shows "stopped (preparations fl @ [StartManager]) (b_log t)
    \<and> (StartManager \<in> fst ` set (b_log t) \<longrightarrow> (\<exists>ok. b_log t = done_all (preparations fl) @ [(StartManager, ok)]))
    \<and> (r = Ok () \<longrightarrow> b_log t = done_all (preparations fl @ [StartManager]))
    \<and> (\<forall>p. r \<noteq> Panic p)"
proof -
  note a = alongD[OF along_main assms(1)]
  have fresh: "StartManager \<notin> set (preparations fl)" by (auto simp: preparations_def certActs_def split: if_splits)
  have st: "stopped (preparations fl @ [StartManager]) (b_log t)"
    using a assms(2) stopped_done[of "[]" "[]" "preparations fl @ [StartManager]"] by (cases r) auto
  then show ?thesis using a assms(2) stopped_last[OF st fresh] by (cases r) auto
qed

text \<open>A platform on which everything works; the webhook has certificate files, and so may have the metrics.\<close>

definition quietPlatform :: "(nat \<Rightarrow> nat \<Rightarrow> nat) \<Rightarrow> unit platform" where
  "quietPlatform grow = \<lparr>pf_NewCertWatcher = (\<lambda>c k. yields (length c)), pf_GetConfig = yields (), pf_NewClient = yields (),
     pf_GetClusterVersion = (\<lambda>w. (Inl (NoMatchErr ''no match''), w)), pf_ReadFile = (\<lambda>p. missing),
     pf_NewManager = (\<lambda>opts. yields ()), pf_Setup = (\<lambda>a. yields ()), pf_Cache = yields [], pf_Add = (\<lambda>r. yields ()),
     pf_AddHealthzCheck = (\<lambda>n. yields ()), pf_AddReadyzCheck = (\<lambda>n. yields ()), pf_Start = yields (), pf_grow = grow\<rparr>"

definition certFlags :: flags where
  "certFlags = defaultFlags\<lparr>fl_webhookCertPath := ''/w'', fl_metricsCertPath := ''/metrics''\<rparr>"

definition newProcess :: "unit boot" where
  "newProcess = \<lparr>b_world = (), b_log = [], b_heap = \<lparr>cells = (\<lambda>_. []), lim = 0\<rparr>, b_watcher = None, b_options = None\<rparr>"

lemma watcher_made: "\<exists>m :: 'w ManagedTLSWatcher. NewManagedTLSWatcher = Ok m"
  by (simp add: NewManagedTLSWatcher_def cryptoConfigFromSpec_def selectCipherSuitesAndMinTLSVersion_def deref_def TLSProfiles_def)

lemmas main_eval = main_def serverOptions_def commonTLSOpts_def withCertificate_def appendOpt_def newManager_def getCacheOptions_def
  getNamespace_def isOpenShift_def setupControllers_def Plan_SetupWithManager_def Mig_SetupWithManager_def IndexFields_def
  MultiPlan_SetupWithManager_def MultiMig_SetupWithManager_def addRunnables_def addChecksAndStart_def Let_def
  perform_def ask_def run quietPlatform_def defaultFlags_def certFlags_def newProcess_def goAppend_def slen_def slcap_def alloc_def
  store_def contents_def managerOptions_def

lemma quiet_main: "fst (main (quietPlatform goGrow) defaultFlags newProcess) = Ok ()"
proof -
  obtain m :: "unit ManagedTLSWatcher" where m: "NewManagedTLSWatcher = Ok m" using watcher_made by blast
  show ?thesis by (simp add: main_eval m goGrow_def)
qed

theorem main_starts_last_witness:
  "\<exists>t. main (quietPlatform goGrow) defaultFlags newProcess = (Ok (), t)
     \<and> b_log t = done_all (preparations defaultFlags @ [StartManager])"
proof -
  obtain t where go: "main (quietPlatform goGrow) defaultFlags newProcess = (Ok (), t)"
    using quiet_main by (cases "main (quietPlatform goGrow) defaultFlags newProcess") auto
  from main_starts_last[OF go] go show ?thesis by (auto simp: newProcess_def)
qed

text \<open>
  C20. The servers are hardened whatever the flags.  From any configuration the library starts
  with, the options of either server install the hook of the crypto policy and restrict the
  protocols to HTTP/1.1 unless HTTP/2 is enabled, and a handshake keeps protocols and certificate
  and takes versions and suites from the policy.  The metrics server serves the certificate of its
  own files, and so does the webhook, with one exception: when both have certificate files and the
  runtime leaves room in the slice of common options (it does not: \<open>goGrow_exact\<close>), the webhook
  serves the certificate of the metrics server, because both appends write the same cell.  The
  metrics endpoint asks for authentication whenever it is served by TLS.
\<close>

theorem servers_hardened:
  fixes pf :: "'w platform"
  assumes "main pf fl s = (r, t)" "b_options s = None" "b_options t = Some opts" "tc_GetCertificate c = None"
  shows "\<exists>cw cm. applyOpts (contents (b_heap t) (mo_WebhookTLSOpts opts)) c = Ok cw
    \<and> applyOpts (contents (b_heap t) (mo_MetricsTLSOpts opts)) c = Ok cm
    \<and> servesFiles pf (fl_metricsCertPath fl) (fl_metricsCertName fl) (fl_metricsCertKey fl) (tc_GetCertificate cm)
    \<and> (servesFiles pf (fl_webhookCertPath fl) (fl_webhookCertName fl) (fl_webhookCertKey fl) (tc_GetCertificate cw)
        \<or> \<not> exactGrowth (pf_grow pf) \<and> fl_webhookCertPath fl \<noteq> [] \<and> fl_metricsCertPath fl \<noteq> []
          \<and> tc_GetCertificate cw = tc_GetCertificate cm)
    \<and> (\<forall>d \<in> {cw, cm}. tc_PolicyHook d \<and> tc_NextProtos d = (if fl_enableHTTP2 fl then tc_NextProtos c else [''http/1.1''])
        \<and> (\<forall>(m :: 'w ManagedTLSWatcher) w d' w'. GetConfigForClient d m w = (Ok d', w') \<longrightarrow> tc_NextProtos d' = tc_NextProtos d
            \<and> tc_GetCertificate d' = tc_GetCertificate d \<and> cryptoPolicyOpt (tc_Crypto c) m w = (Ok (tc_Crypto d'), w')))
    \<and> mo_WithAuthenticationAndAuthorization opts = mo_SecureServing opts"
proof -
  obtain wc wo mc mo u cache where so: "serverOptions pf fl s = (Ok ((wc, wo), (mc, mo)), u)" and h: "b_heap t = b_heap u"
    and opts: "opts = managerOptions fl wo mo cache"
    using main_options[OF assms(1-3)] by blast
  obtain x where res: "contents (b_heap u) wo = commonOpts fl @ certOpts x" "contents (b_heap u) mo = commonOpts fl @ certOpts mc"
    and x: "webhookCert pf wc mc x"
    and w: "servesFiles pf (fl_webhookCertPath fl) (fl_webhookCertName fl) (fl_webhookCertKey fl) wc"
    and m: "servesFiles pf (fl_metricsCertPath fl) (fl_metricsCertName fl) (fl_metricsCertKey fl) mc"
    using serverOptions_result[OF so] by blast
  let ?conf = "\<lambda>w. hardened fl w c"
  have web: "applyOpts (contents (b_heap t) (mo_WebhookTLSOpts opts)) c = Ok (?conf x)"
    and met: "applyOpts (contents (b_heap t) (mo_MetricsTLSOpts opts)) c = Ok (?conf mc)"
    using res by (simp_all add: h opts managerOptions_def common_config)
  have cert: "tc_GetCertificate (?conf w) = w" for w using assms(4) by simp
  have hook: "tc_NextProtos d' = tc_NextProtos (?conf x) \<and> tc_GetCertificate d' = tc_GetCertificate (?conf x)
      \<and> cryptoPolicyOpt (tc_Crypto c) m w = (Ok (tc_Crypto d'), w')" if "GetConfigForClient (?conf x) m w = (Ok d', w')" for x w d' w' and m :: "'w ManagedTLSWatcher"
    using hooked_handshake[OF _ that] by simp
  have each: "tc_PolicyHook (?conf x) \<and> tc_NextProtos (?conf x) = (if fl_enableHTTP2 fl then tc_NextProtos c else [''http/1.1''])
      \<and> (\<forall>(m :: 'w ManagedTLSWatcher) w d' w'. GetConfigForClient (?conf x) m w = (Ok d', w') \<longrightarrow> tc_NextProtos d' = tc_NextProtos (?conf x)
          \<and> tc_GetCertificate d' = tc_GetCertificate (?conf x) \<and> cryptoPolicyOpt (tc_Crypto c) m w = (Ok (tc_Crypto d'), w'))" for x
    by (intro conjI allI impI hardened_sel) (use hook in blast)+
  have own: "servesFiles pf (fl_webhookCertPath fl) (fl_webhookCertName fl) (fl_webhookCertKey fl) x
      \<or> \<not> exactGrowth (pf_grow pf) \<and> fl_webhookCertPath fl \<noteq> [] \<and> fl_metricsCertPath fl \<noteq> [] \<and> x = mc"
    using x w m by (auto simp: webhookCert_def servesFiles_def split: if_splits)
  have "mo_WithAuthenticationAndAuthorization opts = mo_SecureServing opts" by (simp add: opts managerOptions_def)
  with web met each m own show ?thesis
    by (intro exI[of _ "?conf x"] exI[of _ "?conf mc"] conjI ballI) (auto simp: cert simp del: hardened_sel(1))
qed

definition someConfig :: tlsConfig where
  "someConfig = \<lparr>tc_NextProtos = [''h2''], tc_PolicyHook = False, tc_GetCertificate = None,
     tc_Crypto = \<lparr>cc_CipherSuites = [], cc_MinVersion = 0\<rparr>\<rparr>"

theorem servers_hardened_witness:
  "\<exists>t opts cw. main (quietPlatform goGrow) certFlags newProcess = (Ok (), t) \<and> b_options t = Some opts
     \<and> applyOpts (contents (b_heap t) (mo_WebhookTLSOpts opts)) someConfig = Ok cw
     \<and> tc_NextProtos cw = [''http/1.1''] \<and> tc_GetCertificate cw = Some (length ''/w/tls.crt'')"
proof -
  obtain m :: "unit ManagedTLSWatcher" where m: "NewManagedTLSWatcher = Ok m" using watcher_made by blast
  obtain r t where go: "main (quietPlatform goGrow) certFlags newProcess = (r, t)" by fastforce
  have "r = Ok ()" "b_options t \<noteq> None" using go by (auto simp: main_eval m goGrow_def)
  then obtain opts where opts: "b_options t = Some opts" by auto
  have g: "exactGrowth (pf_grow (quietPlatform goGrow))" using goGrow_exact by (simp add: quietPlatform_def)
  from servers_hardened[OF go _ opts, of someConfig] g opts \<open>r = Ok ()\<close> go show ?thesis
    by (auto simp: newProcess_def someConfig_def certFlags_def defaultFlags_def servesFiles_def quietPlatform_def run pathJoin_def pathClean_def
        HasPrefix_def)
qed

text \<open>
  With a runtime that leaves room, the second of the two appends overwrites what the first has
  written: the webhook serves the certificate of the metrics endpoint.
\<close>

theorem roomy_growth_mixes_certificates:
  "\<exists>t opts cw. main (quietPlatform (\<lambda>_ _. 4)) certFlags newProcess = (Ok (), t) \<and> b_options t = Some opts
     \<and> applyOpts (contents (b_heap t) (mo_WebhookTLSOpts opts)) someConfig = Ok cw
     \<and> tc_GetCertificate cw = Some (length ''/metrics/tls.crt'')"
proof -
  obtain m :: "unit ManagedTLSWatcher" where m: "NewManagedTLSWatcher = Ok m" using watcher_made by blast
  show ?thesis by (simp add: main_eval m someConfig_def pathJoin_def pathClean_def HasPrefix_def numeral_eq_Suc)
qed

end
