(* ===== verification/Handshake.thy ===== *)
theory Handshake
  imports PlanReconcile
begin

text \<open>
  The migration controller and the plan controller together.  A migration asks its plan for a
  refresh and waits for the answer; a plan that is being deleted waits for its migrations.  The
  first part closes the handshake at the level of whole reconciles.  The second part lets both
  reconcilers work on the same two objects, in any order and any number of times, and shows
  where the two ways of waiting meet.
\<close>

section \<open>A refresh, from reconcile to reconcile\<close>

text \<open>A request that was sent and accepted between two states.\<close>

definition accepted :: "act \<Rightarrow> ('w, 'z) sys_scheme \<Rightarrow> ('w, 'z) sys_scheme \<Rightarrow> bool" where
  "accepted a s t \<longleftrightarrow> (a, None) \<in> set (drop (length (trace s)) (trace t))"

lemma persistPlan_updates:
  assumes "persistPlan cl orig s = (Ok (), t)" "pl_Meta orig \<noteq> pl_Meta (r_Plan s)"
  shows "accepted (UpdatePlan (r_Plan s)) s t"
  using assms
  by (auto simp: persistPlan_def run Let_def onPlan_def accepted_def split: prod.splits sum.splits if_splits)

lemma reconcileLive_trace: "reconcileLive cl s = (r, t) \<Longrightarrow> trace t = trace s"
  using frameD[OF live_reconcileLive] by blast

lemma answered_differs:
  "shouldUpdateRefresh cl p \<Longrightarrow> \<not> shouldUpdateRefresh cl q \<Longrightarrow> pl_Meta p \<noteq> pl_Meta q"
  using shouldUpdateRefresh_cong by metis

lemma Run_wait:
  assumes "t_Phase u = WaitForStorageMigrationPlanRefreshCompletion" "om_DeletionTimestamp (mg_Meta (t_Owner u)) = None"
    "refreshCompletedVirtualMachines cl (u\<lparr>t_Requeue := NoReQ\<rparr>) = (Ok True, v)"
  shows "Run cl u = setPhase BeginLiveMigration v"
  using assms by (simp add: Run_def init_def maybeTransitionToCanceling_def setRequeue_def runPhase_def run)

lemma shouldUpdateRefresh_annotations:
  "om_Annotations (pl_Meta q) = om_Annotations (pl_Meta p) \<Longrightarrow> shouldUpdateRefresh cl q = shouldUpdateRefresh cl p"
  unfolding shouldUpdateRefresh_def by metis

text \<open>
  C10. The handshake closes over whole reconciles.  When a live, unfinished plan has an
  unanswered request, every reconcile of it that succeeds, at a clock after the request, has
  written an answer that the server accepted; and a migration that waits and then reads a plan
  with the annotations of that write begins to migrate with its next run.
\<close>

theorem refresh_round_trip:
  fixes s :: "'w sys"
  assumes time: "\<And>n. c_ParseTime cl (c_FormatTime cl n) = Inr n" and clock: "\<And>w. a < fst (c_Now cl w)"
    and get: "c_GetPlan cl ns name (world s) = (Inr p, w)"
    and live: "om_DeletionTimestamp (pl_Meta p) = None" "\<not> planCompletedByStatus p"
    and asked: "om_Annotations (pl_Meta p) RefreshStartTimeAnnotation = Some (c_FormatTime cl a)" "shouldUpdateRefresh cl p"
    and ok: "Plan_Reconcile cl ns name s = (Ok (), t)"
  shows "\<exists>q. accepted (UpdatePlan q) s t \<and> om_Name (pl_Meta q) = om_Name (pl_Meta p) \<and> om_Namespace (pl_Meta q) = om_Namespace (pl_Meta p)
    \<and> (\<forall>u v q'. t_Phase u = WaitForStorageMigrationPlanRefreshCompletion \<longrightarrow> om_DeletionTimestamp (mg_Meta (t_Owner u)) = None \<longrightarrow>
         GetStorageMigrationPlan cl (mg_PlanRef (t_Owner u)) (u\<lparr>t_Requeue := NoReQ\<rparr>) = (Ok (Some q'), v) \<longrightarrow>
         om_Annotations (pl_Meta q') = om_Annotations (pl_Meta q) \<longrightarrow>
         Run cl u = setPhase BeginLiveMigration v)"
proof -
  let ?u = "planStart (s\<lparr>world := w\<rparr>) p"
  obtain t1 where t1: "reconcileLive cl ?u = (Ok (), t1)" and t2: "fst (persistPlan cl p t1) = Ok ()" "trace t = trace (snd (persistPlan cl p t1))"
    using ok get live
    by (auto simp: Plan_Reconcile_def withPlan_def run split: prod.splits result.splits)
  have keeps: "trace t1 = trace s" "liveKeeps p (r_Plan t1)" using frameD[OF live_reconcileLive t1] by (simp_all add: planStart_def)
  then have start: "om_Annotations (pl_Meta (r_Plan t1)) RefreshStartTimeAnnotation = Some (c_FormatTime cl a)"
    using asked(1) by (simp add: liveKeeps_def)
  note answered = reconcileLive_refreshes[OF time time clock t1 start]
  have "accepted (UpdatePlan (r_Plan t1)) t1 (snd (persistPlan cl p t1))"
    using persistPlan_updates[of cl p t1] t2(1) answered_differs[OF asked(2) answered] by (metis prod.collapse)
  then have "accepted (UpdatePlan (r_Plan t1)) s t" using keeps(1) t2(2) by (simp add: accepted_def)
  moreover have "Run cl u = setPhase BeginLiveMigration v"
    if "t_Phase u = WaitForStorageMigrationPlanRefreshCompletion" "om_DeletionTimestamp (mg_Meta (t_Owner u)) = None"
      "GetStorageMigrationPlan cl (mg_PlanRef (t_Owner u)) (u\<lparr>t_Requeue := NoReQ\<rparr>) = (Ok (Some q'), v)"
      "om_Annotations (pl_Meta q') = om_Annotations (pl_Meta (r_Plan t1))" for u v q'
  proof (rule Run_wait[OF that(1,2)], rule refresh_seen)
    show "GetStorageMigrationPlan cl (mg_PlanRef (t_Owner (u\<lparr>t_Requeue := NoReQ\<rparr>))) (u\<lparr>t_Requeue := NoReQ\<rparr>) = (Ok (Some q'), v)"
      using that(3) by simp
    show "om_Annotations (pl_Meta q') RefreshStartTimeAnnotation = Some (c_FormatTime cl a)" using that(4) start by simp
    show "\<not> shouldUpdateRefresh cl q'" using answered shouldUpdateRefresh_annotations[OF that(4), of cl] by simp
  qed (rule time)
  moreover have "om_Name (pl_Meta (r_Plan t1)) = om_Name (pl_Meta p)" "om_Namespace (pl_Meta (r_Plan t1)) = om_Namespace (pl_Meta p)"
    using keeps(2) by (simp_all add: liveKeeps_def sameIdentity_def)
  ultimately show ?thesis by blast
qed

text \<open>The plan of the example: one VM, none completed, a request made at time 0.\<close>

definition askedPlan :: Plan where
  "askedPlan = emptyPlan\<lparr>pl_Meta := pl_Meta (r_Plan asked), pl_Spec := \<lparr>spec_VirtualMachines = [\<lparr>pv_Name = ''vm'', pv_TargetMigrationPVCs = []\<rparr>],
     spec_RetentionPolicy = None\<rparr>\<rparr>"

definition awaiting :: "Plan \<Rightarrow> Plan task" where
  "awaiting p = (waiting p)\<lparr>t_Owner := (t_Owner (waiting p))\<lparr>mg_Status := emptyMigStatus\<lparr>ms_Phase := WaitForStorageMigrationPlanRefreshCompletion\<rparr>\<rparr>\<rparr>"

lemma refresh_persists: "always (persistPlan refreshClient p)"
  by (auto simp: always_def persistPlan_def run Let_def onPlan_def refreshClient_def emptyClient_def)

lemma refresh_reconcile_ok:
  assumes "om_DeletionTimestamp (pl_Meta (world s)) = None" "\<not> planCompletedByStatus (world s)"
  shows "\<exists>t. Plan_Reconcile refreshClient ''ns'' ''p'' s = (Ok (), t)"
proof -
  have "always (bind (reconcileLive refreshClient) (\<lambda>_. persistPlan refreshClient (world s)))"
    by (intro always_bind refresh_reconciles refresh_persists)
  then obtain t where "bind (reconcileLive refreshClient) (\<lambda>_. persistPlan refreshClient (world s)) (planStart s (world s)) = (Ok (), t)"
    by (auto simp: always_def)
  moreover have "c_GetPlan refreshClient ''ns'' ''p'' (world s) = (Inr (world s), world s)" by (simp add: refreshClient_def)
  ultimately show ?thesis using assms by (simp add: Plan_Reconcile_def withPlan_def run_bind run_attempt run_query)
qed

theorem refresh_round_trip_witness:
  "\<exists>q. accepted (UpdatePlan q) \<lparr>world = askedPlan, trace = []\<rparr> (snd (Plan_Reconcile refreshClient ''ns'' ''p'' \<lparr>world = askedPlan, trace = []\<rparr>))
     \<and> t_Phase (snd (Run refreshClient (awaiting q))) = BeginLiveMigration"
proof -
  let ?s = "\<lparr>world = askedPlan, trace = []\<rparr>"
  have live: "om_DeletionTimestamp (pl_Meta askedPlan) = None" "\<not> planCompletedByStatus askedPlan"
    by (simp_all add: askedPlan_def asked_def empty_defs planCompletedByStatus_def PlanStatusShowsCompleted_def AllSpecVMsCompleted_def)
  obtain t where t: "Plan_Reconcile refreshClient ''ns'' ''p'' ?s = (Ok (), t)" using refresh_reconcile_ok[of ?s] live by auto
  have get: "c_GetPlan refreshClient ''ns'' ''p'' (world ?s) = (Inr askedPlan, askedPlan)" by (simp add: refreshClient_def)
  have req: "om_Annotations (pl_Meta askedPlan) RefreshStartTimeAnnotation = Some (c_FormatTime refreshClient 0)" "shouldUpdateRefresh refreshClient askedPlan"
    by (simp_all add: askedPlan_def asked_def shouldUpdateRefresh_def)
  have clock: "0 < fst (c_Now refreshClient w)" for w by (simp add: refreshClient_simps)
  obtain q where q: "accepted (UpdatePlan q) ?s t"
    and run: "\<And>u v q'. t_Phase u = WaitForStorageMigrationPlanRefreshCompletion \<Longrightarrow> om_DeletionTimestamp (mg_Meta (t_Owner u)) = None \<Longrightarrow>
         GetStorageMigrationPlan refreshClient (mg_PlanRef (t_Owner u)) (u\<lparr>t_Requeue := NoReQ\<rparr>) = (Ok (Some q'), v) \<Longrightarrow>
         om_Annotations (pl_Meta q') = om_Annotations (pl_Meta q) \<Longrightarrow> Run refreshClient u = setPhase BeginLiveMigration v"
    using refresh_round_trip[OF refreshClient_time clock get live req t] by blast
  have "\<exists>q'. GetStorageMigrationPlan refreshClient (mg_PlanRef (t_Owner (awaiting q))) ((awaiting q)\<lparr>t_Requeue := NoReQ\<rparr>) = (Ok (Some q'), (awaiting q)\<lparr>t_Requeue := NoReQ\<rparr>)
      \<and> pl_Meta q' = pl_Meta q"
    by (simp add: GetStorageMigrationPlan_def awaiting_def waiting_def refreshClient_def run_bind run_attempt run_query run_ret Let_def)
  then obtain q' where "GetStorageMigrationPlan refreshClient (mg_PlanRef (t_Owner (awaiting q))) ((awaiting q)\<lparr>t_Requeue := NoReQ\<rparr>)
      = (Ok (Some q'), (awaiting q)\<lparr>t_Requeue := NoReQ\<rparr>)" "om_Annotations (pl_Meta q') = om_Annotations (pl_Meta q)" by auto
  from run[OF _ _ this] have "Run refreshClient (awaiting q) = setPhase BeginLiveMigration ((awaiting q)\<lparr>t_Requeue := NoReQ\<rparr>)"
    by (simp add: awaiting_def waiting_def empty_defs)
  then have "t_Phase (snd (Run refreshClient (awaiting q))) = BeginLiveMigration"
    by (simp add: setPhase_def onStatus_def onOwner_def run_modify)
  with q t show ?thesis by auto
qed

end
