(* ===== verification/Deadlock.thy ===== *)
theory Deadlock
  imports Handshake
begin

text \<open>
  Deleting a plan that has migrations.  The plan controller keeps the finalizer of a plan that
  is being deleted until its migrations are over, and a migration whose plan is being deleted
  keeps running instead of cancelling.  A migration that has not yet begun, though, first asks
  the plan for a refresh, and the plan controller answers no refresh while it deletes.  Here the
  two reconcilers share one plan and one migration on the server, and no sequence of
  reconciles leads out of that state.
\<close>

section \<open>The server\<close>

text \<open>
  The two objects the server holds, as functions of its state, and what it is documented to do
  with them: a read that succeeds answers the stored object, a write to the object keeps the
  status and a write to the status keeps the rest, a merge patch changes the fields in which its
  two arguments differ, and only resource versions change besides.  A read may fail, though not
  with NotFound; a write that fails may have been carried out or not.
\<close>

record 'w stored =
  so_Plan :: "'w \<Rightarrow> Plan"
  so_Mig :: "'w \<Rightarrow> Migration"

definition unchanged :: "'w stored \<Rightarrow> 'w \<Rightarrow> 'w \<Rightarrow> bool" where
  "unchanged so w w' \<longleftrightarrow> so_Plan so w' = so_Plan so w \<and> so_Mig so w' = so_Mig so w"

definition reading :: "'w stored \<Rightarrow> ('w, 'r) api \<Rightarrow> ('w \<Rightarrow> 'r \<Rightarrow> bool) \<Rightarrow> bool" where
  "reading so f Q \<longleftrightarrow> (\<forall>w. case f w of
      (Inl e, w') \<Rightarrow> \<not> IsNotFound e \<and> unchanged so w w'
    | (Inr r, w') \<Rightarrow> Q w r \<and> unchanged so w w')"

definition writing :: "'w stored \<Rightarrow> ('w, 'r) api \<Rightarrow> ('w \<Rightarrow> 'w \<Rightarrow> bool) \<Rightarrow> ('w \<Rightarrow> 'r \<Rightarrow> bool) \<Rightarrow> bool" where
  "writing so f Q A \<longleftrightarrow> (\<forall>w. case f w of
      (Inl e, w') \<Rightarrow> unchanged so w w' \<or> Q w w'
    | (Inr r, w') \<Rightarrow> Q w w' \<and> A w' r)"

definition unversioned :: "ObjectMeta \<Rightarrow> ObjectMeta" where
  "unversioned m = m\<lparr>om_ResourceVersion := []\<rparr>"

definition keyed_by :: "string \<Rightarrow> string \<Rightarrow> ObjectMeta \<Rightarrow> bool" where
  "keyed_by ns n m \<longleftrightarrow> om_Namespace m = ns \<and> om_Name m = n"

definition merged :: "strmap \<Rightarrow> strmap \<Rightarrow> strmap \<Rightarrow> strmap" where
  "merged a b old = (\<lambda>k. if a k = b k then old k else b k)"

definition holds :: "'w client \<Rightarrow> string \<Rightarrow> string \<Rightarrow> string \<Rightarrow> 'w stored \<Rightarrow> bool" where
  "holds cl ns pn mn so \<longleftrightarrow>
     reading so (c_GetPlan cl ns pn) (\<lambda>w p. p = so_Plan so w) \<and>
     reading so (c_GetMig cl ns mn) (\<lambda>w m. m = so_Mig so w) \<and>
     reading so (c_ListMigsByPlanName cl pn) (\<lambda>w ms. pn \<in> set (migrationNameIndex (so_Mig so w)) \<longrightarrow> so_Mig so w \<in> set ms) \<and>
     (\<forall>w. unchanged so w (snd (c_Now cl w))) \<and>
     (\<forall>p. keyed_by ns pn (pl_Meta p) \<longrightarrow> writing so (c_UpdatePlanStatus cl p)
        (\<lambda>w w'. unversioned (pl_Meta (so_Plan so w')) = unversioned (pl_Meta (so_Plan so w)) \<and> pl_Status (so_Plan so w') = pl_Status p
           \<and> so_Mig so w' = so_Mig so w) (\<lambda>w r. r = so_Plan so w)) \<and>
     (\<forall>p x. keyed_by ns pn (pl_Meta p) \<longrightarrow> writing so (c_PatchPlan cl p (p\<lparr>pl_Meta := (pl_Meta p)\<lparr>om_Annotations := x\<rparr>\<rparr>))
        (\<lambda>w w'. unversioned (pl_Meta (so_Plan so w')) = unversioned ((pl_Meta (so_Plan so w))\<lparr>om_Annotations :=
             merged (om_Annotations (pl_Meta p)) x (om_Annotations (pl_Meta (so_Plan so w)))\<rparr>)
           \<and> pl_Status (so_Plan so w') = pl_Status (so_Plan so w) \<and> so_Mig so w' = so_Mig so w) (\<lambda>w r. True)) \<and>
     (\<forall>m. keyed_by ns mn (mg_Meta m) \<longrightarrow> writing so (c_UpdateMig cl m)
        (\<lambda>w w'. unversioned (mg_Meta (so_Mig so w')) = unversioned (mg_Meta m) \<and> mg_PlanRef (so_Mig so w') = mg_PlanRef m
           \<and> mg_Status (so_Mig so w') = mg_Status (so_Mig so w) \<and> so_Plan so w' = so_Plan so w) (\<lambda>w r. r = so_Mig so w)) \<and>
     (\<forall>m. keyed_by ns mn (mg_Meta m) \<longrightarrow> writing so (c_UpdateMigStatus cl m)
        (\<lambda>w w'. unversioned (mg_Meta (so_Mig so w')) = unversioned (mg_Meta (so_Mig so w)) \<and> mg_PlanRef (so_Mig so w') = mg_PlanRef (so_Mig so w)
           \<and> mg_Status (so_Mig so w') = mg_Status m \<and> so_Plan so w' = so_Plan so w) (\<lambda>w r. r = so_Mig so w))"

section \<open>The state\<close>

text \<open>The plan is being deleted and still has its finalizer; the migration has not begun.\<close>

abbreviation beforeBegin :: "Phase set" where
  "beforeBegin \<equiv> {PhaseUnset, Started, RefreshStorageMigrationPlan, WaitForStorageMigrationPlanRefreshCompletion}"

definition blockedPlan :: "string \<Rightarrow> string \<Rightarrow> Plan \<Rightarrow> bool" where
  "blockedPlan ns pn p \<longleftrightarrow> keyed_by ns pn (pl_Meta p) \<and> om_DeletionTimestamp (pl_Meta p) \<noteq> None \<and> HasFinalizer (pl_Meta p) PlanFinalizer"

definition earlyMig :: "string \<Rightarrow> string \<Rightarrow> string \<Rightarrow> Migration \<Rightarrow> bool" where
  "earlyMig ns pn mn m \<longleftrightarrow> keyed_by ns mn (mg_Meta m) \<and> ms_Phase (mg_Status m) \<in> beforeBegin
     \<and> (\<exists>ref. mg_PlanRef m = Some ref \<and> ref_Name ref = pn)"

definition stuck :: "string \<Rightarrow> string \<Rightarrow> string \<Rightarrow> Plan \<Rightarrow> Migration \<Rightarrow> bool" where
  "stuck ns pn mn p m \<longleftrightarrow> blockedPlan ns pn p \<and> earlyMig ns pn mn m
     \<and> (ms_Phase (mg_Status m) = WaitForStorageMigrationPlanRefreshCompletion \<longrightarrow> om_Annotations (pl_Meta p) RefreshEndTimeAnnotation = None)"

lemmas stuck_defs = stuck_def blockedPlan_def earlyMig_def keyed_by_def

text \<open>None of this depends on resource versions, and only the metadata of the plan matters.\<close>

lemma unversioned_fields:
  "unversioned m = unversioned m' \<Longrightarrow> om_Name m = om_Name m' \<and> om_Namespace m = om_Namespace m' \<and> om_Finalizers m = om_Finalizers m'
     \<and> om_DeletionTimestamp m = om_DeletionTimestamp m' \<and> om_Annotations m = om_Annotations m'"
  by (cases m; cases m') (simp add: unversioned_def)

lemma stuck_plan_cong: "unversioned (pl_Meta p) = unversioned (pl_Meta q) \<Longrightarrow> stuck ns pn mn p m = stuck ns pn mn q m"
  using unversioned_fields[of "pl_Meta p" "pl_Meta q"] by (simp add: stuck_defs HasFinalizer_def)

lemma stuck_mig_cong:
  "unversioned (mg_Meta m) = unversioned (mg_Meta m') \<Longrightarrow> mg_PlanRef m = mg_PlanRef m' \<Longrightarrow> mg_Status m = mg_Status m' \<Longrightarrow>
   stuck ns pn mn p m = stuck ns pn mn p m'"
  using unversioned_fields[of "mg_Meta m" "mg_Meta m'"] by (simp add: stuck_defs)

text \<open>What a caller knows after a call.\<close>

lemma holds_laws:
  assumes "holds cl ns pn mn so"
  shows "reading so (c_GetPlan cl ns pn) (\<lambda>w p. p = so_Plan so w)"
    "reading so (c_GetMig cl ns mn) (\<lambda>w m. m = so_Mig so w)"
    "reading so (c_ListMigsByPlanName cl pn) (\<lambda>w ms. pn \<in> set (migrationNameIndex (so_Mig so w)) \<longrightarrow> so_Mig so w \<in> set ms)"
    "unchanged so v (snd (c_Now cl v))"
    "keyed_by ns pn (pl_Meta p) \<Longrightarrow> writing so (c_UpdatePlanStatus cl p)
        (\<lambda>w w'. unversioned (pl_Meta (so_Plan so w')) = unversioned (pl_Meta (so_Plan so w)) \<and> pl_Status (so_Plan so w') = pl_Status p
           \<and> so_Mig so w' = so_Mig so w) (\<lambda>w r. r = so_Plan so w)"
    "keyed_by ns pn (pl_Meta p) \<Longrightarrow> writing so (c_PatchPlan cl p (p\<lparr>pl_Meta := (pl_Meta p)\<lparr>om_Annotations := x\<rparr>\<rparr>))
        (\<lambda>w w'. unversioned (pl_Meta (so_Plan so w')) = unversioned ((pl_Meta (so_Plan so w))\<lparr>om_Annotations :=
             merged (om_Annotations (pl_Meta p)) x (om_Annotations (pl_Meta (so_Plan so w)))\<rparr>)
           \<and> pl_Status (so_Plan so w') = pl_Status (so_Plan so w) \<and> so_Mig so w' = so_Mig so w) (\<lambda>w r. True)"
    "keyed_by ns mn (mg_Meta m) \<Longrightarrow> writing so (c_UpdateMig cl m)
        (\<lambda>w w'. unversioned (mg_Meta (so_Mig so w')) = unversioned (mg_Meta m) \<and> mg_PlanRef (so_Mig so w') = mg_PlanRef m
           \<and> mg_Status (so_Mig so w') = mg_Status (so_Mig so w) \<and> so_Plan so w' = so_Plan so w) (\<lambda>w r. r = so_Mig so w)"
    "keyed_by ns mn (mg_Meta m) \<Longrightarrow> writing so (c_UpdateMigStatus cl m)
        (\<lambda>w w'. unversioned (mg_Meta (so_Mig so w')) = unversioned (mg_Meta (so_Mig so w)) \<and> mg_PlanRef (so_Mig so w') = mg_PlanRef (so_Mig so w)
           \<and> mg_Status (so_Mig so w') = mg_Status m \<and> so_Plan so w' = so_Plan so w) (\<lambda>w r. r = so_Mig so w)"
  using assms unfolding holds_def by blast+

lemma readingD:
  "reading so f Q \<Longrightarrow> f w = (x, w') \<Longrightarrow> unchanged so w w' \<and> (case x of Inl e \<Rightarrow> \<not> IsNotFound e | Inr r \<Rightarrow> Q w r)"
  unfolding reading_def by (cases x) (auto dest!: spec[of _ w])

lemma writingD:
  "writing so f Q A \<Longrightarrow> f w = (x, w') \<Longrightarrow> (unchanged so w w' \<or> Q w w') \<and> (case x of Inl e \<Rightarrow> True | Inr r \<Rightarrow> Q w w' \<and> A w' r)"
  unfolding writing_def by (cases x) (auto dest!: spec[of _ w])

definition jammed :: "'w stored \<Rightarrow> string \<Rightarrow> string \<Rightarrow> string \<Rightarrow> 'w \<Rightarrow> Migration \<Rightarrow> bool" where
  "jammed so ns pn mn w m \<longleftrightarrow> stuck ns pn mn (so_Plan so w) m \<and> stuck ns pn mn (so_Plan so w) (so_Mig so w)"

lemma jammed_unchanged: "unchanged so w w' \<Longrightarrow> jammed so ns pn mn w' m = jammed so ns pn mn w m"
  by (simp add: jammed_def unchanged_def)

lemma wp_bindI:
  assumes "wp m R s" "\<And>x t. R (Ok x) t \<Longrightarrow> wp (f x) Q t" "\<And>e t. R (Err e) t \<Longrightarrow> Q (Err e) t" "\<And>p t. R (Panic p) t \<Longrightarrow> Q (Panic p) t"
  shows "wp (bind m f) Q s"
  using assms by (cases "m s"; cases "fst (m s)") (auto simp: wp_def run_bind)

section \<open>The task\<close>

lemma GetStorageMigrationPlan_held:
  assumes "holds cl ns pn mn so" "ref_Namespace ref = ns" "ref_Name ref = pn" "GetStorageMigrationPlan cl (Some ref) s = (r, t)"
  shows "\<exists>w. t = s\<lparr>world := w\<rparr> \<and> unchanged so (world s) w
    \<and> (\<forall>p. r = Ok p \<longrightarrow> (\<exists>q. p = Some q \<and> pl_Meta q = pl_Meta (so_Plan so (world s)) \<and> pl_Status q = pl_Status (so_Plan so (world s))))"
proof -
  obtain x w' where x: "c_GetPlan cl ns pn (world s) = (x, w')" by fastforce
  from readingD[OF holds_laws(1)[OF assms(1)] x] show ?thesis using assms(2-4) x
    by (cases x) (auto simp: GetStorageMigrationPlan_def run Let_def)
qed

lemma refreshCompleted_unanswered:
  assumes "holds cl ns pn mn so" "mg_PlanRef (t_Owner u) = Some ref" "ref_Namespace ref = ns" "ref_Name ref = pn"
    "om_Annotations (pl_Meta (so_Plan so (world u))) RefreshEndTimeAnnotation = None"
    "refreshCompletedVirtualMachines cl u = (r, v)"
  shows "\<exists>w. v = u\<lparr>world := w\<rparr> \<and> unchanged so (world u) w \<and> r \<noteq> Ok True"
proof -
  obtain x t where x: "GetStorageMigrationPlan cl (Some ref) u = (x, t)" by fastforce
  obtain w0 where g: "t = u\<lparr>world := w0\<rparr>" "unchanged so (world u) w0"
    "\<And>p. x = Ok p \<Longrightarrow> \<exists>q. p = Some q \<and> pl_Meta q = pl_Meta (so_Plan so (world u)) \<and> pl_Status q = pl_Status (so_Plan so (world u))"
    using GetStorageMigrationPlan_held[OF assms(1,3,4) x] by blast
  show ?thesis
  proof (cases x)
    case (Ok p)
    then obtain q where "p = Some q" "om_Annotations (pl_Meta q) RefreshEndTimeAnnotation = None" using g assms(5) by auto
    then show ?thesis using g x Ok assms(2,6)
      by (auto simp: refreshCompletedVirtualMachines_def run liftSum_def deref_def split: option.splits sum.splits)
  qed (use g x assms(2,6) in \<open>auto simp: refreshCompletedVirtualMachines_def run\<close>)
qed

lemma refreshReady_jammed:
  assumes "holds cl ns pn mn so" "mg_PlanRef (t_Owner u) = Some ref" "ref_Namespace ref = ns" "ref_Name ref = pn"
    "stuck ns pn mn (so_Plan so (world u)) (so_Mig so (world u))" "refreshReadyVirtualMachines cl u = (r, v)"
  shows "t_Owner v = t_Owner u \<and> so_Mig so (world v) = so_Mig so (world u)
    \<and> stuck ns pn mn (so_Plan so (world v)) (so_Mig so (world v)) \<and> blockedPlan ns pn (so_Plan so (world v))
    \<and> (r = Ok () \<longrightarrow> om_Annotations (pl_Meta (so_Plan so (world v))) RefreshEndTimeAnnotation = None)"
proof -
  let ?old = "\<lambda>w. om_Annotations (pl_Meta (so_Plan so w))"
  obtain x t where x: "GetStorageMigrationPlan cl (Some ref) u = (x, t)" by fastforce
  obtain w0 where g: "t = u\<lparr>world := w0\<rparr>" "unchanged so (world u) w0"
    "\<And>p. x = Ok p \<Longrightarrow> \<exists>q. p = Some q \<and> pl_Meta q = pl_Meta (so_Plan so (world u)) \<and> pl_Status q = pl_Status (so_Plan so (world u))"
    using GetStorageMigrationPlan_held[OF assms(1,3,4) x] by blast
  show ?thesis
  proof (cases x)
    case (Ok p)
    then obtain q where q: "p = Some q" "pl_Meta q = pl_Meta (so_Plan so (world u))" using g by auto
    obtain now w1 where now: "c_Now cl w0 = (now, w1)" by fastforce
    define X where "X = ((om_Annotations (pl_Meta q))(RefreshStartTimeAnnotation \<mapsto> c_FormatTime cl now))(RefreshEndTimeAnnotation := None)"
    obtain y w2 where y: "c_PatchPlan cl q (q\<lparr>pl_Meta := (pl_Meta q)\<lparr>om_Annotations := X\<rparr>\<rparr>) w1 = (y, w2)" by fastforce
    have same: "unchanged so (world u) w1" using g now holds_laws(4)[OF assms(1), of w0] by (simp add: unchanged_def)
    have "keyed_by ns pn (pl_Meta q)" using assms(5) q(2) by (simp add: stuck_def blockedPlan_def)
    note w = writingD[OF holds_laws(6)[OF assms(1) this] y]
    have patched: "om_Annotations (pl_Meta (so_Plan so w2)) RefreshEndTimeAnnotation = None \<and> blockedPlan ns pn (so_Plan so w2)"
      if "unversioned (pl_Meta (so_Plan so w2)) = unversioned ((pl_Meta (so_Plan so w1))\<lparr>om_Annotations := merged (om_Annotations (pl_Meta q)) X (?old w1)\<rparr>)"
      using unversioned_fields[OF that] same assms(5) q(2) by (auto simp: merged_def unchanged_def stuck_defs HasFinalizer_def X_def)
    have v: "t_Owner v = t_Owner u" "world v = w2" "r = Ok () \<longleftrightarrow> (\<exists>z. y = Inr z)"
      using x Ok q(1) now y assms(2,6) g(1) by (auto simp: refreshReadyVirtualMachines_def run Let_def X_def split: sum.splits)
    show ?thesis using w patched v same assms(5) by (cases y) (auto simp: unchanged_def stuck_def)
  qed (use g x assms(2,5,6) in \<open>auto simp: refreshReadyVirtualMachines_def run unchanged_def stuck_def\<close>)
qed

lemma Run_early:
  assumes "blockedPlan ns pn p" "t_Plan u = Some p" "t_Phase u \<in> beforeBegin"
  shows "Run cl u = runPhase cl (if t_Phase u = PhaseUnset then Started else t_Phase u)
    (if t_Phase u = PhaseUnset then snd (setPhase Started (u\<lparr>t_Requeue := NoReQ\<rparr>)) else u\<lparr>t_Requeue := NoReQ\<rparr>)"
  using assms by (auto simp: Run_def init_def maybeTransitionToCanceling_def setRequeue_def setPhase_def onStatus_def onOwner_def run blockedPlan_def)

lemma Run_jammed:
  assumes "holds cl ns pn mn so" "jammed so ns pn mn (world u) (t_Owner u)"
    "mg_PlanRef (t_Owner u) = Some ref" "ref_Namespace ref = ns" "blockedPlan ns pn p" "t_Plan u = Some p" "Run cl u = (r, v)"
  shows "jammed so ns pn mn (world v) (t_Owner v)"
proof -
  have ref: "ref_Name ref = pn" and ph: "t_Phase u \<in> beforeBegin"
    and mine: "stuck ns pn mn (so_Plan so (world u)) (t_Owner u)" and theirs: "stuck ns pn mn (so_Plan so (world u)) (so_Mig so (world u))"
    using assms(2,3) by (auto simp: jammed_def stuck_defs)
  note early = Run_early[OF assms(5,6) ph, of cl]
  consider (new) "t_Phase u \<in> {PhaseUnset, Started}" | (ask) "t_Phase u = RefreshStorageMigrationPlan"
    | (wait) "t_Phase u = WaitForStorageMigrationPlanRefreshCompletion" using ph by auto
  then show ?thesis
  proof cases
    case new
    then have "world v = world u" "t_Phase v = RefreshStorageMigrationPlan" "mg_PlanRef (t_Owner v) = mg_PlanRef (t_Owner u)"
      "om_Name (mg_Meta (t_Owner v)) = om_Name (mg_Meta (t_Owner u))" "om_Namespace (mg_Meta (t_Owner v)) = om_Namespace (mg_Meta (t_Owner u))"
      using early assms(7) by (auto simp: runPhase_def run setPhase_def onStatus_def onOwner_def Mig_AddFinalizer_def addFinalizer_def)
    then show ?thesis using mine theirs by (simp add: jammed_def stuck_defs)
  next
    case ask
    obtain x t where x: "refreshReadyVirtualMachines cl (u\<lparr>t_Requeue := NoReQ\<rparr>) = (x, t)" by fastforce
    have "t_Owner t = t_Owner u \<and> so_Mig so (world t) = so_Mig so (world u)
      \<and> stuck ns pn mn (so_Plan so (world t)) (so_Mig so (world t)) \<and> blockedPlan ns pn (so_Plan so (world t))
      \<and> (x = Ok () \<longrightarrow> om_Annotations (pl_Meta (so_Plan so (world t))) RefreshEndTimeAnnotation = None)"
      using refreshReady_jammed[OF assms(1) _ assms(4) ref _ x] assms(3) theirs by auto
    then show ?thesis using early ask x assms(7) mine
      by (cases x) (auto simp: runPhase_def run setPhase_def onStatus_def onOwner_def jammed_def stuck_def earlyMig_def)
  next
    case wait
    obtain x t where x: "refreshCompletedVirtualMachines cl (u\<lparr>t_Requeue := NoReQ\<rparr>) = (x, t)" by fastforce
    have "om_Annotations (pl_Meta (so_Plan so (world u))) RefreshEndTimeAnnotation = None" using mine wait by (simp add: stuck_def)
    then obtain w where "t = u\<lparr>t_Requeue := NoReQ, world := w\<rparr>" "unchanged so (world u) w" "x \<noteq> Ok True"
      using refreshCompleted_unanswered[OF assms(1) _ assms(4) ref _ x] assms(3) by auto
    then show ?thesis using early wait x assms(2,7)
      by (cases x) (auto simp: runPhase_def run setRequeue_def jammed_def unchanged_def)
  qed
qed

section \<open>The reconcilers\<close>

lemma UpdateMig_jammed:
  assumes "holds cl ns pn mn so" "jammed so ns pn mn w m" "c_UpdateMig cl m w = (x, w')"
  shows "jammed so ns pn mn w' m \<and> (\<forall>r. x = Inr r \<longrightarrow> unversioned (mg_Meta r) = unversioned (mg_Meta m) \<and> mg_PlanRef r = mg_PlanRef m)"
proof -
  have "keyed_by ns mn (mg_Meta m)" using assms(2) by (simp add: jammed_def stuck_def earlyMig_def)
  note w = writingD[OF holds_laws(7)[OF assms(1) this] assms(3)]
  have "stuck ns pn mn (so_Plan so w') (so_Mig so w')"
    if "unversioned (mg_Meta (so_Mig so w')) = unversioned (mg_Meta m)" "mg_PlanRef (so_Mig so w') = mg_PlanRef m"
      "mg_Status (so_Mig so w') = mg_Status (so_Mig so w)" "so_Plan so w' = so_Plan so w"
    using unversioned_fields[OF that(1)] that(2-) assms(2) by (simp add: jammed_def stuck_defs)
  then show ?thesis using w assms(2) by (cases x) (auto simp: jammed_def unchanged_def)
qed

lemma UpdateMigStatus_jammed:
  assumes "holds cl ns pn mn so" "jammed so ns pn mn w m" "c_UpdateMigStatus cl m w = (x, w')"
  shows "jammed so ns pn mn w' m"
proof -
  have "keyed_by ns mn (mg_Meta m)" using assms(2) by (simp add: jammed_def stuck_def earlyMig_def)
  note w = writingD[OF holds_laws(8)[OF assms(1) this] assms(3)]
  have "stuck ns pn mn (so_Plan so w') (so_Mig so w')"
    if "unversioned (mg_Meta (so_Mig so w')) = unversioned (mg_Meta (so_Mig so w))" "mg_PlanRef (so_Mig so w') = mg_PlanRef (so_Mig so w)"
      "mg_Status (so_Mig so w') = mg_Status m" "so_Plan so w' = so_Plan so w"
    using unversioned_fields[OF that(1)] that(2-) assms(2) by (simp add: jammed_def stuck_defs)
  then show ?thesis using w assms(2) by (cases x) (auto simp: jammed_def unchanged_def)
qed

lemma persistMigration_jammed:
  assumes "holds cl ns pn mn so" "jammed so ns pn mn (world s) m"
  shows "wp (persistMigration cl orig m q e) (\<lambda>r t. \<exists>m'. jammed so ns pn mn (world t) m') s"
proof -
  let ?Q = "\<lambda>(r :: int result) t. \<exists>m'. jammed so ns pn mn (world t) m'"
  have status: "wp (bind (if mg_Status orig \<noteq> mg_Status m then bind (request (UpdateMigStatus m1) (c_UpdateMigStatus cl m1)) (\<lambda>_. ret ()) else ret ())
      (\<lambda>_. case e of Some e \<Rightarrow> throw e | None \<Rightarrow> ret q)) ?Q u" if "jammed so ns pn mn (world u) m1" for m1 and u :: "'a sys"
    using UpdateMigStatus_jammed[OF assms(1) that] that
    by (auto simp: wp_def run split: prod.splits sum.splits option.splits)
  show ?thesis
  proof (cases "mg_Meta orig = mg_Meta m")
    case True
    then show ?thesis using status[OF assms(2)] by (simp add: persistMigration_def Let_def)
  next
    case False
    obtain x w where x: "c_UpdateMig cl m (world s) = (x, w)" by fastforce
    note up = UpdateMig_jammed[OF assms(1,2) x]
    show ?thesis
    proof (cases x)
      case (Inl err)
      then show ?thesis using False x up by (auto simp: persistMigration_def Let_def wp_def run)
    next
      case (Inr m')
      have "stuck ns pn mn (so_Plan so w) (m'\<lparr>mg_Status := mg_Status m\<rparr>) = stuck ns pn mn (so_Plan so w) m"
        by (rule stuck_mig_cong) (use up Inr in auto)
      then have "jammed so ns pn mn w (m'\<lparr>mg_Status := mg_Status m\<rparr>)" using up by (simp add: jammed_def)
      from status[of "s\<lparr>world := w, trace := trace s @ [(UpdateMig m, None)]\<rparr>", simplified, OF this] show ?thesis
        using False x Inr by (simp add: persistMigration_def Let_def wp_def run)
    qed
  qed
qed

definition sameRef :: "Migration \<Rightarrow> Migration \<Rightarrow> bool" where
  "sameRef m m' \<longleftrightarrow> mg_PlanRef m' = mg_PlanRef m \<and> om_Name (mg_Meta m') = om_Name (mg_Meta m)"

lemma sameRef_status [simp]: "sameRef m (m'\<lparr>mg_Status := x\<rparr>) = sameRef m m'"
  by (simp add: sameRef_def)

lemma validate_ref: "validate cl plan ref m s = (Ok m', t) \<Longrightarrow> sameRef m m'"
  by (auto simp: validate_def validatePlan_def Let_def run_ret deleteMigCondition_def dest!: setMigCondition_result
      split: option.splits if_splits) (simp_all add: sameRef_def)

lemma setOwnerReference_ref: "setOwnerReference plan m = Ok m' \<Longrightarrow> sameRef m m'"
  by (auto simp: setOwnerReference_def SetControllerReference_def bindR_eq_Ok sameRef_def Let_def split: option.splits if_splits)

lemma prepared_ref: "prepared cl (Some p) ref m s = (Ok m', t) \<Longrightarrow> sameRef m m'"
  by (auto simp: prepared_def bind_Ok run_liftR sameRef_def deleteMigCondition_def dest!: setOwnerReference_ref validate_ref)

lemma frame_Now_unchanged: "holds cl ns pn mn so \<Longrightarrow> frame (\<lambda>s t. unchanged so (world s) (world t)) (draw (c_Now cl))"
  by (rule frameI) (auto simp: run split: prod.splits, metis holds_laws(4) snd_conv)

lemma unchanged_preorder: "preorder_rel (\<lambda>s t. unchanged so (world s) (world t))"
  by (rule preorder_relI) (auto simp: unchanged_def)

lemma prepared_unchanged:
  assumes "holds cl ns pn mn so"
  shows "frame (\<lambda>s t. unchanged so (world s) (world t)) (prepared cl plan ref m)"
  unfolding prepared_def validate_def validatePlan_def setMigCondition_def Let_def
  by (intro frame_Now_unchanged[OF assms] unchanged_preorder frame_bind frame_ret frame_liftR frame_if frame_case_option)

lemma stuck_prepared:
  assumes "stuck ns pn mn p m" "sameCore m m'" "sameRef m m'"
  shows "stuck ns pn mn p m'"
  using assms by (simp add: stuck_defs sameCore_def sameRef_def)

lemma prepared_jammed:
  assumes "holds cl ns pn mn so" "jammed so ns pn mn (world s) m" "mg_PlanRef m = Some ref"
  shows "wp (prepared cl (Some p) ref m) (\<lambda>r t. jammed so ns pn mn (world t) m
    \<and> (\<forall>m1. r = Ok m1 \<longrightarrow> jammed so ns pn mn (world t) m1 \<and> mg_PlanRef m1 = Some ref)) s"
proof (rule wpI)
  fix r t
  assume go: "prepared cl (Some p) ref m s = (r, t)"
  have t: "jammed so ns pn mn (world t) m" using frameD[OF prepared_unchanged[OF assms(1)] go] assms(2) by (simp add: jammed_unchanged)
  moreover have "jammed so ns pn mn (world t) m1 \<and> mg_PlanRef m1 = Some ref" if "r = Ok m1" for m1
    using prepared_core[OF go[unfolded that]] prepared_ref[OF go[unfolded that]] t assms(3) by (auto simp: jammed_def sameRef_def intro: stuck_prepared)
  ultimately show "jammed so ns pn mn (world t) m \<and> (\<forall>m1. r = Ok m1 \<longrightarrow> jammed so ns pn mn (world t) m1 \<and> mg_PlanRef m1 = Some ref)" by blast
qed

lemma migrate_jammed:
  assumes "holds cl ns pn mn so" "jammed so ns pn mn (world s) m" "mg_PlanRef m = Some ref" "ref_Namespace ref = ns" "blockedPlan ns pn p"
  shows "wp (migrate cl (Some p) m) (\<lambda>r t. \<exists>m'. jammed so ns pn mn (world t) m' \<and> (\<forall>x. r = Ok x \<longrightarrow> m' = fst x)) s"
proof -
  let ?u = "\<lparr>world = world s, trace = trace s, t_Owner = m, t_Plan = Some p, t_Requeue = 0\<rparr>"
  obtain x v where x: "Run cl ?u = (x, v)" by fastforce
  have "jammed so ns pn mn (world v) (t_Owner v)"
    by (rule Run_jammed[OF assms(1) _ _ assms(4,5) _ x]) (use assms(2,3) in simp_all)
  then show ?thesis using x by (auto simp: wp_def migrate_def split: result.splits)
qed

lemma reconcilePlanned_jammed:
  fixes s :: "'w sys"
  assumes "holds cl ns pn mn so" "jammed so ns pn mn (world s) m" "mg_PlanRef m = Some ref" "ref_Namespace ref = ns"
  shows "wp (reconcilePlanned cl orig ref m) (\<lambda>r t. \<exists>m'. jammed so ns pn mn (world t) m') s"
  unfolding reconcilePlanned_prepared
proof (rule wp_bindI)
  have ref: "ref_Name ref = pn" using assms(2,3) by (auto simp: jammed_def stuck_defs)
  show "wp (GetStorageMigrationPlan cl (Some ref)) (\<lambda>r t. jammed so ns pn mn (world t) m
      \<and> (\<forall>plan. r = Ok plan \<longrightarrow> (\<exists>p. plan = Some p \<and> blockedPlan ns pn p))) s"
    using GetStorageMigrationPlan_held[OF assms(1,4) ref] assms(2)
    by (intro wpI) (fastforce simp: jammed_def stuck_def blockedPlan_def unchanged_def)
next
  fix plan and t :: "'w sys"
  assume "jammed so ns pn mn (world t) m \<and> (\<forall>plan'. Ok plan = Ok plan' \<longrightarrow> (\<exists>p. plan' = Some p \<and> blockedPlan ns pn p))"
  then obtain p where t: "jammed so ns pn mn (world t) m" and p: "plan = Some p" "blockedPlan ns pn p" by auto
  show "wp (bind (prepared cl plan ref m) (\<lambda>m1.
      if \<not> HasBlockerCondition (ms_Conditions (mg_Status m1)) \<or> om_DeletionTimestamp (mg_Meta m1) \<noteq> None
      then bind (migrate cl plan m1) (\<lambda>(m2, requeueAfter, migrateErr). persistMigration cl orig m2 requeueAfter migrateErr)
      else persistMigration cl orig m1 NoReQ None)) (\<lambda>r t. \<exists>m'. jammed so ns pn mn (world t) m') t"
    unfolding p(1)
    by (rule wp_bindI[OF prepared_jammed[OF assms(1) t assms(3)]])
      (auto intro!: wp_bindI[OF migrate_jammed[OF assms(1) _ _ assms(4) p(2)]] persistMigration_jammed[OF assms(1)])
qed auto

text \<open>Neither reconciler leaves the state, whatever fails on the way.\<close>

abbreviation stuckAt :: "'w stored \<Rightarrow> string \<Rightarrow> string \<Rightarrow> string \<Rightarrow> 'w \<Rightarrow> bool" where
  "stuckAt so ns pn mn w \<equiv> stuck ns pn mn (so_Plan so w) (so_Mig so w)"

lemma Mig_Reconcile_stuck:
  fixes s :: "'w sys"
  assumes "holds cl ns pn mn so" "stuckAt so ns pn mn (world s)"
  shows "wp (Mig_Reconcile cl ns mn) (\<lambda>r t. stuckAt so ns pn mn (world t)) s"
  unfolding Mig_Reconcile_def
proof (rule wp_bindI)
  let ?m = "so_Mig so (world s)"
  show "wp (attempt (query (c_GetMig cl ns mn)))
      (\<lambda>r t. unchanged so (world s) (world t) \<and> (\<forall>m. r = Ok (Inr m) \<longrightarrow> m = ?m)) s"
    using readingD[OF holds_laws(2)[OF assms(1)], of "world s"]
    by (intro wpI) (auto simp: run split: prod.splits sum.splits)
  fix x :: "goerr + Migration" and t :: "'w sys"
  assume t: "unchanged so (world s) (world t) \<and> (\<forall>m. Ok x = Ok (Inr m) \<longrightarrow> m = ?m)"
  then have stuck: "stuckAt so ns pn mn (world t)" using assms(2) by (simp add: unchanged_def)
  obtain ref where ref: "mg_PlanRef ?m = Some ref" "ref_Name ref = pn" using assms(2) by (auto simp: stuck_defs)
  let ?ref = "ref\<lparr>ref_Namespace := om_Namespace (mg_Meta ?m)\<rparr>"
  have "om_Namespace (mg_Meta ?m) = ns" and ph: "ms_Phase (mg_Status ?m) \<notin> {Canceled, Completed}" using assms(2) by (auto simp: stuck_defs)
  moreover have "jammed so ns pn mn (world t) (?m\<lparr>mg_PlanRef := Some ?ref\<rparr>)"
    using stuck t ref assms(2) by (auto simp: jammed_def stuck_defs unchanged_def)
  ultimately have "wp (reconcilePlanned cl ?m ?ref (?m\<lparr>mg_PlanRef := Some ?ref\<rparr>)) (\<lambda>r t. stuckAt so ns pn mn (world t)) t"
    using reconcilePlanned_jammed[OF assms(1), of t "?m\<lparr>mg_PlanRef := Some ?ref\<rparr>" ?ref ?m]
    by (auto intro: wp_mono simp: jammed_def)
  then show "wp (case x of Inl e \<Rightarrow> if IsNotFound e then ret 0 else throw e
     | Inr m \<Rightarrow> if om_DeletionTimestamp (mg_Meta m) \<noteq> None \<and> ms_Phase (mg_Status m) \<in> {Canceled, Completed}
         then persistMigration cl m (Mig_RemoveFinalizer MigrationFinalizer m) NoReQ None
         else if ms_Phase (mg_Status m) = Completed then ret 0
         else (case mg_PlanRef m of None \<Rightarrow> ret 0
           | Some ref0 \<Rightarrow> let ref = ref0\<lparr>ref_Namespace := om_Namespace (mg_Meta m)\<rparr>
               in reconcilePlanned cl m ref (m\<lparr>mg_PlanRef := Some ref\<rparr>))) (\<lambda>r t. stuckAt so ns pn mn (world t)) t"
    using t stuck ph ref(1) by (cases x) (auto simp: wp_if wp_ret wp_throw Let_def)
qed (use assms(2) in \<open>auto simp: unchanged_def\<close>)

lemma persistPlan_stuck:
  fixes s :: "'w planning"
  assumes "holds cl ns pn mn so" "stuckAt so ns pn mn (world s)" "pl_Meta (r_Plan s) = pl_Meta orig" "keyed_by ns pn (pl_Meta orig)"
  shows "wp (persistPlan cl orig) (\<lambda>r t. stuckAt so ns pn mn (world t)) s"
proof -
  obtain x w where x: "c_UpdatePlanStatus cl (r_Plan s) (world s) = (x, w)" by fastforce
  have "keyed_by ns pn (pl_Meta (r_Plan s))" using assms(3,4) by simp
  note up = writingD[OF holds_laws(5)[OF assms(1) this] x]
  then have "stuckAt so ns pn mn w" using assms(2) stuck_plan_cong[of "so_Plan so w" "so_Plan so (world s)"] by (auto simp: unchanged_def)
  then show ?thesis using x assms(2,3) by (cases x) (auto simp: persistPlan_def Let_def wp_def run)
qed

lemma reconcileDeleted_stuck:
  fixes s :: "'w planning"
  assumes "holds cl ns pn mn so" "stuckAt so ns pn mn (world s)" "pn \<noteq> []" "keyed_by ns pn (pl_Meta (r_Plan s))"
  shows "wp (reconcileDeleted cl) (\<lambda>r t. stuckAt so ns pn mn (world t) \<and> pl_Meta (r_Plan t) = pl_Meta (r_Plan s)) s"
proof -
  obtain x w where x: "c_ListMigsByPlanName cl pn (world s) = (x, w)" by fastforce
  have name: "om_Name (pl_Meta (r_Plan s)) = pn" using assms(4) by (simp add: keyed_by_def)
  obtain ref where "mg_PlanRef (so_Mig so (world s)) = Some ref" "ref_Name ref = pn" using assms(2) by (auto simp: stuck_defs)
  then have "pn \<in> set (migrationNameIndex (so_Mig so (world s)))" using assms(3) by (simp add: migrationNameIndex_def)
  then have w: "unchanged so (world s) w" "\<And>ms. x = Inr ms \<Longrightarrow> so_Mig so (world s) \<in> set ms"
    using readingD[OF holds_laws(3)[OF assms(1)] x] by auto
  have "activeMigration (so_Mig so (world s))" using assms(2) by (auto simp: stuck_defs activeMigration_def)
  then have act: "list_ex activeMigration ms" if "x = Inr ms" for ms using w(2)[OF that] by (auto simp: list_ex_iff)
  have "stuckAt so ns pn mn w" "\<And>v. stuckAt so ns pn mn (snd (c_Now cl w))"
    using w(1) assms(2) holds_laws(4)[OF assms(1), of w] by (simp_all add: unchanged_def)
  then show ?thesis using x name act
    by (cases x; cases "c_Now cl w")
      (auto simp: reconcileDeleted_def hasActiveMigrations_def listMigrationsForPlan_def setCond_def onConditions_def onPlanStatus_def onPlan_def wp_def run)
qed

lemma Plan_Reconcile_stuck:
  fixes s :: "'w sys"
  assumes "holds cl ns pn mn so" "stuckAt so ns pn mn (world s)" "pn \<noteq> []"
  shows "wp (Plan_Reconcile cl ns pn) (\<lambda>r t. stuckAt so ns pn mn (world t)) s"
proof -
  let ?p = "so_Plan so (world s)"
  obtain x w where x: "c_GetPlan cl ns pn (world s) = (x, w)" by fastforce
  note g = readingD[OF holds_laws(1)[OF assms(1)] x]
  let ?u = "planStart (s\<lparr>world := w\<rparr>) ?p"
  have p: "om_DeletionTimestamp (pl_Meta ?p) \<noteq> None" "keyed_by ns pn (pl_Meta ?p)" using assms(2) by (auto simp: stuck_def blockedPlan_def)
  have u: "stuckAt so ns pn mn (world ?u)" "r_Plan ?u = ?p" using g assms(2) by (simp_all add: unchanged_def planStart_def)
  have "wp (bind (reconcileDeleted cl) (\<lambda>_. persistPlan cl ?p)) (\<lambda>r t. stuckAt so ns pn mn (world t)) ?u"
    by (rule wp_bindI[OF reconcileDeleted_stuck[OF assms(1) u(1) assms(3)]]) (use p(2) u(2) in \<open>auto intro: persistPlan_stuck[OF assms(1)]\<close>)
  then show ?thesis using x g p(1) u(1)
    by (cases x) (auto simp: Plan_Reconcile_def withPlan_def wp_def run_attempt run_query run_ret run_throw run_bind[of "attempt _"] planStart_def split: prod.splits)
qed

section \<open>Any number of reconciles\<close>

text \<open>
  What others may do meanwhile: anything to the spec and the status of the plan, to the
  conditions and the lists of the migration, to labels; also mark the migration for deletion.
  They do not write the finalizer of the plan, its answer to a refresh, or the phase of the
  migration, which belong to the two controllers.
\<close>

definition aside :: "Plan \<Rightarrow> Migration \<Rightarrow> Plan \<Rightarrow> Migration \<Rightarrow> bool" where
  "aside p m p' m' \<longleftrightarrow>
     keyed_by (om_Namespace (pl_Meta p)) (om_Name (pl_Meta p)) (pl_Meta p')
     \<and> om_DeletionTimestamp (pl_Meta p') = om_DeletionTimestamp (pl_Meta p)
     \<and> HasFinalizer (pl_Meta p') PlanFinalizer = HasFinalizer (pl_Meta p) PlanFinalizer
     \<and> om_Annotations (pl_Meta p') RefreshEndTimeAnnotation = om_Annotations (pl_Meta p) RefreshEndTimeAnnotation
     \<and> keyed_by (om_Namespace (mg_Meta m)) (om_Name (mg_Meta m)) (mg_Meta m')
     \<and> ms_Phase (mg_Status m') = ms_Phase (mg_Status m)
     \<and> map_option ref_Name (mg_PlanRef m') = map_option ref_Name (mg_PlanRef m)"

inductive moves :: "'w client \<Rightarrow> string \<Rightarrow> string \<Rightarrow> string \<Rightarrow> 'w stored \<Rightarrow> 'w \<Rightarrow> 'w \<Rightarrow> bool" for cl ns pn mn so where
  plan: "Plan_Reconcile cl ns pn s = (r, t) \<Longrightarrow> moves cl ns pn mn so (world s) (world t)"
| migration: "Mig_Reconcile cl ns mn s = (r, t) \<Longrightarrow> moves cl ns pn mn so (world s) (world t)"
| others: "aside (so_Plan so w) (so_Mig so w) (so_Plan so w') (so_Mig so w') \<Longrightarrow> moves cl ns pn mn so w w'"

lemma aside_stuck: "aside p m p' m' \<Longrightarrow> stuck ns pn mn p m \<Longrightarrow> stuck ns pn mn p' m'"
  by (auto simp: aside_def stuck_def blockedPlan_def earlyMig_def keyed_by_def map_option_eq_Some)

lemma moves_stuck:
  assumes "holds cl ns pn mn so" "pn \<noteq> []"
  shows "moves cl ns pn mn so w w' \<Longrightarrow> stuckAt so ns pn mn w \<Longrightarrow> stuckAt so ns pn mn w'"
proof (induction rule: moves.induct)
  case (plan s r t)
  from wp_run[OF Plan_Reconcile_stuck[OF assms(1) plan(2) assms(2)] plan(1)] show ?case .
next
  case (migration s r t)
  from wp_run[OF Mig_Reconcile_stuck[OF assms(1) migration(2)] migration(1)] show ?case .
next
  case (others w w')
  then show ?case by (rule aside_stuck)
qed

text \<open>
  C9. Deleting a plan before one of its migrations has begun jams both.  The migration is one that
  has not got past the refresh of the plan, and if it already waits for it, then the plan does not
  carry an answer yet (with an answer there it would begin).  From then on the plan is never
  released and the migration never begins, completes or cancels, however often the two
  controllers reconcile, in whichever order, whatever calls fail, and also when the migration is
  deleted in turn.  The condition set on the plan promises the opposite: migrations in flight
  continue until complete.  The hypothesis \<open>holds\<close> on the server: reads that succeed show the
  stored object and not an older one, listings include the migration, writes store what was sent,
  and only the two controllers write the two objects.
\<close>

theorem deleted_plan_deadlock:
  assumes "holds cl ns pn mn so" "pn \<noteq> []" "stuck ns pn mn (so_Plan so w) (so_Mig so w)" "(moves cl ns pn mn so)\<^sup>*\<^sup>* w w'"
  shows "om_DeletionTimestamp (pl_Meta (so_Plan so w')) \<noteq> None \<and> HasFinalizer (pl_Meta (so_Plan so w')) PlanFinalizer
    \<and> ms_Phase (mg_Status (so_Mig so w')) \<in> {PhaseUnset, Started, RefreshStorageMigrationPlan, WaitForStorageMigrationPlanRefreshCompletion}"
proof -
  from assms(4) have "stuckAt so ns pn mn w'"
    by (induction rule: rtranclp_induct) (simp_all add: assms(3) moves_stuck[OF assms(1,2)])
  then show ?thesis by (simp add: stuck_def blockedPlan_def earlyMig_def)
qed

text \<open>A plan whose VMs are all completed answers no refresh either: its reconcile ends at once.\<close>

lemma completed_plan_ignores_refresh:
  assumes "c_GetPlan cl ns n (world s) = (Inr p, w)" "om_DeletionTimestamp (pl_Meta p) = None" "planCompletedByStatus p"
  shows "Plan_Reconcile cl ns n s = (Ok (), s\<lparr>world := w\<rparr>)"
  using assms by (simp add: Plan_Reconcile_def run)

text \<open>A server that holds the two objects and applies every request to them.\<close>

definition pairServer :: "(Plan \<times> Migration) client" where
  "pairServer = emptyClient\<lparr>c_GetPlan := (\<lambda>ns n w. (Inr (fst w), w)), c_GetMig := (\<lambda>ns n w. (Inr (snd w), w)),
     c_ListMigsByPlanName := (\<lambda>n w. (Inr [snd w], w)),
     c_UpdatePlanStatus := (\<lambda>p (q, m). (Inr (q\<lparr>pl_Status := pl_Status p\<rparr>), (q\<lparr>pl_Status := pl_Status p\<rparr>, m))),
     c_PatchPlan := (\<lambda>a b (q, m). (Inr (), (q\<lparr>pl_Meta := (pl_Meta q)\<lparr>om_Annotations :=
        merged (om_Annotations (pl_Meta a)) (om_Annotations (pl_Meta b)) (om_Annotations (pl_Meta q))\<rparr>\<rparr>, m))),
     c_UpdateMig := (\<lambda>m (q, m0). (Inr (m\<lparr>mg_Status := mg_Status m0\<rparr>), (q, m\<lparr>mg_Status := mg_Status m0\<rparr>))),
     c_UpdateMigStatus := (\<lambda>m (q, m0). (Inr (m0\<lparr>mg_Status := mg_Status m\<rparr>), (q, m0\<lparr>mg_Status := mg_Status m\<rparr>)))\<rparr>"

definition pairStored :: "(Plan \<times> Migration) stored" where
  "pairStored = \<lparr>so_Plan = fst, so_Mig = snd\<rparr>"

definition deletedPlan :: Plan where
  "deletedPlan = emptyPlan\<lparr>pl_Meta := emptyMeta\<lparr>om_Namespace := ''ns'', om_Name := ''plan'', om_DeletionTimestamp := Some 1,
     om_Finalizers := [PlanFinalizer]\<rparr>\<rparr>"

definition newMigration :: Migration where
  "newMigration = emptyMigration\<lparr>mg_Meta := emptyMeta\<lparr>om_Namespace := ''ns'', om_Name := ''mig''\<rparr>,
     mg_PlanRef := Some \<lparr>ref_Namespace = [], ref_Name = ''plan'', ref_UID = []\<rparr>\<rparr>"

lemma pairServer_holds: "holds pairServer ns pn mn pairStored"
  by (auto simp: holds_def reading_def writing_def unchanged_def pairServer_def pairStored_def emptyClient_def split: prod.splits)

lemma pair_stuck: "stuck ''ns'' ''plan'' ''mig'' deletedPlan newMigration"
  by (simp add: stuck_defs deletedPlan_def newMigration_def empty_defs HasFinalizer_def)

theorem deleted_plan_deadlock_witness:
  "HasFinalizer (pl_Meta (fst (world (snd (Plan_Reconcile pairServer ''ns'' ''plan'' \<lparr>world = (deletedPlan, newMigration), trace = []\<rparr>))))) PlanFinalizer"
proof -
  let ?s = "\<lparr>world = (deletedPlan, newMigration), trace = []\<rparr>"
  have "moves pairServer ''ns'' ''plan'' ''mig'' pairStored (world ?s) (world (snd (Plan_Reconcile pairServer ''ns'' ''plan'' ?s)))"
    by (rule moves.plan[OF surjective_pairing])
  from deleted_plan_deadlock[OF pairServer_holds _ _ r_into_rtranclp[of "moves pairServer ''ns'' ''plan'' ''mig'' pairStored", OF this]]
  show ?thesis using pair_stuck by (simp add: pairStored_def)
qed

end
