(* ===== verification/RestRequest.thy ===== *)
theory RestRequest
  imports GoPath
begin

text \<open>
  The requests of a generated client: the request builder of the vendored
  \<open>src/vendor/k8s.io/client-go/rest/request.go\<close>, as far as verb and path, and the operations
  of the vendored \<open>gentype\<close> client that chain it.  An operation either fails before anything
  is sent or sends one request, whose verb and path are the result here; parameters, headers,
  bodies and the answer are left out.
\<close>

section \<open>The request builder\<close>

text \<open>
  Of a REST client the path of its base URL, the path of its API group, and the identities of
  its rate limiter and HTTP client.
\<close>

record restClient =
  rest_base :: string
  rest_versionedAPIPath :: string
  rest_rateLimiter :: "nat option"
  rest_Client :: nat

record Request =
  rq_verb :: string
  rq_pathPrefix :: string
  rq_namespace :: string
  rq_namespaceSet :: bool
  rq_resource :: string
  rq_resourceName :: string
  rq_subresource :: string
  rq_err :: "goerr option"

definition NewRequest :: "restClient \<Rightarrow> string \<Rightarrow> Request" where
  "NewRequest c verb = \<lparr>rq_verb = verb, rq_pathPrefix = pathJoin [''/'', rest_base c, rest_versionedAPIPath c],
     rq_namespace = [], rq_namespaceSet = False, rq_resource = [], rq_resourceName = [], rq_subresource = [], rq_err = None\<rparr>"

definition IsValidPathSegmentName :: "string \<Rightarrow> string list" where
  "IsValidPathSegmentName name =
     (if name = ''.'' \<or> name = ''..'' then [''may not be '' @ [CHR 0x27] @ name @ [CHR 0x27]]
      else map (\<lambda>c. ''may not contain '' @ [CHR 0x27] @ c @ [CHR 0x27]) (filter (Contains name) [''/'', ''%'']))"

definition invalid :: "string \<Rightarrow> string \<Rightarrow> goerr" where
  "invalid what s = PlainErr (''invalid '' @ what @ '' '' @ quoteGo s @ '': ['' @ Join (IsValidPathSegmentName s) '' '' @ '']'')"

definition alreadySet :: "string \<Rightarrow> string \<Rightarrow> string \<Rightarrow> goerr" where
  "alreadySet what old new = PlainErr (what @ '' already set to '' @ quoteGo old @ '', cannot change to '' @ quoteGo new)"

text \<open>A builder that has failed stays as it is; the first error is the one reported.\<close>

definition unlessFailed :: "(Request \<Rightarrow> Request) \<Rightarrow> Request \<Rightarrow> Request" where
  "unlessFailed f r = (if rq_err r \<noteq> None then r else f r)"

definition Resource :: "string \<Rightarrow> Request \<Rightarrow> Request" where
  "Resource resource = unlessFailed (\<lambda>r.
     if rq_resource r \<noteq> [] then r\<lparr>rq_err := Some (alreadySet ''resource'' (rq_resource r) resource)\<rparr>
     else if IsValidPathSegmentName resource \<noteq> [] then r\<lparr>rq_err := Some (invalid ''resource'' resource)\<rparr>
     else r\<lparr>rq_resource := resource\<rparr>)"

definition SubResource :: "string list \<Rightarrow> Request \<Rightarrow> Request" where
  "SubResource subresources = unlessFailed (\<lambda>r.
     let subresource = pathJoin subresources in
     if rq_subresource r \<noteq> [] then r\<lparr>rq_err := Some (alreadySet ''subresource'' (rq_subresource r) subresource)\<rparr>
     else (case find (\<lambda>s. IsValidPathSegmentName s \<noteq> []) subresources of
         Some s \<Rightarrow> r\<lparr>rq_err := Some (invalid ''subresource'' s)\<rparr>
       | None \<Rightarrow> r\<lparr>rq_subresource := subresource\<rparr>))"

definition Name :: "string \<Rightarrow> Request \<Rightarrow> Request" where
  "Name resourceName = unlessFailed (\<lambda>r.
     if resourceName = [] then r\<lparr>rq_err := Some (PlainErr ''resource name may not be empty'')\<rparr>
     else if rq_resourceName r \<noteq> [] then r\<lparr>rq_err := Some (alreadySet ''resource name'' (rq_resourceName r) resourceName)\<rparr>
     else if IsValidPathSegmentName resourceName \<noteq> [] then r\<lparr>rq_err := Some (invalid ''resource name'' resourceName)\<rparr>
     else r\<lparr>rq_resourceName := resourceName\<rparr>)"

definition Namespace :: "string \<Rightarrow> Request \<Rightarrow> Request" where
  "Namespace namespace = unlessFailed (\<lambda>r.
     if rq_namespaceSet r then r\<lparr>rq_err := Some (alreadySet ''namespace'' (rq_namespace r) namespace)\<rparr>
     else if IsValidPathSegmentName namespace \<noteq> [] then r\<lparr>rq_err := Some (invalid ''namespace'' namespace)\<rparr>
     else r\<lparr>rq_namespaceSet := True, rq_namespace := namespace\<rparr>)"

definition NamespaceIfScoped :: "string \<Rightarrow> bool \<Rightarrow> Request \<Rightarrow> Request" where
  "NamespaceIfScoped namespace scoped r = (if scoped then Namespace namespace r else r)"

text \<open>\<open>strings.ToLower\<close> on ASCII.\<close>

definition ToLower :: "string \<Rightarrow> string" where
  "ToLower s = map (\<lambda>c. if CHR ''A'' \<le> c \<and> c \<le> CHR ''Z'' then char_of (of_char c + 32 :: nat) else c) s"

definition URL_Path :: "Request \<Rightarrow> string" where
  "URL_Path r =
     (let p = rq_pathPrefix r;
          p1 = (if rq_namespaceSet r \<and> rq_namespace r \<noteq> [] then pathJoin [p, ''namespaces'', rq_namespace r] else p);
          p2 = (if rq_resource r \<noteq> [] then pathJoin [p1, ToLower (rq_resource r)] else p1)
      in if rq_resourceName r \<noteq> [] \<or> rq_subresource r \<noteq> [] then pathJoin [p2, rq_resourceName r, rq_subresource r] else p2)"

definition requestPreflightCheck :: "Request \<Rightarrow> goerr option" where
  "requestPreflightCheck r =
     (if \<not> rq_namespaceSet r \<or> rq_namespace r \<noteq> [] then None
      else if rq_verb r = ''POST'' then Some (PlainErr ''an empty namespace may not be set during creation'')
      else if rq_verb r \<in> {''GET'', ''PUT'', ''DELETE''} \<and> rq_resourceName r \<noteq> []
      then Some (PlainErr ''an empty namespace may not be set when a resource name is provided'')
      else None)"

text \<open>What is sent: verb and path.  A watch skips the preflight check.\<close>

definition Do :: "Request \<Rightarrow> (string \<times> string) result" where
  "Do r = (case rq_err r of
       Some e \<Rightarrow> Err e
     | None \<Rightarrow> (case requestPreflightCheck r of Some e \<Rightarrow> Err e | None \<Rightarrow> Ok (rq_verb r, URL_Path r)))"

definition DoWatch :: "Request \<Rightarrow> (string \<times> string) result" where
  "DoWatch r = (case rq_err r of Some e \<Rightarrow> Err e | None \<Rightarrow> Ok (rq_verb r, URL_Path r))"

section \<open>The operations\<close>

text \<open>The client of a resource; a nil REST client panics when it is used.\<close>

record genClient =
  gen_resource :: string
  gen_client :: "restClient option"
  gen_namespace :: string

definition start :: "genClient \<Rightarrow> string \<Rightarrow> Request result" where
  "start c verb = bindR (deref (gen_client c)) (\<lambda>rc.
     Ok (Resource (gen_resource c) (NamespaceIfScoped (gen_namespace c) (gen_namespace c \<noteq> []) (NewRequest rc verb))))"

definition Gen_Get :: "genClient \<Rightarrow> string \<Rightarrow> (string \<times> string) result" where
  "Gen_Get c name = bindR (start c ''GET'') (\<lambda>r. Do (Name name r))"

definition Gen_List :: "genClient \<Rightarrow> (string \<times> string) result" where
  "Gen_List c = bindR (start c ''GET'') Do"

definition Gen_Watch :: "genClient \<Rightarrow> (string \<times> string) result" where
  "Gen_Watch c = bindR (start c ''GET'') DoWatch"

definition Gen_Create :: "genClient \<Rightarrow> (string \<times> string) result" where
  "Gen_Create c = bindR (start c ''POST'') Do"

text \<open>\<open>Update\<close> and \<open>UpdateStatus\<close> take the name from the object.\<close>

definition Gen_Update :: "genClient \<Rightarrow> string \<Rightarrow> (string \<times> string) result" where
  "Gen_Update c name = bindR (start c ''PUT'') (\<lambda>r. Do (Name name r))"

definition Gen_UpdateStatus :: "genClient \<Rightarrow> string \<Rightarrow> (string \<times> string) result" where
  "Gen_UpdateStatus c name = bindR (start c ''PUT'') (\<lambda>r. Do (SubResource [''status''] (Name name r)))"

definition Gen_Delete :: "genClient \<Rightarrow> string \<Rightarrow> (string \<times> string) result" where
  "Gen_Delete c name = bindR (start c ''DELETE'') (\<lambda>r. Do (Name name r))"

definition Gen_DeleteCollection :: "genClient \<Rightarrow> (string \<times> string) result" where
  "Gen_DeleteCollection c = bindR (start c ''DELETE'') Do"

definition Gen_Patch :: "genClient \<Rightarrow> string list \<Rightarrow> string \<Rightarrow> (string \<times> string) result" where
  "Gen_Patch c subresources name = bindR (start c ''PATCH'') (\<lambda>r. Do (SubResource subresources (Name name r)))"

section \<open>Where a request goes\<close>

text \<open>A segment the builder accepts.\<close>

definition safeSegment :: "string \<Rightarrow> bool" where
  "safeSegment s \<longleftrightarrow> plainName s \<and> CHR ''%'' \<notin> set s"

lemma Contains_char: "Contains s [c] \<longleftrightarrow> c \<in> set s"
  by (induction s) auto

lemma valid_segment: "IsValidPathSegmentName s = [] \<longleftrightarrow> s = [] \<or> safeSegment s"
  by (auto simp: IsValidPathSegmentName_def safeSegment_def plainName_def Contains_char)

text \<open>
  The root of a client: its API group under the base path.  A typed client works below it, on a
  resource whose name is lower case.
\<close>

definition apiRoot :: "restClient \<Rightarrow> string list \<Rightarrow> bool" where
  "apiRoot rc es \<longleftrightarrow> es \<noteq> [] \<and> list_all plainName es \<and> pathJoin [''/'', rest_base rc, rest_versionedAPIPath rc] = absPath es"

definition scope :: "string \<Rightarrow> string list" where
  "scope ns = (if ns = [] then [] else [''namespaces'', ns])"

definition wellTyped :: "genClient \<Rightarrow> bool" where
  "wellTyped c \<longleftrightarrow> safeSegment (gen_resource c) \<and> ToLower (gen_resource c) = gen_resource c"

lemma started:
  assumes "apiRoot rc es" "wellTyped c" "gen_client c = Some rc"
  shows "\<exists>r. start c verb = Ok r \<and> rq_verb r = verb \<and> (rq_err r = None \<longleftrightarrow> gen_namespace c = [] \<or> safeSegment (gen_namespace c))
    \<and> (rq_err r = None \<longrightarrow> rq_pathPrefix r = absPath es \<and> rq_namespace r = gen_namespace c \<and> rq_namespaceSet r = (gen_namespace c \<noteq> [])
         \<and> rq_resource r = gen_resource c \<and> rq_resourceName r = [] \<and> rq_subresource r = [])"
  using assms valid_segment[of "gen_namespace c"] valid_segment[of "gen_resource c"]
  by (auto simp: start_def deref_def NewRequest_def apiRoot_def wellTyped_def Resource_def Namespace_def NamespaceIfScoped_def unlessFailed_def safeSegment_def plainName_def)

lemma URL_Path_segments:
  assumes "apiRoot rc es" "wellTyped c" "rq_pathPrefix r = absPath es" "rq_namespaceSet r = (rq_namespace r \<noteq> [])"
    "rq_namespace r = [] \<or> safeSegment (rq_namespace r)" "rq_resource r = gen_resource c"
    "rq_resourceName r = [] \<or> safeSegment (rq_resourceName r)" "rq_subresource r = [] \<or> safeSegment (rq_subresource r)"
  shows "URL_Path r = absPath (es @ scope (rq_namespace r) @ gen_resource c # filter (\<lambda>f. f \<noteq> []) [rq_resourceName r, rq_subresource r])"
proof -
  have es: "es \<noteq> []" "list_all plainName es" using assms(1) by (simp_all add: apiRoot_def)
  let ?p1 = "es @ scope (rq_namespace r)" and ?p2 = "es @ scope (rq_namespace r) @ [gen_resource c]"
  have res: "plainName (gen_resource c)" "gen_resource c \<noteq> []" using assms(2) by (auto simp: wellTyped_def safeSegment_def plainName_def)
  have plain1: "list_all plainName ?p1" using es assms(5) by (auto simp: scope_def safeSegment_def plainName_def)
  have 1: "(if rq_namespaceSet r \<and> rq_namespace r \<noteq> [] then pathJoin [absPath es, ''namespaces'', rq_namespace r] else absPath es) = absPath ?p1"
    using pathJoin_absPath[OF es, of "[''namespaces'', rq_namespace r]"] assms(4,5)
    by (auto simp: scope_def safeSegment_def plainName_def)
  have 2: "pathJoin [absPath ?p1, ToLower (gen_resource c)] = absPath ?p2"
    using pathJoin_absPath[OF _ plain1, of "[gen_resource c]"] es(1) res assms(2) by (simp add: wellTyped_def)
  have "list_all plainName ?p2" using plain1 res by simp
  from pathJoin_absPath[OF _ this, of "[rq_resourceName r, rq_subresource r]"]
  have "pathJoin [absPath ?p2, rq_resourceName r, rq_subresource r] = absPath (?p2 @ filter (\<lambda>f. f \<noteq> []) [rq_resourceName r, rq_subresource r])"
    using assms(7,8) by (auto simp: safeSegment_def)
  with 1 2 show ?thesis using assms(3,6) res(2) by (simp add: URL_Path_def Let_def)
qed

definition reaches :: "string list \<Rightarrow> genClient \<Rightarrow> string list \<Rightarrow> string" where
  "reaches es c rest = absPath (es @ scope (gen_namespace c) @ gen_resource c # rest)"

definition inScope :: "genClient \<Rightarrow> bool" where
  "inScope c \<longleftrightarrow> gen_namespace c = [] \<or> safeSegment (gen_namespace c)"

text \<open>
  An operation on one object is sent exactly when its name and its namespace are safe, and then
  to that object; an operation on all objects of a resource goes to the resource.
\<close>

definition addressed :: "bool \<Rightarrow> string \<times> string \<Rightarrow> (string \<times> string) result \<Rightarrow> bool" where
  "addressed ok line r = (case r of Ok x \<Rightarrow> ok \<and> x = line | Err e \<Rightarrow> \<not> ok | Panic p \<Rightarrow> False)"

lemma Do_named:
  assumes "apiRoot rc es" "wellTyped c" "gen_client c = Some rc" "start c verb = Ok r" "sub = [] \<or> safeSegment sub"
  shows "addressed (inScope c \<and> safeSegment name) (verb, reaches es c [name]) (Do (Name name r))"
    "addressed (inScope c \<and> safeSegment name) (verb, reaches es c (name # filter (\<lambda>f. f \<noteq> []) [sub])) (Do (SubResource (filter (\<lambda>f. f \<noteq> []) [sub]) (Name name r)))"
proof -
  have r: "rq_verb r = verb" "rq_err r = None \<longleftrightarrow> inScope c"
    "inScope c \<Longrightarrow> rq_pathPrefix r = absPath es \<and> rq_namespace r = gen_namespace c \<and> rq_namespaceSet r = (gen_namespace c \<noteq> [])
         \<and> rq_resource r = gen_resource c \<and> rq_resourceName r = [] \<and> rq_subresource r = []"
    using started[OF assms(1-3), of verb] assms(4) by (auto simp: inScope_def)
  have name: "Name name r = (if inScope c \<and> safeSegment name then r\<lparr>rq_resourceName := name\<rparr> else Name name r)"
    "rq_err (Name name r) = None \<longleftrightarrow> inScope c \<and> safeSegment name"
    using r(2,3) valid_segment[of name] by (auto simp: Name_def unlessFailed_def safeSegment_def plainName_def)
  have sub: "SubResource (filter (\<lambda>f. f \<noteq> []) [sub]) (r\<lparr>rq_resourceName := name\<rparr>) = r\<lparr>rq_resourceName := name, rq_subresource := sub\<rparr>" if "inScope c"
    using that r(2,3) assms(5) valid_segment[of sub] pathClean_plain[of sub]
    by (auto simp: SubResource_def unlessFailed_def pathJoin_def safeSegment_def)
  have sent: "Do (r\<lparr>rq_resourceName := name, rq_subresource := s\<rparr>) = Ok (verb, reaches es c (name # filter (\<lambda>f. f \<noteq> []) [s]))"
    if "inScope c" "safeSegment name" "s = [] \<or> safeSegment s" for s
    using URL_Path_segments[OF assms(1,2), of "r\<lparr>rq_resourceName := name, rq_subresource := s\<rparr>"] that r
    by (auto simp: Do_def requestPreflightCheck_def reaches_def inScope_def safeSegment_def plainName_def)
  have "inScope c \<Longrightarrow> r\<lparr>rq_resourceName := name, rq_subresource := []\<rparr> = r\<lparr>rq_resourceName := name\<rparr>" using r(3) by (cases r) simp
  then show "addressed (inScope c \<and> safeSegment name) (verb, reaches es c [name]) (Do (Name name r))"
    using sent[of "[]"] name by (cases "inScope c \<and> safeSegment name") (auto simp: addressed_def Do_def)
  show "addressed (inScope c \<and> safeSegment name) (verb, reaches es c (name # filter (\<lambda>f. f \<noteq> []) [sub])) (Do (SubResource (filter (\<lambda>f. f \<noteq> []) [sub]) (Name name r)))"
  proof (cases "inScope c \<and> safeSegment name")
    case True
    then show ?thesis using sent[OF _ _ assms(5)] sub name(1) by (simp add: addressed_def)
  next
    case False
    then show ?thesis using name(2) by (auto simp: addressed_def Do_def SubResource_def unlessFailed_def)
  qed
qed

lemma Do_unnamed:
  assumes "apiRoot rc es" "wellTyped c" "gen_client c = Some rc" "start c verb = Ok r"
  shows "addressed (inScope c) (verb, reaches es c []) (Do r)" "addressed (inScope c) (verb, reaches es c []) (DoWatch r)"
proof -
  have r: "rq_verb r = verb" "rq_err r = None \<longleftrightarrow> inScope c"
    "inScope c \<Longrightarrow> rq_pathPrefix r = absPath es \<and> rq_namespace r = gen_namespace c \<and> rq_namespaceSet r = (gen_namespace c \<noteq> [])
         \<and> rq_resource r = gen_resource c \<and> rq_resourceName r = [] \<and> rq_subresource r = []"
    using started[OF assms(1-3), of verb] assms(4) by (auto simp: inScope_def)
  then have "inScope c \<Longrightarrow> URL_Path r = reaches es c []"
    using URL_Path_segments[OF assms(1,2), of r] by (auto simp: reaches_def inScope_def)
  with r show "addressed (inScope c) (verb, reaches es c []) (Do r)" "addressed (inScope c) (verb, reaches es c []) (DoWatch r)"
    by (auto simp: addressed_def Do_def DoWatch_def requestPreflightCheck_def split: option.splits)
qed

lemma operations_addressed:
  assumes "apiRoot rc es" "wellTyped c" "gen_client c = Some rc"
  shows "addressed (inScope c \<and> safeSegment name) (''GET'', reaches es c [name]) (Gen_Get c name)"
    "addressed (inScope c \<and> safeSegment name) (''PUT'', reaches es c [name]) (Gen_Update c name)"
    "addressed (inScope c \<and> safeSegment name) (''PUT'', reaches es c [name, ''status'']) (Gen_UpdateStatus c name)"
    "addressed (inScope c \<and> safeSegment name) (''DELETE'', reaches es c [name]) (Gen_Delete c name)"
    "addressed (inScope c \<and> safeSegment name) (''PATCH'', reaches es c [name]) (Gen_Patch c [] name)"
    "addressed (inScope c \<and> safeSegment name) (''PATCH'', reaches es c [name, ''status'']) (Gen_Patch c [''status''] name)"
    "addressed (inScope c) (''GET'', reaches es c []) (Gen_List c)"
    "addressed (inScope c) (''GET'', reaches es c []) (Gen_Watch c)"
    "addressed (inScope c) (''POST'', reaches es c []) (Gen_Create c)"
    "addressed (inScope c) (''DELETE'', reaches es c []) (Gen_DeleteCollection c)"
proof -
  have "\<exists>r. start c verb = Ok r" for verb using started[OF assms, of verb] by blast
  then obtain g p d h where r: "start c ''GET'' = Ok g" "start c ''PUT'' = Ok p" "start c ''DELETE'' = Ok d" "start c ''PATCH'' = Ok h" by metis
  obtain q where q: "start c ''POST'' = Ok q" using \<open>\<And>verb. \<exists>r. start c verb = Ok r\<close> by blast
  have st: "safeSegment ''status''" by (simp add: safeSegment_def plainName_def)
  note named = Do_named[OF assms] and all = Do_unnamed[OF assms]
  show "addressed (inScope c \<and> safeSegment name) (''GET'', reaches es c [name]) (Gen_Get c name)"
    using named(1)[OF r(1), of "[]"] r(1) by (simp add: Gen_Get_def)
  show "addressed (inScope c \<and> safeSegment name) (''PUT'', reaches es c [name]) (Gen_Update c name)"
    using named(1)[OF r(2), of "[]"] r(2) by (simp add: Gen_Update_def)
  show "addressed (inScope c \<and> safeSegment name) (''PUT'', reaches es c [name, ''status'']) (Gen_UpdateStatus c name)"
    using named(2)[OF r(2), of "''status''"] r(2) st by (simp add: Gen_UpdateStatus_def)
  show "addressed (inScope c \<and> safeSegment name) (''DELETE'', reaches es c [name]) (Gen_Delete c name)"
    using named(1)[OF r(3), of "[]"] r(3) by (simp add: Gen_Delete_def)
  show "addressed (inScope c \<and> safeSegment name) (''PATCH'', reaches es c [name]) (Gen_Patch c [] name)"
    using named(2)[OF r(4), of "[]"] r(4) by (simp add: Gen_Patch_def)
  show "addressed (inScope c \<and> safeSegment name) (''PATCH'', reaches es c [name, ''status'']) (Gen_Patch c [''status''] name)"
    using named(2)[OF r(4), of "''status''"] r(4) st by (simp add: Gen_Patch_def)
  show "addressed (inScope c) (''GET'', reaches es c []) (Gen_List c)" using all(1)[OF r(1)] r(1) by (simp add: Gen_List_def)
  show "addressed (inScope c) (''GET'', reaches es c []) (Gen_Watch c)" using all(2)[OF r(1)] r(1) by (simp add: Gen_Watch_def)
  show "addressed (inScope c) (''POST'', reaches es c []) (Gen_Create c)" using all(1)[OF q] q by (simp add: Gen_Create_def)
  show "addressed (inScope c) (''DELETE'', reaches es c []) (Gen_DeleteCollection c)" using all(1)[OF r(3)] r(3) by (simp add: Gen_DeleteCollection_def)
qed

text \<open>Below one root the path determines resource, namespace and the rest.\<close>

lemma reaches_inj:
  assumes "list_all plainName es" "wellTyped c" "wellTyped d" "inScope c" "inScope d" "list_all plainName xs" "list_all plainName ys"
    "gen_resource c \<noteq> ''namespaces''" "gen_resource d \<noteq> ''namespaces''" "reaches es c xs = reaches es d ys"
  shows "gen_namespace c = gen_namespace d \<and> gen_resource c = gen_resource d \<and> xs = ys"
proof -
  have "list_all plainName (scope (gen_namespace x) @ gen_resource x # zs)" if "wellTyped x" "inScope x" "list_all plainName zs" for x zs
    using that by (auto simp: scope_def inScope_def wellTyped_def safeSegment_def plainName_def)
  with assms have "scope (gen_namespace c) @ gen_resource c # xs = scope (gen_namespace d) @ gen_resource d # ys"
    using absPath_inj[of "es @ scope (gen_namespace c) @ gen_resource c # xs" "es @ scope (gen_namespace d) @ gen_resource d # ys"]
    by (simp add: reaches_def)
  then show ?thesis using assms(8,9) by (auto simp: scope_def split: if_splits)
qed

end
