(* ===== verification/Clientset.thy ===== *)
theory Clientset
  imports Complex_Main RestRequest Client
begin

text \<open>
  The generated clientset (\<open>src/pkg/client/clientset/versioned\<close>): the group client with its
  configuration, the clientset around it, and the typed clients of the four resources.  Of the
  REST library it calls, \<open>RESTClientForConfigAndClient\<close> and what that needs are modelled; HTTP
  clients, rate limiters and the discovery client are made by the fields of \<open>restLib\<close> and known
  by their identity only.
\<close>

section \<open>Configuration\<close>

text \<open>The fields the code reads or sets; the rest of \<open>rest.Config\<close>, with the host, is one opaque field.\<close>

record restConfig =
  cf_Other :: string
  cf_UserAgent :: string
  cf_QPS :: real
  cf_Burst :: int
  cf_RateLimiter :: "nat option"
  cf_GroupVersion :: "(string \<times> string) option"
  cf_APIPath :: string
  cf_NegotiatedSerializer :: "string option"

text \<open>\<open>lib_BasePath\<close> is the path of the URL that \<open>DefaultServerUrlFor\<close> reads from the host.\<close>

record 'w restLib =
  lib_DefaultKubernetesUserAgent :: string
  lib_HTTPClientFor :: "restConfig \<Rightarrow> ('w, nat) api"
  lib_NewTokenBucketRateLimiter :: "real \<Rightarrow> int \<Rightarrow> 'w \<Rightarrow> nat \<times> 'w"
  lib_BasePath :: "string \<Rightarrow> goerr + string"
  lib_NewDiscoveryClient :: "restConfig \<Rightarrow> nat \<Rightarrow> ('w, nat) api"
  lib_DiscoveryClientFor :: "restClient option \<Rightarrow> nat"

definition call :: "('w, 'r) api \<Rightarrow> ('w, 'r) go" where
  "call f = (\<lambda>w. case f w of (Inl e, w') \<Rightarrow> (Err e, w') | (Inr r, w') \<Rightarrow> (Ok r, w'))"

definition fresh :: "('w \<Rightarrow> 'r \<times> 'w) \<Rightarrow> ('w, 'r) go" where
  "fresh f = (\<lambda>w. case f w of (r, w') \<Rightarrow> (Ok r, w'))"

definition DefaultVersionedAPIPath :: "string \<Rightarrow> string \<times> string \<Rightarrow> string" where
  "DefaultVersionedAPIPath apiPath gv =
     (let p = pathJoin [''/'', apiPath]
      in if fst gv \<noteq> [] then pathJoin [p, fst gv, snd gv] else pathJoin [p, snd gv])"

definition RESTClientForConfigAndClient :: "'w restLib \<Rightarrow> restConfig \<Rightarrow> nat \<Rightarrow> ('w, restClient) go" where
  "RESTClientForConfigAndClient lib config httpClient = (case cf_GroupVersion config of
       None \<Rightarrow> throw (PlainErr ''GroupVersion is required when initializing a RESTClient'')
     | Some gv \<Rightarrow>
         if cf_NegotiatedSerializer config = None
         then throw (PlainErr ''NegotiatedSerializer is required when initializing a RESTClient'')
         else (case lib_BasePath lib (cf_Other config) of
             Inl e \<Rightarrow> throw e
           | Inr base \<Rightarrow>
               bind (case cf_RateLimiter config of
                   Some l \<Rightarrow> ret (Some l)
                 | None \<Rightarrow>
                     let qps = (if cf_QPS config = 0 then 5 else cf_QPS config);
                         burst = (if cf_Burst config = 0 then 10 else cf_Burst config)
                     in if qps > 0 then bind (fresh (lib_NewTokenBucketRateLimiter lib qps burst)) (\<lambda>l. ret (Some l)) else ret None) (\<lambda>limiter.
               ret \<lparr>rest_base = (if HasSuffix base ''/'' then base else base @ ''/''),
                    rest_versionedAPIPath = DefaultVersionedAPIPath (cf_APIPath config) gv,
                    rest_rateLimiter = limiter, rest_Client = httpClient\<rparr>)))"

section \<open>The group client\<close>

record MigrationcontrollerV1alpha1Client =
  mc_restClient :: "restClient option"

definition SchemeGroupVersion :: "string \<times> string" where
  "SchemeGroupVersion = (''migrations.kubevirt.io'', ''v1alpha1'')"

definition setConfigDefaults :: "'w restLib \<Rightarrow> restConfig \<Rightarrow> restConfig" where
  "setConfigDefaults lib config = config\<lparr>cf_GroupVersion := Some SchemeGroupVersion, cf_APIPath := ''/apis'',
     cf_NegotiatedSerializer := Some ''codecs without conversion'',
     cf_UserAgent := (if cf_UserAgent config = [] then lib_DefaultKubernetesUserAgent lib else cf_UserAgent config)\<rparr>"

definition Group_NewForConfigAndClient :: "'w restLib \<Rightarrow> restConfig \<Rightarrow> nat \<Rightarrow> ('w, MigrationcontrollerV1alpha1Client) go" where
  "Group_NewForConfigAndClient lib c h =
     bind (RESTClientForConfigAndClient lib (setConfigDefaults lib c) h) (\<lambda>client. ret \<lparr>mc_restClient = Some client\<rparr>)"

definition Group_NewForConfig :: "'w restLib \<Rightarrow> restConfig \<Rightarrow> ('w, MigrationcontrollerV1alpha1Client) go" where
  "Group_NewForConfig lib c =
     (let config = setConfigDefaults lib c in
      bind (call (lib_HTTPClientFor lib config)) (\<lambda>httpClient. Group_NewForConfigAndClient lib config httpClient))"

text \<open>\<open>panic(err)\<close>: an error becomes a panic.\<close>

definition orDie :: "('w, 'a) go \<Rightarrow> ('w, 'a) go" where
  "orDie m = bind (attempt m) (\<lambda>r. case r of Inl e \<Rightarrow> panic ''error in the config'' | Inr x \<Rightarrow> ret x)"

definition Group_NewForConfigOrDie :: "'w restLib \<Rightarrow> restConfig \<Rightarrow> ('w, MigrationcontrollerV1alpha1Client) go" where
  "Group_NewForConfigOrDie lib c = orDie (Group_NewForConfig lib c)"

definition Group_New :: "restClient option \<Rightarrow> MigrationcontrollerV1alpha1Client" where
  "Group_New c = \<lparr>mc_restClient = c\<rparr>"

definition RESTClient :: "MigrationcontrollerV1alpha1Client option \<Rightarrow> restClient option" where
  "RESTClient c = (case c of None \<Rightarrow> None | Some mc \<Rightarrow> mc_restClient mc)"

section \<open>Typed clients\<close>

definition newMultiNamespaceVirtualMachineStorageMigrations :: "MigrationcontrollerV1alpha1Client option \<Rightarrow> string \<Rightarrow> genClient" where
  "newMultiNamespaceVirtualMachineStorageMigrations c namespace =
     \<lparr>gen_resource = ''multinamespacevirtualmachinestoragemigrations'', gen_client = RESTClient c, gen_namespace = namespace\<rparr>"

definition newMultiNamespaceVirtualMachineStorageMigrationPlans :: "MigrationcontrollerV1alpha1Client option \<Rightarrow> string \<Rightarrow> genClient" where
  "newMultiNamespaceVirtualMachineStorageMigrationPlans c namespace =
     \<lparr>gen_resource = ''multinamespacevirtualmachinestoragemigrationplans'', gen_client = RESTClient c, gen_namespace = namespace\<rparr>"

definition newVirtualMachineStorageMigrations :: "MigrationcontrollerV1alpha1Client option \<Rightarrow> string \<Rightarrow> genClient" where
  "newVirtualMachineStorageMigrations c namespace =
     \<lparr>gen_resource = ''virtualmachinestoragemigrations'', gen_client = RESTClient c, gen_namespace = namespace\<rparr>"

definition newVirtualMachineStorageMigrationPlans :: "MigrationcontrollerV1alpha1Client option \<Rightarrow> string \<Rightarrow> genClient" where
  "newVirtualMachineStorageMigrationPlans c namespace =
     \<lparr>gen_resource = ''virtualmachinestoragemigrationplans'', gen_client = RESTClient c, gen_namespace = namespace\<rparr>"

text \<open>The four getters of the group client.\<close>

definition typedClients :: "MigrationcontrollerV1alpha1Client option \<Rightarrow> string \<Rightarrow> genClient list" where
  "typedClients c namespace = [newMultiNamespaceVirtualMachineStorageMigrations c namespace,
     newMultiNamespaceVirtualMachineStorageMigrationPlans c namespace, newVirtualMachineStorageMigrations c namespace,
     newVirtualMachineStorageMigrationPlans c namespace]"

section \<open>The clientset\<close>

record clientset =
  cs_DiscoveryClient :: "nat option"
  cs_migrationcontrollerV1alpha1 :: "MigrationcontrollerV1alpha1Client option"

definition Discovery :: "clientset option \<Rightarrow> nat option" where
  "Discovery c = (case c of None \<Rightarrow> None | Some cs \<Rightarrow> cs_DiscoveryClient cs)"

text \<open>Unlike \<open>Discovery\<close> this accessor reads the field without a check.\<close>

definition MigrationcontrollerV1alpha1 :: "clientset option \<Rightarrow> MigrationcontrollerV1alpha1Client option result" where
  "MigrationcontrollerV1alpha1 c = bindR (deref c) (\<lambda>cs. Ok (cs_migrationcontrollerV1alpha1 cs))"

abbreviation burstRequired :: goerr where
  "burstRequired \<equiv> PlainErr ''burst is required to be greater than 0 when RateLimiter is not set and QPS is set to greater than 0''"

definition withRateLimiter :: "'w restLib \<Rightarrow> restConfig \<Rightarrow> ('w, restConfig) go" where
  "withRateLimiter lib c =
     (if cf_RateLimiter c = None \<and> cf_QPS c > 0
      then if cf_Burst c \<le> 0 then throw burstRequired
           else bind (fresh (lib_NewTokenBucketRateLimiter lib (cf_QPS c) (cf_Burst c))) (\<lambda>l. ret (c\<lparr>cf_RateLimiter := Some l\<rparr>))
      else ret c)"

definition NewForConfigAndClient :: "'w restLib \<Rightarrow> restConfig \<Rightarrow> nat \<Rightarrow> ('w, clientset) go" where
  "NewForConfigAndClient lib c httpClient =
     bind (withRateLimiter lib c) (\<lambda>configShallowCopy.
     bind (Group_NewForConfigAndClient lib configShallowCopy httpClient) (\<lambda>mc.
     bind (call (lib_NewDiscoveryClient lib configShallowCopy httpClient)) (\<lambda>d.
     ret \<lparr>cs_DiscoveryClient = Some d, cs_migrationcontrollerV1alpha1 = Some mc\<rparr>)))"

definition NewForConfig :: "'w restLib \<Rightarrow> restConfig \<Rightarrow> ('w, clientset) go" where
  "NewForConfig lib c =
     (let configShallowCopy = (if cf_UserAgent c = [] then c\<lparr>cf_UserAgent := lib_DefaultKubernetesUserAgent lib\<rparr> else c) in
      bind (call (lib_HTTPClientFor lib configShallowCopy)) (\<lambda>httpClient.
      NewForConfigAndClient lib configShallowCopy httpClient))"

definition NewForConfigOrDie :: "'w restLib \<Rightarrow> restConfig \<Rightarrow> ('w, clientset) go" where
  "NewForConfigOrDie lib c = orDie (NewForConfig lib c)"

definition New :: "'w restLib \<Rightarrow> restClient option \<Rightarrow> clientset" where
  "New lib c = \<lparr>cs_DiscoveryClient = Some (lib_DiscoveryClientFor lib c), cs_migrationcontrollerV1alpha1 = Some (Group_New c)\<rparr>"

section \<open>Rate limits\<close>

text \<open>
  A configuration with a rate and no burst is refused before anything is created.  Otherwise the
  two clients of a clientset share one HTTP client and, when the configuration has a limiter or a
  positive rate, one limiter.
\<close>

lemma withRateLimiter_Ok:
  "withRateLimiter lib c w = (Ok c', w') \<Longrightarrow> cf_Other c' = cf_Other c \<and> (cf_RateLimiter c \<noteq> None \<longrightarrow> c' = c) \<and>
     (cf_RateLimiter c \<noteq> None \<or> cf_QPS c > 0 \<longrightarrow> cf_RateLimiter c' \<noteq> None)"
  by (auto simp: withRateLimiter_def fresh_def run split: if_splits prod.splits)

lemma RESTClientFor_Ok:
  "RESTClientForConfigAndClient lib c h w = (Ok rc, w') \<Longrightarrow> rest_Client rc = h \<and> (cf_RateLimiter c \<noteq> None \<longrightarrow> rest_rateLimiter rc = cf_RateLimiter c)
     \<and> (\<exists>base gv. lib_BasePath lib (cf_Other c) = Inr base \<and> cf_GroupVersion c = Some gv \<and> rest_base rc = (if HasSuffix base ''/'' then base else base @ ''/'')
          \<and> rest_versionedAPIPath rc = DefaultVersionedAPIPath (cf_APIPath c) gv)"
  by (auto simp: RESTClientForConfigAndClient_def run Let_def split: option.splits sum.splits if_splits prod.splits result.splits)

lemma NewForConfigAndClient_Ok:
  assumes "NewForConfigAndClient lib c h w = (Ok cs, w')"
  shows "\<exists>c' w1 rc w2 d. withRateLimiter lib c w = (Ok c', w1) \<and> RESTClientForConfigAndClient lib (setConfigDefaults lib c') h w1 = (Ok rc, w2)
    \<and> lib_NewDiscoveryClient lib c' h w2 = (Inr d, w')
    \<and> cs = \<lparr>cs_DiscoveryClient = Some d, cs_migrationcontrollerV1alpha1 = Some \<lparr>mc_restClient = Some rc\<rparr>\<rparr>"
  using assms
  by (auto simp: NewForConfigAndClient_def Group_NewForConfigAndClient_def call_def run split: prod.splits result.splits sum.splits)

text \<open>
  The clients of a clientset share what limits them; the property is stated for every
  configuration.
\<close>

theorem clientset_limits:
  assumes "NewForConfigAndClient lib c h w = (r, w')"
  shows "(cf_RateLimiter c = None \<and> cf_QPS c > 0 \<and> cf_Burst c \<le> 0 \<longrightarrow> r = Err burstRequired \<and> w' = w)
    \<and> (\<forall>cs. r = Ok cs \<longrightarrow> (\<exists>rc c' v v'. cs_migrationcontrollerV1alpha1 cs = Some \<lparr>mc_restClient = Some rc\<rparr> \<and> rest_Client rc = h
         \<and> lib_NewDiscoveryClient lib c' h v = (Inr (the (cs_DiscoveryClient cs)), v')
         \<and> (cf_RateLimiter c \<noteq> None \<or> cf_QPS c > 0 \<longrightarrow> rest_rateLimiter rc \<noteq> None \<and> cf_RateLimiter c' = rest_rateLimiter rc)))"
proof (intro conjI impI allI)
  assume "cf_RateLimiter c = None \<and> cf_QPS c > 0 \<and> cf_Burst c \<le> 0"
  then show "r = Err burstRequired" "w' = w" using assms by (auto simp: NewForConfigAndClient_def withRateLimiter_def run)
next
  fix cs
  assume "r = Ok cs"
  then obtain c' w1 rc w2 d where 1: "withRateLimiter lib c w = (Ok c', w1)"
    and rc: "RESTClientForConfigAndClient lib (setConfigDefaults lib c') h w1 = (Ok rc, w2)"
    and 3: "lib_NewDiscoveryClient lib c' h w2 = (Inr d, w')"
      "cs = \<lparr>cs_DiscoveryClient = Some d, cs_migrationcontrollerV1alpha1 = Some \<lparr>mc_restClient = Some rc\<rparr>\<rparr>"
    using NewForConfigAndClient_Ok[of lib c h w cs w'] assms by blast
  show "\<exists>rc c' v v'. cs_migrationcontrollerV1alpha1 cs = Some \<lparr>mc_restClient = Some rc\<rparr> \<and> rest_Client rc = h
         \<and> lib_NewDiscoveryClient lib c' h v = (Inr (the (cs_DiscoveryClient cs)), v')
         \<and> (cf_RateLimiter c \<noteq> None \<or> cf_QPS c > 0 \<longrightarrow> rest_rateLimiter rc \<noteq> None \<and> cf_RateLimiter c' = rest_rateLimiter rc)"
    using RESTClientFor_Ok[OF rc] withRateLimiter_Ok[OF 1] 3
    by (intro exI[of _ rc] exI[of _ c'] exI[of _ w2] exI[of _ w']) (auto simp: setConfigDefaults_def)
qed

section \<open>Where the requests go\<close>

abbreviation groupSegments :: "string list" where
  "groupSegments \<equiv> [''apis'', ''migrations.kubevirt.io'', ''v1alpha1'']"

lemma group_path: "DefaultVersionedAPIPath ''/apis'' SchemeGroupVersion = absPath groupSegments"
  by code_simp

lemma group_plain: "list_all plainName groupSegments"
  by (simp add: plainName_def)

text \<open>The path of a server URL, with or without a trailing slash.\<close>

definition serverPath :: "string \<Rightarrow> string list \<Rightarrow> bool" where
  "serverPath base bs \<longleftrightarrow> list_all plainName bs \<and> (base = absPath bs \<or> base = absPath bs @ ''/'')"

lemma last_absPath: "list_all plainName bs \<Longrightarrow> bs \<noteq> [] \<Longrightarrow> last (absPath bs) \<noteq> CHR ''/''"
  by (induction bs rule: induct_list012) (auto simp: plainName_def dest: last_in_set)

lemma serverPath_slash:
  assumes "serverPath base bs"
  shows "(if HasSuffix base ''/'' then base else base @ ''/'') = absPath bs @ ''/''"
proof -
  have "\<not> HasSuffix (absPath bs) ''/''"
    using assms last_absPath[of bs] by (cases "bs = []") (auto simp: serverPath_def HasSuffix_def suffix_def)
  then show ?thesis using assms by (auto simp: serverPath_def HasSuffix_def)
qed

lemma root_path:
  assumes "list_all plainName bs"
  shows "pathJoin [''/'', absPath bs @ ''/'', absPath groupSegments] = absPath (bs @ groupSegments)"
proof -
  have "Split (CHR ''/'' # CHR ''/'' # absPath bs @ CHR ''/'' # CHR ''/'' # absPath groupSegments) CHR ''/''
      = [] # [] # ([] # bs) @ [] # [] # groupSegments"
    using Split_append[of "absPath bs" "CHR ''/''" "CHR ''/'' # absPath groupSegments"] Split_absPath[OF assms] Split_absPath[OF group_plain]
    by (simp del: absPath.simps)
  from pathClean_gaps[OF _ this] have "pathClean (CHR ''/'' # CHR ''/'' # absPath bs @ CHR ''/'' # CHR ''/'' # absPath groupSegments) = absPath (bs @ groupSegments)"
    using assms group_plain filter_True[of bs "\<lambda>e. e \<noteq> []"] by (auto simp: HasPrefix_def list_all_iff plainName_def)
  then show ?thesis by (simp add: pathJoin_def Let_def)
qed

lemma clientset_root:
  assumes "NewForConfig lib c w = (Ok cs, w')" "lib_BasePath lib (cf_Other c) = Inr base" "serverPath base bs"
  shows "\<exists>rc. cs_migrationcontrollerV1alpha1 cs = Some \<lparr>mc_restClient = Some rc\<rparr> \<and> apiRoot rc (bs @ groupSegments)"
proof -
  let ?c = "if cf_UserAgent c = [] then c\<lparr>cf_UserAgent := lib_DefaultKubernetesUserAgent lib\<rparr> else c"
  obtain h v where "NewForConfigAndClient lib ?c h v = (Ok cs, w')"
    using assms(1) by (auto simp: NewForConfig_def Let_def run_bind split: prod.splits result.splits)
  from NewForConfigAndClient_Ok[OF this] obtain c' w1 rc w2 d where 1: "withRateLimiter lib ?c v = (Ok c', w1)"
    and rc: "RESTClientForConfigAndClient lib (setConfigDefaults lib c') h w1 = (Ok rc, w2)"
    and cs: "cs = \<lparr>cs_DiscoveryClient = Some d, cs_migrationcontrollerV1alpha1 = Some \<lparr>mc_restClient = Some rc\<rparr>\<rparr>" by blast
  have "cf_Other (setConfigDefaults lib c') = cf_Other c" using withRateLimiter_Ok[OF 1] by (simp add: setConfigDefaults_def split: if_splits)
  then have "rest_base rc = absPath bs @ ''/''" "rest_versionedAPIPath rc = absPath groupSegments"
    using RESTClientFor_Ok[OF rc] assms(2) serverPath_slash[OF assms(3)] group_path by (auto simp: setConfigDefaults_def simp del: absPath.simps)
  then have "apiRoot rc (bs @ groupSegments)"
    using root_path[of bs] assms(3) group_plain by (simp add: apiRoot_def serverPath_def del: absPath.simps)
  then show ?thesis using cs by simp
qed

definition lowerCase :: "string \<Rightarrow> bool" where
  "lowerCase s \<longleftrightarrow> s \<noteq> [] \<and> list_all (\<lambda>c. CHR ''a'' \<le> c) s"

lemma lowerCase_safe: "lowerCase s \<Longrightarrow> ToLower s = s \<and> safeSegment s"
  by (auto simp: lowerCase_def ToLower_def safeSegment_def plainName_def list_all_iff less_eq_char_def intro!: map_idI)

lemma resources_lowerCase:
  "lowerCase ''multinamespacevirtualmachinestoragemigrations''" "lowerCase ''multinamespacevirtualmachinestoragemigrationplans''"
  "lowerCase ''virtualmachinestoragemigrations''" "lowerCase ''virtualmachinestoragemigrationplans''"
  by code_simp+

lemma typed_wellTyped:
  assumes "c \<in> set (typedClients mc ns)"
  shows "wellTyped c \<and> gen_resource c \<noteq> ''namespaces'' \<and> gen_client c = RESTClient mc \<and> gen_namespace c = ns"
  using assms resources_lowerCase[THEN lowerCase_safe]
  by (auto simp: typedClients_def wellTyped_def newMultiNamespaceVirtualMachineStorageMigrations_def newVirtualMachineStorageMigrations_def
      newMultiNamespaceVirtualMachineStorageMigrationPlans_def newVirtualMachineStorageMigrationPlans_def)

text \<open>The operations on one object, and those on all objects of a resource.\<close>

definition objectOps :: "(genClient \<Rightarrow> string \<Rightarrow> (string \<times> string) result) list" where
  "objectOps = [Gen_Get, Gen_Update, Gen_Delete, \<lambda>c. Gen_Patch c []]"

definition collectionOps :: "(genClient \<Rightarrow> (string \<times> string) result) list" where
  "collectionOps = [Gen_List, Gen_Watch, Gen_Create, Gen_DeleteCollection]"

lemma objectOps_sent:
  assumes "apiRoot rc es" "wellTyped c" "gen_client c = Some rc" "op \<in> set objectOps" "op c n = Ok (v, p)"
  shows "inScope c \<and> safeSegment n \<and> p = reaches es c [n]"
  using operations_addressed(1,2,4,5)[OF assms(1-3), of n] assms(4,5) by (auto simp: objectOps_def addressed_def)

lemma collectionOps_sent:
  assumes "apiRoot rc es" "wellTyped c" "gen_client c = Some rc" "op \<in> set collectionOps" "op c = Ok (v, p)"
  shows "inScope c \<and> p = reaches es c []"
  using operations_addressed(7-10)[OF assms(1-3)] assms(4,5) by (auto simp: collectionOps_def addressed_def)

text \<open>
  C22. A request of the clientset reaches the object it names and nothing else.  Whatever strings
  the caller gives for namespaces and names, two requests about single objects that were sent to
  the same path are about the same resource, namespace and name, and no request about a
  collection goes to that path: a delete of one object cannot become the delete of a collection
  or of another object.
\<close>

theorem clientset_requests_exact:
  assumes "NewForConfig lib cfg w = (Ok cs, w')" "lib_BasePath lib (cf_Other cfg) = Inr base" "serverPath base bs"
    "MigrationcontrollerV1alpha1 (Some cs) = Ok mc"
    "c \<in> set (typedClients mc ns)" "d \<in> set (typedClients mc ns')" "e \<in> set (typedClients mc ns'')"
    "op \<in> set objectOps" "op' \<in> set objectOps" "col \<in> set collectionOps"
    "op c n = Ok (v, p)" "op' d n' = Ok (v', p)"
  shows "gen_resource c = gen_resource d \<and> ns = ns' \<and> n = n' \<and> col e \<noteq> Ok (v'', p)"
proof -
  let ?es = "bs @ groupSegments"
  obtain rc where rc: "cs_migrationcontrollerV1alpha1 cs = Some \<lparr>mc_restClient = Some rc\<rparr>" and root: "apiRoot rc ?es"
    using clientset_root[OF assms(1-3)] by blast
  have mc: "RESTClient mc = Some rc" using assms(4) rc by (auto simp: MigrationcontrollerV1alpha1_def deref_def RESTClient_def)
  have c: "wellTyped c \<and> gen_resource c \<noteq> ''namespaces'' \<and> gen_client c = Some rc \<and> gen_namespace c = ns"
    and d: "wellTyped d \<and> gen_resource d \<noteq> ''namespaces'' \<and> gen_client d = Some rc \<and> gen_namespace d = ns'"
    and e: "wellTyped e \<and> gen_resource e \<noteq> ''namespaces'' \<and> gen_client e = Some rc"
    using typed_wellTyped[OF assms(5)] typed_wellTyped[OF assms(6)] typed_wellTyped[OF assms(7)] mc by simp_all
  have es: "list_all plainName ?es" using root by (simp add: apiRoot_def)
  have pc: "inScope c \<and> safeSegment n \<and> p = reaches ?es c [n]" using objectOps_sent[OF root _ _ assms(8,11)] c by blast
  have pd: "inScope d \<and> safeSegment n' \<and> p = reaches ?es d [n']" using objectOps_sent[OF root _ _ assms(9,12)] d by blast
  have "gen_namespace c = gen_namespace d \<and> gen_resource c = gen_resource d \<and> [n] = [n']"
    by (rule reaches_inj[OF es]) (use pc pd c d in \<open>auto simp: safeSegment_def\<close>)
  moreover have "col e \<noteq> Ok (v'', p)"
  proof
    assume "col e = Ok (v'', p)"
    then have "inScope e \<and> p = reaches ?es e []" using collectionOps_sent[OF root _ _ assms(10)] e by blast
    then have "[n] = ([] :: string list)" using reaches_inj[OF es, of c e "[n]" "[]"] pc c e by (auto simp: safeSegment_def)
    then show False by simp
  qed
  ultimately show ?thesis using c d by simp
qed

definition plainLib :: "unit restLib" where
  "plainLib = \<lparr>lib_DefaultKubernetesUserAgent = ''agent'', lib_HTTPClientFor = (\<lambda>c w. (Inr 1, w)),
     lib_NewTokenBucketRateLimiter = (\<lambda>q b w. (2, w)), lib_BasePath = (\<lambda>h. Inr []),
     lib_NewDiscoveryClient = (\<lambda>c h w. (Inr 3, w)), lib_DiscoveryClientFor = (\<lambda>c. 4)\<rparr>"

definition plainConfig :: restConfig where
  "plainConfig = \<lparr>cf_Other = ''host'', cf_UserAgent = [], cf_QPS = 0, cf_Burst = 0, cf_RateLimiter = None, cf_GroupVersion = None,
     cf_APIPath = [], cf_NegotiatedSerializer = None\<rparr>"

theorem clientset_requests_exact_witness:
  "\<exists>cs mc v p. fst (NewForConfig plainLib plainConfig ()) = Ok cs \<and> MigrationcontrollerV1alpha1 (Some cs) = Ok mc
     \<and> Gen_Delete (newVirtualMachineStorageMigrationPlans mc ''ns'') ''plan'' = Ok (v, p)
     \<and> Gen_DeleteCollection (newVirtualMachineStorageMigrationPlans mc ''ns'') \<noteq> Ok (v, p)"
proof -
  obtain cs where cs: "NewForConfig plainLib plainConfig () = (Ok cs, ())"
    by (simp add: NewForConfig_def NewForConfigAndClient_def withRateLimiter_def Group_NewForConfigAndClient_def RESTClientForConfigAndClient_def
        setConfigDefaults_def plainLib_def plainConfig_def call_def fresh_def run Let_def)
  have base: "lib_BasePath plainLib (cf_Other plainConfig) = Inr []" "serverPath [] []" by (simp_all add: plainLib_def serverPath_def)
  obtain rc where rc: "cs_migrationcontrollerV1alpha1 cs = Some \<lparr>mc_restClient = Some rc\<rparr>" "apiRoot rc ([] @ groupSegments)"
    using clientset_root[OF cs base] by blast
  let ?mc = "Some \<lparr>mc_restClient = Some rc\<rparr>"
  let ?c = "newVirtualMachineStorageMigrationPlans ?mc ''ns''"
  have mc: "MigrationcontrollerV1alpha1 (Some cs) = Ok ?mc" using rc(1) by (simp add: MigrationcontrollerV1alpha1_def deref_def)
  have c: "?c \<in> set (typedClients ?mc ''ns'')" by (simp add: typedClients_def)
  have "inScope ?c \<and> safeSegment ''plan''"
    by (simp add: inScope_def safeSegment_def plainName_def newVirtualMachineStorageMigrationPlans_def)
  then obtain v p where d: "Gen_Delete ?c ''plan'' = Ok (v, p)"
    using operations_addressed(4)[OF rc(2), of ?c "''plan''"] typed_wellTyped[OF c]
    by (auto simp: addressed_def RESTClient_def split: result.splits)
  have "Gen_DeleteCollection ?c \<noteq> Ok (v, p)"
    using clientset_requests_exact[OF cs base mc c c c, of Gen_Delete Gen_Delete Gen_DeleteCollection "''plan''" v p "''plan''" v v] d
    by (simp add: objectOps_def collectionOps_def)
  with cs mc d show ?thesis by auto
qed

end
