(* ===== verification/Spec2Isabelle.thy ===== *)
theory Spec2Isabelle
  imports TaskProgress PlanNaming ApiCopies Startup Deadlock Clientset
begin

text \<open>
  Verification development of the KubeVirt storage migration controller.

  \<^bold>\<open>The program.\<close>  Four reconcilers run in one manager.  A VirtualMachineStorageMigrationPlan
  lists VMs and, per volume, the claim to move to; its controller resolves the source and target
  claims, decides which VMs are ready and records all that in the status.  A
  VirtualMachineStorageMigration refers to a plan; its controller adopts it and runs a task, a
  state machine of phases that asks the plan controller for a refresh, creates target
  DataVolumes, rewrites the VMs, watches the live migrations, deletes the sources when the
  retention policy says so, and on deletion turns everything back.  The two multi-namespace
  resources fan out: one child plan, respectively one child migration, per namespace.  The
  controllers share nothing but the API server: they talk through the objects, their conditions
  and annotations.

  \<^bold>\<open>The model.\<close>  A Go function that can fail or talk to the server is a state transformer
  \<open>('s, 'a) go\<close> that returns \<open>Ok\<close>, \<open>Err\<close> or \<open>Panic\<close> and the state it leaves, also on
  failure (\<open>Prelude\<close>).  The server, the clock, random strings, time formats, floating point
  and HTTP are the fields of the record \<open>client\<close>, an argument of every operation; the server
  state is a type variable every call may change, so the theorems hold under arbitrary
  interference of other clients.  Every write request is appended to a trace, about which the
  safety theorems speak.

  \<^item> \<open>Prelude\<close>, \<open>GoLib\<close>: results and control flow, weakest preconditions and frames; the
    parts of the Go library and of the vendored \<open>namer.go\<close> the code computes with.
  \<^item> \<open>Conditions\<close>, \<open>Types\<close>: \<open>src/api/migrationcontroller/v1alpha1\<close>, the resources as records
    and their methods.  The condition list refines a map.
  \<^item> \<open>Client\<close>, \<open>Helpers\<close>: the boundary; \<open>src/pkg/component-helpers/vm.go\<close> and
    \<open>storagemigplan.go\<close>, \<open>src/pkg/reference/ref.go\<close>.  The locale \<open>observer\<close> is what every
    reader of the server respects.
  \<^item> \<open>VolumeSwap\<close>: the pure core of \<open>storagemig/vm.go\<close> and \<open>cancel.go\<close>: rewriting a VM to its
    targets and back; cancelling is proved to undo migrating.
  \<^item> \<open>Progress\<close>: \<open>storagemig/progress.go\<close>, the progress read from virt-handler metrics.
  \<^item> \<open>Task\<close>: \<open>storagemig/task.go\<close> with the rest of \<open>vm.go\<close> and \<open>cancel.go\<close>, one definition per
    phase handler.  \<open>TaskFrames\<close> has the locale \<open>task_steps\<close> of what the handlers leave alone;
    \<open>TaskPhases\<close> the abstract phase machine and the histories of phases; \<open>TaskSafety\<close> which requests
    a run may send and when sources are deleted; \<open>TaskProgress\<close> that one call makes one step of the
    machine and has done what the step stands for, and that a migration ends (the locale
    \<open>draining\<close>: a finite supply of phase changes); \<open>TaskLists\<close> the lists of VMs across the phases.
  \<^item> \<open>MigController\<close>: \<open>storagemig/controller.go\<close>, \<open>migrate.go\<close>, \<open>validation.go\<close> and the vendored
    \<open>SetControllerReference\<close>.
  \<^item> \<open>PlanValidation\<close>, \<open>PlanController\<close>: \<open>storagemigplan/validation.go\<close> and \<open>controller.go\<close>.
    \<open>PlanClaims\<close> shows what validation promises about claims (which recorded sources survive, which
    VMs are ready and which invalid, that those ready before the start can be reverted), \<open>PlanNaming\<close> the operator version and target names, \<open>PlanReconcile\<close>
    what a reconcile writes, readiness, completed VMs and the refresh handshake with the task.
  \<^item> \<open>Cascade\<close>, \<open>MultiPlanController\<close>, \<open>MultiMigController\<close>: \<open>multinamespacestoragemigplan\<close> and
    \<open>multinamespacestoragemig\<close>.  The locale \<open>cascade\<close> is the deletion protocol that both
    interpret; what either sends is stated for live and for deleted parents.
  \<^item> \<open>TlsWatcher\<close>: \<open>src/pkg/component-helpers/tls_watcher.go\<close> and the handshake option of
    \<open>src/cmd/main.go\<close>: the minimal version and the cipher suites of a handshake are those of the
    profile in force.
  \<^item> \<open>Watches\<close>: the \<open>SetupWithManager\<close> of the four controllers and \<open>IndexFields\<close>.  From what
    they register follows which reconciles a change of a plan or of a migration leads to.
  \<^item> \<open>Startup\<close>: the rest of \<open>src/cmd/main.go\<close>.  The process registers everything before it
    starts the manager and exits on the first refusal; both servers get the hardened options, and
    their own certificates as long as the runtime leaves no room in the slice that both extend.
  \<^item> \<open>GoHeap\<close>, \<open>DeepCopy\<close>, \<open>ApiCopies\<close>: memory with pointers and slices, what a deep copy is,
    and the copy functions of \<open>zz_generated.deepcopy.go\<close> against the layouts of the types: they
    are in step with the types, and what is later written through a copy never reaches the
    original.  This is why the other theories may take objects for values.
  \<^item> \<open>Handshake\<close>, \<open>Deadlock\<close>: the two controllers together.  A refresh that a task asks for is
    answered by the next successful reconcile of a live plan; a plan that is being deleted answers
    none, and if the answer is still missing the two controllers wait for each other, which is
    proved as an invariant of all interleavings of their reconciles over a shared server (the
    predicate \<open>holds\<close> says what the server does with the two objects; it rules out stale reads,
    which the cached client of the controllers can make).
  \<^item> \<open>GoPath\<close>, \<open>RestRequest\<close>, \<open>Clientset\<close>: the generated clientset under
    \<open>src/pkg/client/clientset\<close> over the vendored request builder; a request reaches the object
    it names and nothing else.
  \<^item> This theory: properties that span components.

  \<^bold>\<open>Bounds.\<close>  Every loop of the source ranges over a finite slice, so every definition is total
  without fuel.  Machine integers appear in the FNV-1a hash (32 bits), in the TLS version and suite
  numbers (16 bits) and in parsed versions, where the bound of \<open>Atoi\<close> is written out; time stamps and requeue delays are integers.

  \<^bold>\<open>Not modelled.\<close>  Logging, the parsing of the command line and the registration of schemes
  (\<open>init\<close> of \<open>main.go\<close>, of the API group and of the clientset), which have no logic beyond calls of
  a library; \<open>NeedLeaderElection\<close> of the TLS watcher, a constant, and \<open>ToKind\<close>, which nothing calls;
  the test helpers.  Of the requests of the clientset only verb and path are modelled.  The types of Kubernetes that the
  resources embed, and their copy functions, are parameters of \<open>ApiCopies\<close>.  In the controllers
  objects are values and \<open>DeepCopy\<close> is the identity; where the source shares a backing array and
  a later read depends on it, the model says so at that place.

  \<^bold>\<open>Data.\<close>  Where the source has a string that the resource definitions restrict to a few
  values (the status of a condition, the retention policy) the model has a datatype of these
  values.  A reference keeps namespace, name and UID, the fields the controllers set.  The template
  of a VM, a required field, is never nil.  \<open>QPS\<close> of the client configuration is a real number.
  \<open>ToLower\<close> and \<open>TrimSpace\<close> are those of ASCII text.
\<close>

section \<open>From the multi-namespace plan to the source claims\<close>

text \<open>
  A request that leaves every source alone: no claim is deleted, and a DataVolume only by the
  cleanup after a cancellation, as the one the server returned for a target of a cancelled VM.
\<close>

definition sparesSources :: "'w client \<Rightarrow> Migration \<Rightarrow> act \<Rightarrow> bool" where
  "sparesSources cl m a \<longleftrightarrow> (\<forall>ns n. a \<noteq> DeletePVC ns n) \<and> (\<forall>ns n. a = DeleteDV ns n \<longrightarrow>
     ms_Phase (mg_Status m) = CleanupCancelledMigrations \<and> (\<exists>ref plan dv. mg_PlanRef m = Some ref
       \<and> foundFor cl (om_Namespace (mg_Meta m)) (ref_Name ref) plan
       \<and> cancelledTarget cl (om_Namespace (mg_Meta m)) plan (ms_CancelledMigrations (mg_Status m)) dv
       \<and> dv_Namespace dv = ns \<and> dv_Name dv = n))"

text \<open>
  C6. The retention policy holds end to end.  When neither the multi-namespace plan nor the spec
  of a namespace asks for \<open>deleteSource\<close>, and the plan that a migration refers to has the spec of
  the child plan which the controller creates for that namespace, whatever its status and its
  metadata, then no reconcile of the migration deletes a claim, nor a DataVolume other than a
  target of a cancelled VM during the cleanup after a cancellation.
\<close>

theorem namespace_sources_kept:
  fixes s :: "'w sys"
  assumes "mp_RetentionPolicy parent \<noteq> Some RetentionPolicyDeleteSource" "spec_RetentionPolicy spec \<noteq> Some RetentionPolicyDeleteSource"
    and get: "c_GetMig cl ns name (world s) = (Inr m, w)"
    and child: "\<And>ref v p v'. mg_PlanRef m = Some ref \<Longrightarrow> c_GetPlan cl (om_Namespace (mg_Meta m)) (ref_Name ref) v = (Inr p, v') \<Longrightarrow>
      pl_Spec p = pl_Spec (namespacePlanFor parent n spec)"
  shows "emits (sparesSources cl m) s (snd (Mig_Reconcile cl ns name s))"
proof (rule reconcile_requests[OF get])
  show "sparesSources cl m a" if "onlyPersists a" for a
    using that by (cases a) (simp_all add: sparesSources_def)
next
  fix ref plan m1 a
  assume ref: "mg_PlanRef m = Some ref" and core: "sameCore m m1"
    and plan: "foundFor cl (om_Namespace (mg_Meta m)) (ref_Name ref) plan"
    and a: "admitted cl m1 plan (effectivePhase m1 plan) a"
  have "spec_RetentionPolicy (pl_Spec (namespacePlanFor parent n spec)) \<noteq> Some RetentionPolicyDeleteSource"
    using assms(1,2) by (simp add: namespacePlanFor_def inheritedPolicy_delete)
  then have "\<not> disposable m1 plan ns' c" for ns' c
    using plan child[OF ref] by (auto simp: disposable_def foundFor_def split: option.splits)
  moreover have "effectivePhase m1 plan = CleanupCancelledMigrations \<Longrightarrow> ms_Phase (mg_Status m) = CleanupCancelledMigrations"
    using effectivePhase_cases[of m1 plan] core by (auto simp: sameCore_def split: if_splits)
  ultimately show "sparesSources cl m a"
    using a ref plan core unfolding sparesSources_def sameCore_def by (cases a) auto
qed

definition childClient :: "unit client" where
  "childClient = emptyClient\<lparr>c_GetMig := (\<lambda>ns n. yields (t_Owner (taskIn CleanupMigrationResources))),
     c_GetPlan := (\<lambda>ns n. yields (namespacePlanFor demoParentPlan (demoNamespace (Some demoSpec)) demoSpec\<lparr>pl_Status := finishedStatus\<rparr>))\<rparr>"

theorem namespace_sources_kept_witness:
  "emits (sparesSources childClient (t_Owner (taskIn CleanupMigrationResources))) \<lparr>world = (), trace = []\<rparr>
     (snd (Mig_Reconcile childClient ''ns'' ''m'' \<lparr>world = (), trace = []\<rparr>))"
  by (rule namespace_sources_kept[of demoParentPlan demoSpec _ _ _ _ _ "()" "demoNamespace (Some demoSpec)"])
    (auto simp: demoParentPlan_def demoSpec_def childClient_def yields_def)

text \<open>
  The children of the two fan-outs fit together: the child migration refers to the child
  plan that the plan controller creates for the same namespace, and the lookup the migration
  controller makes with that reference finds it.
\<close>

theorem child_migration_finds_child_plan:
  assumes "c_GetPlan cl (om_Namespace (pl_Meta (namespacePlanFor parent n spec))) (om_Name (pl_Meta (namespacePlanFor parent n spec))) (world s)
      = (Inr (namespacePlanFor parent n spec), w)"
  shows "\<exists>q. GetStorageMigrationPlan cl (mg_PlanRef (namespacedMigrationFor (om_Name (mp_Meta parent)) m n)) s = (Ok (Some q), s\<lparr>world := w\<rparr>)
    \<and> pl_Meta q = pl_Meta (namespacePlanFor parent n spec) \<and> pl_Spec q = pl_Spec (namespacePlanFor parent n spec)"
  using assms
  by (simp add: GetStorageMigrationPlan_def namespacedMigrationFor_def namespacePlanFor_def childMeta_def RefSet_def run Let_def)

theorem child_migration_finds_child_plan_witness:
  "\<exists>q. GetStorageMigrationPlan rivalClient (mg_PlanRef (namespacedMigrationFor ''p'' (demoMultiMig []) (demoNamespace (Some demoSpec)))) demoStart
       = (Ok (Some q), demoStart)
     \<and> pl_Spec q = pl_Spec (namespacePlanFor (demoMultiPlan ''u'' []) (demoNamespace (Some demoSpec)) demoSpec)"
proof -
  let ?q = "namespacePlanFor (demoMultiPlan ''u'' []) (demoNamespace (Some demoSpec)) demoSpec"
  have get: "c_GetPlan rivalClient (om_Namespace (pl_Meta ?q)) (om_Name (pl_Meta ?q)) (world demoStart) = (Inr ?q, ())"
    by (simp add: rivalClient_def yields_def)
  have "om_Name (mp_Meta (demoMultiPlan ''u'' [])) = ''p''" "demoStart\<lparr>world := ()\<rparr> = demoStart"
    by (simp_all add: demoMultiPlan_def demoStart_def)
  then show ?thesis using child_migration_finds_child_plan[OF get, of "demoMultiMig []"] by auto
qed

end
